(* ===== verification/Prelude.thy ===== *)
theory Prelude
  imports Main "HOL-Library.Char_ord" "HOL-Library.List_Lexorder"
begin

text \<open>
  Shared vocabulary of the development: the types that stand for identifiers and instants, the
  combinators for code that threads a state and may raise, and the generic lemmas on lists that
  several components use.  A Python coroutine that reads and writes a state \<open>'s\<close> and returns an
  \<open>'a\<close> or raises an \<open>'e\<close> is a function \<open>'s \<Rightarrow> ('e + 'a) \<times> 's\<close>; the state after an exception is
  kept, because the code's callers can observe it.
\<close>

type_synonym uuid = nat
type_synonym time = int
type_synonym ('s, 'e, 'a) prog = "'s \<Rightarrow> ('e + 'a) \<times> 's"

text \<open>Instants and durations are counted in microseconds.\<close>

definition seconds :: "int \<Rightarrow> time" where
  "seconds n = 1000000 * n"

definition timestamp :: "time \<Rightarrow> int" where
  "timestamp t = t div 1000000"

lemma seconds_mono [simp]: "seconds a \<le> seconds b \<longleftrightarrow> a \<le> b" "seconds a < seconds b \<longleftrightarrow> a < b"
  by (simp_all add: seconds_def)

named_theorems prog_simps \<open>equations that run a stateful program on a given state\<close>
named_theorems prog_elims \<open>inversion of a successful run of a stateful program\<close>

subsection \<open>Programs with a state and exceptions\<close>

definition retE :: "'a \<Rightarrow> ('s, 'e, 'a) prog" where
  "retE x s = (Inr x, s)"

definition raiseE :: "'e \<Rightarrow> ('s, 'e, 'a) prog" where
  "raiseE e s = (Inl e, s)"

definition bindE :: "('s, 'e, 'a) prog \<Rightarrow> ('a \<Rightarrow> ('s, 'e, 'b) prog) \<Rightarrow> ('s, 'e, 'b) prog" where
  "bindE m f s = (case m s of (Inl e, t) \<Rightarrow> (Inl e, t) | (Inr x, t) \<Rightarrow> f x t)"

definition thenE :: "('s, 'e, 'a) prog \<Rightarrow> ('s, 'e, 'b) prog \<Rightarrow> ('s, 'e, 'b) prog" where
  "thenE m k = bindE m (\<lambda>_. k)"

definition catchE :: "('s, 'e, 'a) prog \<Rightarrow> ('e \<Rightarrow> ('s, 'e, 'a) prog) \<Rightarrow> ('s, 'e, 'a) prog" where
  "catchE m h s = (case m s of (Inl e, t) \<Rightarrow> h e t | (Inr x, t) \<Rightarrow> (Inr x, t))"

definition whenE :: "bool \<Rightarrow> ('s, 'e, unit) prog \<Rightarrow> ('s, 'e, unit) prog" where
  "whenE b m = (if b then m else retE ())"

definition getE :: "('s \<Rightarrow> 'a) \<Rightarrow> ('s, 'e, 'a) prog" where
  "getE f s = (Inr (f s), s)"

definition modE :: "('s \<Rightarrow> 's) \<Rightarrow> ('s, 'e, unit) prog" where
  "modE f s = (Inr (), f s)"

primrec forE :: "'a list \<Rightarrow> ('a \<Rightarrow> ('s, 'e, unit) prog) \<Rightarrow> ('s, 'e, unit) prog" where
  "forE [] f = retE ()"
| "forE (x # xs) f = thenE (f x) (forE xs f)"

lemma retE_run [simp, prog_simps]: "retE x s = (Inr x, s)"
  by (simp add: retE_def)

lemma raiseE_run [simp, prog_simps]: "raiseE e s = (Inl e, s)"
  by (simp add: raiseE_def)

lemma getE_run [simp, prog_simps]: "getE f s = (Inr (f s), s)"
  by (simp add: getE_def)

lemma modE_run [simp, prog_simps]: "modE f s = (Inr (), f s)"
  by (simp add: modE_def)

lemma bindE_Inr [prog_simps]: "m s = (Inr x, t) \<Longrightarrow> bindE m f s = f x t"
  by (simp add: bindE_def)

lemma bindE_Inl [prog_simps]: "m s = (Inl e, t) \<Longrightarrow> bindE m f s = (Inl e, t)"
  by (simp add: bindE_def)

lemma bindE_run [simp]:
  "bindE (retE x) f s = f x s" "bindE (raiseE e) g s = (Inl e, s)"
  "bindE (getE u) f s = f (u s) s" "bindE (modE h) k s = k () (h s)"
  by (simp_all add: bindE_def)

lemma thenE_run [simp]:
  "thenE (retE x) k s = k s" "thenE (raiseE e) k s = (Inl e, s)"
  "thenE (getE g) k s = k s" "thenE (modE h) k s = k (h s)"
  by (simp_all add: thenE_def bindE_def)

lemma whenE_run [simp]: "whenE True m = m" "whenE False m = retE ()"
  by (simp_all add: whenE_def)

lemma run_of: "fst p = r \<Longrightarrow> p = (r, snd p)"
  by (cases p) simp

lemma bindE_success:
  "bindE m f s = (Inr y, t) \<longleftrightarrow> (\<exists>x u. m s = (Inr x, u) \<and> f x u = (Inr y, t))"
  by (auto simp: bindE_def split: prod.splits sum.splits)

lemma bindE_failure:
  "bindE m f s = (Inl e, t) \<longleftrightarrow>
     m s = (Inl e, t) \<or> (\<exists>x u. m s = (Inr x, u) \<and> f x u = (Inl e, t))"
  by (auto simp: bindE_def split: prod.splits sum.splits)

lemma bindE_InrE:
  assumes "bindE m f s = (Inr y, t)"
  obtains x u where "m s = (Inr x, u)" and "f x u = (Inr y, t)"
  using assms unfolding bindE_success by blast

lemma bindE_assoc: "bindE (bindE m f) g = bindE m (\<lambda>x. bindE (f x) g)"
  by (rule ext) (simp add: bindE_def split: prod.split sum.split)

lemma bindE_ret [simp]: "bindE m retE = m"
  by (rule ext) (auto simp: bindE_def split: prod.split sum.split)

text \<open>
  Running a program on a concrete state by rewriting: the congruence rules make the simplifier leave
  the rest of the program alone until its turn comes.
\<close>

lemma bindE_cong: "s = t \<Longrightarrow> bindE m f s = bindE m f t"
  by simp

lemma thenE_cong: "s = t \<Longrightarrow> thenE m k s = thenE m k t"
  by simp

lemma catchE_cong: "s = t \<Longrightarrow> catchE m h s = catchE m h t"
  by simp

lemma whenE_cong: "b = c \<Longrightarrow> whenE b m = whenE c m"
  by simp

lemma forE_cong: "xs = ys \<Longrightarrow> forE xs f = forE ys f"
  by simp

lemmas eval_congs = bindE_cong thenE_cong catchE_cong whenE_cong forE_cong
lemmas eval_simps = bindE_def thenE_def catchE_def

subsection \<open>Properties every run of a program keeps\<close>

definition keeps :: "('s \<Rightarrow> bool) \<Rightarrow> ('s, 'e, 'a) prog \<Rightarrow> bool" where
  "keeps P m \<longleftrightarrow> (\<forall>s. P s \<longrightarrow> P (snd (m s)))"

lemma keepsI: "(\<And>s. P s \<Longrightarrow> P (snd (m s))) \<Longrightarrow> keeps P m"
  by (simp add: keeps_def)

lemma keepsD: "keeps P m \<Longrightarrow> P s \<Longrightarrow> m s = (r, t) \<Longrightarrow> P t"
  by (metis keeps_def snd_conv)

lemma keeps_ret [intro, simp]: "keeps P (retE x)"
  by (simp add: keeps_def)

lemma keeps_raise [intro, simp]: "keeps P (raiseE e)"
  by (simp add: keeps_def)

lemma keeps_get [intro, simp]: "keeps P (getE f)"
  by (simp add: keeps_def)

lemma keeps_mod [intro]: "(\<And>s. P s \<Longrightarrow> P (f s)) \<Longrightarrow> keeps P (modE f)"
  by (simp add: keeps_def)

lemma keeps_bind [intro]:
  assumes "keeps P m" and "\<And>x. keeps P (f x)"
  shows "keeps P (bindE m f)"
  using assms by (fastforce simp: keeps_def bindE_def split: prod.splits sum.splits)

lemma keeps_then [intro]: "keeps P m \<Longrightarrow> keeps P k \<Longrightarrow> keeps P (thenE m k)"
  unfolding thenE_def by (rule keeps_bind)

lemma keeps_catch [intro]:
  assumes "keeps P m" and "\<And>e. keeps P (h e)"
  shows "keeps P (catchE m h)"
  using assms by (fastforce simp: keeps_def catchE_def split: prod.splits sum.splits)

lemma keeps_when [intro]: "keeps P m \<Longrightarrow> keeps P (whenE b m)"
  by (simp add: whenE_def)

lemma keeps_if: "(b \<Longrightarrow> keeps P m) \<Longrightarrow> (\<not> b \<Longrightarrow> keeps P k) \<Longrightarrow> keeps P (if b then m else k)"
  by simp

lemma keeps_option: "(x = None \<Longrightarrow> keeps P m) \<Longrightarrow> (\<And>y. x = Some y \<Longrightarrow> keeps P (f y)) \<Longrightarrow>
    keeps P (case x of None \<Rightarrow> m | Some y \<Rightarrow> f y)"
  by (cases x) simp_all

lemma keeps_prod: "(\<And>x y. p = (x, y) \<Longrightarrow> keeps P (f x y)) \<Longrightarrow> keeps P (case p of (x, y) \<Rightarrow> f x y)"
  by (cases p) simp

lemma keeps_sum:
  "(\<And>e. x = Inl e \<Longrightarrow> keeps P (f e)) \<Longrightarrow> (\<And>y. x = Inr y \<Longrightarrow> keeps P (g y)) \<Longrightarrow>
     keeps P (case x of Inl e \<Rightarrow> f e | Inr y \<Rightarrow> g y)"
  by (cases x) auto

lemma keeps_for [intro]: "(\<And>x. keeps P (f x)) \<Longrightarrow> keeps P (forE xs f)"
  by (induction xs) auto

lemmas keeps_intros = keeps_option keeps_if keeps_bind keeps_then keeps_when keeps_catch keeps_for
  keeps_ret keeps_raise keeps_get

subsection \<open>Sums\<close>

lemma map_sum_Inr: "map_sum id f x = Inr y \<longleftrightarrow> (\<exists>z. x = Inr z \<and> y = f z)"
  by (cases x) auto

lemma map_sum_Inl: "map_sum id f x = Inl e \<longleftrightarrow> x = Inl e"
  by (cases x) auto

subsection \<open>Lists as tables\<close>

definition update_where :: "('a \<Rightarrow> bool) \<Rightarrow> ('a \<Rightarrow> 'a) \<Rightarrow> 'a list \<Rightarrow> 'a list" where
  "update_where p f xs = map (\<lambda>x. if p x then f x else x) xs"

definition count_where :: "('a \<Rightarrow> bool) \<Rightarrow> 'a list \<Rightarrow> nat" where
  "count_where p xs = length (filter p xs)"

lemma update_where_simps [simp]:
  "update_where p f [] = []"
  "update_where p f (x # xs) = (if p x then f x else x) # update_where p f xs"
  "length (update_where p f xs) = length xs"
  by (simp_all add: update_where_def)

lemma update_where_none: "(\<And>x. x \<in> set xs \<Longrightarrow> \<not> p x) \<Longrightarrow> update_where p f xs = xs"
  by (induction xs) auto

lemma update_where_image:
  "set (update_where p f xs) = (\<lambda>x. if p x then f x else x) ` set xs"
  by (simp add: update_where_def)

lemma map_update_where:
  "(\<And>x. k (f x) = k x) \<Longrightarrow> map k (update_where p f xs) = map k xs"
  by (simp add: update_where_def)

lemma count_where_simps [simp]:
  "count_where p [] = 0"
  "count_where p (x # xs) = (if p x then Suc (count_where p xs) else count_where p xs)"
  "count_where p (xs @ ys) = count_where p xs + count_where p ys"
  by (simp_all add: count_where_def)

lemma count_where_0: "count_where p xs = 0 \<longleftrightarrow> (\<forall>x \<in> set xs. \<not> p x)"
  by (simp add: count_where_def filter_empty_conv)

lemma count_where_mono:
  "(\<And>x. x \<in> set xs \<Longrightarrow> p x \<Longrightarrow> q x) \<Longrightarrow> count_where p xs \<le> count_where q xs"
  by (induction xs) auto

lemma find_eq_Some_in: "List.find p xs = Some x \<Longrightarrow> x \<in> set xs \<and> p x"
  by (auto simp: find_Some_iff)

lemma distinct_map_inj: "distinct (map k xs) \<Longrightarrow> x \<in> set xs \<Longrightarrow> y \<in> set xs \<Longrightarrow> k x = k y \<Longrightarrow> x = y"
  by (auto simp: distinct_map inj_on_def)

lemma distinct_map_filter_key: "distinct (map k xs) \<Longrightarrow> distinct (map k (filter p xs))"
  by (rule distinct_map_filter)

lemma count_where_key_le_1: "distinct (map k xs) \<Longrightarrow> count_where (\<lambda>x. k x = a \<and> p x) xs \<le> 1"
proof (induction xs)
  case (Cons x xs)
  show ?case
  proof (cases "k x = a \<and> p x")
    case True
    with Cons.prems have "count_where (\<lambda>x. k x = a \<and> p x) xs = 0"
      by (auto simp: count_where_0 image_iff)
    with True show ?thesis by simp
  next
    case False
    with Cons show ?thesis by auto
  qed
qed simp

lemma count_where_key_1:
  assumes "distinct (map k xs)" and "x \<in> set xs" and "k x = a" and "p x"
  shows "count_where (\<lambda>x. k x = a \<and> p x) xs = 1"
proof -
  have "count_where (\<lambda>x. k x = a \<and> p x) xs \<noteq> 0"
    using assms(2-4) by (auto simp: count_where_0)
  with count_where_key_le_1 [OF assms(1), of a p] show ?thesis by linarith
qed

subsection \<open>Python strings\<close>

text \<open>
  Text is a list of characters.  Case mapping and white space follow Python on ASCII, the range the
  identifiers, host names, header values and role names of the program use.
\<close>

definition is_space :: "char \<Rightarrow> bool" where
  "is_space c \<longleftrightarrow> of_char c \<in> {9, 10, 11, 12, 13, 28, 29, 30, 31, 32 :: nat}"

definition lower_char :: "char \<Rightarrow> char" where
  "lower_char c = (if 65 \<le> (of_char c :: nat) \<and> (of_char c :: nat) \<le> 90
                   then char_of ((of_char c :: nat) + 32) else c)"

definition upper_char :: "char \<Rightarrow> char" where
  "upper_char c = (if 97 \<le> (of_char c :: nat) \<and> (of_char c :: nat) \<le> 122
                   then char_of ((of_char c :: nat) - 32) else c)"

definition lower :: "string \<Rightarrow> string" where
  "lower s = map lower_char s"

definition upper :: "string \<Rightarrow> string" where
  "upper s = map upper_char s"

definition lstrip :: "string \<Rightarrow> string" where
  "lstrip s = dropWhile is_space s"

definition rstrip :: "string \<Rightarrow> string" where
  "rstrip s = rev (dropWhile is_space (rev s))"

definition strip :: "string \<Rightarrow> string" where
  "strip s = rstrip (lstrip s)"

definition starts_with :: "string \<Rightarrow> string \<Rightarrow> bool" where
  "starts_with p s \<longleftrightarrow> take (length p) s = p"

text \<open>
  \<open>repr\<close> of a string, for text without quotes, backslashes and control characters, and \<open>str\<close> of an
  integer.
\<close>

definition py_repr :: "string \<Rightarrow> string" where
  "py_repr s = CHR 0x27 # s @ [CHR 0x27]"

fun show_nat :: "nat \<Rightarrow> string" where
  "show_nat n = (if n < 10 then [char_of (48 + n)]
                 else show_nat (n div 10) @ [char_of (48 + n mod 10)])"

definition show_int :: "int \<Rightarrow> string" where
  "show_int i = (if i < 0 then CHR ''-'' # show_nat (nat (- i)) else show_nat (nat i))"

definition is_digit :: "char \<Rightarrow> bool" where
  "is_digit c \<longleftrightarrow> 48 \<le> (of_char c :: nat) \<and> (of_char c :: nat) \<le> 57"

definition digit_value :: "char \<Rightarrow> nat" where
  "digit_value c = of_char c - 48"

definition read_nat :: "string \<Rightarrow> nat" where
  "read_nat s = foldl (\<lambda>n c. 10 * n + digit_value c) 0 s"

text \<open>\<open>int(s)\<close> for decimal text; \<open>None\<close> where Python raises \<open>ValueError\<close>.\<close>

definition read_int :: "string \<Rightarrow> int option" where
  "read_int s =
    (let t = strip s; neg = (t \<noteq> [] \<and> hd t = CHR ''-'');
         d = (if t \<noteq> [] \<and> hd t \<in> {CHR ''-'', CHR ''+''} then tl t else t)
     in if d \<noteq> [] \<and> list_all is_digit d
        then Some (if neg then - int (read_nat d) else int (read_nat d)) else None)"

declare show_nat.simps [simp del]

lemma of_char_digit: "d < 10 \<Longrightarrow> (of_char (char_of (48 + d) :: char) :: nat) = 48 + d"
  by (simp add: of_char_of take_bit_nat_def)

lemma show_nat_ne [simp]: "show_nat n \<noteq> []"
  by (subst show_nat.simps) simp

lemma show_nat_digits: "c \<in> set (show_nat n) \<Longrightarrow> is_digit c"
  by (induction n rule: show_nat.induct)
    (subst (asm) (2) show_nat.simps, auto simp: is_digit_def of_char_digit split: if_splits)

lemma read_nat_show [simp]: "read_nat (show_nat n) = n"
proof (induction n rule: show_nat.induct)
  case (1 n)
  show ?case
  proof (cases "n < 10")
    case True
    then show ?thesis
      by (subst show_nat.simps) (simp add: read_nat_def digit_value_def of_char_digit)
  next
    case False
    then have "read_nat (show_nat (n div 10) @ [char_of (48 + n mod 10)]) =
        10 * read_nat (show_nat (n div 10)) + n mod 10"
      by (simp add: read_nat_def digit_value_def of_char_digit)
    with False 1 show ?thesis by (subst show_nat.simps) simp
  qed
qed

lemma digit_not_space: "is_digit c \<Longrightarrow> \<not> is_space c"
  by (auto simp: is_digit_def is_space_def)

lemma strip_no_space: "s \<noteq> [] \<Longrightarrow> \<not> is_space (hd s) \<Longrightarrow> \<not> is_space (last s) \<Longrightarrow> strip s = s"
proof -
  assume s: "s \<noteq> []" "\<not> is_space (hd s)" "\<not> is_space (last s)"
  then have "dropWhile is_space s = s" by (simp add: dropWhile_eq_self_iff)
  moreover from s have "dropWhile is_space (rev s) = rev s"
    by (simp add: dropWhile_eq_self_iff hd_rev)
  ultimately show ?thesis by (simp add: strip_def lstrip_def rstrip_def)
qed

lemma read_int_show [simp]: "read_int (show_int i) = Some i"
proof -
  have digit_hd: "is_digit (hd (show_nat n))" "is_digit (last (show_nat n))" for n
    using show_nat_digits [of "hd (show_nat n)" n] show_nat_digits [of "last (show_nat n)" n]
    by auto
  note space = digit_hd [THEN digit_not_space]
  have "\<not> is_space (CHR ''-'')" by (simp add: is_space_def)
  with space have strip: "strip (show_int i) = show_int i"
    by (intro strip_no_space) (auto simp: show_int_def)
  have sign: "hd (show_nat n) \<noteq> CHR ''-''" "hd (show_nat n) \<noteq> CHR ''+''" for n
    using digit_hd(1) [of n] by (auto simp: is_digit_def)
  have digits: "list_all is_digit (show_nat n)" for n
    by (simp add: list_all_iff show_nat_digits)
  show ?thesis
    unfolding read_int_def Let_def strip by (simp add: show_int_def sign digits)
qed

text \<open>\<open>s.encode("utf-8")\<close>, for text of the code points a HOL character can hold.\<close>

definition utf8_char :: "char \<Rightarrow> nat list" where
  "utf8_char c = (let n = of_char c in
     if n < 128 then [n] else [192 + n div 64, 128 + n mod 64])"

definition utf8 :: "string \<Rightarrow> nat list" where
  "utf8 s = concat (map utf8_char s)"

lemma of_char_less: "(of_char c :: nat) < 256"
  by (metis of_char_mod_256 mod_less_divisor zero_less_numeral)

lemma utf8_char_split: "utf8_char c @ xs = utf8_char d @ ys \<longleftrightarrow> c = d \<and> xs = ys"
proof -
  have inj: "c = d" if "(of_char c :: nat) div 64 = of_char d div 64"
    "(of_char c :: nat) mod 64 = of_char d mod 64"
    using that by (metis div_mult_mod_eq of_char_eq_iff)
  show ?thesis
    by (auto simp: utf8_char_def Let_def dest: inj)
qed

lemma utf8_eq_iff [simp]: "utf8 s = utf8 t \<longleftrightarrow> s = t"
proof (induction s arbitrary: t)
  case Nil
  show ?case by (cases t) (auto simp: utf8_def utf8_char_def Let_def)
next
  case (Cons c s)
  show ?case
  proof (cases t)
    case Nil
    then show ?thesis by (auto simp: utf8_def utf8_char_def Let_def)
  next
    case (Cons d t')
    with Cons.IH [of t'] show ?thesis by (simp add: utf8_def utf8_char_split)
  qed
qed

lemma lower_char_idem [simp]: "lower_char (lower_char c) = lower_char c"
  by (simp add: lower_char_def)

lemma lower_idem [simp]: "lower (lower s) = lower s"
  by (simp add: lower_def)

lemma length_lower [simp]: "length (lower s) = length s"
  by (simp add: lower_def)

text \<open>\<open>p in s\<close>.\<close>

fun is_infix :: "string \<Rightarrow> string \<Rightarrow> bool" where
  "is_infix p [] \<longleftrightarrow> p = []"
| "is_infix p (c # s) \<longleftrightarrow> starts_with p (c # s) \<or> is_infix p s"

lemma starts_with_Nil [simp]: "starts_with p [] \<longleftrightarrow> p = []"
  by (auto simp: starts_with_def)

end
