(* ===== verification/Errors.thy ===== *)
theory Errors
  imports Prelude
begin

text \<open>
  The exceptions of \<open>app/core/exceptions.py\<close>, the service exceptions of the modules, the transport
  exceptions a Redis client raises, and \<open>classify_redis_error\<close> of \<open>app/core/outage.py\<close>.  Message
  texts are written without diacritics.
\<close>

subsection \<open>Exceptions a Redis call can raise\<close>

datatype redis_exc =
    AsyncioTimeout
  | BuiltinConnectionError
  | RedisConnectionError
  | RedisTimeoutLib
  | RedisResponseLib string
  | OtherException string
  | CancelledError

text \<open>\<open>except Exception\<close> lets \<open>asyncio.CancelledError\<close>, a \<open>BaseException\<close>, through.\<close>

fun is_exception :: "redis_exc \<Rightarrow> bool" where
  "is_exception CancelledError = False"
| "is_exception _ = True"

lemma is_exception_iff: "is_exception e \<longleftrightarrow> e \<noteq> CancelledError"
  by (cases e) auto

text \<open>The subclasses of \<open>redis.exceptions.RedisError\<close>.\<close>

fun is_redis_error :: "redis_exc \<Rightarrow> bool" where
  "is_redis_error RedisConnectionError = True"
| "is_redis_error RedisTimeoutLib = True"
| "is_redis_error (RedisResponseLib _) = True"
| "is_redis_error _ = False"

subsection \<open>Exceptions of the application\<close>

datatype exn =
    AuthError nat string
  | ServiceUnavailableError string
  | TenantError nat string
  | UserError nat string
  | LLMError
  | LLMTimeoutError
  | LLMRateLimitError
  | LLMContentFilterError
  | LLMResponseError
  | RedisUnreachableError
  | RedisTimeoutError
  | RedisResponseError
  | PartialFailureError string
  | TemporaryUnavailableError string
  | VulnerabilityError nat string
  | HTTPException nat string
  | ValueError string
  | RuntimeError string
  | AttributeError string
  | KeyError string
  | OtherError string
  | InvalidTokenError
  | ScanConfigError string
  | ScanDuplicateError
  | ScanAssetNotFoundError
  | ScanNotCancellableError
  | ScanNotDispatchableError
  | ScanQuotaExceededError
  | AssetDuplicateError
  | VulnerabilityScanNotFoundError
  | ReportAssetNotFoundError
  | IntegrityError string
  | RowSecurityError
  | DBAPIError string
  | RawRedis redis_exc
  | Cancelled

text \<open>\<open>isinstance(exc, RedisOutageError)\<close>: the base class has these four subclasses.\<close>

fun is_redis_outage :: "exn \<Rightarrow> bool" where
  "is_redis_outage RedisUnreachableError = True"
| "is_redis_outage RedisTimeoutError = True"
| "is_redis_outage RedisResponseError = True"
| "is_redis_outage (PartialFailureError _) = True"
| "is_redis_outage _ = False"

text \<open>\<open>AppError.status_code\<close>; \<open>None\<close> for an exception that is not an \<open>AppError\<close>.\<close>

fun app_status :: "exn \<Rightarrow> nat option" where
  "app_status (AuthError c _) = Some c"
| "app_status (TenantError c _) = Some c"
| "app_status (UserError c _) = Some c"
| "app_status (VulnerabilityError c _) = Some c"
| "app_status (ServiceUnavailableError _) = Some 503"
| "app_status LLMError = Some 500"
| "app_status LLMTimeoutError = Some 408"
| "app_status LLMRateLimitError = Some 429"
| "app_status LLMContentFilterError = Some 451"
| "app_status LLMResponseError = Some 502"
| "app_status RedisUnreachableError = Some 503"
| "app_status RedisTimeoutError = Some 503"
| "app_status RedisResponseError = Some 503"
| "app_status (PartialFailureError _) = Some 503"
| "app_status (TemporaryUnavailableError _) = Some 503"
| "app_status _ = None"

text \<open>\<open>except Exception\<close> at the level of the application.\<close>

fun is_app_exception :: "exn \<Rightarrow> bool" where
  "is_app_exception Cancelled = False"
| "is_app_exception (RawRedis e) = is_exception e"
| "is_app_exception _ = True"

definition service_unavailable :: exn where
  "service_unavailable = ServiceUnavailableError ''Servicio temporalmente no disponible''"

text \<open>
  \<open>classify_redis_error\<close>.  \<open>redis.exceptions.TimeoutError\<close> is not \<open>asyncio.TimeoutError\<close>, so it
  takes the last branch.
\<close>

fun classify_redis_error :: "redis_exc \<Rightarrow> exn" where
  "classify_redis_error AsyncioTimeout = RedisTimeoutError"
| "classify_redis_error (RedisResponseLib _) = RedisResponseError"
| "classify_redis_error BuiltinConnectionError = RedisUnreachableError"
| "classify_redis_error _ = RedisUnreachableError"

lemma classify_is_outage [simp]: "is_redis_outage (classify_redis_error e)"
  by (cases e) auto

lemma outage_status [simp]: "is_redis_outage e \<Longrightarrow> app_status e = Some 503"
  by (cases e) auto

lemma classify_status [simp]: "app_status (classify_redis_error e) = Some 503"
  by simp

lemma classify_is_app_exception [simp]: "is_app_exception (classify_redis_error e)"
  by (cases e) auto

end
