(* ===== verification/Redis_Iface.thy ===== *)
theory Redis_Iface
  imports Errors "HOL-Library.AList"
begin

text \<open>
  Redis as the program sees it.  The server and its client are not part of the repository: the model
  takes the function \<open>call\<close> that sends one command as a parameter.  What the code relies on, the
  documented meaning of the commands it sends, is the locale \<open>redis_contract\<close>: a command that
  answers had its effect; a command that fails had its effect or none, because an answer can get
  lost.  The two Lua scripts of \<open>app/core/dist_lock.py\<close> are commands of their own.  The in-memory
  server of the last section satisfies the contract, with any script of faults.
\<close>

subsection \<open>Keys, values and commands\<close>

datatype rvalue =
    VStr string
  | VSet "string set"
  | VHash "(string \<times> string) list"
  | VStream "(string \<times> (string \<times> string) list) list"

record rstore =
  clock :: time
  entries :: "(string \<times> rvalue \<times> time option) list"

definition store :: "rstore \<Rightarrow> string \<Rightarrow> (rvalue \<times> time option) option" where
  "store st k = map_of (entries st) k"

definition live :: "rstore \<Rightarrow> string \<Rightarrow> rvalue option" where
  "live st k = (case store st k of
      None \<Rightarrow> None
    | Some (v, None) \<Rightarrow> Some v
    | Some (v, Some d) \<Rightarrow> if clock st < d then Some v else None)"

definition put :: "string \<Rightarrow> rvalue \<Rightarrow> time option \<Rightarrow> rstore \<Rightarrow> rstore" where
  "put k v d st = st\<lparr>entries := AList.update k (v, d) (entries st)\<rparr>"

definition del :: "string \<Rightarrow> rstore \<Rightarrow> rstore" where
  "del k st = st\<lparr>entries := AList.delete k (entries st)\<rparr>"

text \<open>The expiry of a live key, which a write to its value keeps.\<close>

definition expiry :: "rstore \<Rightarrow> string \<Rightarrow> time option" where
  "expiry st k = (if live st k = None then None else case store st k of None \<Rightarrow> None | Some (v, d) \<Rightarrow> d)"

datatype lua = RENEW_LUA | RELEASE_LUA

datatype rcmd =
    PING
  | GET string
  | SET string string bool "time option"
  | INCR string
  | EXPIRE string time
  | DEL string
  | EXISTS string
  | SADD string string
  | SREM string string
  | SMEMBERS string
  | HGET string string
  | HGETALL string
  | HSET string string string
  | HINCRBY string string int
  | XADD string "(string \<times> string) list" "nat option"
  | EVAL lua string string time
  | SCRIPT_LOAD lua

datatype reply = RNil | RBool bool | RInt int | RStr string | RSet "string set"
  | RHash "(string \<times> string) list"

subsection \<open>What the commands do\<close>

text \<open>\<open>None\<close> is the error reply to a command on a value of the wrong type.\<close>

definition as_set :: "rvalue option \<Rightarrow> string set option" where
  "as_set v = (case v of None \<Rightarrow> Some {} | Some (VSet m) \<Rightarrow> Some m | _ \<Rightarrow> None)"

definition as_hash :: "rvalue option \<Rightarrow> (string \<times> string) list option" where
  "as_hash v = (case v of None \<Rightarrow> Some [] | Some (VHash h) \<Rightarrow> Some h | _ \<Rightarrow> None)"

definition as_number :: "string option \<Rightarrow> int option" where
  "as_number v = (case v of None \<Rightarrow> Some 0 | Some s \<Rightarrow> read_int s)"

definition as_text :: "rvalue option \<Rightarrow> string option option" where
  "as_text v = (case v of None \<Rightarrow> Some None | Some (VStr s) \<Rightarrow> Some (Some s) | _ \<Rightarrow> None)"

text \<open>\<open>KEYS[1]\<close> holds \<open>ARGV[1]\<close>, the guard of both scripts.\<close>

definition owned :: "rstore \<Rightarrow> string \<Rightarrow> string \<Rightarrow> bool" where
  "owned st k token \<longleftrightarrow> live st k = Some (VStr token)"

fun redis_eval :: "rcmd \<Rightarrow> rstore \<Rightarrow> (reply \<times> rstore) option" where
  "redis_eval PING st = Some (RBool True, st)"
| "redis_eval (GET k) st = (case as_text (live st k) of
      None \<Rightarrow> None | Some None \<Rightarrow> Some (RNil, st) | Some (Some s) \<Rightarrow> Some (RStr s, st))"
| "redis_eval (SET k v nx px) st =
    (if nx \<and> live st k \<noteq> None then Some (RNil, st)
     else Some (RBool True, put k (VStr v) (map_option (\<lambda>d. clock st + d) px) st))"
| "redis_eval (INCR k) st = (case as_text (live st k) of None \<Rightarrow> None | Some s \<Rightarrow>
      (case as_number s of None \<Rightarrow> None
       | Some n \<Rightarrow> Some (RInt (n + 1), put k (VStr (show_int (n + 1))) (expiry st k) st)))"
| "redis_eval (EXPIRE k d) st = (case live st k of None \<Rightarrow> Some (RBool False, st)
      | Some v \<Rightarrow> Some (RBool True, put k v (Some (clock st + d)) st))"
| "redis_eval (DEL k) st = Some (RInt (if live st k = None then 0 else 1), del k st)"
| "redis_eval (EXISTS k) st = Some (RInt (if live st k = None then 0 else 1), st)"
| "redis_eval (SADD k m) st = (case as_set (live st k) of None \<Rightarrow> None
      | Some ms \<Rightarrow> Some (RInt (if m \<in> ms then 0 else 1),
                         put k (VSet (insert m ms)) (expiry st k) st))"
| "redis_eval (SREM k m) st = (case as_set (live st k) of None \<Rightarrow> None
      | Some ms \<Rightarrow> Some (RInt (if m \<in> ms then 1 else 0),
          if ms - {m} = {} then del k st else put k (VSet (ms - {m})) (expiry st k) st))"
| "redis_eval (SMEMBERS k) st = map_option (\<lambda>ms. (RSet ms, st)) (as_set (live st k))"
| "redis_eval (HGET k f) st = map_option
      (\<lambda>h. (case map_of h f of None \<Rightarrow> RNil | Some s \<Rightarrow> RStr s, st)) (as_hash (live st k))"
| "redis_eval (HGETALL k) st = map_option (\<lambda>h. (RHash h, st)) (as_hash (live st k))"
| "redis_eval (HSET k f v) st = map_option
      (\<lambda>h. (RInt (if map_of h f = None then 1 else 0), put k (VHash (AList.update f v h)) (expiry st k) st))
      (as_hash (live st k))"
| "redis_eval (HINCRBY k f n) st = (case as_hash (live st k) of None \<Rightarrow> None
      | Some h \<Rightarrow> (case as_number (map_of h f) of None \<Rightarrow> None
          | Some i \<Rightarrow> Some (RInt (i + n),
                           put k (VHash (AList.update f (show_int (i + n)) h)) (expiry st k) st)))"
| "redis_eval (XADD k fs maxlen) st = None"
| "redis_eval (EVAL RENEW_LUA k token ttl) st =
    (if owned st k token then Some (RInt 1, put k (VStr token) (Some (clock st + ttl)) st)
     else Some (RInt 0, st))"
| "redis_eval (EVAL RELEASE_LUA k token ttl) st =
    (if owned st k token then Some (RInt 1, del k st) else Some (RInt 0, st))"
| "redis_eval (SCRIPT_LOAD l) st = Some (RStr ''sha'', st)"

text \<open>
  \<open>XADD\<close> appends an entry with an id the server chooses; with an approximate \<open>MAXLEN\<close> it may drop
  the oldest entries, but never so many that fewer than the bound remain.
\<close>

definition redis_does :: "rcmd \<Rightarrow> rstore \<Rightarrow> reply \<Rightarrow> rstore \<Rightarrow> bool" where
  "redis_does c st r st' = (case c of
      XADD k fs maxlen \<Rightarrow> (\<exists>i es n.
        (live st k = None \<and> es = [] \<or> live st k = Some (VStream es)) \<and> n \<le> length es \<and>
        (case maxlen of None \<Rightarrow> n = 0 | Some m \<Rightarrow> n = 0 \<or> m \<le> length es - n + 1) \<and>
        r = RStr i \<and> st' = put k (VStream (drop n es @ [(i, fs)])) (expiry st k) st)
    | _ \<Rightarrow> redis_eval c st = Some (r, st'))"

lemma redis_does_eval: "redis_eval c st = Some (r, st') \<Longrightarrow> redis_does c st r st'"
  by (cases c) (auto simp: redis_does_def)

lemma put_simps [simp]:
  "clock (put k v d st) = clock st" "clock (del k st) = clock st"
  "store (put k v d st) = (store st)(k \<mapsto> (v, d))" "store (del k st) = (store st)(k := None)"
  by (auto simp: put_def del_def store_def fun_eq_iff update_conv' delete_conv')

lemma store_clock [simp]: "store (st\<lparr>clock := t\<rparr>) = store st"
  by (simp add: store_def fun_eq_iff)

lemma live_put: "live (put k v d st) k' =
    (if k' = k then (case d of None \<Rightarrow> Some v | Some t \<Rightarrow> if clock st < t then Some v else None)
     else live st k')"
  by (auto simp: live_def split: option.split prod.split)

lemma live_del [simp]: "live (del k st) k' = (if k' = k then None else live st k')"
  by (auto simp: live_def split: option.split prod.split)

lemma put_sym: "put k v d st = st' \<Longrightarrow> st' = put k v d st"
  by simp

lemma clock_sym: "st\<lparr>clock := t\<rparr> = st' \<Longrightarrow> store st' = store st"
  by auto

text \<open>The key a command works on; every other key is left alone.\<close>

fun rkey :: "rcmd \<Rightarrow> string option" where
  "rkey PING = None"
| "rkey (GET k) = Some k"
| "rkey (SET k v nx px) = Some k"
| "rkey (INCR k) = Some k"
| "rkey (EXPIRE k d) = Some k"
| "rkey (DEL k) = Some k"
| "rkey (EXISTS k) = Some k"
| "rkey (SADD k m) = Some k"
| "rkey (SREM k m) = Some k"
| "rkey (SMEMBERS k) = Some k"
| "rkey (HGET k f) = Some k"
| "rkey (HGETALL k) = Some k"
| "rkey (HSET k f v) = Some k"
| "rkey (HINCRBY k f n) = Some k"
| "rkey (XADD k fs m) = Some k"
| "rkey (EVAL l k t d) = Some k"
| "rkey (SCRIPT_LOAD l) = None"

lemma redis_does_clock: "redis_does c st r st' \<Longrightarrow> clock st' = clock st"
  by (cases "(c, st)" rule: redis_eval.cases)
    (auto simp: redis_does_def split: if_splits option.splits)

lemma redis_does_frame: "redis_does c st r st' \<Longrightarrow> rkey c \<noteq> Some k \<Longrightarrow> store st' k = store st k"
  by (cases "(c, st)" rule: redis_eval.cases)
    (auto simp: redis_does_def split: if_splits option.splits)

subsection \<open>The contract\<close>

type_synonym 'r redis_call = "rcmd \<Rightarrow> 'r \<Rightarrow> (redis_exc + reply) \<times> 'r"

locale redis_contract =
  fixes call :: "'r redis_call" and view :: "'r \<Rightarrow> rstore"
  assumes call_ok: "call c s = (Inr r, s') \<Longrightarrow>
      \<exists>t \<ge> clock (view s). redis_does c ((view s)\<lparr>clock := t\<rparr>) r (view s')"
    and call_error: "call c s = (Inl e, s') \<Longrightarrow>
      \<exists>t \<ge> clock (view s). view s' = (view s)\<lparr>clock := t\<rparr> \<or>
        (\<exists>r. redis_does c ((view s)\<lparr>clock := t\<rparr>) r (view s'))"

text \<open>A pipeline without a transaction: when it fails, any of its commands may have been applied.\<close>

fun redis_runs :: "rcmd list \<Rightarrow> rstore \<Rightarrow> rstore \<Rightarrow> bool" where
  "redis_runs [] st st' \<longleftrightarrow> (\<exists>t \<ge> clock st. st' = st\<lparr>clock := t\<rparr>)"
| "redis_runs (c # cs) st st' \<longleftrightarrow>
     (\<exists>t \<ge> clock st. \<exists>r st1. redis_does c (st\<lparr>clock := t\<rparr>) r st1 \<and> redis_runs cs st1 st')"

type_synonym 'r redis_pipe = "rcmd list \<Rightarrow> 'r \<Rightarrow> (redis_exc + unit) \<times> 'r"

locale redis_pipeline = redis_contract call view
  for call :: "'r redis_call" and view :: "'r \<Rightarrow> rstore" +
  fixes pipe :: "'r redis_pipe"
  assumes pipe_ok: "pipe cs s = (Inr (), s') \<Longrightarrow> redis_runs cs (view s) (view s')"
    and pipe_error: "pipe cs s = (Inl e, s') \<Longrightarrow> \<exists>ds. set ds \<subseteq> set cs \<and> redis_runs ds (view s) (view s')"

text \<open>What a client can conclude from an answer or a failure.\<close>

context redis_contract
begin

text \<open>Either the command had its effect, or it failed and had none; time may have passed.\<close>

lemma call_effect:
  assumes "call c s = (x, s')"
  obtains t r where "clock (view s) \<le> t" and "redis_does c ((view s)\<lparr>clock := t\<rparr>) r (view s')"
      and "\<And>q. x = Inr q \<Longrightarrow> r = q"
    | t e where "clock (view s) \<le> t" and "x = Inl e" and "view s' = (view s)\<lparr>clock := t\<rparr>"
proof (cases x)
  case (Inr q)
  with assms have "call c s = (Inr q, s')" by simp
  from call_ok [OF this] Inr that(1) show ?thesis by fastforce
next
  case (Inl e)
  with assms have "call c s = (Inl e, s')" by simp
  from call_error [OF this] Inl that show ?thesis by fastforce
qed

lemma call_clock: "call c s = (x, s') \<Longrightarrow> clock (view s) \<le> clock (view s')"
  by (cases x) (auto dest!: call_ok call_error redis_does_clock)

lemma call_frame:
  assumes "call c s = (x, s')" and "rkey c \<noteq> Some k"
  shows "store (view s') k = store (view s) k"
  using assms by (cases x) (auto dest!: call_ok call_error dest: redis_does_frame)

lemma call_reads:
  assumes "call c s = (x, s')" and "\<And>st r st'. redis_does c st r st' \<Longrightarrow> store st' = store st"
  shows "store (view s') = store (view s)"
  using assms(1) by (cases x) (auto dest!: call_ok call_error assms(2))

end

subsection \<open>Programs that use Redis\<close>

type_synonym ('r, 'a) redis_prog = "('r, exn, 'a) prog"

definition redis_cmd :: "'r redis_call \<Rightarrow> rcmd \<Rightarrow> ('r, reply) redis_prog" where
  "redis_cmd call c s = (case call c s of
      (Inl e, t) \<Rightarrow> (Inl (RawRedis e), t) | (Inr r, t) \<Rightarrow> (Inr r, t))"

text \<open>
  \<open>except Exception as exc: raise classify_redis_error(exc) from exc\<close> around a command; a cancellation
  passes.
\<close>

definition classified :: "('r, 'a) redis_prog \<Rightarrow> ('r, 'a) redis_prog" where
  "classified m = catchE m (\<lambda>e. case e of
      RawRedis x \<Rightarrow> raiseE (if is_exception x then classify_redis_error x else RawRedis x)
    | _ \<Rightarrow> raiseE e)"

definition redis_do :: "'r redis_call \<Rightarrow> rcmd \<Rightarrow> ('r, reply) redis_prog" where
  "redis_do call c = classified (redis_cmd call c)"

definition run_pipe :: "'r redis_pipe \<Rightarrow> rcmd list \<Rightarrow> ('r, unit) redis_prog" where
  "run_pipe pipe cs s = (case pipe cs s of
      (Inl e, t) \<Rightarrow> (Inl (RawRedis e), t) | (Inr u, t) \<Rightarrow> (Inr u, t))"

lemma run_pipe_Inr: "run_pipe pipe cs s = (Inr u, t) \<longleftrightarrow> pipe cs s = (Inr u, t)"
  by (auto simp: run_pipe_def split: prod.splits sum.splits)

text \<open>\<open>check_redis_healthy\<close> of \<open>app/core/redis.py\<close>.\<close>

definition check_redis_healthy :: "'r redis_call \<Rightarrow> ('r, bool) redis_prog" where
  "check_redis_healthy call = catchE
     (bindE (redis_cmd call PING) (\<lambda>r. retE (r = RBool True)))
     (\<lambda>e. if is_app_exception e then retE False else raiseE e)"

lemma redis_cmd_Inr: "redis_cmd call c s = (Inr r, t) \<longleftrightarrow> call c s = (Inr r, t)"
  by (auto simp: redis_cmd_def split: prod.splits sum.splits)

lemma redis_cmd_Inl: "redis_cmd call c s = (Inl e, t) \<longleftrightarrow> (\<exists>x. call c s = (Inl x, t) \<and> e = RawRedis x)"
  by (auto simp: redis_cmd_def split: prod.splits sum.splits)

lemma redis_do_Inr: "redis_do call c s = (Inr r, t) \<longleftrightarrow> call c s = (Inr r, t)"
  by (auto simp: redis_do_def classified_def catchE_def redis_cmd_def split: prod.splits sum.splits exn.splits)

lemma redis_do_Inl: "redis_do call c s = (Inl e, t) \<longleftrightarrow> (\<exists>x. call c s = (Inl x, t) \<and>
    e = (if is_exception x then classify_redis_error x else RawRedis x))"
  by (auto simp: redis_do_def classified_def catchE_def redis_cmd_def split: prod.splits sum.splits exn.splits)

lemma redis_do_error:
  "redis_do call c s = (Inl e, t) \<Longrightarrow> is_redis_outage e \<or> e = RawRedis CancelledError"
  by (auto simp: redis_do_Inl is_exception_iff)

lemma check_redis_healthy_Inr: "check_redis_healthy call s = (Inr b, t) \<Longrightarrow>
    \<exists>x. call PING s = (x, t) \<and> b = (x = Inr (RBool True))"
  by (auto simp: check_redis_healthy_def catchE_def bindE_def redis_cmd_def
      split: prod.splits sum.splits if_splits)

subsection \<open>An in-memory server\<close>

text \<open>
  Each command takes one tick; the fault script says of the next commands whether they fail, with
  which exception, and whether they were applied nevertheless.
\<close>

record mem_redis =
  mr_store :: rstore
  mr_faults :: "(redis_exc \<times> bool) option list"
  mr_next :: nat

definition mem_eval :: "rcmd \<Rightarrow> rstore \<Rightarrow> nat \<Rightarrow> (reply \<times> rstore) option" where
  "mem_eval c st n = (case c of
      XADD k fs maxlen \<Rightarrow> (case live st k of
          None \<Rightarrow> Some (RStr (show_nat n), put k (VStream [(show_nat n, fs)]) None st)
        | Some (VStream es) \<Rightarrow>
            Some (RStr (show_nat n), put k (VStream (es @ [(show_nat n, fs)])) (expiry st k) st)
        | _ \<Rightarrow> None)
    | _ \<Rightarrow> redis_eval c st)"

definition mem_call :: "mem_redis redis_call" where
  "mem_call c s =
    (let st = (mr_store s)\<lparr>clock := clock (mr_store s) + 1\<rparr>;
         s' = s\<lparr>mr_store := st, mr_faults := tl (mr_faults s), mr_next := mr_next s + 1\<rparr>
     in case mem_eval c st (mr_next s) of
          None \<Rightarrow> (Inl (RedisResponseLib ''WRONGTYPE''), s')
        | Some (r, st') \<Rightarrow> (case mr_faults s of
              Some (e, applied) # _ \<Rightarrow> (Inl e, if applied then s'\<lparr>mr_store := st'\<rparr> else s')
            | _ \<Rightarrow> (Inr r, s'\<lparr>mr_store := st'\<rparr>)))"

definition mem_empty :: "(redis_exc \<times> bool) option list \<Rightarrow> mem_redis" where
  "mem_empty fs = \<lparr>mr_store = \<lparr>clock = 0, entries = []\<rparr>, mr_faults = fs, mr_next = 0\<rparr>"

fun mem_pipe :: "mem_redis redis_pipe" where
  "mem_pipe [] s = (Inr (), s)"
| "mem_pipe (c # cs) s = (case mem_call c s of
      (Inl e, s') \<Rightarrow> (Inl e, s') | (Inr r, s') \<Rightarrow> mem_pipe cs s')"

lemmas mem_eval_simps = redis_cmd_def redis_do_def classified_def mem_call_def mem_eval_def mem_empty_def
  put_def del_def live_def expiry_def owned_def as_hash_def as_set_def as_text_def as_number_def
  store_def Let_def

lemma mem_eval_does: "mem_eval c st n = Some (r, st') \<Longrightarrow> redis_does c st r st'"
proof (cases c)
  case (XADD k fs maxlen)
  assume "mem_eval c st n = Some (r, st')"
  with XADD show ?thesis
    by (cases "live st k")
      (auto simp: mem_eval_def redis_does_def expiry_def split: rvalue.splits option.splits
        intro!: exI [of _ "0 :: nat"])
qed (auto simp: mem_eval_def intro: redis_does_eval)

lemma mem_call_ok: "mem_call c s = (Inr r, s') \<Longrightarrow>
    redis_does c ((mr_store s)\<lparr>clock := clock (mr_store s) + 1\<rparr>) r (mr_store s')"
  by (auto simp: mem_call_def Let_def split: option.splits list.splits prod.splits
      intro: mem_eval_does)

lemma mem_call_error: "mem_call c s = (Inl e, s') \<Longrightarrow>
    mr_store s' = (mr_store s)\<lparr>clock := clock (mr_store s) + 1\<rparr> \<or>
    (\<exists>r. redis_does c ((mr_store s)\<lparr>clock := clock (mr_store s) + 1\<rparr>) r (mr_store s'))"
  by (auto simp: mem_call_def Let_def split: option.splits list.splits prod.splits if_splits
      dest!: mem_eval_does)

lemma mem_contract: "redis_contract mem_call mr_store"
proof
  fix c s r s' assume "mem_call c s = (Inr r, s')"
  from mem_call_ok [OF this]
  show "\<exists>t\<ge>clock (mr_store s). redis_does c ((mr_store s)\<lparr>clock := t\<rparr>) r (mr_store s')"
    by (intro exI [of _ "clock (mr_store s) + 1"]) simp
next
  fix c s e s' assume "mem_call c s = (Inl e, s')"
  from mem_call_error [OF this]
  show "\<exists>t\<ge>clock (mr_store s). mr_store s' = (mr_store s)\<lparr>clock := t\<rparr> \<or>
      (\<exists>r. redis_does c ((mr_store s)\<lparr>clock := t\<rparr>) r (mr_store s'))"
    by (intro exI [of _ "clock (mr_store s) + 1"]) simp
qed

lemma mem_pipe_ok: "mem_pipe cs s = (Inr (), s') \<Longrightarrow> redis_runs cs (mr_store s) (mr_store s')"
proof (induction cs arbitrary: s)
  case Nil
  then show ?case by (auto intro!: exI [of _ "clock (mr_store s)"])
next
  case (Cons c cs)
  then obtain r s1 where "mem_call c s = (Inr r, s1)" "mem_pipe cs s1 = (Inr (), s')"
    by (auto split: prod.splits sum.splits)
  with Cons.IH mem_contract [THEN redis_contract.call_ok] show ?case by fastforce
qed

lemma mem_pipe_error: "mem_pipe cs s = (Inl e, s') \<Longrightarrow>
    \<exists>ds. set ds \<subseteq> set cs \<and> redis_runs ds (mr_store s) (mr_store s')"
proof (induction cs arbitrary: s)
  case (Cons c cs)
  show ?case
  proof (cases "mem_call c s")
    case (Pair x s1)
    show ?thesis
    proof (cases x)
      case (Inr r)
      with Cons Pair obtain ds where ds: "set ds \<subseteq> set cs" "redis_runs ds (mr_store s1) (mr_store s')"
        by auto
      from Pair Inr mem_contract [THEN redis_contract.call_ok] ds(2)
      have "redis_runs (c # ds) (mr_store s) (mr_store s')" by fastforce
      with ds(1) show ?thesis by (intro exI [of _ "c # ds"]) auto
    next
      case (Inl f)
      with Cons.prems Pair have [simp]: "s1 = s'" by simp
      from Pair Inl mem_contract [THEN redis_contract.call_error]
      obtain t where t: "clock (mr_store s) \<le> t" and
        "mr_store s' = (mr_store s)\<lparr>clock := t\<rparr> \<or>
          (\<exists>r. redis_does c ((mr_store s)\<lparr>clock := t\<rparr>) r (mr_store s'))" by fastforce
      then consider "mr_store s' = (mr_store s)\<lparr>clock := t\<rparr>"
        | r where "redis_does c ((mr_store s)\<lparr>clock := t\<rparr>) r (mr_store s')" by blast
      then show ?thesis
      proof cases
        case 1
        with t show ?thesis by (intro exI [of _ "[]"]) auto
      next
        case 2
        with t have "redis_runs [c] (mr_store s) (mr_store s')"
          unfolding redis_runs.simps
          by (intro exI [of _ t] conjI exI [of _ r] exI [of _ "mr_store s'"]
              exI [of _ "clock (mr_store s')"]) simp_all
        then show ?thesis by (intro exI [of _ "[c]"]) simp
      qed
    qed
  qed
qed simp

interpretation mem: redis_pipeline mem_call mr_store mem_pipe
  by (intro redis_pipeline.intro mem_contract redis_pipeline_axioms.intro mem_pipe_ok mem_pipe_error)

end
