(* ===== verification/Db.thy ===== *)
theory Db
  imports Errors
begin

text \<open>
  The relational state: one record per ORM model of the program, the table constraints declared in
  the models' \<open>__table_args__\<close>, the row-level-security policies of the migrations, and a session
  with its transaction.  The column \<open>updated_at\<close>, which nothing reads back but the response
  schemas, is left out of the rows.
\<close>

subsection \<open>JSON documents\<close>

datatype json =
    JNull
  | JBool bool
  | JInt int
  | JFloat string
  | JStr string
  | JArr "json list"
  | JObj "(string \<times> json) list"

type_synonym jdict = "(string \<times> json) list"

text \<open>Equality of dictionaries does not depend on the order of the keys.\<close>

definition dict_eq :: "jdict \<Rightarrow> jdict \<Rightarrow> bool" where
  "dict_eq a b \<longleftrightarrow> (\<forall>k \<in> set (map fst a @ map fst b). map_of a k = map_of b k)"

lemma dict_eq_map_of: "dict_eq a b \<longleftrightarrow> map_of a = map_of b"
proof
  assume eq: "dict_eq a b"
  show "map_of a = map_of b"
  proof
    fix k
    show "map_of a k = map_of b k"
    proof (cases "k \<in> set (map fst a @ map fst b)")
      case True
      with eq show ?thesis by (simp only: dict_eq_def)
    next
      case False
      then have "map_of a k = None" "map_of b k = None"
        by (auto simp: map_of_eq_None_iff)
      then show ?thesis by simp
    qed
  qed
qed (simp add: dict_eq_def)

subsection \<open>Rows\<close>

record tenant_row =
  t_id :: uuid
  t_name :: string
  t_slug :: string
  t_plan :: string
  t_max_assets :: int
  t_scans_per_day :: int
  t_ai_level :: string
  t_report_types :: "string list option"
  t_active :: bool
  t_settings :: "jdict option"
  t_created :: time

record user_row =
  u_id :: uuid
  u_tenant :: "uuid option"
  u_email :: string
  u_password :: string
  u_name :: string
  u_role :: string
  u_active :: bool
  u_super :: bool
  u_last_login :: "time option"
  u_created :: time

record rtoken_row =
  rt_id :: uuid
  rt_user :: uuid
  rt_hash :: string
  rt_expires :: time
  rt_revoked :: "time option"
  rt_ip :: "string option"
  rt_created :: time

record asset_row =
  a_id :: uuid
  a_tenant :: uuid
  a_value :: string
  a_type :: string
  a_status :: string
  a_metadata :: "jdict option"
  a_created :: time

datatype scan_status = Pending | Running | Completed | Failed | ScanCancelled

record scan_row =
  sc_id :: uuid
  sc_tenant :: uuid
  sc_asset :: uuid
  sc_name :: string
  sc_type :: string
  sc_status :: scan_status
  sc_config :: "jdict option"
  sc_dispatched :: "time option"
  sc_started :: "time option"
  sc_completed :: "time option"
  sc_failure :: "string option"
  sc_raw :: "string option"
  sc_created :: time

text \<open>\<open>cvss_score\<close> is \<open>Numeric(4, 1)\<close>: it is kept in tenths.\<close>

record vuln_row =
  v_id :: uuid
  v_tenant :: uuid
  v_scan :: uuid
  v_title :: string
  v_description :: "string option"
  v_severity :: string
  v_status :: string
  v_closed :: "time option"
  v_cve :: "string option"
  v_cvss :: "int option"
  v_metadata :: "jdict option"
  v_created :: time

record report_row =
  rp_id :: uuid
  rp_tenant :: uuid
  rp_asset :: uuid
  rp_name :: string
  rp_type :: string
  rp_status :: string
  rp_summary :: "string option"
  rp_metadata :: "jdict option"
  rp_generated :: "time option"
  rp_created :: time

record enrichment_row =
  e_vuln :: uuid
  e_tenant :: uuid
  e_function :: string
  e_content :: "string option"
  e_status :: string
  e_error :: "string option"
  e_model :: "string option"
  e_version :: "string option"
  e_hash :: "string option"
  e_attempts :: int

record tables =
  tenants :: "tenant_row list"
  users :: "user_row list"
  rtokens :: "rtoken_row list"
  assets :: "asset_row list"
  scans :: "scan_row list"
  vulns :: "vuln_row list"
  reports :: "report_row list"
  enrichments :: "enrichment_row list"

subsection \<open>Constraints\<close>

definition tenants_ok :: "(string \<times> (tables \<Rightarrow> bool)) list" where
  "tenants_ok =
    [(''tenants_pkey'', \<lambda>t. distinct (map t_id (tenants t))),
     (''tenants_slug_key'', \<lambda>t. distinct (map t_slug (tenants t))),
     (''chk_tenants_ai_enrichment_level'',
        \<lambda>t. \<forall>r \<in> set (tenants t). t_ai_level r \<in> {''basic'', ''standard'', ''full''})]"

definition users_ok :: "(string \<times> (tables \<Rightarrow> bool)) list" where
  "users_ok =
    [(''chk_superadmin_no_tenant'', \<lambda>t. \<forall>r \<in> set (users t). \<not> (u_super r \<and> u_tenant r \<noteq> None)),
     (''chk_user_has_tenant'', \<lambda>t. \<forall>r \<in> set (users t). \<not> (\<not> u_super r \<and> u_tenant r = None)),
     (''chk_valid_role'', \<lambda>t. \<forall>r \<in> set (users t).
        u_role r \<in> {''viewer'', ''analyst'', ''ingestor'', ''admin'', ''superadmin''}),
     (''users_pkey'', \<lambda>t. distinct (map u_id (users t))),
     (''users_email_key'', \<lambda>t. distinct (map u_email (users t))),
     (''users_tenant_id_fkey'', \<lambda>t. \<forall>r \<in> set (users t).
        case u_tenant r of None \<Rightarrow> True | Some i \<Rightarrow> i \<in> t_id ` set (tenants t))]"

definition rtokens_ok :: "(string \<times> (tables \<Rightarrow> bool)) list" where
  "rtokens_ok =
    [(''refresh_tokens_pkey'', \<lambda>t. distinct (map rt_id (rtokens t))),
     (''refresh_tokens_token_hash_key'', \<lambda>t. distinct (map rt_hash (rtokens t))),
     (''refresh_tokens_user_id_fkey'',
        \<lambda>t. \<forall>r \<in> set (rtokens t). rt_user r \<in> u_id ` set (users t))]"

definition assets_ok :: "(string \<times> (tables \<Rightarrow> bool)) list" where
  "assets_ok =
    [(''chk_assets_asset_type'', \<lambda>t. \<forall>r \<in> set (assets t). a_type r \<in>
        {''hostname'', ''domain'', ''ip'', ''web_app'', ''subnet'', ''cloud_resource''}),
     (''chk_assets_status'',
        \<lambda>t. \<forall>r \<in> set (assets t). a_status r \<in> {''active'', ''inactive'', ''archived''}),
     (''assets_pkey'', \<lambda>t. distinct (map a_id (assets t))),
     (''uq_assets_tenant_type_value'',
        \<lambda>t. distinct (map (\<lambda>r. (a_tenant r, a_type r, a_value r)) (assets t))),
     (''assets_tenant_id_fkey'',
        \<lambda>t. \<forall>r \<in> set (assets t). a_tenant r \<in> t_id ` set (tenants t))]"

definition scans_ok :: "(string \<times> (tables \<Rightarrow> bool)) list" where
  "scans_ok =
    [(''chk_scans_scan_type'', \<lambda>t. \<forall>r \<in> set (scans t).
        sc_type r \<in> {''discovery'', ''vulnerability'', ''web'', ''full''}),
     (''scans_pkey'', \<lambda>t. distinct (map sc_id (scans t))),
     (''uq_scans_tenant_asset_name_pending'',
        \<lambda>t. distinct (map (\<lambda>r. (sc_tenant r, sc_asset r, sc_name r))
                          (filter (\<lambda>r. sc_status r = Pending) (scans t)))),
     (''scans_tenant_id_fkey'',
        \<lambda>t. \<forall>r \<in> set (scans t). sc_tenant r \<in> t_id ` set (tenants t)),
     (''fk_scans_asset_tenant'', \<lambda>t. \<forall>r \<in> set (scans t).
        (sc_asset r, sc_tenant r) \<in> (\<lambda>a. (a_id a, a_tenant a)) ` set (assets t))]"

definition vulns_ok :: "(string \<times> (tables \<Rightarrow> bool)) list" where
  "vulns_ok =
    [(''chk_vulnerabilities_severity'', \<lambda>t. \<forall>r \<in> set (vulns t).
        v_severity r \<in> {''critical'', ''high'', ''medium'', ''low'', ''info''}),
     (''chk_vulnerabilities_status'', \<lambda>t. \<forall>r \<in> set (vulns t).
        v_status r \<in> {''open'', ''fixed'', ''accepted_risk'', ''false_positive''}),
     (''vulnerabilities_pkey'', \<lambda>t. distinct (map v_id (vulns t))),
     (''vulnerabilities_tenant_id_fkey'',
        \<lambda>t. \<forall>r \<in> set (vulns t). v_tenant r \<in> t_id ` set (tenants t)),
     (''fk_vulnerabilities_scan_tenant'', \<lambda>t. \<forall>r \<in> set (vulns t).
        (v_scan r, v_tenant r) \<in> (\<lambda>s. (sc_id s, sc_tenant s)) ` set (scans t))]"

definition reports_ok :: "(string \<times> (tables \<Rightarrow> bool)) list" where
  "reports_ok =
    [(''chk_reports_report_type'', \<lambda>t. \<forall>r \<in> set (reports t).
        rp_type r \<in> {''vulnerability'', ''executive'', ''technical'', ''compliance''}),
     (''chk_reports_status'', \<lambda>t. \<forall>r \<in> set (reports t).
        rp_status r \<in> {''pending'', ''generating'', ''completed'', ''failed''}),
     (''reports_pkey'', \<lambda>t. distinct (map rp_id (reports t))),
     (''reports_tenant_id_fkey'',
        \<lambda>t. \<forall>r \<in> set (reports t). rp_tenant r \<in> t_id ` set (tenants t)),
     (''fk_reports_asset_tenant'', \<lambda>t. \<forall>r \<in> set (reports t).
        (rp_asset r, rp_tenant r) \<in> (\<lambda>a. (a_id a, a_tenant a)) ` set (assets t))]"

definition enrichment_functions :: "string list" where
  "enrichment_functions =
    [''executive_summary'', ''technical_description'', ''exploitability'',
     ''contextual_severity'', ''remediation'', ''business_impact'', ''references'',
     ''mitigation_plan'', ''hardening'']"

definition enrichments_ok :: "(string \<times> (tables \<Rightarrow> bool)) list" where
  "enrichments_ok =
    [(''chk_vulnerability_enrichments_function'',
        \<lambda>t. \<forall>r \<in> set (enrichments t). e_function r \<in> set enrichment_functions),
     (''chk_vulnerability_enrichments_status'',
        \<lambda>t. \<forall>r \<in> set (enrichments t). e_status r \<in> {''pending'', ''ok'', ''failed''}),
     (''chk_vulnerability_enrichments_attempts'',
        \<lambda>t. \<forall>r \<in> set (enrichments t). 0 \<le> e_attempts r),
     (''uq_vulnerability_enrichments_vulnerability_function'',
        \<lambda>t. distinct (map (\<lambda>r. (e_vuln r, e_function r)) (enrichments t))),
     (''vulnerability_enrichments_tenant_id_fkey'',
        \<lambda>t. \<forall>r \<in> set (enrichments t). e_tenant r \<in> t_id ` set (tenants t)),
     (''fk_vulnerability_enrichments_vulnerability_tenant'', \<lambda>t. \<forall>r \<in> set (enrichments t).
        (e_vuln r, e_tenant r) \<in> (\<lambda>v. (v_id v, v_tenant v)) ` set (vulns t))]"

definition constraints :: "(string \<times> (tables \<Rightarrow> bool)) list" where
  "constraints = tenants_ok @ users_ok @ rtokens_ok @ assets_ok @ scans_ok @ vulns_ok @
     reports_ok @ enrichments_ok"

text \<open>The name of the constraint a flush of these tables violates first.\<close>

definition violation :: "tables \<Rightarrow> string option" where
  "violation t = map_option fst (List.find (\<lambda>(n, ok). \<not> ok t) constraints)"

lemma violation_None: "violation t = None \<longleftrightarrow> (\<forall>(n, ok) \<in> set constraints. ok t)"
  by (auto simp: violation_def find_None_iff)

definition satisfied :: "(string \<times> (tables \<Rightarrow> bool)) list \<Rightarrow> tables \<Rightarrow> bool" where
  "satisfied cs t \<longleftrightarrow> list_all (\<lambda>(n, ok). ok t) cs"

lemma violation_satisfied: "violation t = None \<longleftrightarrow> satisfied constraints t"
  by (auto simp: violation_None satisfied_def list_all_iff)

lemma satisfied_constraints:
  "satisfied constraints t \<longleftrightarrow> satisfied tenants_ok t \<and> satisfied users_ok t \<and> satisfied rtokens_ok t \<and>
     satisfied assets_ok t \<and> satisfied scans_ok t \<and> satisfied vulns_ok t \<and> satisfied reports_ok t \<and>
     satisfied enrichments_ok t"
  by (auto simp: satisfied_def constraints_def)

text \<open>The constraints of the other tables do not read the scans, those of the vulnerabilities their keys.\<close>

lemma satisfied_scans [simp]:
  "satisfied tenants_ok (t\<lparr>scans := ss\<rparr>) = satisfied tenants_ok t"
  "satisfied users_ok (t\<lparr>scans := ss\<rparr>) = satisfied users_ok t"
  "satisfied rtokens_ok (t\<lparr>scans := ss\<rparr>) = satisfied rtokens_ok t"
  "satisfied assets_ok (t\<lparr>scans := ss\<rparr>) = satisfied assets_ok t"
  "satisfied reports_ok (t\<lparr>scans := ss\<rparr>) = satisfied reports_ok t"
  "satisfied enrichments_ok (t\<lparr>scans := ss\<rparr>) = satisfied enrichments_ok t"
  by (simp_all add: satisfied_def tenants_ok_def users_ok_def rtokens_ok_def assets_ok_def reports_ok_def
      enrichments_ok_def cong: option.case_cong)

lemma satisfied_vulns_keys:
  "(\<lambda>s. (sc_id s, sc_tenant s)) ` set ss = (\<lambda>s. (sc_id s, sc_tenant s)) ` set (scans t) \<Longrightarrow>
     satisfied vulns_ok (t\<lparr>scans := ss\<rparr>) = satisfied vulns_ok t"
  by (simp add: satisfied_def vulns_ok_def)

subsection \<open>Cascades\<close>

text \<open>\<open>ON DELETE CASCADE\<close>: the vulnerabilities of a deleted scan and their enrichments go with it.\<close>

definition delete_vulns_where :: "(vuln_row \<Rightarrow> bool) \<Rightarrow> tables \<Rightarrow> tables" where
  "delete_vulns_where p t = t\<lparr>
     enrichments := filter (\<lambda>e. \<not> (\<exists>v \<in> set (vulns t). p v \<and> v_id v = e_vuln e \<and> v_tenant v = e_tenant e))
       (enrichments t),
     vulns := filter (\<lambda>v. \<not> p v) (vulns t)\<rparr>"

definition delete_scans_where :: "(scan_row \<Rightarrow> bool) \<Rightarrow> tables \<Rightarrow> tables" where
  "delete_scans_where p t = (delete_vulns_where
      (\<lambda>v. \<exists>s \<in> set (scans t). p s \<and> sc_id s = v_scan v \<and> sc_tenant s = v_tenant v) t)
     \<lparr>scans := filter (\<lambda>s. \<not> p s) (scans t)\<rparr>"

definition delete_assets_where :: "(asset_row \<Rightarrow> bool) \<Rightarrow> tables \<Rightarrow> tables" where
  "delete_assets_where p t =
     (let gone = (\<lambda>i tn. \<exists>a \<in> set (assets t). p a \<and> a_id a = i \<and> a_tenant a = tn)
      in (delete_scans_where (\<lambda>s. gone (sc_asset s) (sc_tenant s)) t)
           \<lparr>reports := filter (\<lambda>r. \<not> gone (rp_asset r) (rp_tenant r)) (reports t),
            assets := filter (\<lambda>a. \<not> p a) (assets t)\<rparr>)"

subsection \<open>Row-level security\<close>

text \<open>
  The two settings the policies read.  \<open>set_config(..., true)\<close> is local to the transaction, so a
  commit or a rollback leaves \<open>no_rls\<close>, under which the policies show no row.
\<close>

record rls =
  g_tenant :: "uuid option"
  g_super :: bool

definition no_rls :: rls where
  "no_rls = \<lparr>g_tenant = None, g_super = False\<rparr>"

definition rls_row :: "rls \<Rightarrow> uuid \<Rightarrow> bool" where
  "rls_row g t \<longleftrightarrow> g_super g \<or> g_tenant g = Some t"

definition rls_user :: "rls \<Rightarrow> user_row \<Rightarrow> bool" where
  "rls_user g u \<longleftrightarrow> g_super g \<or> (u_tenant u \<noteq> None \<and> g_tenant g = u_tenant u)"

definition rls_rtoken :: "rls \<Rightarrow> tables \<Rightarrow> rtoken_row \<Rightarrow> bool" where
  "rls_rtoken g t r \<longleftrightarrow> g_super g \<or>
     (\<exists>u \<in> set (users t). u_id u = rt_user r \<and> u_tenant u \<noteq> None \<and> g_tenant g = u_tenant u)"

lemma no_rls_hides [simp]: "\<not> rls_row no_rls t" "\<not> rls_user no_rls u" "\<not> rls_rtoken no_rls tb r"
  by (auto simp: rls_row_def rls_user_def rls_rtoken_def no_rls_def)

subsection \<open>Sessions\<close>

record 'r world =
  committed :: tables
  work :: tables
  guc :: rls
  redis :: 'r

type_synonym ('r, 'a) db_prog = "('r world, exn, 'a) prog"

text \<open>
  \<open>refuse t\<close> is the error the server answers to a \<open>COMMIT\<close> of the tables \<open>t\<close>, when it answers one.
  A flush that fails rolls the transaction back, as the session of SQLAlchemy does; a commit flushes
  first.
\<close>

definition end_tx :: "tables \<Rightarrow> 'r world \<Rightarrow> 'r world" where
  "end_tx t w = w\<lparr>committed := t, work := t, guc := no_rls\<rparr>"

definition flush :: "('r, unit) db_prog" where
  "flush w = (case violation (work w) of
       None \<Rightarrow> (Inr (), w)
     | Some c \<Rightarrow> (Inl (IntegrityError c), end_tx (committed w) w))"

definition commit :: "(tables \<Rightarrow> exn option) \<Rightarrow> ('r, unit) db_prog" where
  "commit refuse = thenE flush (\<lambda>w. case refuse (work w) of
       Some e \<Rightarrow> (Inl e, end_tx (committed w) w)
     | None \<Rightarrow> (Inr (), end_tx (work w) w))"

definition rollback :: "('r, unit) db_prog" where
  "rollback w = (Inr (), end_tx (committed w) w)"

text \<open>\<open>set_tenant_context\<close> of \<open>app/core/database.py\<close>.\<close>

definition set_tenant_context :: "uuid option \<Rightarrow> bool \<Rightarrow> ('r, unit) db_prog" where
  "set_tenant_context tenant_id is_superadmin =
     (if \<not> is_superadmin \<and> tenant_id = None
      then raiseE (ValueError ''tenant_id requerido para usuarios no superadmin'')
      else if is_superadmin then modE (\<lambda>w. w\<lparr>guc := \<lparr>g_tenant = None, g_super = True\<rparr>\<rparr>)
      else modE (\<lambda>w. w\<lparr>guc := \<lparr>g_tenant = tenant_id, g_super = False\<rparr>\<rparr>))"

text \<open>A statement on the working tables, and the rows of a table a statement sees.\<close>

definition exec :: "(tables \<Rightarrow> tables) \<Rightarrow> ('r, unit) db_prog" where
  "exec f = modE (\<lambda>w. w\<lparr>work := f (work w)\<rparr>)"

definition seen_scans :: "'r world \<Rightarrow> scan_row list" where
  "seen_scans w = filter (\<lambda>r. rls_row (guc w) (sc_tenant r)) (scans (work w))"

definition seen_assets :: "'r world \<Rightarrow> asset_row list" where
  "seen_assets w = filter (\<lambda>r. rls_row (guc w) (a_tenant r)) (assets (work w))"

definition seen_vulns :: "'r world \<Rightarrow> vuln_row list" where
  "seen_vulns w = filter (\<lambda>r. rls_row (guc w) (v_tenant r)) (vulns (work w))"

definition seen_reports :: "'r world \<Rightarrow> report_row list" where
  "seen_reports w = filter (\<lambda>r. rls_row (guc w) (rp_tenant r)) (reports (work w))"

definition seen_tenants :: "'r world \<Rightarrow> tenant_row list" where
  "seen_tenants w = filter (\<lambda>r. rls_row (guc w) (t_id r)) (tenants (work w))"

definition seen_users :: "'r world \<Rightarrow> user_row list" where
  "seen_users w = filter (rls_user (guc w)) (users (work w))"

definition seen_rtokens :: "'r world \<Rightarrow> rtoken_row list" where
  "seen_rtokens w = filter (rls_rtoken (guc w) (work w)) (rtokens (work w))"

lemma end_tx_simps [simp]:
  "committed (end_tx t w) = t" "work (end_tx t w) = t" "guc (end_tx t w) = no_rls"
  "redis (end_tx t w) = redis w"
  by (simp_all add: end_tx_def)

lemma rollback_run [simp]: "rollback w = (Inr (), end_tx (committed w) w)"
  by (simp add: rollback_def)

lemma exec_run [simp]: "exec f w = (Inr (), w\<lparr>work := f (work w)\<rparr>)"
  by (simp add: exec_def)

lemma flush_ok: "violation (work w) = None \<Longrightarrow> flush w = (Inr (), w)"
  by (simp add: flush_def)

lemma flush_cases:
  "flush w = (Inr u, w') \<longleftrightarrow> violation (work w) = None \<and> w' = w"
  "flush w = (Inl e, w') \<longleftrightarrow>
     (\<exists>c. violation (work w) = Some c \<and> e = IntegrityError c \<and> w' = end_tx (committed w) w)"
  by (auto simp: flush_def split: option.splits)

lemma commit_Inr:
  "commit refuse w = (Inr u, w') \<longleftrightarrow>
     violation (work w) = None \<and> refuse (work w) = None \<and> w' = end_tx (work w) w"
  by (auto simp: commit_def thenE_def bindE_success flush_cases split: option.splits)

lemma commit_Inl:
  "commit refuse w = (Inl e, w') \<Longrightarrow> w' = end_tx (committed w) w"
  by (auto simp: commit_def thenE_def bindE_failure flush_cases split: option.splits)

lemma commit_redis [simp]: "redis (snd (commit refuse w)) = redis w"
  by (auto simp: commit_def thenE_def bindE_def flush_def split: option.splits prod.splits sum.splits)

lemma flush_redis [simp]: "redis (snd (flush w)) = redis w"
  by (auto simp: flush_def split: option.splits)

lemma set_tenant_context_run [simp]:
  "set_tenant_context None True w = (Inr (), w\<lparr>guc := \<lparr>g_tenant = None, g_super = True\<rparr>\<rparr>)"
  "set_tenant_context (Some t) False w = (Inr (), w\<lparr>guc := \<lparr>g_tenant = Some t, g_super = False\<rparr>\<rparr>)"
  by (simp_all add: set_tenant_context_def)


subsection \<open>Sample rows\<close>

definition sample_tenant :: "uuid \<Rightarrow> tenant_row" where
  "sample_tenant i = \<lparr>t_id = i, t_name = ''Acme'', t_slug = ''acme'' @ show_nat i, t_plan = ''free'',
     t_max_assets = 2, t_scans_per_day = 1, t_ai_level = ''basic'',
     t_report_types = Some [''vulnerability''], t_active = True, t_settings = None, t_created = 0\<rparr>"

definition sample_user :: "uuid \<Rightarrow> uuid option \<Rightarrow> string \<Rightarrow> string \<Rightarrow> user_row" where
  "sample_user i t email role = \<lparr>u_id = i, u_tenant = t, u_email = email, u_password = ''hash'',
     u_name = ''U'', u_role = role, u_active = True, u_super = (t = None), u_last_login = None,
     u_created = 0\<rparr>"

definition sample_asset :: "uuid \<Rightarrow> uuid \<Rightarrow> string \<Rightarrow> asset_row" where
  "sample_asset i t v = \<lparr>a_id = i, a_tenant = t, a_value = v, a_type = ''ip'', a_status = ''active'',
     a_metadata = None, a_created = 0\<rparr>"

definition sample_scan :: "uuid \<Rightarrow> uuid \<Rightarrow> uuid \<Rightarrow> string \<Rightarrow> scan_row" where
  "sample_scan i t a n = \<lparr>sc_id = i, sc_tenant = t, sc_asset = a, sc_name = n, sc_type = ''web'',
     sc_status = Pending, sc_config = Some [(''paths'', JArr [JStr ''/''])], sc_dispatched = None,
     sc_started = None, sc_completed = None, sc_failure = None, sc_raw = None, sc_created = 0\<rparr>"

definition sample_tables :: "scan_row list \<Rightarrow> tables" where
  "sample_tables ss = \<lparr>tenants = [sample_tenant 1], users = [sample_user 5 (Some 1) ''u@x.io'' ''admin''],
     rtokens = [], assets = [sample_asset 2 1 ''8.8.8.8''], scans = ss, vulns = [], reports = [],
     enrichments = []\<rparr>"

definition sample_world :: "'r \<Rightarrow> rls \<Rightarrow> scan_row list \<Rightarrow> 'r world" where
  "sample_world r g ss = \<lparr>committed = sample_tables ss, work = sample_tables ss, guc = g, redis = r\<rparr>"

definition no_refusal :: "tables \<Rightarrow> exn option" where
  "no_refusal t = None"

lemmas sample_defs = sample_tenant_def sample_user_def sample_asset_def sample_scan_def
  sample_tables_def sample_world_def no_refusal_def

lemmas constraint_defs = violation_def constraints_def tenants_ok_def users_ok_def rtokens_ok_def
  assets_ok_def scans_ok_def vulns_ok_def reports_ok_def enrichments_ok_def

end
