(* ===== verification/Tokens.thy ===== *)
theory Tokens
  imports Redis_Iface Db "HOL-Library.Countable"
begin

text \<open>
  \<open>app/core/security.py\<close>: password hashing around bcrypt, the role hierarchy, access tokens around
  PyJWT, and the revocation of tokens through the denylist and the sets of active token ids in Redis.
  bcrypt and PyJWT are parameters.  Logging and metrics are left out.
\<close>

instance json :: countable
  by countable_datatype

subsection \<open>Passwords\<close>

definition hash_password :: "(nat list \<Rightarrow> string \<Rightarrow> string) \<Rightarrow> string \<Rightarrow> string \<Rightarrow> string" where
  "hash_password hashpw salt plain = hashpw (take 72 (utf8 plain)) salt"

definition verify_password :: "(nat list \<Rightarrow> string \<Rightarrow> bool) \<Rightarrow> string \<Rightarrow> string \<Rightarrow> bool" where
  "verify_password checkpw plain hashed = checkpw (take 72 (utf8 plain)) hashed"

definition validate_password_length :: "string \<Rightarrow> ('s, exn, unit) prog" where
  "validate_password_length password =
    (if 72 < length (utf8 password) then raiseE (UserError 400 ''password_too_long'') else retE ())"

definition secure_compare :: "string \<Rightarrow> string \<Rightarrow> bool" where
  "secure_compare val_a val_b \<longleftrightarrow> utf8 val_a = utf8 val_b"

subsection \<open>Roles\<close>

definition ROLE_HIERARCHY :: "(string \<times> int) list" where
  "ROLE_HIERARCHY =
    [(''viewer'', 0), (''analyst'', 1), (''ingestor'', 1), (''admin'', 2), (''superadmin'', 99)]"

definition role_level :: "string \<Rightarrow> int" where
  "role_level r = (case map_of ROLE_HIERARCHY r of None \<Rightarrow> -1 | Some n \<Rightarrow> n)"

definition can_assign_role :: "string \<Rightarrow> string \<Rightarrow> bool" where
  "can_assign_role assigner_role target_role \<longleftrightarrow> role_level target_role < role_level assigner_role"

definition has_minimum_role :: "string \<Rightarrow> string \<Rightarrow> bool" where
  "has_minimum_role user_role required_role \<longleftrightarrow> role_level required_role \<le> role_level user_role"

lemma role_level_simps [simp]:
  "role_level ''viewer'' = 0" "role_level ''analyst'' = 1" "role_level ''ingestor'' = 1"
  "role_level ''admin'' = 2" "role_level ''superadmin'' = 99"
  by (simp_all add: role_level_def ROLE_HIERARCHY_def)

subsection \<open>Access tokens\<close>

text \<open>
  \<open>encode\<close> and \<open>decode\<close> are \<open>jwt.encode\<close> and \<open>jwt.decode\<close> with the key and the algorithm of the
  settings; \<open>decode\<close> reads the clock.  \<open>minutes\<close> is the life time of the token.
\<close>

definition token_payload ::
  "string \<Rightarrow> string \<Rightarrow> string option \<Rightarrow> string \<Rightarrow> bool \<Rightarrow> time \<Rightarrow> time \<Rightarrow> jdict" where
  "token_payload user_id jti tenant_id role is_superadmin now expire =
    [(''sub'', JStr user_id), (''jti'', JStr jti),
     (''tenant_id'', case tenant_id of None \<Rightarrow> JNull | Some t \<Rightarrow> JStr t),
     (''role'', JStr role), (''is_superadmin'', JBool is_superadmin),
     (''iat'', JInt (timestamp now)), (''exp'', JInt (timestamp expire))]"

definition create_access_token ::
  "(jdict \<Rightarrow> string) \<Rightarrow> string \<Rightarrow> time \<Rightarrow> int \<Rightarrow> string \<Rightarrow> string option \<Rightarrow> string \<Rightarrow> bool
   \<Rightarrow> exn + string \<times> string" where
  "create_access_token encode jti now minutes user_id tenant_id role is_superadmin =
    (if is_superadmin \<and> tenant_id \<noteq> None
     then Inl (ValueError ''Superadmin no puede tener tenant_id'')
     else if \<not> is_superadmin \<and> tenant_id = None
     then Inl (ValueError ''Usuario normal debe tener tenant_id'')
     else if map_of ROLE_HIERARCHY role = None
     then Inl (ValueError (''Rol invalido: '' @ role))
     else Inr (encode (token_payload user_id jti tenant_id role is_superadmin now
                         (now + seconds (60 * minutes))), jti))"

definition required_fields :: "string list" where
  "required_fields = [''sub'', ''jti'', ''role'', ''is_superadmin'', ''tenant_id'']"

definition decode_access_token :: "(string \<Rightarrow> exn + jdict) \<Rightarrow> string \<Rightarrow> exn + jdict" where
  "decode_access_token decode token = (case decode token of
      Inl e \<Rightarrow> Inl e
    | Inr payload \<Rightarrow> if \<forall>f \<in> set required_fields. f \<in> fst ` set payload then Inr payload
                     else Inl InvalidTokenError)"

definition get_token_remaining_seconds :: "jdict \<Rightarrow> time \<Rightarrow> int" where
  "get_token_remaining_seconds payload now =
    max ((case map_of payload ''exp'' of Some (JInt e) \<Rightarrow> e | _ \<Rightarrow> 0) - timestamp now) 0"

subsection \<open>Revocation in Redis\<close>

definition denylist_key :: "string \<Rightarrow> string" where
  "denylist_key jti = ''revoked:'' @ jti"

definition active_jtis_key :: "string \<Rightarrow> string" where
  "active_jtis_key user_id = ''active_jtis:'' @ user_id"

definition redis_exec :: "'r redis_call \<Rightarrow> rcmd \<Rightarrow> ('r, unit) redis_prog" where
  "redis_exec call c = thenE (redis_do call c) (retE ())"

definition deny :: "string \<Rightarrow> int \<Rightarrow> rcmd" where
  "deny jti ttl_seconds = SET (denylist_key jti) ''1'' False (Some (seconds ttl_seconds))"

definition revoke_access_token :: "'r redis_call \<Rightarrow> string \<Rightarrow> int \<Rightarrow> ('r, unit) redis_prog" where
  "revoke_access_token call jti ttl_seconds =
     whenE (0 < ttl_seconds) (redis_exec call (deny jti ttl_seconds))"

definition is_token_revoked :: "'r redis_call \<Rightarrow> string \<Rightarrow> ('r, bool) redis_prog" where
  "is_token_revoked call jti =
     bindE (redis_do call (EXISTS (denylist_key jti)))
       (\<lambda>r. retE (case r of RInt n \<Rightarrow> 0 < n | _ \<Rightarrow> False))"

definition track_jti :: "'r redis_call \<Rightarrow> string \<Rightarrow> string \<Rightarrow> ('r, unit) redis_prog" where
  "track_jti call user_id jti = redis_exec call (SADD (active_jtis_key user_id) jti)"

definition untrack_jti :: "'r redis_call \<Rightarrow> string \<Rightarrow> string \<Rightarrow> ('r, unit) redis_prog" where
  "untrack_jti call user_id jti = redis_exec call (SREM (active_jtis_key user_id) jti)"

text \<open>\<open>smembers\<close> answers a Python set.\<close>

definition reply_set :: "reply \<Rightarrow> string set" where
  "reply_set r = (case r of RSet ms \<Rightarrow> ms | _ \<Rightarrow> {})"

definition get_active_jtis :: "'r redis_call \<Rightarrow> string \<Rightarrow> ('r, string set) redis_prog" where
  "get_active_jtis call user_id =
     bindE (redis_do call (SMEMBERS (active_jtis_key user_id))) (\<lambda>r. retE (reply_set r))"

definition revoke_all_user_access_tokens :: "'r redis_call \<Rightarrow> string \<Rightarrow> int \<Rightarrow> ('r, unit) redis_prog" where
  "revoke_all_user_access_tokens call user_id ttl_seconds =
     bindE (redis_do call (SMEMBERS (active_jtis_key user_id)))
       (\<lambda>r. if reply_set r = {} then retE ()
            else thenE (forE (sorted_list_of_set (reply_set r))
                             (\<lambda>jti. redis_exec call (deny jti ttl_seconds)))
                   (redis_exec call (DEL (active_jtis_key user_id))))"

definition revoke_tokens_by_jtis :: "'r redis_pipe \<Rightarrow> string list \<Rightarrow> int \<Rightarrow> ('r, unit) redis_prog" where
  "revoke_tokens_by_jtis pipe jtis ttl_seconds =
     (if jtis = [] then retE ()
      else run_pipe pipe (map (\<lambda>j. deny j ttl_seconds) jtis))"

primrec read_jti_sets :: "'r redis_call \<Rightarrow> string list \<Rightarrow> ('r, (string \<times> string) list) redis_prog" where
  "read_jti_sets call [] = retE []"
| "read_jti_sets call (uid # uids) =
     bindE (redis_cmd call (SMEMBERS (active_jtis_key uid)))
       (\<lambda>r. bindE (read_jti_sets call uids)
         (\<lambda>rest. retE (map (Pair uid) (sorted_list_of_set (reply_set r)) @ rest)))"

definition revoke_all_user_access_tokens_batch ::
  "'r redis_call \<Rightarrow> 'r redis_pipe \<Rightarrow> string list \<Rightarrow> int \<Rightarrow> ('r, unit) redis_prog" where
  "revoke_all_user_access_tokens_batch call pipe user_ids ttl_seconds =
     (if user_ids = [] then retE ()
      else bindE (read_jti_sets call user_ids)
        (\<lambda>all_jtis. if all_jtis = [] then retE ()
           else run_pipe pipe (map (\<lambda>(uid, jti). deny jti ttl_seconds) all_jtis @
                               map (\<lambda>uid. DEL (active_jtis_key uid)) user_ids)))"

lemma token_keys [simp]:
  "denylist_key i = denylist_key j \<longleftrightarrow> i = j" "active_jtis_key u = active_jtis_key v \<longleftrightarrow> u = v"
  "active_jtis_key u \<noteq> denylist_key j" "denylist_key j \<noteq> active_jtis_key u"
  by (simp_all add: denylist_key_def active_jtis_key_def)

lemma redis_exec_Inr: "redis_exec call c s = (Inr u, t) \<longleftrightarrow> (\<exists>r. call c s = (Inr r, t))"
  by (auto simp: redis_exec_def thenE_def bindE_success redis_do_Inr)

lemma redis_exec_Inl: "redis_exec call c s = (Inl e, t) \<longleftrightarrow> redis_do call c s = (Inl e, t)"
  by (auto simp: redis_exec_def thenE_def bindE_failure)

lemma redis_exec_call:
  assumes "redis_exec call c s = (x, t)"
  obtains y where "call c s = (y, t)" and "x = Inr () \<longleftrightarrow> (\<exists>r. y = Inr r)"
  using assms that by (cases x) (auto simp: redis_exec_Inr redis_exec_Inl redis_do_Inl)

text \<open>The token is on the denylist at least until \<open>lo\<close>.\<close>

definition denied :: "rstore \<Rightarrow> time \<Rightarrow> string \<Rightarrow> bool" where
  "denied st lo jti \<longleftrightarrow>
     (\<exists>d \<ge> lo. store st (denylist_key jti) = Some (VStr ''1'', Some d))"

lemma denied_mono: "denied st lo j \<Longrightarrow> lo' \<le> lo \<Longrightarrow> denied st lo' j"
  unfolding denied_def by (meson order_trans)

lemma denied_store: "store st' (denylist_key j) = store st (denylist_key j) \<Longrightarrow>
    denied st' lo j \<longleftrightarrow> denied st lo j"
  by (simp add: denied_def)

lemma deny_does:
  "redis_does (deny jti n) st r st' \<longleftrightarrow>
     r = RBool True \<and> st' = put (denylist_key jti) (VStr ''1'') (Some (clock st + seconds n)) st"
  by (auto simp: redis_does_def deny_def)

lemma del_does: "redis_does (DEL k) st r st' \<longleftrightarrow>
    r = RInt (if live st k = None then 0 else 1) \<and> st' = del k st"
  by (auto simp: redis_does_def)

subsection \<open>What the operations on Redis guarantee\<close>

context redis_contract
begin

lemma deny_step:
  assumes "call (deny jti n) s = (x, s')"
  shows "x = Inr r \<Longrightarrow> denied (view s') (clock (view s) + seconds n) jti"
    and "denied (view s) lo j \<Longrightarrow> lo \<le> clock (view s) + seconds n \<Longrightarrow> denied (view s') lo j"
    and "k \<noteq> denylist_key jti \<Longrightarrow> store (view s') k = store (view s) k"
  using assms by (cases rule: call_effect; force simp: deny_does denied_def)+

lemma deny_all:
  assumes "forE js (\<lambda>j. redis_exec call (deny j n)) s = (x, s')"
  shows "(x = Inr () \<longrightarrow> (\<forall>j \<in> set js. denied (view s') (clock (view s) + seconds n) j)) \<and>
    (\<forall>k. (\<forall>j. k \<noteq> denylist_key j) \<longrightarrow> store (view s') k = store (view s) k) \<and>
    (\<forall>lo j. denied (view s) lo j \<and> lo \<le> clock (view s) + seconds n \<longrightarrow> denied (view s') lo j) \<and>
    clock (view s) \<le> clock (view s')"
  using assms
proof (induction js arbitrary: s)
  case (Cons j js)
  obtain y s1 where y: "redis_exec call (deny j n) s = (y, s1)" by fastforce
  from this obtain z where z: "call (deny j n) s = (z, s1)" "y = Inr () \<longleftrightarrow> (\<exists>r. z = Inr r)"
    by (rule redis_exec_call)
  note step = deny_step [OF z(1)] and c1 = call_clock [OF z(1)]
  show ?case
  proof (cases y)
    case (Inl e)
    with Cons.prems y have "x = Inl e" "s' = s1" by (auto simp: thenE_def bindE_def)
    with step c1 show ?thesis by auto
  next
    case (Inr u)
    with Cons.prems y have rest: "forE js (\<lambda>j. redis_exec call (deny j n)) s1 = (x, s')"
      by (simp add: thenE_def bindE_def)
    note IH = Cons.IH [OF rest]
    have "denied (view s1) (clock (view s) + seconds n) j" using step(1) z(2) Inr by auto
    with IH c1 have "denied (view s') (clock (view s) + seconds n) j" by auto
    moreover have "denied (view s') (clock (view s) + seconds n) i" if "i \<in> set js" "x = Inr ()" for i
      using IH c1 that by (auto intro: denied_mono)
    moreover have "denied (view s') lo i"
      if "denied (view s) lo i" "lo \<le> clock (view s) + seconds n" for lo i
      using IH c1 step(2) [OF that] that(2) by auto
    ultimately show ?thesis using IH step(3) c1 by auto
  qed
qed simp

lemma smembers_reads:
  assumes "call (SMEMBERS k) s = (x, s')"
  shows "store (view s') = store (view s)"
    and "store (view s) k = Some (VSet js, None) \<Longrightarrow> x = Inr r \<Longrightarrow> r = RSet js"
    and "store (view s) k = None \<Longrightarrow> x = Inr r \<Longrightarrow> r = RSet {}"
proof -
  show "store (view s') = store (view s)"
    by (rule call_reads [OF assms]) (auto simp: redis_does_def)
  show "store (view s) k = Some (VSet js, None) \<Longrightarrow> x = Inr r \<Longrightarrow> r = RSet js"
    "store (view s) k = None \<Longrightarrow> x = Inr r \<Longrightarrow> r = RSet {}"
    using assms by (auto dest!: call_ok simp: redis_does_def live_def as_set_def)
qed

lemma del_step:
  assumes "call (DEL k) s = (x, s')"
  shows "x = Inr r \<Longrightarrow> store (view s') k = None"
    and "store (view s') k = None \<or> store (view s') k = store (view s) k"
    and "k' \<noteq> k \<Longrightarrow> store (view s') k' = store (view s) k'"
  using assms by (cases rule: call_effect; force simp: del_does)+

lemma revoke_all_fail_closed:
  assumes "revoke_all_user_access_tokens call u n s = (x, s')"
    and "store (view s) (active_jtis_key u) = Some (VSet js, None)" and "finite js"
  shows "store (view s') (active_jtis_key u) = Some (VSet js, None) \<and> (x = Inr () \<longrightarrow> js = {}) \<or>
    store (view s') (active_jtis_key u) \<in> {None, Some (VSet js, None)} \<and>
      (\<forall>j \<in> js. denied (view s') (clock (view s) + seconds n) j) \<and>
      (x = Inr () \<longrightarrow> store (view s') (active_jtis_key u) = None)"
proof -
  obtain y s1 where y: "redis_do call (SMEMBERS (active_jtis_key u)) s = (y, s1)" by fastforce
  then obtain z where z: "call (SMEMBERS (active_jtis_key u)) s = (z, s1)"
    and yz: "\<And>r. y = Inr r \<longleftrightarrow> z = Inr r"
    by (cases y) (auto simp: redis_do_Inr redis_do_Inl)
  note rd = smembers_reads [OF z] and c1 = call_clock [OF z]
  show ?thesis
  proof (cases y)
    case (Inl e)
    with assms(1) y have "x = Inl e" "s' = s1"
      by (auto simp: revoke_all_user_access_tokens_def bindE_def)
    with rd(1) assms(2) show ?thesis by simp
  next
    case (Inr r)
    with yz rd(2) assms(2) have r: "r = RSet js" by blast
    show ?thesis
    proof (cases "js = {}")
      case True
      with assms(1) y Inr r have "x = Inr ()" "s' = s1"
        by (auto simp: revoke_all_user_access_tokens_def bindE_def reply_set_def)
      with rd(1) assms(2) True show ?thesis by simp
    next
      case False
      obtain f s2 where f: "forE (sorted_list_of_set js) (\<lambda>j. redis_exec call (deny j n)) s1 = (f, s2)"
        by fastforce
      note all = deny_all [OF f]
      have keep: "store (view s2) (active_jtis_key u) = Some (VSet js, None)"
        using all rd(1) assms(2) by simp
      show ?thesis
      proof (cases f)
        case (Inl e)
        with assms(1) y Inr r False f have "x = Inl e" "s' = s2"
          by (auto simp: revoke_all_user_access_tokens_def bindE_def thenE_def reply_set_def)
        with keep show ?thesis by simp
      next
        case (Inr v)
        with assms(1) y \<open>y = Inr r\<close> r False f
        have last: "redis_exec call (DEL (active_jtis_key u)) s2 = (x, s')"
          by (auto simp: revoke_all_user_access_tokens_def bindE_def thenE_def reply_set_def)
        from this obtain w where w: "call (DEL (active_jtis_key u)) s2 = (w, s')"
          "x = Inr () \<longleftrightarrow> (\<exists>r. w = Inr r)" by (rule redis_exec_call)
        have "denied (view s2) (clock (view s1) + seconds n) j" if "j \<in> js" for j
          using all Inr that assms(3) by simp
        then have "denied (view s') (clock (view s) + seconds n) j" if "j \<in> js" for j
          using that c1 del_step(3) [OF w(1), of "denylist_key j"]
          by (simp add: denied_store [of "view s'" j "view s2"]) (rule denied_mono, auto)
        with del_step(1,2) [OF w(1)] w(2) keep show ?thesis by auto
      qed
    qed
  qed
qed

lemma revoked_token_reported:
  assumes "is_token_revoked call jti s = (Inr b, s')" and "denied (view s) lo jti"
    and "clock (view s') < lo"
  shows "b"
proof -
  from assms(1) obtain r where r: "call (EXISTS (denylist_key jti)) s = (Inr r, s')"
    and b: "b = (case r of RInt n \<Rightarrow> 0 < n | _ \<Rightarrow> False)"
    by (auto simp: is_token_revoked_def bindE_success redis_do_Inr)
  from call_ok [OF r] obtain t where t: "redis_does (EXISTS (denylist_key jti))
      ((view s)\<lparr>clock := t\<rparr>) r (view s')" by blast
  then have "clock (view s') = t" using redis_does_clock by fastforce
  with t assms(2,3) b show ?thesis
    by (auto simp: redis_does_def denied_def live_def split: option.splits)
qed

end

subsection \<open>Batch revocation\<close>

context redis_pipeline
begin

lemma runs_revocation:
  assumes "redis_runs cs st st'"
    and "\<And>c. c \<in> set cs \<Longrightarrow> (\<exists>j. c = deny j n) \<or> (\<exists>u. c = DEL (active_jtis_key u))"
  shows "(\<forall>j. deny j n \<in> set cs \<longrightarrow> denied st' (clock st + seconds n) j) \<and>
    (\<forall>lo j. denied st lo j \<and> lo \<le> clock st + seconds n \<longrightarrow> denied st' lo j) \<and>
    (\<forall>u. DEL (active_jtis_key u) \<in> set cs \<or> store st (active_jtis_key u) = None \<longrightarrow>
         store st' (active_jtis_key u) = None) \<and> clock st \<le> clock st'"
  using assms
proof (induction cs arbitrary: st)
  case Nil
  then show ?case by (auto simp: denied_def)
next
  case (Cons c cs)
  from Cons.prems(1) obtain t r st1 where t: "clock st \<le> t"
    and c: "redis_does c (st\<lparr>clock := t\<rparr>) r st1" and rest: "redis_runs cs st1 st'" by auto
  have clk: "clock st1 = t" using redis_does_clock [OF c] by simp
  note IH = Cons.IH [OF rest Cons.prems(2)]
  have up: "denied st1 lo j \<Longrightarrow> lo \<le> clock st + seconds n \<Longrightarrow> denied st' lo j" for lo j
    using IH t clk by auto
  from Cons.prems(2) [of c] consider j where "c = deny j n" | u where "c = DEL (active_jtis_key u)"
    by auto
  then show ?case
  proof cases
    case 1
    with c have st1: "st1 = put (denylist_key j) (VStr ''1'') (Some (t + seconds n)) (st\<lparr>clock := t\<rparr>)"
      by (simp add: deny_does)
    have d1: "denied st1 (clock st + seconds n) j" using t by (simp add: st1 denied_def)
    have d2: "denied st1 lo i" if "denied st lo i" "lo \<le> clock st + seconds n" for lo i
      using that t by (auto simp: st1 denied_def)
    have "denied st' (clock st + seconds n) i" if "deny i n \<in> set (c # cs)" for i
    proof (cases "i = j")
      case True with d1 up show ?thesis by simp
    next
      case False
      with that 1 have "deny i n \<in> set cs" by (auto simp: deny_def)
      with IH t clk show ?thesis by (auto intro: denied_mono)
    qed
    moreover have "store st1 (active_jtis_key u) = store st (active_jtis_key u)" for u
      by (simp add: st1)
    ultimately show ?thesis using IH t clk d2 up 1 by (auto simp: deny_def)
  next
    case (2 u)
    with c have st1: "st1 = del (active_jtis_key u) (st\<lparr>clock := t\<rparr>)" by (simp add: del_does)
    have d2: "denied st1 lo i" if "denied st lo i" for lo i
      using that by (simp add: st1 denied_def)
    have "denied st' (clock st + seconds n) i" if "deny i n \<in> set (c # cs)" for i
      using that 2 IH t clk by (auto simp: deny_def intro: denied_mono)
    then show ?thesis using IH t clk d2 up 2 by (auto simp: st1)
  qed
qed

lemma read_jti_sets_all:
  assumes "read_jti_sets call uids s = (Inr xs, s')" and "u \<in> set uids"
    and "store (view s) (active_jtis_key u) = Some (VSet js, None)" and "finite js" and "j \<in> js"
  shows "(u, j) \<in> set xs \<and> clock (view s) \<le> clock (view s')"
  using assms
proof (induction uids arbitrary: s xs)
  case (Cons v uids)
  from Cons.prems(1) obtain r s1 rest where r: "call (SMEMBERS (active_jtis_key v)) s = (Inr r, s1)"
    and rest: "read_jti_sets call uids s1 = (Inr rest, s')"
    and xs: "xs = map (Pair v) (sorted_list_of_set (reply_set r)) @ rest"
    by (auto simp: bindE_success redis_cmd_Inr)
  note rd = smembers_reads [OF r] and c1 = call_clock [OF r]
  have clk: "clock (view s1) \<le> clock (view s')"
    using rest
  proof (induction uids arbitrary: s1 rest)
    case (Cons a uids)
    then show ?case by (auto simp: bindE_success redis_cmd_Inr dest!: call_clock) force
  qed simp
  show ?case
  proof (cases "u = v")
    case True
    with rd(2) Cons.prems(3) have "r = RSet js" by blast
    with Cons.prems True clk c1 show ?thesis by (simp add: xs reply_set_def)
  next
    case False
    with Cons.IH [OF rest] Cons.prems rd(1) c1 show ?thesis by (auto simp: xs)
  qed
qed simp

lemma batch_revokes_all:
  assumes "revoke_all_user_access_tokens_batch call pipe uids n s = (Inr (), s')"
    and "u \<in> set uids" and "store (view s) (active_jtis_key u) = Some (VSet js, None)"
    and "finite js" and "j \<in> js"
  shows "denied (view s') (clock (view s) + seconds n) j \<and>
    store (view s') (active_jtis_key u) = None"
proof -
  from assms(1,2) obtain xs s1 where xs: "read_jti_sets call uids s = (Inr xs, s1)"
    and run: "(if xs = [] then retE () else run_pipe pipe (map (\<lambda>(uid, jti). deny jti n) xs @
        map (\<lambda>uid. DEL (active_jtis_key uid)) uids)) s1 = (Inr (), s')"
    by (cases "uids = []")
      (auto simp: revoke_all_user_access_tokens_batch_def bindE_success simp del: retE_run)
  have j: "(u, j) \<in> set xs" and clk: "clock (view s) \<le> clock (view s1)"
    using read_jti_sets_all [OF xs assms(2-5)] by auto
  let ?cs = "map (\<lambda>(uid, jti). deny jti n) xs @ map (\<lambda>uid. DEL (active_jtis_key uid)) uids"
  from run j have "pipe ?cs s1 = (Inr (), s')" by (auto simp: run_pipe_Inr split: if_splits)
  note runs = runs_revocation [OF pipe_ok [OF this], of n]
  have cmds: "(\<exists>j. c = deny j n) \<or> (\<exists>u. c = DEL (active_jtis_key u))" if "c \<in> set ?cs" for c
    using that by auto
  have in1: "deny j n \<in> set ?cs" using j by force
  have in2: "DEL (active_jtis_key u) \<in> set ?cs" using assms(2) by simp
  have "denied (view s') (clock (view s1) + seconds n) j \<and>
      store (view s') (active_jtis_key u) = None"
    using runs [OF cmds] in1 in2 by blast
  with clk show ?thesis by (auto intro: denied_mono)
qed

end

subsection \<open>Properties\<close>

text \<open>
  The length check makes the 72-byte cut of bcrypt harmless.  For two passwords that both pass
  \<open>validate_password_length\<close>, the hash of one verifies the other only if they are the same text.
  The hypothesis is bcrypt's own promise: a byte string verifies against the hash of itself only.
\<close>

theorem password_not_truncated:
  assumes "\<And>b b' salt. checkpw b (hashpw b' salt) \<longleftrightarrow> b = b'"
    and "validate_password_length p s = (Inr (), s1)" and "validate_password_length q t = (Inr (), t1)"
  shows "verify_password checkpw q (hash_password hashpw salt p) \<longleftrightarrow> q = p"
  using assms by (auto simp: verify_password_def hash_password_def validate_password_length_def
      split: if_splits)

definition unary :: "nat list \<Rightarrow> string \<Rightarrow> string" where
  "unary b salt = concat (map (\<lambda>n. replicate n CHR ''i'' @ ''.'') b)"

lemma replicate_dot: "replicate m x @ y # xs = replicate n x @ y # ys \<Longrightarrow> x \<noteq> y \<Longrightarrow> m = n \<and> xs = ys"
  by (induction m arbitrary: n) (case_tac n; auto)+

lemma unary_inj: "unary b salt = unary b' salt' \<longleftrightarrow> b = b'"
proof (induction b arbitrary: b')
  case Nil
  show ?case by (cases b') (auto simp: unary_def)
next
  case (Cons n b)
  then show ?case
    by (cases b') (auto simp: unary_def dest: replicate_dot)
qed

lemma password_not_truncated_witness:
  "\<not> verify_password (\<lambda>b h. h = unary b '''') ''secret2'' (hash_password unary ''salt'' ''secret1'')"
proof -
  have "validate_password_length p () = (Inr (), ())" if "p \<in> {''secret1'', ''secret2''}" for p
    using that by (auto simp: validate_password_length_def utf8_def utf8_char_def Let_def)
  then show ?thesis
    by (subst password_not_truncated [where s = "()" and t = "()"]) (auto simp: unary_inj)
qed


text \<open>A token format that satisfies the hypothesis: the number of the payload, in decimal.\<close>

definition sample_encode :: "jdict \<Rightarrow> string" where
  "sample_encode p = show_nat (to_nat p)"

definition sample_decode :: "time \<Rightarrow> string \<Rightarrow> exn + jdict" where
  "sample_decode t token = (let p = from_nat (read_nat token) in
     case map_of p ''exp'' of Some (JInt e) \<Rightarrow> if timestamp t < e then Inr p else Inl InvalidTokenError
     | _ \<Rightarrow> Inl InvalidTokenError)"



definition sample_sessions :: "(redis_exc \<times> bool) option list \<Rightarrow> mem_redis" where
  "sample_sessions fs = (mem_empty fs)\<lparr>mr_store := \<lparr>clock = 5, entries =
     [(active_jtis_key ''7'', VSet {''a'', ''b''}, None)]\<rparr>\<rparr>"

lemma sample_sessions_store:
  "store (mr_store (sample_sessions fs)) (active_jtis_key ''7'') = Some (VSet {''a'', ''b''}, None)"
  by (simp add: sample_sessions_def store_def)




end
