(* ===== verification/Event_Bus.thy ===== *)
theory Event_Bus
  imports Tokens
begin

text \<open>
  The publisher of \<open>app/event_bus/bus.py\<close>: \<open>EventBus.publish\<close> and the dispatch of a consumed event
  with its persistent retry counter and its dead letter queue, and the events of
  \<open>app/event_schemas.py\<close> as the fields their \<open>model_dump\<close> gives.  \<open>eb_str\<close> stands for \<open>str\<close> on field
  values.
\<close>

datatype pyval = PNone | PStr string | PUuid uuid | PTime time | PInt int | PList "string list"
  | PDict "jdict option"

record event =
  ev_type :: string
  ev_fields :: "(string \<times> pyval) list"

record 'r event_bus =
  eb_call :: "'r redis_call"
  eb_str :: "pyval \<Rightarrow> string"
  eb_prefix :: string
  eb_maxlen :: nat
  eb_max_retries :: int
  eb_retry_ttl :: int

definition stream_name :: "'r event_bus \<Rightarrow> string \<Rightarrow> string" where
  "stream_name bus event_type = eb_prefix bus @ '':'' @ event_type"

definition payload_of :: "'r event_bus \<Rightarrow> event \<Rightarrow> (string \<times> string) list" where
  "payload_of bus event =
     map (\<lambda>(k, v). (k, eb_str bus v)) (filter (\<lambda>(k, v). v \<noteq> PNone) (ev_fields event))"

definition publish :: "'r event_bus \<Rightarrow> event \<Rightarrow> string option \<Rightarrow> ('r, string) redis_prog" where
  "publish bus event stream =
     (let stream_key = (case stream of Some k \<Rightarrow> k | None \<Rightarrow> stream_name bus (ev_type event))
      in bindE (redis_do (eb_call bus) (XADD stream_key (payload_of bus event) (Some (eb_maxlen bus))))
           (\<lambda>r. retE (case r of RStr i \<Rightarrow> i | _ \<Rightarrow> '''')))"

subsection \<open>Dispatching a consumed event\<close>

definition RETRY_COUNT_KEY :: string where
  "RETRY_COUNT_KEY = ''_retry_count''"

definition RETRY_HASH_FIELD :: string where
  "RETRY_HASH_FIELD = ''retry_count''"

definition retry_key :: "string \<Rightarrow> string \<Rightarrow> string" where
  "retry_key event_type message_id = ''event_retry:'' @ event_type @ '':'' @ message_id"

definition dlq_stream :: "'r event_bus \<Rightarrow> string \<Rightarrow> string" where
  "dlq_stream bus event_type = eb_prefix bus @ '':dlq:'' @ event_type"

text \<open>
  The state is the server and the \<open>data\<close> dict of the message, which the function updates.  \<open>persistent\<close>
  is \<open>bool(redis_client and message_id)\<close>; \<open>client\<close> says whether there is a client at all.
\<close>

type_synonym 'r dispatch_state = "'r \<times> (string \<times> string) list"

definition dredis :: "('r, 'a) redis_prog \<Rightarrow> ('r dispatch_state, exn, 'a) prog" where
  "dredis m s = (case m (fst s) of (x, r) \<Rightarrow> (x, (r, snd s)))"

text \<open>\<open>except Exception\<close> without a name: any exception of the application, not a cancellation.\<close>

definition except_exception :: "('s, exn, 'a) prog \<Rightarrow> ('s, exn, 'a) prog \<Rightarrow> ('s, exn, 'a) prog" where
  "except_exception m h = catchE m (\<lambda>e. if is_app_exception e then h else raiseE e)"

definition local_count :: "('r dispatch_state, exn, int) prog" where
  "local_count = bindE (getE (\<lambda>s. map_of (snd s) RETRY_COUNT_KEY))
     (\<lambda>v. case v of None \<Rightarrow> retE 0
        | Some t \<Rightarrow> (case read_int t of None \<Rightarrow> raiseE (ValueError ''invalid literal for int()'')
                    | Some n \<Rightarrow> retE n))"

definition read_retry_count :: "'r redis_call \<Rightarrow> bool \<Rightarrow> string \<Rightarrow> ('r dispatch_state, exn, int) prog" where
  "read_retry_count call persistent key =
     (if persistent then except_exception
        (bindE (dredis (redis_cmd call (HGET key RETRY_HASH_FIELD))) (\<lambda>r. case r of
            RStr t \<Rightarrow> (case read_int t of None \<Rightarrow> raiseE (ValueError ''invalid literal for int()'')
                      | Some n \<Rightarrow> retE n)
          | _ \<Rightarrow> retE 0))
        local_count
      else local_count)"

definition cleanup_retry_key :: "'r redis_call \<Rightarrow> bool \<Rightarrow> string \<Rightarrow> ('r dispatch_state, exn, unit) prog" where
  "cleanup_retry_key call persistent key =
     whenE persistent (except_exception (dredis (thenE (redis_cmd call (DEL key)) (retE ()))) (retE ()))"

definition set_local_count :: "int \<Rightarrow> ('r dispatch_state, exn, unit) prog" where
  "set_local_count n = modE (\<lambda>(r, data). (r, AList.update RETRY_COUNT_KEY (show_int n) data))"

definition persist_retry ::
  "'r event_bus \<Rightarrow> bool \<Rightarrow> string \<Rightarrow> int \<Rightarrow> ('r dispatch_state, exn, unit) prog" where
  "persist_retry bus persistent key retry_count =
     (if persistent then except_exception
        (thenE (dredis (redis_cmd (eb_call bus) (HINCRBY key RETRY_HASH_FIELD 1)))
          (thenE (dredis (redis_cmd (eb_call bus) (EXPIRE key (seconds (eb_retry_ttl bus))))) (retE ())))
        (set_local_count (retry_count + 1))
      else set_local_count (retry_count + 1))"

definition append_to_dlq :: "'r redis_call \<Rightarrow> string \<Rightarrow> (string \<times> string) list \<Rightarrow> ('r, unit) redis_prog" where
  "append_to_dlq call stream payload = redis_exec call (XADD stream payload None)"

text \<open>
  \<open>handler\<close> is the handler chosen by the event type, which raises or returns; \<open>now\<close> and \<open>reason\<close> are the
  texts of the instant and of the exception.
\<close>

definition dispatch_event ::
  "'r event_bus \<Rightarrow> (string \<Rightarrow> (string \<times> string) list \<Rightarrow> exn option) \<Rightarrow> string \<Rightarrow> string \<Rightarrow> bool
   \<Rightarrow> string \<Rightarrow> string option \<Rightarrow> ('r dispatch_state, exn, bool) prog" where
  "dispatch_event bus handler reason now client event_type message_id =
    (let persistent = (client \<and> message_id \<noteq> None \<and> message_id \<noteq> Some '''');
         key = retry_key event_type (case message_id of None \<Rightarrow> '''' | Some m \<Rightarrow> m)
     in bindE (read_retry_count (eb_call bus) persistent key) (\<lambda>retry_count.
        bindE (getE (\<lambda>s. handler event_type (snd s))) (\<lambda>failure.
        case failure of
          None \<Rightarrow> thenE (cleanup_retry_key (eb_call bus) persistent key) (retE True)
        | Some exc \<Rightarrow>
            if \<not> is_app_exception exc then raiseE exc
            else if retry_count < eb_max_retries bus
            then thenE (persist_retry bus persistent key retry_count) (raiseE exc)
            else if \<not> client then retE False
            else bindE (getE snd) (\<lambda>data.
              thenE (dredis (append_to_dlq (eb_call bus) (dlq_stream bus event_type)
                       (AList.update ''_dlq_timestamp'' now (AList.update ''_dlq_reason'' reason data))))
                (thenE (cleanup_retry_key (eb_call bus) persistent key) (retE True))))))"

text \<open>The handlers of the source: \<open>_handle_auth_login\<close> reads text fields only and cannot raise.\<close>

definition source_handler :: "string \<Rightarrow> (string \<times> string) list \<Rightarrow> exn option" where
  "source_handler event_type data = None"

subsection \<open>What dispatching guarantees\<close>

lemma dredis_run: "dredis m (r, d) = (x, s') \<longleftrightarrow> (\<exists>t. m r = (x, t) \<and> s' = (t, d))"
  by (auto simp: dredis_def split: prod.splits)

lemma except_exception_cases:
  assumes "except_exception m h s = (x, t)"
  obtains "m s = (x, t)" | e u where "m s = (Inl e, u)" and "is_app_exception e" and "h u = (x, t)"
  using assms by (cases "m s"; cases "fst (m s)")
    (auto simp: except_exception_def catchE_def split: if_splits)

lemma local_count_state: "local_count s = (x, t) \<Longrightarrow> t = s"
  by (auto simp: local_count_def bindE_def split: option.splits)

lemma read_retry_count_state:
  assumes "read_retry_count call p key (r, data) = (x, (r', data'))"
  shows "data' = data \<and> (r' = r \<or> (\<exists>y. call (HGET key RETRY_HASH_FIELD) r = (y, r')))"
proof (cases p)
  case False
  with assms show ?thesis by (auto simp: read_retry_count_def dest: local_count_state)
next
  case True
  let ?m = "bindE (dredis (redis_cmd call (HGET key RETRY_HASH_FIELD))) (\<lambda>r. case r of
      RStr t \<Rightarrow> (case read_int t of None \<Rightarrow> raiseE (ValueError ''invalid literal for int()'')
                | Some n \<Rightarrow> retE n) | _ \<Rightarrow> retE 0)"
  have m: "d = data \<and> (\<exists>y. call (HGET key RETRY_HASH_FIELD) r = (y, u))"
    if "?m (r, data) = (z, (u, d))" for z u d
    using that by (auto simp: bindE_def dredis_def redis_cmd_def
        split: prod.splits sum.splits reply.splits option.splits)
  from assms True have "except_exception ?m local_count (r, data) = (x, (r', data'))"
    by (simp add: read_retry_count_def)
  then show ?thesis
  proof (cases rule: except_exception_cases)
    case 1
    with m show ?thesis by blast
  next
    case (2 e u)
    obtain a b where u: "u = (a, b)" by fastforce
    with 2 local_count_state [OF 2(3)] m [of "Inl e" a b] show ?thesis by auto
  qed
qed

lemma cleanup_state:
  assumes "cleanup_retry_key call p key (r, data) = (x, (r', data'))"
  shows "data' = data \<and> (r' = r \<or> (\<exists>y. call (DEL key) r = (y, r')))"
  using assms
  by (auto simp: cleanup_retry_key_def whenE_def except_exception_def catchE_def dredis_def thenE_def
      bindE_def redis_cmd_def split: if_splits prod.splits sum.splits)

context redis_contract
begin

lemma publish_appends:
  assumes "publish bus event (Some stream) s = (Inr i, s')" and "eb_call bus = call"
  shows "\<exists>es i d. store (view s') stream = Some (VStream (es @ [(i, payload_of bus event)]), d)"
proof -
  from assms obtain r where
    "call (XADD stream (payload_of bus event) (Some (eb_maxlen bus))) s = (Inr r, s')"
    by (auto simp: publish_def bindE_success redis_do_Inr)
  from call_ok [OF this] show ?thesis by (auto simp: redis_does_def)
qed

lemma xadd_appends:
  assumes "call (XADD k fs None) s = (Inr r, s')"
  shows "\<exists>es i d. store (view s') k = Some (VStream (es @ [(i, fs)]), d)"
  using call_ok [OF assms] by (auto simp: redis_does_def)

end

text \<open>
  No consumed event is lost.  When the dispatch answers \<open>True\<close>, on which the consumer acknowledges
  the message, either its handler returned, or the last entry of the dead letter stream is this event
  with all its fields and the reason; it answers \<open>False\<close> only when there is no Redis client.
\<close>

theorem dispatch_no_loss:
  assumes "redis_contract (eb_call bus) view" and "eb_prefix bus = ''events''"
    and "dispatch_event bus handler reason now client event_type message_id (r, data) = (Inr b, (r', data'))"
  shows "if b then handler event_type data = None \<or>
      (\<exists>es i d. store (view r') (dlq_stream bus event_type) = Some (VStream (es @ [(i, AList.update
         ''_dlq_timestamp'' now (AList.update ''_dlq_reason'' reason data))]), d))
    else \<not> client \<and> handler event_type data \<noteq> None"
proof -
  define key where "key = retry_key event_type (case message_id of None \<Rightarrow> '''' | Some m \<Rightarrow> m)"
  define p where "p = (client \<and> message_id \<noteq> None \<and> message_id \<noteq> Some '''')"
  let ?call = "eb_call bus" and ?dlq = "dlq_stream bus event_type"
  have keys: "key \<noteq> ?dlq" using assms(2) by (simp add: key_def retry_key_def dlq_stream_def)
  note run = assms(3) [unfolded dispatch_event_def Let_def, folded p_def key_def]
  from run obtain n r1 d1 where "read_retry_count ?call p key (r, data) = (Inr n, (r1, d1))"
    and rest: "(case handler event_type d1 of
          None \<Rightarrow> thenE (cleanup_retry_key ?call p key) (retE True)
        | Some exc \<Rightarrow>
            if \<not> is_app_exception exc then raiseE exc
            else if n < eb_max_retries bus
            then thenE (persist_retry bus p key n) (raiseE exc)
            else if \<not> client then retE False
            else bindE (getE snd) (\<lambda>data.
              thenE (dredis (append_to_dlq ?call ?dlq
                       (AList.update ''_dlq_timestamp'' now (AList.update ''_dlq_reason'' reason data))))
                (thenE (cleanup_retry_key ?call p key) (retE True)))) (r1, d1) = (Inr b, (r', data'))"
    by (auto simp: bindE_success)
  from read_retry_count_state [OF this(1)] have [simp]: "d1 = data" by simp
  show ?thesis
  proof (cases "handler event_type data")
    case None
    with rest show ?thesis by (auto simp: thenE_def bindE_success)
  next
    case (Some exc)
    show ?thesis
    proof (cases client)
      case False
      with rest Some show ?thesis by (auto simp: thenE_def bindE_success split: if_splits)
    next
      case True
      with rest Some obtain u t where
        ap: "append_to_dlq ?call ?dlq (AList.update ''_dlq_timestamp'' now
            (AList.update ''_dlq_reason'' reason data)) r1 = (Inr u, t)"
        and cl: "cleanup_retry_key ?call p key (t, data) = (Inr (), (r', data'))" and b
        by (auto simp: thenE_def bindE_success dredis_run split: if_splits)
      from ap obtain q where "?call (XADD ?dlq (AList.update ''_dlq_timestamp'' now
            (AList.update ''_dlq_reason'' reason data)) None) r1 = (Inr q, t)"
        by (auto simp: append_to_dlq_def redis_exec_Inr)
      from redis_contract.xadd_appends [OF assms(1) this] obtain es i d where
        "store (view t) ?dlq = Some (VStream (es @ [(i, AList.update ''_dlq_timestamp'' now
            (AList.update ''_dlq_reason'' reason data))]), d)" by blast
      moreover have "store (view r') ?dlq = store (view t) ?dlq"
        using cleanup_state [OF cl] redis_contract.call_frame [OF assms(1), of "DEL key" t] keys by auto
      ultimately show ?thesis using \<open>b\<close> by auto
    qed
  qed
qed

definition sample_bus :: "mem_redis event_bus" where
  "sample_bus = \<lparr>eb_call = mem_call, eb_str = (\<lambda>_. ''v''), eb_prefix = ''events'', eb_maxlen = 100000,
     eb_max_retries = 3, eb_retry_ttl = 86400\<rparr>"

definition failing_handler :: "string \<Rightarrow> (string \<times> string) list \<Rightarrow> exn option" where
  "failing_handler event_type data = Some (ValueError ''bad'')"

definition sample_retries :: mem_redis where
  "sample_retries = (mem_empty [])\<lparr>mr_store := \<lparr>clock = 0, entries =
     [(retry_key ''auth.login'' ''1-0'', VHash [(RETRY_HASH_FIELD, ''3'')], None)]\<rparr>\<rparr>"

lemma dispatch_no_loss_witness:
  "\<exists>s' es i d. dispatch_event sample_bus failing_handler ''bad'' ''t'' True ''auth.login'' (Some ''1-0'')
      (sample_retries, [(''user_id'', ''7'')]) = (Inr True, s') \<and>
     store (mr_store (fst s')) ''events:dlq:auth.login'' = Some (VStream (es @ [(i,
       [(''user_id'', ''7''), (''_dlq_reason'', ''bad''), (''_dlq_timestamp'', ''t'')])]), d)"
proof -
  let ?m = "dispatch_event sample_bus failing_handler ''bad'' ''t'' True ''auth.login'' (Some ''1-0'')"
  let ?s = "(sample_retries, [(''user_id'', ''7'')])"
  have num: "read_int ''3'' = Some 3" by code_simp
  have "fst (?m ?s) = Inr True"
    by (simp add: dispatch_event_def read_retry_count_def cleanup_retry_key_def except_exception_def
        append_to_dlq_def redis_exec_def dredis_def dlq_stream_def retry_key_def RETRY_HASH_FIELD_def
        failing_handler_def sample_bus_def sample_retries_def num eval_simps mem_eval_simps
        cong: eval_congs)
  then have run: "?m ?s = (Inr True, (fst (snd (?m ?s)), snd (snd (?m ?s))))" by (simp add: prod_eq_iff)
  have c: "redis_contract (eb_call sample_bus) mr_store" by (simp add: sample_bus_def mem_contract)
  have "eb_prefix sample_bus = ''events''" by (simp add: sample_bus_def)
  from dispatch_no_loss [OF c this run] obtain es i d where
    "store (mr_store (fst (snd (?m ?s)))) ''events:dlq:auth.login'' = Some (VStream (es @ [(i,
       [(''user_id'', ''7''), (''_dlq_reason'', ''bad''), (''_dlq_timestamp'', ''t'')])]), d)"
    by (auto simp: failing_handler_def dlq_stream_def sample_bus_def)
  moreover have "?m ?s = (Inr True, snd (?m ?s))" using run by simp
  ultimately show ?thesis by (metis (no_types))
qed

end
