(* ===== verification/Service_Base.thy ===== *)
theory Service_Base
  imports Event_Bus
begin

text \<open>
  What the services of the modules share: Redis programs inside a database session, the result methods
  of SQLAlchemy, the handling of integrity errors, statements that are checked against the row-level
  policy, and the common end of every mutation, which commits and only then publishes.
\<close>

definition on_redis :: "('r, 'a) redis_prog \<Rightarrow> ('r, 'a) db_prog" where
  "on_redis m w = (case m (redis w) of (x, r) \<Rightarrow> (x, w\<lparr>redis := r\<rparr>))"

text \<open>\<open>scalar_one_or_none\<close> and \<open>scalar_one\<close>.\<close>

definition scalar_one_or_none :: "'a list \<Rightarrow> ('s, exn, 'a option) prog" where
  "scalar_one_or_none xs = (case xs of [] \<Rightarrow> retE None | [x] \<Rightarrow> retE (Some x)
     | _ \<Rightarrow> raiseE (RuntimeError ''MultipleResultsFound''))"

definition scalar_one :: "'a list \<Rightarrow> ('s, exn, 'a) prog" where
  "scalar_one xs = (case xs of [x] \<Rightarrow> retE x | [] \<Rightarrow> raiseE (RuntimeError ''NoResultFound'')
     | _ \<Rightarrow> raiseE (RuntimeError ''MultipleResultsFound''))"

definition tenant_predicate :: "uuid option \<Rightarrow> uuid \<Rightarrow> bool" where
  "tenant_predicate tenant_id t \<longleftrightarrow> (case tenant_id of None \<Rightarrow> True | Some i \<Rightarrow> t = i)"

text \<open>The driver reports the constraint by name; \<open>_violates_constraint\<close> looks for it in the report.\<close>

definition violates_constraint :: "exn \<Rightarrow> string \<Rightarrow> bool" where
  "violates_constraint exc constraint_name =
     (case exc of IntegrityError report \<Rightarrow> is_infix constraint_name report | _ \<Rightarrow> False)"

text \<open>\<open>except IntegrityError as exc\<close>.\<close>

definition except_integrity :: "('s, exn, 'a) prog \<Rightarrow> (exn \<Rightarrow> ('s, exn, 'a) prog) \<Rightarrow> ('s, exn, 'a) prog" where
  "except_integrity m h = catchE m (\<lambda>e. case e of IntegrityError _ \<Rightarrow> h e | _ \<Rightarrow> raiseE e)"

text \<open>
  An \<open>INSERT\<close> or an \<open>UPDATE\<close> that leaves a row the policy hides is refused by the server
  (\<open>USING\<close> also checks the new row).
\<close>

definition insert_checked :: "(rls \<Rightarrow> bool) \<Rightarrow> (tables \<Rightarrow> tables) \<Rightarrow> ('r, unit) db_prog" where
  "insert_checked allowed f w =
     (if allowed (guc w) then flush (w\<lparr>work := f (work w)\<rparr>)
      else (Inl RowSecurityError, end_tx (committed w) w))"

text \<open>A value or an exception as a program, and \<open>if await check_redis_healthy(redis)\<close>.\<close>

definition ofE :: "exn + 'a \<Rightarrow> ('s, exn, 'a) prog" where
  "ofE x = (case x of Inl e \<Rightarrow> raiseE e | Inr v \<Rightarrow> retE v)"

definition require_redis :: "'r redis_call \<Rightarrow> ('r, unit) db_prog" where
  "require_redis call = bindE (on_redis (check_redis_healthy call))
     (\<lambda>healthy. if healthy then retE () else raiseE service_unavailable)"

text \<open>
  The session of a request, \<open>get_db\<close> of \<open>app/core/database.py\<close>: it begins a transaction, commits it when
  the request returns and rolls it back when an exception leaves it.
\<close>

definition with_session :: "(tables \<Rightarrow> exn option) \<Rightarrow> ('r, 'a) db_prog \<Rightarrow> ('r, 'a) db_prog" where
  "with_session refuse m = bindE (catchE m (\<lambda>e. thenE rollback (raiseE e)))
     (\<lambda>x. thenE (commit refuse) (retE x))"

subsection \<open>Runs of the parts\<close>

text \<open>What a program can raise.\<close>

definition raises :: "('e \<Rightarrow> bool) \<Rightarrow> ('s, 'e, 'a) prog \<Rightarrow> bool" where
  "raises P m \<longleftrightarrow> (\<forall>s e t. m s = (Inl e, t) \<longrightarrow> P e)"

lemma raisesD: "raises P m \<Longrightarrow> m s = (Inl e, t) \<Longrightarrow> P e"
  by (auto simp: raises_def)

lemma raises_ret [intro]: "raises P (retE x)"
  by (simp add: raises_def)

lemma raises_raise [intro]: "P e \<Longrightarrow> raises P (raiseE e)"
  by (simp add: raises_def)

lemma raises_get [intro]: "raises P (getE f)"
  by (simp add: raises_def)

lemma raises_mod [intro]: "raises P (modE f)"
  by (simp add: raises_def)

lemma raises_bind [intro]: "raises P m \<Longrightarrow> (\<And>x. raises P (f x)) \<Longrightarrow> raises P (bindE m f)"
  by (force simp: raises_def bindE_failure)

lemma raises_then [intro]: "raises P m \<Longrightarrow> raises P k \<Longrightarrow> raises P (thenE m k)"
  unfolding thenE_def by (rule raises_bind)

lemma raises_catch [intro]: "raises P m \<Longrightarrow> (\<And>e. P e \<Longrightarrow> raises P (h e)) \<Longrightarrow> raises P (catchE m h)"
  by (auto simp: raises_def catchE_def split: prod.splits sum.splits) blast

lemma raises_when [intro]: "raises P m \<Longrightarrow> raises P (whenE b m)"
  by (cases b) auto

lemma raises_of [intro]: "(\<And>e. x = Inl e \<Longrightarrow> P e) \<Longrightarrow> raises P (ofE x)"
  by (cases x) (auto simp: ofE_def)

lemma raises_for [intro]: "(\<And>x. raises P (f x)) \<Longrightarrow> raises P (forE xs f)"
  by (induction xs) auto

lemma raises_exec [intro]: "raises P (exec f)"
  by (simp add: raises_def)

lemma raises_on_redis [intro]: "raises P m \<Longrightarrow> raises P (on_redis m)"
  by (auto simp: raises_def on_redis_def split: prod.splits)

lemma raises_if [intro]: "(b \<Longrightarrow> raises P m) \<Longrightarrow> (\<not> b \<Longrightarrow> raises P k) \<Longrightarrow> raises P (if b then m else k)"
  by simp

lemma raises_let [intro]: "(\<And>x. raises P (f x)) \<Longrightarrow> raises P (Let y f)"
  by (simp add: Let_def)

lemmas raises_intros = raises_ret raises_raise raises_get raises_mod raises_bind raises_then raises_catch
  raises_when raises_of raises_for raises_exec raises_on_redis raises_if raises_let

lemma ofE_run [simp]: "ofE x s = (Inr v, t) \<longleftrightarrow> x = Inr v \<and> t = s" "ofE x s = (Inl e, t) \<longleftrightarrow> x = Inl e \<and> t = s"
  by (auto simp: ofE_def split: sum.splits)

lemma with_session_Inr:
  "with_session refuse m w = (Inr x, w') \<longleftrightarrow> (\<exists>w1. m w = (Inr x, w1) \<and> violation (work w1) = None \<and>
     refuse (work w1) = None \<and> w' = end_tx (work w1) w1)"
proof -
  have "catchE m (\<lambda>e. thenE rollback (raiseE e)) w = (Inr y, w1) \<longleftrightarrow> m w = (Inr y, w1)" for y w1
    by (auto simp: catchE_def thenE_def bindE_def split: prod.splits sum.splits)
  then show ?thesis by (auto simp: with_session_def thenE_def bindE_success commit_Inr)
qed

lemma with_session_cases:
  assumes "with_session refuse m w = (res, w')"
  obtains e w1 where "m w = (Inl e, w1)" and "res = Inl e" and "w' = end_tx (committed w1) w1"
    | x e w1 where "m w = (Inr x, w1)" and "commit refuse w1 = (Inl e, w')" and "res = Inl e"
        and "w' = end_tx (committed w1) w1"
    | x w1 where "m w = (Inr x, w1)" and "res = Inr x" and "violation (work w1) = None"
        and "refuse (work w1) = None" and "w' = end_tx (work w1) w1"
proof -
  obtain y w1 where y: "m w = (y, w1)" by fastforce
  show thesis
  proof (cases y)
    case (Inl e)
    with assms y that(1) show thesis by (auto simp: with_session_def catchE_def bindE_def thenE_def)
  next
    case (Inr x)
    obtain z w2 where z: "commit refuse w1 = (z, w2)" by fastforce
    with assms y Inr that(2,3) show thesis
      by (cases z) (auto simp: with_session_def catchE_def bindE_def thenE_def commit_Inr commit_Inl)
  qed
qed

lemma with_session_Inl:
  assumes "with_session refuse m w = (Inl e, w')"
  obtains w1 y where "m w = (y, w1)" and "committed w' = committed w1" and "work w' = committed w1"
    and "redis w' = redis w1"
  using assms by (auto simp: with_session_def bindE_def catchE_def thenE_def
      split: prod.splits sum.splits dest: commit_Inl)

lemma on_redis_run: "on_redis m w = (x, w') \<longleftrightarrow> (\<exists>r. m (redis w) = (x, r) \<and> w' = w\<lparr>redis := r\<rparr>)"
  by (auto simp: on_redis_def split: prod.splits)

lemma scalar_one_or_none_run:
  "scalar_one_or_none xs s = (Inr x, t) \<longleftrightarrow> t = s \<and> (xs = [] \<and> x = None \<or> (\<exists>y. xs = [y] \<and> x = Some y))"
  by (auto simp: scalar_one_or_none_def split: list.splits)

lemma scalar_one_run: "scalar_one xs s = (Inr x, t) \<longleftrightarrow> t = s \<and> xs = [x]"
  by (auto simp: scalar_one_def split: list.splits)

lemma scalar_state: "scalar_one_or_none xs s = (x, t) \<Longrightarrow> t = s" "scalar_one ys s = (y, t) \<Longrightarrow> t = s"
  by (auto simp: scalar_one_or_none_def scalar_one_def split: list.splits)

text \<open>What the cases of a run mean for the two copies of the tables and for Redis.\<close>

definition untouched :: "'r world \<Rightarrow> 'r world \<Rightarrow> bool" where
  "untouched w w' \<longleftrightarrow> committed w' = committed w \<and> redis w' = redis w"

lemma untouched_refl [simp]: "untouched w w"
  by (simp add: untouched_def)

lemma flush_untouched: "flush w = (Inl e, w') \<Longrightarrow> untouched w w'"
  by (auto simp: flush_cases untouched_def)

lemma commit_untouched: "commit refuse w = (Inl e, w') \<Longrightarrow> untouched w w'"
  using commit_Inl [of refuse w e w'] by (simp add: untouched_def)

lemma insert_checked_Inr:
  "insert_checked p f w = (Inr u, w') \<longleftrightarrow> p (guc w) \<and> violation (f (work w)) = None \<and>
     w' = w\<lparr>work := f (work w)\<rparr>"
  by (auto simp: insert_checked_def flush_cases)

lemma insert_checked_Inl:
  "insert_checked p f w = (Inl e, w') \<Longrightarrow> untouched w w'"
  by (auto simp: insert_checked_def flush_cases untouched_def split: if_splits)

lemma except_integrity_cases:
  assumes "except_integrity m h w = (x, w')"
  obtains "m w = (x, w')" | c u where "m w = (Inl (IntegrityError c), u)" and "h (IntegrityError c) u = (x, w')"
  using assms by (cases "m w"; cases "fst (m w)")
    (auto simp: except_integrity_def catchE_def split: exn.splits)

text \<open>The common end of the mutations.\<close>

lemma commit_publish:
  assumes "thenE (commit refuse) (thenE (on_redis pub) (retE x)) w = (res, w')"
  obtains e where "res = Inl e" and "untouched w w'"
    | y where "violation (work w) = None" and "committed w' = work w" and "work w' = work w"
        and "pub (redis w) = (y, redis w')" and "res = (case y of Inl e \<Rightarrow> Inl e | Inr _ \<Rightarrow> Inr x)"
proof -
  obtain y w2 where y: "commit refuse w = (y, w2)" by fastforce
  show thesis
  proof (cases y)
    case (Inl e)
    with y have "untouched w w2" by (simp add: commit_untouched)
    with Inl assms y that(1) [of e] show thesis by (auto simp: thenE_def bindE_def)
  next
    case (Inr v)
    with y have w2: "w2 = end_tx (work w) w" "violation (work w) = None" by (simp_all add: commit_Inr)
    obtain z r where z: "pub (redis w2) = (z, r)" by fastforce
    with assms y Inr have "res = (case z of Inl e \<Rightarrow> Inl e | Inr _ \<Rightarrow> Inr x)" "w' = w2\<lparr>redis := r\<rparr>"
      by (auto simp: thenE_def bindE_def on_redis_def split: sum.splits)
    with that(2) [of z] w2 z show thesis by simp
  qed
qed

lemma commit_only:
  assumes "thenE (commit refuse) (retE x) w = (res, w')"
  obtains e where "res = Inl e" and "untouched w w'"
    | "res = Inr x" and "violation (work w) = None" and "w' = end_tx (work w) w"
proof (cases "commit refuse w")
  case (Pair y w2)
  with assms that show thesis
    by (cases y) (auto simp: thenE_def bindE_def commit_Inr dest: commit_untouched)
qed

text \<open>
  The three shapes of a mutation: a checked insert, an update of the working tables and a delete, each
  followed by the commit and the publication.  An integrity error is only translated, by \<open>h\<close>.
\<close>

lemma insert_commit_publish:
  assumes "thenE (except_integrity (insert_checked p f) (\<lambda>c. raiseE (h c))) (thenE (commit refuse)
      (thenE (on_redis pub) (retE x))) w = (res, w')"
  obtains (refused) e where "res = Inl e" and "untouched w w'"
    | (published) y where "p (guc w)" and "violation (f (work w)) = None" and "committed w' = f (work w)"
        and "work w' = f (work w)" and "pub (redis w) = (y, redis w')"
        and "res = (case y of Inl e \<Rightarrow> Inl e | Inr _ \<Rightarrow> Inr x)"
proof -
  obtain z w1 where z: "except_integrity (insert_checked p f) (\<lambda>c. raiseE (h c)) w = (z, w1)" by fastforce
  show thesis
  proof (cases z)
    case (Inl e)
    from z have "untouched w w1"
    proof (cases rule: except_integrity_cases)
      case 1
      with Inl show ?thesis by (auto dest: insert_checked_Inl)
    next
      case (2 c u)
      then show ?thesis by (auto dest: insert_checked_Inl)
    qed
    with assms z Inl refused show thesis by (auto simp: thenE_def bindE_def)
  next
    case (Inr v)
    from z have ins: "insert_checked p f w = (Inr v, w1)"
    proof (cases rule: except_integrity_cases)
      case (2 c u)
      with Inr show ?thesis by simp
    qed (simp add: Inr)
    from assms z Inr have "thenE (commit refuse) (thenE (on_redis pub) (retE x)) w1 = (res, w')"
      by (simp add: thenE_def bindE_def)
    then show thesis
      by (cases rule: commit_publish)
        (use ins refused published in \<open>auto simp: insert_checked_Inr untouched_def\<close>)
  qed
qed

lemma update_commit:
  assumes "thenE (exec f) (thenE (except_integrity flush (\<lambda>c. raiseE (h c))) k) w = (res, w')"
  obtains (refused) e where "res = Inl e" and "untouched w w'"
    | (flushed) "violation (f (work w)) = None" and "k (w\<lparr>work := f (work w)\<rparr>) = (res, w')"
proof -
  let ?w = "w\<lparr>work := f (work w)\<rparr>"
  obtain z w1 where z: "except_integrity flush (\<lambda>c. raiseE (h c)) ?w = (z, w1)" by fastforce
  with assms have k: "(case z of Inl e \<Rightarrow> (Inl e, w1) | Inr _ \<Rightarrow> k w1) = (res, w')"
    by (simp add: thenE_def bindE_def)
  show thesis
  proof (cases z)
    case (Inl e)
    from z have "untouched ?w w1"
    proof (cases rule: except_integrity_cases)
      case 1
      with Inl show ?thesis by (auto dest: flush_untouched)
    next
      case (2 c u)
      then show ?thesis by (auto dest: flush_untouched)
    qed
    with k Inl refused show thesis by (auto simp: untouched_def)
  next
    case (Inr v)
    from z have "flush ?w = (Inr v, w1)"
    proof (cases rule: except_integrity_cases)
      case (2 c u)
      with Inr show ?thesis by simp
    qed (simp add: Inr)
    with k Inr flushed show thesis by (auto simp: flush_cases)
  qed
qed

text \<open>What a mutation commits, when it commits.\<close>

definition commits :: "(tables \<Rightarrow> tables) \<Rightarrow> 'r world \<Rightarrow> 'r world \<Rightarrow> bool" where
  "commits f w w' \<longleftrightarrow> committed w' = committed w \<or>
     committed w' = f (work w) \<and> violation (committed w') = None"

lemma update_flush:
  assumes "thenE (exec f) (thenE flush k) w = (res, w')"
  obtains (refused) e where "res = Inl e" and "untouched w w'"
    | (flushed) "violation (f (work w)) = None" and "k (w\<lparr>work := f (work w)\<rparr>) = (res, w')"
  using assms
  by (cases "flush (w\<lparr>work := f (work w)\<rparr>)"; cases "fst (flush (w\<lparr>work := f (work w)\<rparr>))")
    (auto simp: thenE_def bindE_def flush_cases untouched_def)

text \<open>A lookup that leaves the state alone, then a case on what it found.\<close>

lemma found_cases:
  assumes "bindE m (\<lambda>found. case found of None \<Rightarrow> retE z | Some r \<Rightarrow> k r) w = (res, w')"
    and "\<And>x t. m w = (x, t) \<Longrightarrow> t = w"
  obtains (refused) e where "res = Inl e" and "w' = w"
    | (missing) "m w = (Inr None, w)" and "res = Inr z" and "w' = w"
    | (found) r where "m w = (Inr (Some r), w)" and "k r w = (res, w')"
proof -
  obtain x t where x: "m w = (x, t)" by fastforce
  with assms(2) have [simp]: "t = w" by blast
  show thesis
  proof (cases x)
    case (Inl e)
    with x assms(1) have "res = Inl e \<and> w' = w" by (simp add: bindE_def)
    with refused show thesis by blast
  next
    case (Inr f)
    show thesis
    proof (cases f)
      case None
      with x Inr assms(1) have "m w = (Inr None, w) \<and> res = Inr z \<and> w' = w" by (simp add: bindE_def)
      with missing show thesis by blast
    next
      case (Some r)
      with x Inr assms(1) have "m w = (Inr (Some r), w) \<and> k r w = (res, w')" by (simp add: bindE_def)
      with found show thesis by blast
    qed
  qed
qed

subsection \<open>Settled sessions\<close>

text \<open>
  A session is settled when its working tables are the committed ones.  A program that returns leaves a
  settled session settled, or it settles every session because it ends with a commit.
\<close>

definition settles :: "('r, 'a) db_prog \<Rightarrow> bool" where
  "settles m \<longleftrightarrow> (\<forall>w x w'. work w = committed w \<longrightarrow> m w = (Inr x, w') \<longrightarrow> work w' = committed w')"

definition ends_committed :: "('r, 'a) db_prog \<Rightarrow> bool" where
  "ends_committed m \<longleftrightarrow> (\<forall>w x w'. m w = (Inr x, w') \<longrightarrow> work w' = committed w')"

lemma ends_committed_settles: "ends_committed m \<Longrightarrow> settles m"
  by (auto simp: settles_def ends_committed_def)

lemma ends_committed_commit [intro]: "ends_committed (commit refuse)"
  by (auto simp: ends_committed_def commit_Inr)

lemma ends_committed_raise [intro]: "ends_committed (raiseE e)"
  by (simp add: ends_committed_def)

lemma ends_committedI: "(\<And>w x w'. m w = (Inr x, w') \<Longrightarrow> work w' = committed w') \<Longrightarrow> ends_committed m"
  unfolding ends_committed_def by blast

lemma ends_committedD: "ends_committed m \<Longrightarrow> m w = (Inr x, w') \<Longrightarrow> work w' = committed w'"
  unfolding ends_committed_def by blast

lemma settlesI: "(\<And>w x w'. work w = committed w \<Longrightarrow> m w = (Inr x, w') \<Longrightarrow> work w' = committed w') \<Longrightarrow> settles m"
  unfolding settles_def by blast

lemma settlesD: "settles m \<Longrightarrow> work w = committed w \<Longrightarrow> m w = (Inr x, w') \<Longrightarrow> work w' = committed w'"
  unfolding settles_def by blast

lemma ends_committed_right:
  "(\<And>x. ends_committed (f x)) \<Longrightarrow> ends_committed (bindE m f)" "ends_committed k \<Longrightarrow> ends_committed (thenE m k)"
proof -
  show bind: "ends_committed (bindE m f)" if "\<And>x. ends_committed (f x)" for f
  proof (rule ends_committedI)
    fix w x w' assume "bindE m f w = (Inr x, w')"
    then obtain y w1 where "f y w1 = (Inr x, w')" unfolding bindE_success by blast
    with that show "work w' = committed w'" by (rule ends_committedD)
  qed
  show "ends_committed (thenE m k)" if "ends_committed k" unfolding thenE_def by (rule bind) (rule that)
qed

lemma ends_committed_left:
  assumes "ends_committed m"
  shows "(\<And>x. settles (f x)) \<Longrightarrow> ends_committed (bindE m f)" and "settles k \<Longrightarrow> ends_committed (thenE m k)"
proof -
  show bind: "ends_committed (bindE m f)" if "\<And>x. settles (f x)" for f
  proof (rule ends_committedI)
    fix w x w' assume "bindE m f w = (Inr x, w')"
    then obtain y w1 where "m w = (Inr y, w1)" "f y w1 = (Inr x, w')" unfolding bindE_success by blast
    with settlesD [OF that] ends_committedD [OF assms] show "work w' = committed w'" by blast
  qed
  show "ends_committed (thenE m k)" if "settles k" unfolding thenE_def by (rule bind) (rule that)
qed

lemma settles_basic [intro]:
  "settles (retE x)" "settles (raiseE e)" "settles (getE f)" "settles (scalar_one xs)" "settles (scalar_one_or_none xs)"
  "settles (on_redis m)" "settles flush" "settles rollback" "settles (ofE y)" "settles (set_tenant_context t b)"
  by (auto simp: settles_def scalar_one_run scalar_one_or_none_run on_redis_run flush_cases set_tenant_context_def split: if_splits)

lemma settles_bind [intro]:
  assumes "settles m" and "\<And>x. settles (f x)"
  shows "settles (bindE m f)"
proof (rule settlesI)
  fix w x w' assume w: "work w = committed w" and "bindE m f w = (Inr x, w')"
  then obtain y w1 where y: "m w = (Inr y, w1)" "f y w1 = (Inr x, w')" unfolding bindE_success by blast
  from settlesD [OF assms(2) settlesD [OF assms(1) w y(1)] y(2)] show "work w' = committed w'" .
qed

lemma settles_then [intro]: "settles m \<Longrightarrow> settles k \<Longrightarrow> settles (thenE m k)"
  unfolding thenE_def by (rule settles_bind)

lemma settles_if: "(b \<Longrightarrow> settles m) \<Longrightarrow> (\<not> b \<Longrightarrow> settles k) \<Longrightarrow> settles (if b then m else k)"
  by simp

lemma settles_option: "(x = None \<Longrightarrow> settles m) \<Longrightarrow> (\<And>y. x = Some y \<Longrightarrow> settles (f y)) \<Longrightarrow>
    settles (case x of None \<Rightarrow> m | Some y \<Rightarrow> f y)"
  by (cases x) auto

lemma ends_committed_cases:
  "(b \<Longrightarrow> ends_committed m) \<Longrightarrow> (\<not> b \<Longrightarrow> ends_committed k) \<Longrightarrow> ends_committed (if b then m else k)"
  "(\<And>y z. p = (y, z) \<Longrightarrow> ends_committed (g y z)) \<Longrightarrow> ends_committed (case p of (y, z) \<Rightarrow> g y z)"
  "(\<And>e. s = Inl e \<Longrightarrow> ends_committed (h e)) \<Longrightarrow> (\<And>y. s = Inr y \<Longrightarrow> ends_committed (i y)) \<Longrightarrow>
     ends_committed (case s of Inl e \<Rightarrow> h e | Inr y \<Rightarrow> i y)"
  by (cases p; cases s; simp)+

text \<open>The end of a mutation: the commit, and at most a publication after it.\<close>

lemma ends_committed_publish:
  "ends_committed (thenE (commit refuse) (thenE (on_redis p) (retE x)))"
  "ends_committed (thenE (commit refuse) (retE x))"
  by (intro ends_committed_left ends_committed_commit settles_basic settles_then)+

text \<open>A translated exception changes nothing else.\<close>

lemma settles_translated:
  assumes "settles m" and "\<And>e. ends_committed (h e)"
  shows "settles (catchE m h)"
proof (rule settlesI)
  fix w x w' assume w: "work w = committed w" and run: "catchE m h w = (Inr x, w')"
  obtain y w1 where y: "m w = (y, w1)" by fastforce
  show "work w' = committed w'"
  proof (cases y)
    case (Inl e)
    with run y have "h e w1 = (Inr x, w')" by (simp add: catchE_def)
    with assms(2) show ?thesis by (rule ends_committedD)
  next
    case (Inr z)
    with run y have "m w = (Inr z, w')" by (simp add: catchE_def)
    with assms(1) w show ?thesis by (rule settlesD)
  qed
qed

end
