(* ===== verification/Pii.thy ===== *)
theory Pii
  imports Prelude
begin

text \<open>
  \<open>app/core/pii.py\<close>: what of a request's personal data may leave in an event.  SHA-256 in hexadecimal and
  the network of an address (\<open>ipaddress\<close>, \<open>None\<close> for a text that is no address) are parameters.
\<close>

definition is_control :: "char \<Rightarrow> bool" where
  "is_control c = (let n = of_char c :: nat in
     n \<le> 8 \<or> n = 11 \<or> n = 12 \<or> 14 \<le> n \<and> n \<le> 31 \<or> n = 127)"

text \<open>\<open>re.sub(r"\s+", " ", s)\<close>.\<close>

function collapse :: "string \<Rightarrow> string" where
  "collapse [] = []"
| "collapse (c # cs) = (if is_space c then CHR '' '' # collapse (dropWhile is_space cs) else c # collapse cs)"
  by pat_completeness auto

termination
  by (relation "measure length") (auto simp: le_imp_less_Suc length_dropWhile_le)

definition sanitize_user_agent :: "string option \<Rightarrow> string option" where
  "sanitize_user_agent user_agent = (case user_agent of
      None \<Rightarrow> None
    | Some ua \<Rightarrow>
        if ua = '''' then None
        else let cleaned = strip (collapse (map (\<lambda>c. if is_control c then CHR '' '' else c) ua))
             in if cleaned = '''' then None else Some (take 256 cleaned))"

definition hash_email :: "(nat list \<Rightarrow> string) \<Rightarrow> string option \<Rightarrow> string option" where
  "hash_email sha email = (case email of
      None \<Rightarrow> None | Some e \<Rightarrow> if e = '''' then None else Some (take 32 (sha (utf8 e))))"

definition mask_ip :: "(string \<Rightarrow> string option) \<Rightarrow> string option \<Rightarrow> string option" where
  "mask_ip network ip_address = (case ip_address of
      None \<Rightarrow> None
    | Some a \<Rightarrow> if a = '''' then None else (case network a of None \<Rightarrow> Some a | Some n \<Rightarrow> Some n))"

subsection \<open>What sanitizing leaves\<close>

lemma is_space_blank [simp]: "is_space (CHR '' '')"
  by (simp add: is_space_def)

lemma not_control_blank [simp]: "\<not> is_control (CHR '' '')"
  by (simp add: is_control_def)

text \<open>No white space but single blanks.\<close>

fun single_spaced :: "string \<Rightarrow> bool" where
  "single_spaced (c # d # cs) =
     ((is_space c \<longrightarrow> c = CHR '' '' \<and> \<not> is_space d) \<and> single_spaced (d # cs))"
| "single_spaced [c] = (is_space c \<longrightarrow> c = CHR '' '')"
| "single_spaced [] = True"

lemma single_spaced_Cons:
  "single_spaced (c # cs) \<longleftrightarrow> (is_space c \<longrightarrow> c = CHR '' '' \<and> (cs = [] \<or> \<not> is_space (hd cs))) \<and>
     single_spaced cs"
  by (cases cs) auto

lemma collapse_hd: "cs \<noteq> [] \<Longrightarrow> \<not> is_space (hd cs) \<Longrightarrow> \<not> is_space (hd (collapse cs))"
  by (cases cs) auto

lemma collapse_nil [simp]: "collapse cs = [] \<longleftrightarrow> cs = []"
  by (cases cs) auto

lemma single_spaced_collapse: "single_spaced (collapse cs)"
proof (induction cs rule: collapse.induct)
  case (2 c cs)
  have "collapse (dropWhile is_space cs) = [] \<or> \<not> is_space (hd (collapse (dropWhile is_space cs)))"
    using collapse_hd [of "dropWhile is_space cs"] hd_dropWhile [of is_space cs] by auto
  with 2 show ?case by (auto simp: single_spaced_Cons)
qed simp

lemma set_collapse: "set (collapse cs) \<subseteq> insert (CHR '' '') (set cs)"
proof (induction cs rule: collapse.induct)
  case (2 c cs)
  then show ?case using set_dropWhileD by (cases "is_space c") fastforce+
qed simp

lemma single_spaced_append: "single_spaced (xs @ ys) \<Longrightarrow> single_spaced xs \<and> single_spaced ys"
  by (induction xs) (auto simp: single_spaced_Cons hd_append split: if_splits)

lemma single_spaced_take: "single_spaced cs \<Longrightarrow> single_spaced (take n cs)"
  using single_spaced_append [of "take n cs" "drop n cs"] by simp

lemma strip_parts: "\<exists>xs ys. cs = xs @ strip cs @ ys"
proof -
  have "lstrip cs = rstrip (lstrip cs) @ rev (takeWhile is_space (rev (lstrip cs)))"
    unfolding rstrip_def by (metis rev_append rev_rev_ident takeWhile_dropWhile_id)
  moreover have "cs = takeWhile is_space cs @ lstrip cs"
    by (simp add: lstrip_def)
  ultimately show ?thesis unfolding strip_def by metis
qed

lemma rstrip_last: "rstrip cs \<noteq> [] \<Longrightarrow> \<not> is_space (last (rstrip cs))"
  by (simp add: rstrip_def last_rev hd_dropWhile)

lemma rstrip_hd: "rstrip cs \<noteq> [] \<Longrightarrow> hd (rstrip cs) = hd cs"
proof -
  assume ne: "rstrip cs \<noteq> []"
  have "cs = rstrip cs @ rev (takeWhile is_space (rev cs))"
    unfolding rstrip_def by (metis rev_append rev_rev_ident takeWhile_dropWhile_id)
  with ne show ?thesis by (metis hd_append2)
qed

lemma strip_ends: "strip cs \<noteq> [] \<Longrightarrow> \<not> is_space (hd (strip cs)) \<and> \<not> is_space (last (strip cs))"
  using rstrip_last [of "lstrip cs"] rstrip_hd [of "lstrip cs"] hd_dropWhile [of is_space cs]
  unfolding strip_def lstrip_def by (metis dropWhile.simps(1) rev.simps(1) rstrip_def)

text \<open>
  A published user agent is clean and bounded.  What \<open>sanitize_user_agent\<close> returns is not empty,
  has at most 256 characters, none of them a control character, starts with a character that is not
  white space, has no white space but single blanks, and contains only characters of the header or
  blanks.
\<close>

theorem user_agent_clean:
  assumes "sanitize_user_agent (Some ua) = Some s"
  shows "s \<noteq> '''' \<and> length s \<le> 256 \<and> \<not> is_space (hd s) \<and> single_spaced s \<and>
    list_all (\<lambda>c. \<not> is_control c \<and> (c = CHR '' '' \<or> c \<in> set ua)) s"
proof -
  let ?m = "map (\<lambda>c. if is_control c then CHR '' '' else c) ua"
  define t where "t = strip (collapse ?m)"
  from assms have s: "s = take 256 t" and ne: "t \<noteq> []"
    by (auto simp: sanitize_user_agent_def Let_def t_def split: if_splits)
  obtain xs ys where parts: "collapse ?m = xs @ t @ ys" using strip_parts t_def by blast
  have "single_spaced t"
    using single_spaced_collapse [of ?m] unfolding parts by (blast dest: single_spaced_append)
  then have "single_spaced s" unfolding s by (rule single_spaced_take)
  moreover have "set t \<subseteq> insert (CHR '' '') (set ?m)" using set_collapse [of ?m] unfolding parts by auto
  then have "\<not> is_control c \<and> (c = CHR '' '' \<or> c \<in> set ua)" if "c \<in> set s" for c
    using in_set_takeD [OF that [unfolded s]] by auto
  moreover have "\<not> is_space (hd s)" using strip_ends [of "collapse ?m"] ne unfolding s t_def by simp
  ultimately show ?thesis using ne s by (auto simp: list_all_iff)
qed

lemma user_agent_clean_witness:
  "\<exists>s. sanitize_user_agent (Some [CHR 0x09, CHR ''a'', CHR 0x00, CHR '' '', CHR ''b'']) = Some s \<and> length s \<le> 256"
proof -
  have "sanitize_user_agent (Some [CHR 0x09, CHR ''a'', CHR 0x00, CHR '' '', CHR ''b'']) = Some ''a b''"
    by code_simp
  from user_agent_clean [OF this] this show ?thesis by blast
qed

end
