(* ===== verification/Auth_Service.thy ===== *)
theory Auth_Service
  imports Service_Base Pii
begin

text \<open>
  \<open>app/modules/auth/service.py\<close>: login with its account lockout and its cap on sessions, the rotation of
  refresh tokens, logout and the change of a password.  The environment holds the library functions the
  service calls; the draws of a request hold the clock reading and the random values it uses.
\<close>

record auth_env =
  ae_sha :: "nat list \<Rightarrow> string"
  ae_checkpw :: "nat list \<Rightarrow> string \<Rightarrow> bool"
  ae_hashpw :: "nat list \<Rightarrow> string \<Rightarrow> string"
  ae_dummy_salt :: string
  ae_encode :: "jdict \<Rightarrow> string"
  ae_minutes :: int
  ae_network :: "string \<Rightarrow> string option"
  ae_str :: "uuid \<Rightarrow> string"
  ae_lock :: "uuid \<Rightarrow> string option"

record draws =
  dr_now :: time
  dr_jti :: string
  dr_raw :: string
  dr_row :: uuid
  dr_event :: uuid
  dr_salt :: string

definition MAX_ACTIVE_SESSIONS :: nat where
  "MAX_ACTIVE_SESSIONS = 5"

definition REFRESH_TOKEN_EXPIRE_DAYS :: int where
  "REFRESH_TOKEN_EXPIRE_DAYS = 7"

definition LOGIN_ATTEMPTS_WINDOW_SECONDS :: int where
  "LOGIN_ATTEMPTS_WINDOW_SECONDS = 900"

definition LOGIN_ATTEMPTS_MAX :: int where
  "LOGIN_ATTEMPTS_MAX = 10"

definition DUMMY_PASSWORD_HASH :: "auth_env \<Rightarrow> string" where
  "DUMMY_PASSWORD_HASH env = hash_password (ae_hashpw env) (ae_dummy_salt env) ''constant-time-dummy-password''"

definition bad_credentials :: exn where
  "bad_credentials = AuthError 401 ''Credenciales incorrectas''"

subsection \<open>The account lockout\<close>

definition login_attempts_key :: "auth_env \<Rightarrow> string \<Rightarrow> string" where
  "login_attempts_key env email = ''login_attempts:'' @ ae_sha env (utf8 email)"

definition check_account_lockout :: "'r redis_call \<Rightarrow> auth_env \<Rightarrow> string \<Rightarrow> ('r, unit) redis_prog" where
  "check_account_lockout call env email =
     bindE (catchE (redis_cmd call (GET (login_attempts_key env email)))
              (\<lambda>e. if is_app_exception e then raiseE bad_credentials else raiseE e))
       (\<lambda>attempts. case attempts of
          RStr s \<Rightarrow> if s = '''' then retE ()
            else (case read_int s of
                None \<Rightarrow> raiseE (ValueError ''invalid literal for int()'')
              | Some n \<Rightarrow> if LOGIN_ATTEMPTS_MAX \<le> n then raiseE bad_credentials else retE ())
        | _ \<Rightarrow> retE ())"

definition record_failed_attempt :: "'r redis_call \<Rightarrow> auth_env \<Rightarrow> string \<Rightarrow> ('r, unit) redis_prog" where
  "record_failed_attempt call env email =
     catchE (bindE (redis_cmd call (INCR (login_attempts_key env email)))
              (\<lambda>attempts. whenE (attempts = RInt 1)
                 (thenE (redis_cmd call (EXPIRE (login_attempts_key env email)
                                           (seconds LOGIN_ATTEMPTS_WINDOW_SECONDS))) (retE ()))))
       (\<lambda>e. if is_app_exception e then retE () else raiseE e)"

definition clear_login_attempts :: "'r redis_call \<Rightarrow> auth_env \<Rightarrow> string \<Rightarrow> ('r, unit) redis_prog" where
  "clear_login_attempts call env email =
     catchE (thenE (redis_cmd call (DEL (login_attempts_key env email))) (retE ()))
       (\<lambda>e. if is_app_exception e then retE () else raiseE e)"

subsection \<open>Users and their tenant\<close>

text \<open>The outer join: the tenant row is missing when the user has none or the policy hides it.\<close>

definition tenant_of :: "'r world \<Rightarrow> user_row \<Rightarrow> tenant_row option" where
  "tenant_of w u = (case u_tenant u of None \<Rightarrow> None
     | Some i \<Rightarrow> List.find (\<lambda>t. t_id t = i) (seen_tenants w))"

definition get_active_user_where ::
  "(user_row \<Rightarrow> bool) \<Rightarrow> exn \<Rightarrow> ('r, user_row \<times> tenant_row option) db_prog" where
  "get_active_user_where p err =
     bindE (bindE (getE (\<lambda>w. map (\<lambda>u. (u, tenant_of w u)) (filter p (seen_users w)))) scalar_one_or_none)
       (\<lambda>result. case result of
          None \<Rightarrow> raiseE err
        | Some (user, tenant) \<Rightarrow> if \<not> u_active user then raiseE err else retE (user, tenant))"

definition get_active_user :: "string \<Rightarrow> ('r, user_row \<times> tenant_row option) db_prog" where
  "get_active_user email = get_active_user_where (\<lambda>u. u_email u = email) bad_credentials"

definition get_active_user_by_id :: "uuid \<Rightarrow> ('r, user_row \<times> tenant_row option) db_prog" where
  "get_active_user_by_id user_id =
     get_active_user_where (\<lambda>u. u_id u = user_id) (AuthError 401 ''Usuario inactivo.'')"

definition check_tenant_active :: "user_row \<Rightarrow> tenant_row option \<Rightarrow> ('r, unit) db_prog" where
  "check_tenant_active user tenant =
     (if u_super user then retE ()
      else case tenant of None \<Rightarrow> raiseE bad_credentials
        | Some t \<Rightarrow> if t_active t then retE () else raiseE bad_credentials)"

subsection \<open>Refresh tokens\<close>

text \<open>
  The advisory lock serializes the sessions of a user until the transaction ends; \<open>ae_lock\<close> is what the
  driver reports when the server refuses it; the report of a \<open>DBAPIError\<close> holds its SQLSTATE.
\<close>

definition is_lock_timeout_error :: "exn \<Rightarrow> bool" where
  "is_lock_timeout_error exc = (case exc of DBAPIError report \<Rightarrow> is_infix ''55P03'' report | _ \<Rightarrow> False)"

definition acquire_session_cap_lock :: "auth_env \<Rightarrow> uuid \<Rightarrow> ('r, unit) db_prog" where
  "acquire_session_cap_lock env user_id = (case ae_lock env user_id of
      None \<Rightarrow> retE ()
    | Some report \<Rightarrow> if is_lock_timeout_error (DBAPIError report)
        then raiseE (ServiceUnavailableError ''Servicio temporalmente ocupado, intenta de nuevo.'')
        else raiseE (DBAPIError report))"

definition unrevoked :: "uuid \<Rightarrow> rtoken_row \<Rightarrow> bool" where
  "unrevoked user_id r \<longleftrightarrow> rt_user r = user_id \<and> rt_revoked r = None"

definition active_session :: "uuid \<Rightarrow> time \<Rightarrow> rtoken_row \<Rightarrow> bool" where
  "active_session user_id now r \<longleftrightarrow> unrevoked user_id r \<and> now < rt_expires r"

definition oldest_session :: "uuid \<Rightarrow> rtoken_row list \<Rightarrow> rtoken_row option" where
  "oldest_session user_id rs = (case sort_key rt_created (filter (unrevoked user_id) rs) of
      [] \<Rightarrow> None | r # _ \<Rightarrow> Some r)"

definition revoke_row :: "time \<Rightarrow> rtoken_row \<Rightarrow> rtoken_row" where
  "revoke_row now r = r\<lparr>rt_revoked := Some now\<rparr>"

definition new_refresh_token :: "auth_env \<Rightarrow> draws \<Rightarrow> uuid \<Rightarrow> string option \<Rightarrow> rtoken_row" where
  "new_refresh_token env d user_id ip =
     \<lparr>rt_id = dr_row d, rt_user = user_id, rt_hash = ae_sha env (utf8 (dr_raw d)),
      rt_expires = dr_now d + seconds (REFRESH_TOKEN_EXPIRE_DAYS * 86400), rt_revoked = None,
      rt_ip = ip, rt_created = dr_now d\<rparr>"

definition create_refresh_token ::
  "auth_env \<Rightarrow> draws \<Rightarrow> uuid \<Rightarrow> string option \<Rightarrow> ('r, string) db_prog" where
  "create_refresh_token env d user_id created_from_ip =
     thenE (acquire_session_cap_lock env user_id)
      (bindE (getE (\<lambda>w. count_where (active_session user_id (dr_now d)) (seen_rtokens w))) (\<lambda>active_count.
       thenE (whenE (MAX_ACTIVE_SESSIONS \<le> active_count)
           (bindE (getE (\<lambda>w. oldest_session user_id (seen_rtokens w))) (\<lambda>oldest. case oldest of
               None \<Rightarrow> retE ()
             | Some old \<Rightarrow> exec (\<lambda>t. t\<lparr>rtokens :=
                 update_where (\<lambda>r. rt_id r = rt_id old) (revoke_row (dr_now d)) (rtokens t)\<rparr>))))
         (thenE (exec (\<lambda>t. t\<lparr>rtokens := rtokens t @ [new_refresh_token env d user_id created_from_ip]\<rparr>))
           (retE (dr_raw d)))))"

definition revoke_all_user_tokens :: "time \<Rightarrow> uuid \<Rightarrow> ('r, unit) db_prog" where
  "revoke_all_user_tokens now user_id w =
     (Inr (), w\<lparr>work := (work w)\<lparr>rtokens :=
        update_where (\<lambda>r. rls_rtoken (guc w) (work w) r \<and> unrevoked user_id r) (revoke_row now)
          (rtokens (work w))\<rparr>\<rparr>)"

definition revoke_all_user_tokens_for_tenant :: "time \<Rightarrow> uuid \<Rightarrow> ('r, unit) db_prog" where
  "revoke_all_user_tokens_for_tenant now tenant_id w =
     (Inr (), w\<lparr>work := (work w)\<lparr>rtokens :=
        update_where (\<lambda>r. rls_rtoken (guc w) (work w) r \<and> rt_revoked r = None \<and>
            rt_user r \<in> u_id ` set (filter (\<lambda>u. u_tenant u = Some tenant_id) (seen_users w)))
          (revoke_row now) (rtokens (work w))\<rparr>\<rparr>)"

subsection \<open>The operations\<close>

record token_response =
  tr_access :: string
  tr_type :: string
  tr_expires :: int

definition token_response :: "auth_env \<Rightarrow> string \<Rightarrow> token_response" where
  "token_response env access = \<lparr>tr_access = access, tr_type = ''bearer'', tr_expires = ae_minutes env * 60\<rparr>"

definition user_token :: "auth_env \<Rightarrow> draws \<Rightarrow> user_row \<Rightarrow> exn + string \<times> string" where
  "user_token env d user = create_access_token (ae_encode env) (dr_jti d) (dr_now d) (ae_minutes env)
     (ae_str env (u_id user)) (map_option (ae_str env) (u_tenant user)) (u_role user) (u_super user)"

text \<open>The two login events; their string fields are stripped and an empty mail hash is refused.\<close>

definition opt_str :: "string option \<Rightarrow> pyval" where
  "opt_str x = (case x of None \<Rightarrow> PNone | Some s \<Rightarrow> PStr (strip s))"

definition login_event ::
  "auth_env \<Rightarrow> draws \<Rightarrow> user_row \<Rightarrow> string option \<Rightarrow> string option \<Rightarrow> exn + event" where
  "login_event env d user ip user_agent = (case hash_email (ae_sha env) (Some (u_email user)) of
      None \<Rightarrow> Inl (ValueError ''email_hash'')
    | Some h \<Rightarrow> let ty = (if u_super user then ''system.auth.login'' else ''auth.login'') in
        Inr \<lparr>ev_type = ty, ev_fields =
          [(''event_id'', PUuid (dr_event d)), (''event_type'', PStr ty),
           (''tenant_id'', if u_super user then PNone
              else case u_tenant user of None \<Rightarrow> PNone | Some t \<Rightarrow> PUuid t),
           (''timestamp'', PTime (dr_now d)), (''user_id'', PStr (ae_str env (u_id user))),
           (''email_hash'', PStr h), (''ip_prefix'', opt_str (mask_ip (ae_network env) ip)),
           (''user_agent'', opt_str user_agent)]\<rparr>)"

text \<open>Publishing retries once after an outage, and no exception of it leaves the login.\<close>

definition publish_login ::
  "auth_env \<Rightarrow> draws \<Rightarrow> 'r event_bus \<Rightarrow> user_row \<Rightarrow> string option \<Rightarrow> string option \<Rightarrow> ('r, unit) redis_prog" where
  "publish_login env d bus user ip user_agent =
     catchE (bindE (ofE (login_event env d user ip user_agent)) (\<lambda>event.
         thenE (catchE (publish bus event None)
                  (\<lambda>e. if is_redis_outage e then publish bus event None else raiseE e))
           (retE ())))
       (\<lambda>e. if is_app_exception e then retE () else raiseE e)"

definition login ::
  "'r redis_call \<Rightarrow> auth_env \<Rightarrow> draws \<Rightarrow> 'r event_bus \<Rightarrow> string \<Rightarrow> string \<Rightarrow> string option \<Rightarrow> string option
   \<Rightarrow> ('r, token_response \<times> string) db_prog" where
  "login call env d bus email password request_ip user_agent =
     thenE (require_redis call)
      (thenE (set_tenant_context None True)
      (thenE (on_redis (check_account_lockout call env email))
      (bindE (catchE (bindE (get_active_user email) (\<lambda>r. retE (Some r)))
                (\<lambda>e. case e of AuthError _ _ \<Rightarrow> retE None | _ \<Rightarrow> raiseE e)) (\<lambda>found.
       let password_hash = (case found of None \<Rightarrow> DUMMY_PASSWORD_HASH env | Some (user, _) \<Rightarrow> u_password user);
           password_ok = verify_password (ae_checkpw env) password password_hash
       in case found of
            None \<Rightarrow> raiseE bad_credentials
          | Some (user, tenant) \<Rightarrow>
              if \<not> password_ok
              then thenE (on_redis (record_failed_attempt call env email)) (raiseE bad_credentials)
              else thenE (check_tenant_active user tenant)
               (thenE (on_redis (clear_login_attempts call env email))
               (thenE (exec (\<lambda>t. t\<lparr>users := update_where (\<lambda>u. u_id u = u_id user)
                          (\<lambda>u. u\<lparr>u_last_login := Some (dr_now d)\<rparr>) (users t)\<rparr>))
               (bindE (ofE (user_token env d user)) (\<lambda>(access_token, jti).
                thenE (on_redis (track_jti call (ae_str env (u_id user)) jti))
               (bindE (create_refresh_token env d (u_id user) request_ip) (\<lambda>refresh_token.
                thenE (on_redis (publish_login env d bus user request_ip (sanitize_user_agent user_agent)))
                 (retE (token_response env access_token, refresh_token))))))))))))"

text \<open>
  \<open>db.scalar\<close> answers the first row or nothing; \<open>locked\<close> are the token rows that other transactions hold
  locked, which \<open>SKIP LOCKED\<close> passes over.
\<close>

definition rotate_refresh_token ::
  "auth_env \<Rightarrow> draws \<Rightarrow> uuid list \<Rightarrow> string \<Rightarrow> string option \<Rightarrow> ('r, user_row \<times> string) db_prog" where
  "rotate_refresh_token env d locked token_hash request_ip =
     bindE (getE (\<lambda>w. List.find (\<lambda>r. rt_hash r = token_hash \<and> rt_revoked r = None \<and> dr_now d < rt_expires r \<and>
                                     rt_id r \<notin> set locked) (seen_rtokens w))) (\<lambda>record. case record of
         None \<Rightarrow> raiseE (AuthError 401 ''Refresh token invalido o expirado'')
       | Some r \<Rightarrow>
           if rt_revoked r \<noteq> None then raiseE (AuthError 401 ''Refresh token invalido o expirado'')
           else bindE (get_active_user_by_id (rt_user r)) (\<lambda>(user, tenant).
             thenE (check_tenant_active user tenant)
            (thenE (exec (\<lambda>t. t\<lparr>rtokens := update_where (\<lambda>x. rt_id x = rt_id r) (revoke_row (dr_now d)) (rtokens t)\<rparr>))
            (bindE (create_refresh_token env d (u_id user) request_ip) (\<lambda>new_token. retE (user, new_token))))))"

definition refresh_tokens ::
  "'r redis_call \<Rightarrow> auth_env \<Rightarrow> draws \<Rightarrow> uuid list \<Rightarrow> string \<Rightarrow> string option \<Rightarrow> string option
   \<Rightarrow> ('r, token_response \<times> string) db_prog" where
  "refresh_tokens call env d locked refresh_token request_ip old_jti =
     thenE (require_redis call)
      (thenE (set_tenant_context None True)
      (bindE (rotate_refresh_token env d locked (ae_sha env (utf8 refresh_token)) request_ip) (\<lambda>(user, new_refresh).
       bindE (ofE (user_token env d user)) (\<lambda>(access_token, new_jti).
       thenE (case old_jti of None \<Rightarrow> retE ()
                | Some j \<Rightarrow> whenE (j \<noteq> '''')
                    (thenE (on_redis (revoke_access_token call j (ae_minutes env * 60)))
                      (on_redis (untrack_jti call (ae_str env (u_id user)) j))))
        (thenE (on_redis (track_jti call (ae_str env (u_id user)) new_jti))
          (retE (token_response env access_token, new_refresh)))))))"

definition logout ::
  "'r redis_call \<Rightarrow> auth_env \<Rightarrow> time \<Rightarrow> string \<Rightarrow> string \<Rightarrow> string \<Rightarrow> ('r, unit) db_prog" where
  "logout call env now jti refresh_token user_id =
     thenE (require_redis call)
      (thenE (on_redis (revoke_access_token call jti (ae_minutes env * 60)))
      (thenE (on_redis (untrack_jti call user_id jti))
      (bindE (getE (\<lambda>w. List.find (\<lambda>r. rt_hash r = ae_sha env (utf8 refresh_token) \<and> rt_revoked r = None)
                          (seen_rtokens w))) (\<lambda>record. case record of
          None \<Rightarrow> retE ()
        | Some r \<Rightarrow> exec (\<lambda>t. t\<lparr>rtokens := update_where (\<lambda>x. rt_id x = rt_id r) (revoke_row now) (rtokens t)\<rparr>)))))"

definition change_password ::
  "'r redis_call \<Rightarrow> auth_env \<Rightarrow> draws \<Rightarrow> uuid \<Rightarrow> string \<Rightarrow> string \<Rightarrow> ('r, unit) db_prog" where
  "change_password call env d user_id current_password new_password =
     thenE (require_redis call)
      (bindE (get_active_user_by_id user_id) (\<lambda>(user, tenant).
       if \<not> verify_password (ae_checkpw env) current_password (u_password user)
       then raiseE (AuthError 400 ''La contrasena actual es incorrecta.'')
       else thenE (validate_password_length new_password)
        (thenE (exec (\<lambda>t. t\<lparr>users := update_where (\<lambda>u. u_id u = u_id user)
              (\<lambda>u. u\<lparr>u_password := hash_password (ae_hashpw env) (dr_salt d) new_password\<rparr>) (users t)\<rparr>))
        (thenE (revoke_all_user_tokens (dr_now d) user_id)
          (on_redis (revoke_all_user_access_tokens call (ae_str env user_id) (ae_minutes env * 60)))))))"

subsection \<open>Runs of the parts\<close>

lemma require_redis_run:
  assumes "require_redis call w = (x, w')"
  shows "(\<exists>y r. call PING (redis w) = (y, r) \<and> w' = w\<lparr>redis := r\<rparr>) \<and>
    (\<forall>e. x = Inl e \<longrightarrow> e = service_unavailable \<or> app_status e = None)"
  using assms
  by (auto simp: require_redis_def bindE_def on_redis_def check_redis_healthy_def catchE_def redis_cmd_def
      split: prod.splits sum.splits if_splits)

lemma lockout_refusal:
  "check_account_lockout call env email s = (Inl e, t) \<Longrightarrow> e = bad_credentials \<or> app_status e = None"
  by (auto simp: check_account_lockout_def bindE_failure catchE_def redis_cmd_def
      split: prod.splits sum.splits if_splits reply.splits option.splits)

lemma best_effort_Inl:
  "catchE m (\<lambda>e. if is_app_exception e then retE () else raiseE e) s = (Inl e, t) \<Longrightarrow> app_status e = None"
  by (cases e) (auto simp: catchE_def split: prod.splits sum.splits if_splits)

lemma get_active_user_where_run:
  assumes "get_active_user_where p err w = (x, w')"
  shows "w' = w \<and> (\<forall>u t. x = Inr (u, t) \<longrightarrow>
      filter p (seen_users w) = [u] \<and> u_active u \<and> t = tenant_of w u) \<and>
    (\<forall>e. x = Inl e \<longrightarrow> e = err \<or> app_status e = None)"
  using assms
  by (auto simp: get_active_user_where_def bindE_def scalar_one_or_none_def split: list.splits if_splits)

lemma check_tenant_active_run:
  "check_tenant_active u t w = (Inr v, w') \<longleftrightarrow> w' = w \<and> (u_super u \<or> (\<exists>tn. t = Some tn \<and> t_active tn))"
  "check_tenant_active u t w = (Inl e, w') \<longleftrightarrow> w' = w \<and> e = bad_credentials \<and> \<not> u_super u \<and>
     (\<forall>tn. t = Some tn \<longrightarrow> \<not> t_active tn)"
  by (auto simp: check_tenant_active_def split: option.splits)

lemma seen_super:
  assumes "g_super (guc w)"
  shows "seen_users w = users (work w)" "seen_rtokens w = rtokens (work w)" "seen_tenants w = tenants (work w)"
  using assms by (simp_all add: seen_users_def seen_rtokens_def seen_tenants_def rls_user_def rls_rtoken_def
      rls_row_def)

text \<open>What the cap on sessions does to the table of refresh tokens.\<close>

definition evict :: "uuid \<Rightarrow> time \<Rightarrow> rtoken_row list \<Rightarrow> rtoken_row list" where
  "evict user_id now rs =
     (if count_where (active_session user_id now) rs < MAX_ACTIVE_SESSIONS then rs
      else case oldest_session user_id rs of None \<Rightarrow> rs
        | Some old \<Rightarrow> update_where (\<lambda>r. rt_id r = rt_id old) (revoke_row now) rs)"

lemma create_refresh_token_run:
  assumes "g_super (guc w)"
  shows "create_refresh_token env d u ip w = (case ae_lock env u of
      None \<Rightarrow> (Inr (dr_raw d), w\<lparr>work := (work w)\<lparr>rtokens :=
          evict u (dr_now d) (rtokens (work w)) @ [new_refresh_token env d u ip]\<rparr>\<rparr>)
    | Some report \<Rightarrow> (Inl (if is_infix ''55P03'' report
          then ServiceUnavailableError ''Servicio temporalmente ocupado, intenta de nuevo.''
          else DBAPIError report), w))"
  using assms
  by (auto simp: create_refresh_token_def acquire_session_cap_lock_def is_lock_timeout_error_def evict_def
      seen_super thenE_def bindE_def not_le split: option.split)

lemma oldest_session_in:
  "oldest_session u rs = Some r \<Longrightarrow> r \<in> set rs \<and> unrevoked u r"
proof -
  assume "oldest_session u rs = Some r"
  then obtain zs where "sort_key rt_created (filter (unrevoked u) rs) = r # zs"
    by (auto simp: oldest_session_def split: list.splits)
  then have "r \<in> set (sort_key rt_created (filter (unrevoked u) rs))" by simp
  then show ?thesis by simp
qed

lemma oldest_session_None: "oldest_session u rs = None \<longleftrightarrow> (\<forall>r \<in> set rs. \<not> unrevoked u r)"
proof -
  have "sort_key rt_created (filter (unrevoked u) rs) = [] \<longleftrightarrow> filter (unrevoked u) rs = []"
    by (metis length_0_conv length_sort)
  then show ?thesis by (auto simp: oldest_session_def filter_empty_conv split: list.splits)
qed

lemma evict_rows:
  "r \<in> set (evict u now rs) \<Longrightarrow> \<exists>r0 \<in> set rs. r = r0 \<or> r = revoke_row now r0"
  by (auto simp: evict_def update_where_image split: option.splits if_splits)

lemma user_token_error: "user_token env d u = Inl e \<Longrightarrow> app_status e = None"
  by (auto simp: user_token_def create_access_token_def split: if_splits)

lemma redis_exec_error: "redis_exec call c s = (Inl e, t) \<Longrightarrow> app_status e = Some 503 \<or> app_status e = None"
  by (auto simp: redis_exec_Inl dest!: redis_do_error)

lemma found_user_run:
  assumes "catchE (bindE (get_active_user email) (\<lambda>r. retE (Some r)))
     (\<lambda>e. case e of AuthError _ _ \<Rightarrow> retE None | _ \<Rightarrow> raiseE e) w = (x, w')"
  shows "w' = w \<and> (\<forall>u t. x = Inr (Some (u, t)) \<longrightarrow>
      u \<in> set (seen_users w) \<and> u_email u = email \<and> u_active u \<and> t = tenant_of w u) \<and>
    (\<forall>e. x = Inl e \<longrightarrow> app_status e = None)"
proof -
  obtain y w1 where y: "get_active_user email w = (y, w1)" by fastforce
  note part = get_active_user_where_run [OF y [unfolded get_active_user_def]]
  show ?thesis
  proof (cases y)
    case (Inl e)
    with assms y part show ?thesis
      by (cases e) (auto simp: catchE_def bindE_def bad_credentials_def)
  next
    case (Inr ut)
    obtain u t where ut: "ut = (u, t)" by fastforce
    with part Inr have "filter (\<lambda>u. u_email u = email) (seen_users w) = [u]" by blast
    then have "u \<in> set (filter (\<lambda>u. u_email u = email) (seen_users w))" by simp
    then have "u \<in> set (seen_users w)" "u_email u = email" by simp_all
    with assms y part Inr ut show ?thesis by (auto simp: catchE_def bindE_def)
  qed
qed

lemma tenant_of_Some: "tenant_of w u = Some t \<Longrightarrow> t \<in> set (seen_tenants w) \<and> u_tenant u = Some (t_id t)"
  by (auto simp: tenant_of_def find_Some_iff split: option.splits)

text \<open>Who may log in: an active account with that password, of the platform or of an active tenant.\<close>

definition may_login :: "auth_env \<Rightarrow> tables \<Rightarrow> string \<Rightarrow> string \<Rightarrow> user_row \<Rightarrow> bool" where
  "may_login env t email password u \<longleftrightarrow> u \<in> set (users t) \<and> u_email u = email \<and> u_active u \<and>
     verify_password (ae_checkpw env) password (u_password u) \<and>
     (u_super u \<or> (\<exists>tn \<in> set (tenants t). u_tenant u = Some (t_id tn) \<and> t_active tn))"

text \<open>The tables after a login: the new session among at most the allowed ones, and the login instant.\<close>

definition logged_in :: "auth_env \<Rightarrow> draws \<Rightarrow> user_row \<Rightarrow> string option \<Rightarrow> tables \<Rightarrow> tables" where
  "logged_in env d u ip t = t\<lparr>
     users := update_where (\<lambda>x. u_id x = u_id u) (\<lambda>x. x\<lparr>u_last_login := Some (dr_now d)\<rparr>) (users t),
     rtokens := evict (u_id u) (dr_now d) (rtokens t) @ [new_refresh_token env d (u_id u) ip]\<rparr>"

lemma attempts_error:
  "record_failed_attempt call env email s = (Inl e, t) \<Longrightarrow> app_status e = None"
  "clear_login_attempts call env email s = (Inl e, t) \<Longrightarrow> app_status e = None"
  "publish_login env d bus user ip ua s = (Inl e, t) \<Longrightarrow> app_status e = None"
  by (auto simp: record_failed_attempt_def clear_login_attempts_def publish_login_def dest: best_effort_Inl)

lemma on_redis_db: "on_redis m w = (x, w') \<Longrightarrow> \<exists>r. m (redis w) = (x, r) \<and> w' = w\<lparr>redis := r\<rparr>"
  by (simp add: on_redis_run)

text \<open>The part of the login after the account was found.\<close>

definition login_found ::
  "'r redis_call \<Rightarrow> auth_env \<Rightarrow> draws \<Rightarrow> 'r event_bus \<Rightarrow> string \<Rightarrow> string \<Rightarrow> string option \<Rightarrow> string option
   \<Rightarrow> user_row \<Rightarrow> tenant_row option \<Rightarrow> ('r, token_response \<times> string) db_prog" where
  "login_found call env d bus email password request_ip user_agent user tenant =
     (if \<not> verify_password (ae_checkpw env) password (u_password user)
      then thenE (on_redis (record_failed_attempt call env email)) (raiseE bad_credentials)
      else thenE (check_tenant_active user tenant)
       (thenE (on_redis (clear_login_attempts call env email))
       (thenE (exec (\<lambda>t. t\<lparr>users := update_where (\<lambda>u. u_id u = u_id user)
                  (\<lambda>u. u\<lparr>u_last_login := Some (dr_now d)\<rparr>) (users t)\<rparr>))
       (bindE (ofE (user_token env d user)) (\<lambda>(access_token, jti).
        thenE (on_redis (track_jti call (ae_str env (u_id user)) jti))
       (bindE (create_refresh_token env d (u_id user) request_ip) (\<lambda>refresh_token.
        thenE (on_redis (publish_login env d bus user request_ip (sanitize_user_agent user_agent)))
         (retE (token_response env access_token, refresh_token)))))))))"

lemma login_found_outcome:
  assumes "login_found call env d bus email password ip ua u t w = (res, w')" and "g_super (guc w)"
  obtains e where "res = Inl e" and "committed w' = committed w" and
      "e = bad_credentials \<and> work w' = work w \<or> app_status e = Some 503 \<or> app_status e = None"
    | access jti where "verify_password (ae_checkpw env) password (u_password u)"
        and "u_super u \<or> (\<exists>tn. t = Some tn \<and> t_active tn)" and "committed w' = committed w"
        and "user_token env d u = Inr (access, jti)" and "ae_lock env (u_id u) = None"
        and "work w' = logged_in env d u ip (work w)" and "g_super (guc w')"
        and "res = Inr (token_response env access, dr_raw d)"
proof (cases res)
  case (Inl e)
  with assms have "committed w' = committed w \<and>
      (e = bad_credentials \<and> work w' = work w \<or> app_status e = Some 503 \<or> app_status e = None)"
    by (auto simp: login_found_def thenE_def bindE_failure on_redis_run create_refresh_token_run
        check_tenant_active_run track_jti_def
        dest: attempts_error user_token_error redis_exec_error split: if_splits option.splits)
  with Inl that(1) show thesis by blast
next
  case (Inr y)
  with assms obtain access jti where "verify_password (ae_checkpw env) password (u_password u) \<and>
      (u_super u \<or> (\<exists>tn. t = Some tn \<and> t_active tn)) \<and> committed w' = committed w \<and>
      user_token env d u = Inr (access, jti) \<and> ae_lock env (u_id u) = None \<and>
      work w' = logged_in env d u ip (work w) \<and> g_super (guc w') \<and>
      res = Inr (token_response env access, dr_raw d)"
    by (auto simp: login_found_def thenE_def bindE_success on_redis_run create_refresh_token_run
        check_tenant_active_run logged_in_def split: if_splits option.splits)
  with that(2) show thesis by blast
qed

lemma login_outcome:
  assumes "login call env d bus email password ip ua w = (res, w')"
  obtains e where "res = Inl e" and "committed w' = committed w" and
      "e = bad_credentials \<and> work w' = work w \<or> app_status e = Some 503 \<or> app_status e = None"
    | u access jti where "may_login env (work w) email password u" and "committed w' = committed w"
        and "user_token env d u = Inr (access, jti)" and "ae_lock env (u_id u) = None"
        and "work w' = logged_in env d u ip (work w)" and "g_super (guc w')"
        and "res = Inr (token_response env access, dr_raw d)"
proof -
  note run = assms [unfolded login_def]
  let ?fail = "\<exists>e. res = Inl e \<and> committed w' = committed w \<and>
      (e = bad_credentials \<and> work w' = work w \<or> app_status e = Some 503 \<or> app_status e = None)"
  obtain x1 w1 where r1: "require_redis call w = (x1, w1)" by fastforce
  from require_redis_run [OF r1] obtain q1 where w1: "w1 = w\<lparr>redis := q1\<rparr>" by blast
  from require_redis_run [OF r1]
  have e1: "\<forall>e. x1 = Inl e \<longrightarrow> app_status e = Some 503 \<or> app_status e = None"
    by (auto simp: service_unavailable_def)
  show thesis
  proof (cases x1)
    case (Inl e)
    with run r1 w1 e1 show thesis by (intro that(1) [of e]) (auto simp: thenE_def bindE_def)
  next
    case Inr1: (Inr v)
    define w2 where "w2 = w1\<lparr>guc := \<lparr>g_tenant = None, g_super = True\<rparr>\<rparr>"
    obtain x3 w3 where r3: "on_redis (check_account_lockout call env email) w2 = (x3, w3)" by fastforce
    then obtain q3 where w3: "w3 = w2\<lparr>redis := q3\<rparr>" and l3: "check_account_lockout call env email (redis w2) = (x3, q3)"
      by (auto dest: on_redis_db)
    show thesis
    proof (cases x3)
      case (Inl e)
      with run r1 Inr1 r3 have "res = Inl e" "w' = w3" by (auto simp: thenE_def bindE_def w2_def)
      with lockout_refusal [OF l3 [unfolded Inl]] w1 w2_def w3 show thesis by (intro that(1) [of e]) auto
    next
      case Inr3: (Inr v)
      define fnd where "fnd = catchE (bindE (get_active_user email) (\<lambda>r. retE (Some r)))
                (\<lambda>e. case e of AuthError _ _ \<Rightarrow> retE None | _ \<Rightarrow> (raiseE e :: ('a, _) db_prog))"
      obtain x4 w4 where r4: "fnd w3 = (x4, w4)" by fastforce
      note fu = found_user_run [OF r4 [unfolded fnd_def]]
      have base: "committed w3 = committed w" "work w3 = work w" "g_super (guc w3)"
        by (simp_all add: w1 w2_def w3)
      show thesis
      proof (cases x4)
        case (Inl e)
        with run r1 Inr1 r3 Inr3 r4 have "res = Inl e" "w' = w4"
          by (auto simp: thenE_def bindE_def w2_def fnd_def)
        with Inl fu base show thesis by (intro that(1) [of e]) auto
      next
        case Inr4: (Inr found)
        show thesis
        proof (cases found)
          case None
          with run r1 Inr1 r3 Inr3 r4 Inr4 have "res = Inl bad_credentials" "w' = w4"
            by (auto simp: thenE_def bindE_def w2_def fnd_def Let_def)
          with fu base show thesis by (intro that(1) [of bad_credentials]) auto
        next
          case (Some ut)
          obtain u t where ut: "ut = (u, t)" by fastforce
          with fu Inr4 Some base have u: "u \<in> set (users (work w))" "u_email u = email" "u_active u"
            "t = tenant_of w3 u" "w4 = w3" by (auto simp: seen_super)
          from run r1 Inr1 r3 Inr3 r4 Inr4 Some ut u(5)
          have go: "login_found call env d bus email password ip ua u t w3 = (res, w')"
            by (simp add: thenE_def bindE_def w2_def fnd_def Let_def login_found_def)
          from go base(3) show thesis
          proof (cases rule: login_found_outcome)
            case (1 e)
            with base that(1) [of e] show thesis by simp
          next
            case (2 access jti)
            have "u_super u \<or> (\<exists>tn \<in> set (tenants (work w)). u_tenant u = Some (t_id tn) \<and> t_active tn)"
              using 2(2) u(4) base tenant_of_Some [of w3 u] by (auto simp: seen_super)
            with 2 u base that(2) [of u access jti] show thesis by (simp add: may_login_def)
          qed
        qed
      qed
    qed
  qed
qed

subsection \<open>What the operations guarantee\<close>

definition sample_env :: auth_env where
  "sample_env = \<lparr>ae_sha = map char_of, ae_checkpw = (\<lambda>b h. b = take 72 (utf8 h)), ae_hashpw = (\<lambda>b salt. map char_of b),
     ae_dummy_salt = '''', ae_encode = (\<lambda>_. ''jwt''), ae_minutes = 15, ae_network = (\<lambda>_. None),
     ae_str = show_nat, ae_lock = (\<lambda>_. None)\<rparr>"

definition sample_draws :: draws where
  "sample_draws = \<lparr>dr_now = 100, dr_jti = ''j'', dr_raw = ''new'', dr_row = 60, dr_event = 61, dr_salt = ''''\<rparr>"

definition sample_login :: "(redis_exc \<times> bool) option list \<Rightarrow> rtoken_row list \<Rightarrow> mem_redis world" where
  "sample_login fs ts = (let t = (sample_tables [])\<lparr>rtokens := ts\<rparr> in
     \<lparr>committed = t, work = t, guc = no_rls, redis = mem_empty fs\<rparr>)"

lemmas login_eval = login_def require_redis_def check_redis_healthy_def on_redis_def check_account_lockout_def
  get_active_user_def get_active_user_where_def scalar_one_or_none_def tenant_of_def seen_users_def
  seen_tenants_def seen_rtokens_def rls_user_def rls_row_def rls_rtoken_def verify_password_def
  check_tenant_active_def clear_login_attempts_def ofE_def user_token_def create_access_token_def
  ROLE_HIERARCHY_def track_jti_def redis_exec_def create_refresh_token_def acquire_session_cap_lock_def
  MAX_ACTIVE_SESSIONS_def publish_login_def login_event_def hash_email_def publish_def new_refresh_token_def
  sample_env_def sample_draws_def sample_login_def sample_bus_def login_attempts_key_def
  sample_defs eval_simps mem_eval_simps

lemma count_where_update:
  assumes "distinct (map k xs)" and "x \<in> set xs" and "\<And>y. \<not> p (f y)"
  shows "count_where p xs = count_where p (update_where (\<lambda>y. k y = k x) f xs) + (if p x then 1 else 0)"
  using assms(1,2)
proof (induction xs)
  case (Cons y ys)
  show ?case
  proof (cases "k y = k x")
    case True
    with Cons.prems have "y = x" "\<And>z. z \<in> set ys \<Longrightarrow> k z \<noteq> k x" by (auto simp: image_iff)
    then show ?thesis by (auto simp: update_where_none assms(3))
  next
    case False
    with Cons show ?thesis by auto
  qed
qed simp

lemma active_revoked [simp]: "\<not> active_session u now (revoke_row now r)"
  by (simp add: active_session_def unrevoked_def revoke_row_def)

lemma new_token_active [simp]: "active_session u (dr_now d) (new_refresh_token env d u ip)"
  by (simp add: active_session_def unrevoked_def new_refresh_token_def REFRESH_TOKEN_EXPIRE_DAYS_def seconds_def)

text \<open>
  C16: A refused login tells nothing.  Whatever the reason - no such account, an inactive one, a wrong
  password, an inactive tenant or a locked account - every refusal with a client error is the same
  401 answer and leaves the tables as they were; and a login that returns was for an active account
  with that password, of the platform or of an active tenant, and opened exactly one session for it.
\<close>

theorem login_refusal_uniform:
  assumes "login call env d bus email password ip ua w = (res, w')"
  shows "committed w' = committed w \<and>
    (case res of
       Inl e \<Rightarrow> e = AuthError 401 ''Credenciales incorrectas'' \<and> work w' = work w \<or>
         app_status e = Some 503 \<or> app_status e = None
     | Inr (tr, raw) \<Rightarrow> raw = dr_raw d \<and> (\<exists>u access jti. may_login env (work w) email password u \<and>
         user_token env d u = Inr (access, jti) \<and> tr = token_response env access \<and>
         work w' = logged_in env d u ip (work w)))"
  using assms
proof (cases rule: login_outcome)
  case (1 e)
  then show ?thesis by (auto simp: bad_credentials_def)
next
  case (2 u access jti)
  then show ?thesis by auto
qed

lemma login_refusal_uniform_witness:
  "\<exists>w'. login mem_call sample_env sample_draws sample_bus ''u@x.io'' ''hash'' None None (sample_login [] []) =
      (Inr (token_response sample_env ''jwt'', ''new''), w') \<and>
     rtokens (work w') = [new_refresh_token sample_env sample_draws 5 None]"
proof -
  let ?m = "login mem_call sample_env sample_draws sample_bus ''u@x.io'' ''hash'' None None"
  have run: "fst (?m (sample_login [] [])) = Inr (token_response sample_env ''jwt'', ''new'')"
    by (simp add: login_eval token_response_def cong: eval_congs)
  from login_refusal_uniform [OF run_of [OF run]] run
  obtain u where "may_login sample_env (work (sample_login [] [])) ''u@x.io'' ''hash'' u"
    "work (snd (?m (sample_login [] []))) = logged_in sample_env sample_draws u None (work (sample_login [] []))"
    by auto
  moreover from this(1) have "u_id u = 5" by (auto simp: may_login_def sample_login_def sample_defs Let_def)
  ultimately show ?thesis using run_of [OF run]
    by (intro exI [of _ "snd (?m (sample_login [] []))"])
      (simp add: logged_in_def evict_def sample_login_def sample_defs MAX_ACTIVE_SESSIONS_def Let_def)
qed

text \<open>
  C37: The cap on sessions.  A new refresh token adds at most one to the active sessions of its user, and
  below the cap exactly one.  At the cap an unrevoked token is revoked in exchange: when none of the
  user's unrevoked tokens has expired the number of sessions stays, so that it never passes the cap; but
  when the oldest unrevoked token has expired, it is the one that is revoked, and the number grows.
\<close>

theorem session_cap:
  assumes "create_refresh_token env d u ip w = (Inr x, w')" and "g_super (guc w)"
    and "distinct (map rt_id (rtokens (work w)))"
    and "n = count_where (active_session u (dr_now d)) (rtokens (work w))"
    and "n' = count_where (active_session u (dr_now d)) (rtokens (work w'))"
  shows "n' \<le> n + 1 \<and> (n < MAX_ACTIVE_SESSIONS \<longrightarrow> n' = n + 1) \<and>
    ((\<forall>r \<in> set (rtokens (work w)). unrevoked u r \<longrightarrow> dr_now d < rt_expires r) \<longrightarrow>
       n' \<le> max n MAX_ACTIVE_SESSIONS) \<and>
    (\<forall>r. MAX_ACTIVE_SESSIONS \<le> n \<and> oldest_session u (rtokens (work w)) = Some r \<and>
       rt_expires r \<le> dr_now d \<longrightarrow> n' = n + 1)"
proof -
  let ?rs = "rtokens (work w)" and ?p = "active_session u (dr_now d)"
  from assms(1) have "rtokens (work w') = evict u (dr_now d) ?rs @ [new_refresh_token env d u ip]"
    by (auto simp: create_refresh_token_run [OF assms(2)] split: option.splits)
  then have n': "n' = count_where ?p (evict u (dr_now d) ?rs) + 1" by (simp add: assms(5))
  show ?thesis
  proof (cases "n < MAX_ACTIVE_SESSIONS")
    case True
    then show ?thesis by (simp add: n' evict_def assms(4) [symmetric])
  next
    case False
    then obtain a where "a \<in> set ?rs" "unrevoked u a"
      unfolding assms(4) MAX_ACTIVE_SESSIONS_def count_where_def active_session_def
      by (metis (no_types, lifting) filter_False list.size(3) zero_less_numeral)
    then obtain r where r: "oldest_session u ?rs = Some r" using oldest_session_None by fastforce
    note in_rs = oldest_session_in [OF r]
    have ev: "evict u (dr_now d) ?rs = update_where (\<lambda>y. rt_id y = rt_id r) (revoke_row (dr_now d)) ?rs"
      using False r by (simp add: evict_def assms(4))
    have "n = count_where ?p (evict u (dr_now d) ?rs) + (if ?p r then 1 else 0)"
      unfolding ev assms(4) using in_rs assms(3) by (intro count_where_update) auto
    moreover have "?p r \<longleftrightarrow> dr_now d < rt_expires r" using in_rs by (simp add: active_session_def)
    ultimately show ?thesis using n' False r in_rs by auto
  qed
qed

definition sample_token :: "uuid \<Rightarrow> string \<Rightarrow> time \<Rightarrow> rtoken_row" where
  "sample_token i h e = \<lparr>rt_id = i, rt_user = 5, rt_hash = h, rt_expires = e, rt_revoked = None, rt_ip = None,
     rt_created = int i\<rparr>"

text \<open>Five active sessions and an old expired one: afterwards there are six.\<close>

definition crowded :: "rtoken_row list" where
  "crowded = sample_token 1 ''1'' 50 # map (\<lambda>i. sample_token i (replicate i CHR ''h'') 500) [2, 3, 4, 5, 6]"

lemma session_cap_witness:
  "\<exists>w' :: mem_redis world. create_refresh_token sample_env sample_draws 5 None
      ((sample_login [] crowded)\<lparr>guc := \<lparr>g_tenant = None, g_super = True\<rparr>\<rparr>) = (Inr ''new'', w') \<and>
     count_where (active_session 5 100) (rtokens (work w')) = MAX_ACTIVE_SESSIONS + 1"
proof -
  let ?w = "(sample_login [] crowded)\<lparr>guc := \<lparr>g_tenant = None, g_super = True\<rparr>\<rparr>"
  let ?m = "create_refresh_token sample_env sample_draws 5 None"
  have g: "g_super (guc ?w)" by simp
  have rs: "rtokens (work (sample_login [] crowded)) = crowded" by (simp add: sample_login_def Let_def)
  have now: "dr_now sample_draws = 100" by (simp add: sample_draws_def)
  have run: "fst (?m ?w) = Inr ''new''"
    by (simp add: create_refresh_token_run [OF g] sample_env_def sample_draws_def)
  have "count_where (active_session 5 100) crowded = MAX_ACTIVE_SESSIONS"
    "oldest_session 5 crowded = Some (sample_token 1 ''1'' 50)" "distinct (map rt_id crowded)" by code_simp+
  moreover have "rt_expires (sample_token 1 ''1'' 50) = 50" by (simp add: sample_token_def)
  ultimately have "count_where (active_session 5 100) (rtokens (work (snd (?m ?w)))) = MAX_ACTIVE_SESSIONS + 1"
    using session_cap [OF run_of [OF run] g _ refl refl] by (simp add: rs now)
  with run_of [OF run] show ?thesis by blast
qed

lemma rotate_run:
  assumes "rotate_refresh_token env d locked h ip w = (Inr (u, new), w')" and "g_super (guc w)"
  obtains r where "r \<in> set (rtokens (work w))" and "rt_hash r = h" and "rt_revoked r = None"
    and "dr_now d < rt_expires r" and "rt_id r \<notin> set locked" and "u \<in> set (users (work w))"
    and "u_id u = rt_user r" and "u_active u"
    and "u_super u \<or> (\<exists>tn \<in> set (tenants (work w)). u_tenant u = Some (t_id tn) \<and> t_active tn)"
    and "rtokens (work w') = evict (u_id u) (dr_now d)
      (update_where (\<lambda>x. rt_id x = rt_id r) (revoke_row (dr_now d)) (rtokens (work w))) @
        [new_refresh_token env d (u_id u) ip]"
proof -
  from assms(1) obtain r t w1 where find: "List.find (\<lambda>r. rt_hash r = h \<and> rt_revoked r = None \<and>
      dr_now d < rt_expires r \<and> rt_id r \<notin> set locked) (rtokens (work w)) = Some r"
    and usr: "get_active_user_by_id (rt_user r) w = (Inr (u, t), w1)"
    and rest: "thenE (check_tenant_active u t)
        (thenE (exec (\<lambda>t. t\<lparr>rtokens := update_where (\<lambda>x. rt_id x = rt_id r) (revoke_row (dr_now d)) (rtokens t)\<rparr>))
          (bindE (create_refresh_token env d (u_id u) ip) (\<lambda>n. retE (u, n)))) w1 = (Inr (u, new), w')"
    by (auto simp: rotate_refresh_token_def bindE_success thenE_def seen_super [OF assms(2)]
        split: option.splits if_splits)
  from get_active_user_where_run [OF usr [unfolded get_active_user_by_id_def]]
  have eqs: "w1 = w" "filter (\<lambda>x. u_id x = rt_user r) (users (work w)) = [u]" "u_active u" "t = tenant_of w u"
    by (simp_all add: seen_super [OF assms(2)])
  from eqs(2) have "u \<in> set (filter (\<lambda>x. u_id x = rt_user r) (users (work w)))" by simp
  moreover from rest eqs(1) have "u_super u \<or> (\<exists>tn. t = Some tn \<and> t_active tn)"
    and "rtokens (work w') = evict (u_id u) (dr_now d)
      (update_where (\<lambda>x. rt_id x = rt_id r) (revoke_row (dr_now d)) (rtokens (work w))) @
        [new_refresh_token env d (u_id u) ip]"
    by (auto simp: thenE_def bindE_success check_tenant_active_run create_refresh_token_run assms(2)
        split: option.splits)
  moreover note find_eq_Some_in [OF find] eqs(3) eqs(4) tenant_of_Some [of w u]
  ultimately show thesis by (intro that [of r]) (auto simp: seen_super [OF assms(2)])
qed

lemma refresh_run:
  fixes w :: "'r world"
  assumes "refresh_tokens call env d locked tok ip old w = (Inr (tr, new), w')"
  obtains w1 w2 :: "'r world" and u where "work w1 = work w" and "committed w1 = committed w" and "g_super (guc w1)"
    and "rotate_refresh_token env d locked (ae_sha env (utf8 tok)) ip w1 = (Inr (u, new), w2)"
    and "work w' = work w2" and "committed w' = committed w2"
proof -
  from assms obtain q u w2 access jti where
    rot: "rotate_refresh_token env d locked (ae_sha env (utf8 tok)) ip
        (w\<lparr>redis := q, guc := \<lparr>g_tenant = None, g_super = True\<rparr>\<rparr>) = (Inr (u, new), w2)"
    and "work w' = work w2" "committed w' = committed w2"
    by (auto simp: refresh_tokens_def thenE_def bindE_success on_redis_run whenE_def
        dest!: require_redis_run split: option.splits if_splits)
  with that [OF _ _ _ rot] show thesis by simp
qed

lemma refresh_refused:
  assumes "refresh_tokens call env d locked tok ip old w = (y, w')"
    and "\<forall>r \<in> set (rtokens (work w)). rt_hash r = ae_sha env (utf8 tok) \<longrightarrow> rt_revoked r \<noteq> None"
  shows "isl y"
proof (cases y)
  case (Inr z)
  obtain tr new where z: "z = (tr, new)" by fastforce
  from assms(1) [unfolded Inr z] show ?thesis
  proof (rule refresh_run)
    fix w1 w2 u assume w1: "work w1 = work w" "g_super (guc w1)"
      and "rotate_refresh_token env d locked (ae_sha env (utf8 tok)) ip w1 = (Inr (u, new), w2)"
    from this(3,2) show ?thesis by (rule rotate_run) (use assms(2) w1 in auto)
  qed
qed simp

text \<open>
  C6: A refresh token is used at most once.  When \<open>refresh_tokens\<close> returns, the presented token was an
  unrevoked and unexpired one of an active account, of the platform or of an active tenant; afterwards
  every row with its hash is revoked, and presenting it again to any tables with those tokens, by any
  request at any time, is refused.
\<close>

theorem refresh_single_use:
  fixes w w1 :: "'r world"
  assumes "refresh_tokens call env d locked tok ip old w = (Inr (tr, new), w1)"
    and "distinct (map rt_hash (rtokens (work w)))"
    and "ae_sha env (utf8 (dr_raw d)) \<noteq> ae_sha env (utf8 tok)"
  shows "(\<exists>r u. r \<in> set (rtokens (work w)) \<and> rt_hash r = ae_sha env (utf8 tok) \<and> rt_revoked r = None \<and>
       dr_now d < rt_expires r \<and> rt_id r \<notin> set locked \<and> u \<in> set (users (work w)) \<and> u_id u = rt_user r \<and>
       u_active u \<and> (u_super u \<or> (\<exists>tn \<in> set (tenants (work w)). u_tenant u = Some (t_id tn) \<and> t_active tn))) \<and>
    (\<forall>r \<in> set (rtokens (work w1)). rt_hash r = ae_sha env (utf8 tok) \<longrightarrow> rt_revoked r \<noteq> None) \<and>
    (\<forall>call' d' locked' ip' old' (w2 :: 'b world) y w3. rtokens (work w2) = rtokens (work w1) \<and>
       refresh_tokens call' env d' locked' tok ip' old' w2 = (y, w3) \<longrightarrow> isl y)"
proof -
  from assms(1) obtain v w2 :: "'r world" and u where v: "work v = work w" "g_super (guc v)"
    and rot: "rotate_refresh_token env d locked (ae_sha env (utf8 tok)) ip v = (Inr (u, new), w2)"
    and w1: "work w1 = work w2" by (rule refresh_run)
  from rot v(2) obtain r where r: "r \<in> set (rtokens (work w))" "rt_hash r = ae_sha env (utf8 tok)"
    "rt_revoked r = None" "dr_now d < rt_expires r" "rt_id r \<notin> set locked" "u \<in> set (users (work w))"
    "u_id u = rt_user r" "u_active u"
    "u_super u \<or> (\<exists>tn \<in> set (tenants (work w)). u_tenant u = Some (t_id tn) \<and> t_active tn)"
    and rows: "rtokens (work w2) = evict (u_id u) (dr_now d)
      (update_where (\<lambda>x. rt_id x = rt_id r) (revoke_row (dr_now d)) (rtokens (work w))) @
        [new_refresh_token env d (u_id u) ip]"
    unfolding v(1) [symmetric] by (rule rotate_run)
  have dead: "rt_revoked x \<noteq> None" if "x \<in> set (rtokens (work w1))" "rt_hash x = ae_sha env (utf8 tok)" for x
  proof -
    from that w1 rows assms(3) have "x \<in> set (evict (u_id u) (dr_now d)
        (update_where (\<lambda>x. rt_id x = rt_id r) (revoke_row (dr_now d)) (rtokens (work w))))"
      by (auto simp: new_refresh_token_def)
    from evict_rows [OF this] obtain y where "y \<in> set (rtokens (work w))"
      "x = y \<and> rt_id y \<noteq> rt_id r \<or> rt_revoked x \<noteq> None" "rt_hash x = rt_hash y"
      by (auto simp: update_where_image revoke_row_def split: if_splits)
    with distinct_map_inj [OF assms(2) _ r(1)] r(2) that(2) show ?thesis by auto
  qed
  have later: "isl y" if "rtokens (work (w2 :: 'b world)) = rtokens (work w1)"
    and "refresh_tokens call' env d' locked' tok ip' old' w2 = (y, w3)" for call' d' locked' ip' old' w2 y w3
    using refresh_refused [OF that(2)] dead that(1) by auto
  from r have first: "\<exists>r u. r \<in> set (rtokens (work w)) \<and> rt_hash r = ae_sha env (utf8 tok) \<and> rt_revoked r = None \<and>
       dr_now d < rt_expires r \<and> rt_id r \<notin> set locked \<and> u \<in> set (users (work w)) \<and> u_id u = rt_user r \<and>
       u_active u \<and> (u_super u \<or> (\<exists>tn \<in> set (tenants (work w)). u_tenant u = Some (t_id tn) \<and> t_active tn))"
    by blast
  with dead later show ?thesis by (intro conjI) auto
qed

lemma refresh_single_use_witness:
  "\<exists>w1. refresh_tokens mem_call sample_env sample_draws [] ''h'' None None
      (sample_login [] [sample_token 1 (ae_sha sample_env (utf8 ''h'')) 500]) =
        (Inr (token_response sample_env ''jwt'', ''new''), w1) \<and>
     isl (fst (refresh_tokens mem_call sample_env sample_draws [] ''h'' None None w1))"
proof -
  let ?w = "sample_login [] [sample_token 1 (ae_sha sample_env (utf8 ''h'')) 500]"
  let ?m = "refresh_tokens mem_call sample_env sample_draws [] ''h'' None None"
  have run: "fst (?m ?w) = Inr (token_response sample_env ''jwt'', ''new'')"
    by (simp add: login_eval refresh_tokens_def rotate_refresh_token_def get_active_user_by_id_def
        sample_token_def token_response_def cong: eval_congs)
  have "distinct (map rt_hash (rtokens (work ?w)))" by (simp add: sample_login_def Let_def)
  moreover have "ae_sha sample_env (utf8 (dr_raw sample_draws)) \<noteq> ae_sha sample_env (utf8 ''h'')"
    by (simp add: sample_env_def sample_draws_def utf8_def utf8_char_def)
  moreover obtain y w3 where again: "?m (snd (?m ?w)) = (y, w3)" by fastforce
  ultimately have "isl y" using refresh_single_use [OF run_of [OF run], where 'b = mem_redis] by blast
  with again run_of [OF run] show ?thesis by (intro exI [of _ "snd (?m ?w)"]) simp
qed

lemma change_password_run:
  fixes w w' :: "'r world"
  assumes "change_password call env d uid cur new w = (Inr x, w')"
  obtains u y q1 q2 where "call PING (redis w) = (y, q1)" and "u \<in> set (seen_users w)" and "u_id u = uid"
    and "u_active u" and "verify_password (ae_checkpw env) cur (u_password u)" and "length (utf8 new) \<le> 72"
    and "revoke_all_user_access_tokens call (ae_str env uid) (ae_minutes env * 60) q1 = (Inr (), q2)"
    and "redis w' = q2" and "committed w' = committed w"
    and "users (work w') = update_where (\<lambda>x. u_id x = uid)
      (\<lambda>x. x\<lparr>u_password := hash_password (ae_hashpw env) (dr_salt d) new\<rparr>) (users (work w))"
    and "\<forall>r \<in> set (rtokens (work w')). rt_user r = uid \<longrightarrow> rt_revoked r \<noteq> None"
proof -
  from assms obtain y q1 u t where ping: "call PING (redis w) = (y, q1)"
    and usr: "get_active_user_by_id uid (w\<lparr>redis := q1\<rparr>) = (Inr (u, t), w\<lparr>redis := q1\<rparr>)"
    and rest: "(if \<not> verify_password (ae_checkpw env) cur (u_password u)
       then raiseE (AuthError 400 ''La contrasena actual es incorrecta.'')
       else thenE (validate_password_length new)
        (thenE (exec (\<lambda>t. t\<lparr>users := update_where (\<lambda>x. u_id x = u_id u)
              (\<lambda>x. x\<lparr>u_password := hash_password (ae_hashpw env) (dr_salt d) new\<rparr>) (users t)\<rparr>))
        (thenE (revoke_all_user_tokens (dr_now d) uid)
          (on_redis (revoke_all_user_access_tokens call (ae_str env uid) (ae_minutes env * 60))))))
        (w\<lparr>redis := q1\<rparr>) = (Inr x, w')"
    using get_active_user_where_run
    by (fastforce simp: change_password_def thenE_def bindE_success get_active_user_by_id_def
        dest!: require_redis_run)
  from get_active_user_where_run [OF usr [unfolded get_active_user_by_id_def]]
  have eqs: "filter (\<lambda>x. u_id x = uid) (seen_users w) = [u]" "u_active u" by (simp_all add: seen_users_def)
  from eqs(1) have "u \<in> set (filter (\<lambda>x. u_id x = uid) (seen_users w))" by simp
  then have u: "u \<in> set (seen_users w)" "u_id u = uid" by simp_all
  define w2 where "w2 = w\<lparr>redis := q1, work := (work w)\<lparr>users := update_where (\<lambda>x. u_id x = uid)
      (\<lambda>x. x\<lparr>u_password := hash_password (ae_hashpw env) (dr_salt d) new\<rparr>) (users (work w))\<rparr>\<rparr>"
  from rest u(2) obtain q2 where
    v: "verify_password (ae_checkpw env) cur (u_password u)" "length (utf8 new) \<le> 72"
    and rev: "revoke_all_user_access_tokens call (ae_str env uid) (ae_minutes env * 60) q1 = (Inr (), q2)"
    and w': "w' = (snd (revoke_all_user_tokens (dr_now d) uid w2))\<lparr>redis := q2\<rparr>"
    by (auto simp: thenE_def bindE_success on_redis_run validate_password_length_def w2_def
        revoke_all_user_tokens_def split: if_splits)
  have seen: "rls_rtoken (guc w2) (work w2) r" if "rt_user r = uid" for r
  proof -
    let ?u = "u\<lparr>u_password := hash_password (ae_hashpw env) (dr_salt d) new\<rparr>"
    from u have "?u \<in> set (users (work w2))" by (auto simp: seen_users_def w2_def update_where_image image_iff)
    moreover from u that have "u_id ?u = rt_user r" "rls_user (guc w2) ?u"
      by (auto simp: seen_users_def rls_user_def w2_def)
    ultimately show ?thesis unfolding rls_user_def rls_rtoken_def by metis
  qed
  have "\<forall>r \<in> set (rtokens (work w')). rt_user r = uid \<longrightarrow> rt_revoked r \<noteq> None"
  proof (intro ballI impI)
    fix r assume r: "r \<in> set (rtokens (work w'))" "rt_user r = uid"
    from r(1) have "r \<in> (\<lambda>r0. if rls_rtoken (guc w2) (work w2) r0 \<and> unrevoked uid r0
        then revoke_row (dr_now d) r0 else r0) ` set (rtokens (work w2))"
      by (simp add: w' revoke_all_user_tokens_def update_where_image)
    then obtain r0 where "r = (if rls_rtoken (guc w2) (work w2) r0 \<and> unrevoked uid r0
        then revoke_row (dr_now d) r0 else r0)" by (rule imageE)
    with r(2) seen [of r0] show "rt_revoked r \<noteq> None"
      by (auto simp: unrevoked_def revoke_row_def split: if_splits)
  qed
  with ping u eqs(2) v rev w' show thesis
    by (intro that [of y q1 u q2]) (simp_all add: revoke_all_user_tokens_def w2_def)
qed

lemma change_password_redis:
  fixes w w' :: "'r world"
  assumes "change_password call env d uid cur new w = (x, w')"
  shows "committed w' = committed w \<and> (\<exists>y q1. call PING (redis w) = (y, q1) \<and> (redis w' = q1 \<or>
    (\<exists>z. revoke_all_user_access_tokens call (ae_str env uid) (ae_minutes env * 60) q1 = (z, redis w'))))"
proof -
  obtain y w1 where r1: "require_redis call w = (y, w1)" by fastforce
  from require_redis_run [OF r1] obtain z q1 where q1: "call PING (redis w) = (z, q1)" "w1 = w\<lparr>redis := q1\<rparr>" by blast
  obtain a w2 where r2: "get_active_user_by_id uid w1 = (a, w2)" by fastforce
  with get_active_user_where_run [of _ _ w1] have "w2 = w1" by (simp add: get_active_user_by_id_def)
  with assms r1 r2 have "redis w' = q1 \<and> committed w' = committed w \<or>
     (\<exists>w3 z. redis w3 = q1 \<and> committed w3 = committed w \<and>
       on_redis (revoke_all_user_access_tokens call (ae_str env uid) (ae_minutes env * 60)) w3 = (z, w'))"
    by (auto simp: change_password_def thenE_def bindE_def q1 validate_password_length_def
        revoke_all_user_tokens_def split: sum.splits if_splits)
  with q1 show ?thesis by (auto simp: on_redis_run)
qed

text \<open>
  C3: Changing the password ends every session, and is all or nothing in the database.  When the request
  fails, nothing is committed, and the user's active token ids are either kept, so that a retry finds
  them, or all on the denylist.  When it returns, the old password was right, the new one, of at most 72
  bytes, is the one stored, no refresh token of the user is usable, and every active access token of the
  user is denied for its whole life time.
\<close>

theorem change_password_ends_sessions:
  assumes "redis_contract call view"
    and "with_session refuse (change_password call env d uid cur new) w = (res, w')"
    and "store (view (redis w)) (active_jtis_key (ae_str env uid)) = Some (VSet js, None)" and "finite js"
  shows "(\<forall>e. res = Inl e \<longrightarrow> committed w' = committed w \<and>
      (store (view (redis w')) (active_jtis_key (ae_str env uid)) = Some (VSet js, None) \<or>
       (\<forall>j \<in> js. denied (view (redis w')) (clock (view (redis w)) + seconds (ae_minutes env * 60)) j))) \<and>
    (res = Inr () \<longrightarrow>
      (\<exists>u \<in> set (seen_users w). u_id u = uid \<and> verify_password (ae_checkpw env) cur (u_password u)) \<and>
      length (utf8 new) \<le> 72 \<and>
      (\<forall>u \<in> set (users (committed w')). u_id u = uid \<longrightarrow>
         u_password u = hash_password (ae_hashpw env) (dr_salt d) new) \<and>
      (\<forall>r \<in> set (rtokens (committed w')). rt_user r = uid \<longrightarrow> rt_revoked r \<noteq> None) \<and>
      (\<forall>j \<in> js. denied (view (redis w')) (clock (view (redis w)) + seconds (ae_minutes env * 60)) j))"
proof (cases res)
  case (Inl e)
  let ?kept = "\<lambda>q. store (view q) (active_jtis_key (ae_str env uid)) = Some (VSet js, None) \<or>
     (\<forall>j \<in> js. denied (view q) (clock (view (redis w)) + seconds (ae_minutes env * 60)) j)"
  have "committed w1 = committed w \<and> ?kept (redis w1)"
    if run: "change_password call env d uid cur new w = (y, w1)" for y w1
  proof -
    from change_password_redis [OF run] obtain a q1 where ping: "call PING (redis w) = (a, q1)"
      and q: "redis w1 = q1 \<or>
        (\<exists>z. revoke_all_user_access_tokens call (ae_str env uid) (ae_minutes env * 60) q1 = (z, redis w1))"
      and "committed w1 = committed w" by blast
    moreover have k: "store (view q1) (active_jtis_key (ae_str env uid)) = Some (VSet js, None)"
      using redis_contract.call_frame [OF assms(1) ping] assms(3) by simp
    moreover have "?kept (redis w1)"
      if "revoke_all_user_access_tokens call (ae_str env uid) (ae_minutes env * 60) q1 = (z, redis w1)" for z
      using redis_contract.revoke_all_fail_closed [OF assms(1) that k assms(4)]
        denied_mono [OF _ add_right_mono [OF redis_contract.call_clock [OF assms(1) ping]]] by blast
    ultimately show ?thesis by auto
  qed
  with Inl assms(2) show ?thesis by (auto elim!: with_session_Inl)
next
  case (Inr v)
  with assms(2) obtain w1 where run: "change_password call env d uid cur new w = (Inr v, w1)"
    and w': "w' = end_tx (work w1) w1" by (auto simp: with_session_Inr)
  from run obtain u y q1 q2 where ping: "call PING (redis w) = (y, q1)" and
    u: "u \<in> set (seen_users w)" "u_id u = uid" "verify_password (ae_checkpw env) cur (u_password u)"
    and len: "length (utf8 new) \<le> 72"
    and rev: "revoke_all_user_access_tokens call (ae_str env uid) (ae_minutes env * 60) q1 = (Inr (), q2)"
    and q2: "redis w1 = q2"
    and us: "users (work w1) = update_where (\<lambda>x. u_id x = uid)
      (\<lambda>x. x\<lparr>u_password := hash_password (ae_hashpw env) (dr_salt d) new\<rparr>) (users (work w))"
    and ts: "\<forall>r \<in> set (rtokens (work w1)). rt_user r = uid \<longrightarrow> rt_revoked r \<noteq> None"
    by (rule change_password_run)
  have "store (view q1) (active_jtis_key (ae_str env uid)) = Some (VSet js, None)"
    using redis_contract.call_frame [OF assms(1) ping] assms(3) by simp
  from redis_contract.revoke_all_fail_closed [OF assms(1) rev this assms(4)]
  have "denied (view q2) (clock (view q1) + seconds (ae_minutes env * 60)) j" if "j \<in> js" for j
    using that by auto
  then have "denied (view q2) (clock (view (redis w)) + seconds (ae_minutes env * 60)) j" if "j \<in> js" for j
    using that denied_mono [OF _ add_right_mono [OF redis_contract.call_clock [OF assms(1) ping]]] by blast
  with u len us ts q2 w' Inr show ?thesis by (auto simp: update_where_image)
qed

definition sample_account :: mem_redis where
  "sample_account = (mem_empty [])\<lparr>mr_store := \<lparr>clock = 5, entries =
     [(active_jtis_key (show_nat 5), VSet {''a''}, None)]\<rparr>\<rparr>"

lemma change_password_ends_sessions_witness:
  "\<exists>w'. with_session no_refusal (change_password mem_call sample_env sample_draws 5 ''hash'' ''n'')
      ((sample_login [] [sample_token 1 ''h'' 500])\<lparr>guc := \<lparr>g_tenant = Some 1, g_super = False\<rparr>,
        redis := sample_account\<rparr>) = (Inr (), w') \<and>
     denied (mr_store (redis w')) (5 + seconds 900) ''a''"
proof -
  let ?m = "with_session no_refusal (change_password mem_call sample_env sample_draws 5 ''hash'' ''n'')"
  let ?w = "(sample_login [] [sample_token 1 ''h'' 500])\<lparr>guc := \<lparr>g_tenant = Some 1, g_super = False\<rparr>,
        redis := sample_account\<rparr>"
  have run: "fst (?m ?w) = Inr ()"
    by (simp add: with_session_def change_password_def login_eval get_active_user_by_id_def flush_def commit_def
        validate_password_length_def utf8_def utf8_char_def revoke_all_user_tokens_def constraint_defs
        revoke_all_user_access_tokens_def reply_set_def deny_def sample_account_def sample_token_def
        hash_password_def unrevoked_def revoke_row_def cong: eval_congs)
  have st: "store (mr_store (redis ?w)) (active_jtis_key (ae_str sample_env 5)) = Some (VSet {''a''}, None)"
    by (simp add: sample_account_def store_def sample_env_def)
  have "clock (mr_store (redis ?w)) = 5" "ae_minutes sample_env * 60 = 900"
    by (simp_all add: sample_account_def sample_env_def)
  with change_password_ends_sessions [OF mem_contract run_of [OF run] st] run_of [OF run]
  have "denied (mr_store (redis (snd (?m ?w)))) (5 + seconds 900) ''a''" by simp
  with run_of [OF run] show ?thesis by blast
qed

end
