(* ===== verification/Rate_Limit.thy ===== *)
theory Rate_Limit
  imports Redis_Iface
begin

text \<open>
  \<open>app/core/rate_limit.py\<close>: the progressive lockout of the authentication endpoints.  Failures are
  counted per address and per e-mail hash in Redis hashes; the instants \<open>now\<close> are what
  \<open>time.time()\<close> returns, \<open>str_float\<close> and \<open>read_float\<close> stand for \<open>str\<close> and \<open>float\<close> on such instants,
  \<open>sha\<close> for the SHA-256 digest in hexadecimal and \<open>window\<close> for \<open>RATE_LIMIT_WINDOW_SECONDS\<close>.
\<close>

subsection \<open>The escalation table\<close>

definition LOCKOUT_TABLE :: "(int \<times> int) list" where
  "LOCKOUT_TABLE = [(5, 3 * 60), (10, 15 * 60), (15, 60 * 60), (20, 4 * 60 * 60), (25, 24 * 60 * 60)]"

fun lockout_loop :: "(int \<times> int) list \<Rightarrow> int \<Rightarrow> int \<Rightarrow> int" where
  "lockout_loop [] failures result = result"
| "lockout_loop ((threshold, secs) # rest) failures result =
     (if threshold < failures then lockout_loop rest failures secs else result)"

definition get_lockout_seconds :: "int \<Rightarrow> int" where
  "get_lockout_seconds failures = lockout_loop LOCKOUT_TABLE failures 0"

subsection \<open>The limiter\<close>

record lockout_status =
  ls_locked :: bool
  ls_retry_after :: "int option"
  ls_failures :: int

definition ip_key :: "string \<Rightarrow> string" where
  "ip_key ip = ''ratelimit:ip:'' @ ip"

definition hash_email_key :: "(nat list \<Rightarrow> string) \<Rightarrow> string \<Rightarrow> string" where
  "hash_email_key sha email = take 16 (sha (utf8 (strip (lower email))))"

definition email_key :: "(nat list \<Rightarrow> string) \<Rightarrow> string \<Rightarrow> string" where
  "email_key sha email = ''ratelimit:email:'' @ hash_email_key sha email"

text \<open>\<open>float(_get_hash_field(data, f))\<close> and \<open>int(_get_hash_field(data, f))\<close>; an absent field is 0.\<close>

definition parsed :: "'a option \<Rightarrow> ('s, exn, 'a) prog" where
  "parsed x = (case x of None \<Rightarrow> raiseE (ValueError ''could not convert string'') | Some v \<Rightarrow> retE v)"

definition get_hash_field :: "(string \<times> string) list \<Rightarrow> string \<Rightarrow> (string \<Rightarrow> int option) \<Rightarrow> int option" where
  "get_hash_field data f read = (case map_of data f of None \<Rightarrow> Some 0 | Some s \<Rightarrow> read s)"

definition reply_hash :: "reply \<Rightarrow> (string \<times> string) list" where
  "reply_hash r = (case r of RHash h \<Rightarrow> h | _ \<Rightarrow> [])"

definition reply_int :: "reply \<Rightarrow> int" where
  "reply_int r = (case r of RInt n \<Rightarrow> n | _ \<Rightarrow> 0)"

definition locked_status ::
  "(string \<times> string) list \<Rightarrow> time \<Rightarrow> time \<Rightarrow> ('r, lockout_status) redis_prog" where
  "locked_status data locked_until now =
     bindE (parsed (get_hash_field data ''failures'' read_int))
       (\<lambda>n. retE \<lparr>ls_locked = True, ls_retry_after = Some (timestamp (locked_until - now)),
                  ls_failures = n\<rparr>)"

definition check ::
  "'r redis_call \<Rightarrow> (nat list \<Rightarrow> string) \<Rightarrow> (string \<Rightarrow> time option) \<Rightarrow> time \<Rightarrow> string \<Rightarrow> string
   \<Rightarrow> ('r, lockout_status) redis_prog" where
  "check call sha read_float now ip email =
    bindE (redis_cmd call (HGETALL (ip_key ip))) (\<lambda>r1.
    bindE (redis_cmd call (HGETALL (email_key sha email))) (\<lambda>r2.
      let ip_data = reply_hash r1; email_data = reply_hash r2 in
      bindE (parsed (get_hash_field ip_data ''locked_until'' read_float)) (\<lambda>ip_until.
        if now < ip_until then locked_status ip_data ip_until now
        else bindE (parsed (get_hash_field email_data ''locked_until'' read_float)) (\<lambda>email_until.
          if now < email_until then locked_status email_data email_until now
          else bindE (parsed (get_hash_field ip_data ''failures'' read_int)) (\<lambda>f1.
            bindE (parsed (get_hash_field email_data ''failures'' read_int)) (\<lambda>f2.
              retE \<lparr>ls_locked = False, ls_retry_after = None, ls_failures = max f1 f2\<rparr>))))))"

text \<open>The body of the loop over the two keys in \<open>record_failure\<close>.\<close>

definition record_key ::
  "'r redis_call \<Rightarrow> (time \<Rightarrow> string) \<Rightarrow> (string \<Rightarrow> time option) \<Rightarrow> int \<Rightarrow> time \<Rightarrow> string
   \<Rightarrow> ('r, unit) redis_prog" where
  "record_key call str_float read_float window now key =
    bindE (redis_cmd call (HINCRBY key ''failures'' 1)) (\<lambda>r.
    thenE (redis_cmd call (EXPIRE key (seconds (window + 3600))))
      (let lockout_seconds = get_lockout_seconds (reply_int r) in
       whenE (0 < lockout_seconds)
         (bindE (redis_cmd call (HGET key ''locked_until'')) (\<lambda>l.
          bindE (parsed (case l of RStr s \<Rightarrow> if s = '''' then Some 0 else read_float s | _ \<Rightarrow> Some 0))
            (\<lambda>current_locked.
              let base_time = max now current_locked;
                  new_locked_until = base_time + seconds lockout_seconds
              in thenE (redis_cmd call (HSET key ''locked_until'' (str_float new_locked_until)))
                   (retE ()))))))"

definition record_failure ::
  "'r redis_call \<Rightarrow> (nat list \<Rightarrow> string) \<Rightarrow> (time \<Rightarrow> string) \<Rightarrow> (string \<Rightarrow> time option) \<Rightarrow> int
   \<Rightarrow> time \<Rightarrow> time \<Rightarrow> string \<Rightarrow> string \<Rightarrow> ('r, lockout_status) redis_prog" where
  "record_failure call sha str_float read_float window now later ip email =
    thenE (forE [ip_key ip, email_key sha email]
             (record_key call str_float read_float window now))
      (check call sha read_float later ip email)"

definition record_success ::
  "'r redis_call \<Rightarrow> (nat list \<Rightarrow> string) \<Rightarrow> string \<Rightarrow> string \<Rightarrow> ('r, unit) redis_prog" where
  "record_success call sha ip email =
    thenE (redis_cmd call (DEL (ip_key ip)))
      (thenE (redis_cmd call (DEL (email_key sha email))) (retE ()))"

lemma rate_keys [simp]: "ip_key ip \<noteq> email_key sha email" "email_key sha email \<noteq> ip_key ip"
  by (simp_all add: ip_key_def email_key_def)

lemma parsed_Inr [simp]: "parsed x s = (Inr v, t) \<longleftrightarrow> x = Some v \<and> t = s"
  by (auto simp: parsed_def split: option.split)

subsection \<open>The table\<close>

text \<open>
  The lockout escalates.  \<open>_get_lockout_seconds\<close> is monotone in the number of failures; it is 0
  exactly up to the first threshold, so the threshold itself does not lock, and beyond the last one it
  stays at a day.
\<close>

theorem lockout_escalates:
  "(m \<le> n \<longrightarrow> get_lockout_seconds m \<le> get_lockout_seconds n) \<and>
   (get_lockout_seconds n = 0 \<longleftrightarrow> n \<le> 5) \<and> (25 < n \<longrightarrow> get_lockout_seconds n = 24 * 60 * 60) \<and>
   (\<forall>(threshold, secs) \<in> set LOCKOUT_TABLE. get_lockout_seconds (threshold + 1) = secs \<and>
      get_lockout_seconds threshold < secs)"
  by (auto simp: get_lockout_seconds_def LOCKOUT_TABLE_def)

lemma lockout_escalates_witness:
  "get_lockout_seconds 5 = 0 \<and> get_lockout_seconds 6 \<le> get_lockout_seconds 40"
  using lockout_escalates [of 6 40] lockout_escalates [of 5 5] by simp

lemma lockout_day: "get_lockout_seconds n \<le> 24 * 60 * 60"
  by (auto simp: get_lockout_seconds_def LOCKOUT_TABLE_def)

subsection \<open>What a recorded failure leaves behind\<close>

text \<open>The key holds a hash with \<open>n\<close> failures that lives until \<open>lim\<close> at least.\<close>

definition counts :: "rstore \<Rightarrow> time \<Rightarrow> string \<Rightarrow> int \<Rightarrow> (string \<times> string) list \<Rightarrow> bool" where
  "counts st lim key n h \<longleftrightarrow> get_hash_field h ''failures'' read_int = Some n \<and>
     (store st key = None \<and> h = [] \<or>
      (\<exists>d. store st key = Some (VHash h, d) \<and> (case d of None \<Rightarrow> True | Some e \<Rightarrow> lim < e)))"

definition locked_from :: "(string \<Rightarrow> time option) \<Rightarrow> (string \<times> string) list \<Rightarrow> time \<Rightarrow> bool" where
  "locked_from read_float h u \<longleftrightarrow>
     (\<exists>v \<ge> u. get_hash_field h ''locked_until'' read_float = Some v)"

lemma get_hash_field_update [simp]:
  "get_hash_field (AList.update f v h) f rd = rd v"
  "g \<noteq> f \<Longrightarrow> get_hash_field (AList.update f v h) g rd = get_hash_field h g rd"
  by (simp_all add: get_hash_field_def update_conv')

lemma counts_live:
  "counts st lim key n h \<Longrightarrow> clock st \<le> lim \<Longrightarrow> as_hash (live st key) = Some h"
  by (auto simp: counts_def as_hash_def live_def split: option.splits)

lemma counts_expiry:
  "counts st lim key n h \<Longrightarrow> clock st \<le> lim \<Longrightarrow> expiry st key = Some e \<Longrightarrow> lim < e"
  by (auto simp: counts_def expiry_def live_def split: option.splits if_splits)

lemma counts_cong: "store st' key = store st key \<Longrightarrow> counts st' lim key n h = counts st lim key n h"
  by (simp add: counts_def)

context redis_contract
begin

lemma hincrby_counts:
  assumes "call (HINCRBY key ''failures'' 1) s = (Inr r, s1)" and "counts (view s) lim key n h"
    and "clock (view s1) \<le> lim"
  shows "reply_int r = n + 1 \<and>
    counts (view s1) lim key (n + 1) (AList.update ''failures'' (show_int (n + 1)) h) \<and>
    store (view s1) key \<noteq> None"
proof -
  from call_ok [OF assms(1)] obtain t where t: "clock (view s) \<le> t"
    and d: "redis_does (HINCRBY key ''failures'' 1) ((view s)\<lparr>clock := t\<rparr>) r (view s1)" by blast
  let ?st = "(view s)\<lparr>clock := t\<rparr>"
  have lim: "clock ?st \<le> lim" using redis_does_clock [OF d] assms(3) by simp
  have c: "counts ?st lim key n h" using assms(2) by (simp add: counts_def)
  have n: "as_number (map_of h ''failures'') = Some n"
    using c by (auto simp: counts_def get_hash_field_def as_number_def split: option.splits)
  from d counts_live [OF c lim] n have r: "r = RInt (n + 1)"
    and v: "view s1 = put key (VHash (AList.update ''failures'' (show_int (n + 1)) h)) (expiry ?st key) ?st"
    by (auto simp: redis_does_def)
  have "case expiry ?st key of None \<Rightarrow> True | Some e \<Rightarrow> lim < e"
    using counts_expiry [OF c lim] by (auto split: option.split)
  with r v show ?thesis by (simp add: counts_def reply_int_def)
qed

lemma expire_counts:
  assumes "call (EXPIRE key d) s = (Inr r, s1)" and "counts (view s) lim key n h"
    and "clock (view s1) \<le> lim" and "lim < clock (view s) + d" and "store (view s) key \<noteq> None"
  shows "\<exists>e \<ge> clock (view s) + d. store (view s1) key = Some (VHash h, Some e)"
proof -
  from call_ok [OF assms(1)] obtain t where t: "clock (view s) \<le> t"
    and dd: "redis_does (EXPIRE key d) ((view s)\<lparr>clock := t\<rparr>) r (view s1)" by blast
  let ?st = "(view s)\<lparr>clock := t\<rparr>"
  have lim: "clock ?st \<le> lim" using redis_does_clock [OF dd] assms(3) by simp
  obtain x where x: "store (view s) key = Some (VHash h, x)" "\<And>e. x = Some e \<Longrightarrow> lim < e"
    using assms(2,5) unfolding counts_def by fastforce
  have "live ?st key = Some (VHash h)"
  proof (cases x)
    case (Some e)
    with x lim have "t < e" by fastforce
    with x Some show ?thesis by (simp add: live_def)
  qed (simp add: live_def x)
  with dd t show ?thesis by (auto simp: redis_does_def dest!: put_sym)
qed

lemma hget_reads:
  assumes "call (HGET key f) s = (x, s1)"
  shows "store (view s1) = store (view s)"
  by (rule call_reads [OF assms]) (auto simp: redis_does_def)

text \<open>The calls of one round of the loop.\<close>

lemma record_key_calls:
  assumes "record_key call str_float read_float window now key s = (Inr u, s')"
  obtains r s1 r2 s2 where "call (HINCRBY key ''failures'' 1) s = (Inr r, s1)"
      and "call (EXPIRE key (seconds (window + 3600))) s1 = (Inr r2, s2)"
      and "get_lockout_seconds (reply_int r) \<le> 0" and "s' = s2"
    | r s1 r2 s2 l s3 cur r4 where "call (HINCRBY key ''failures'' 1) s = (Inr r, s1)"
      and "call (EXPIRE key (seconds (window + 3600))) s1 = (Inr r2, s2)"
      and "0 < get_lockout_seconds (reply_int r)" and "call (HGET key ''locked_until'') s2 = (Inr l, s3)"
      and "call (HSET key ''locked_until''
             (str_float (max now cur + seconds (get_lockout_seconds (reply_int r))))) s3 = (Inr r4, s')"
proof -
  from assms obtain r s1 r2 s2 where
    hi: "call (HINCRBY key ''failures'' 1) s = (Inr r, s1)"
    and ex: "call (EXPIRE key (seconds (window + 3600))) s1 = (Inr r2, s2)"
    and rest: "(let lockout_seconds = get_lockout_seconds (reply_int r) in
       whenE (0 < lockout_seconds)
         (bindE (redis_cmd call (HGET key ''locked_until'')) (\<lambda>l.
          bindE (parsed (case l of RStr s \<Rightarrow> if s = '''' then Some 0 else read_float s | _ \<Rightarrow> Some 0))
            (\<lambda>current_locked.
              let base_time = max now current_locked;
                  new_locked_until = base_time + seconds lockout_seconds
              in thenE (redis_cmd call (HSET key ''locked_until'' (str_float new_locked_until)))
                   (retE ()))))) s2 = (Inr u, s')"
    by (auto simp: record_key_def bindE_success thenE_def redis_cmd_Inr)
  show thesis
  proof (cases "0 < get_lockout_seconds (reply_int r)")
    case False
    with rest that(1) [OF hi ex] show ?thesis by simp
  next
    case True
    with rest that(2) [OF hi ex] show ?thesis
      by (auto simp: Let_def bindE_success thenE_def redis_cmd_Inr)
  qed
qed

lemma record_key_frame:
  assumes "record_key call str_float read_float window now key s = (Inr u, s')"
  shows "clock (view s) \<le> clock (view s')"
    and "key' \<noteq> key \<Longrightarrow> store (view s') key' = store (view s) key'"
proof -
  show "clock (view s) \<le> clock (view s')"
    using assms by (cases rule: record_key_calls) (auto dest!: call_clock)
  show "store (view s') key' = store (view s) key'" if "key' \<noteq> key"
    using assms by (cases rule: record_key_calls) (use that in \<open>auto dest!: call_frame [where k = key']\<close>)
qed

lemma record_key_locks:
  assumes run: "record_key call str_float read_float window now key s = (Inr u, s')"
    and rt: "\<And>t. read_float (str_float t) = Some t"
    and c: "counts (view s) lim key n h" and lim: "clock (view s') \<le> lim"
      "lim < clock (view s) + seconds (window + 3600)"
  shows "\<exists>h' e. store (view s') key = Some (VHash h', Some e) \<and>
      clock (view s) + seconds (window + 3600) \<le> e \<and>
      get_hash_field h' ''failures'' read_int = Some (n + 1) \<and>
      (0 < get_lockout_seconds (n + 1) \<longrightarrow>
         locked_from read_float h' (now + seconds (get_lockout_seconds (n + 1))))"
proof -
  let ?lock = "get_lockout_seconds (n + 1)" and ?d = "seconds (window + 3600)"
  let ?h = "AList.update ''failures'' (show_int (n + 1)) h"
  have main: "reply_int r = n + 1 \<and>
      (\<exists>e \<ge> clock (view s) + ?d. store (view s2) key = Some (VHash ?h, Some e))"
    if hi: "call (HINCRBY key ''failures'' 1) s = (Inr r, s1)"
      and ex: "call (EXPIRE key ?d) s1 = (Inr r2, s2)" and c2: "clock (view s2) \<le> lim"
    for r s1 r2 s2
  proof -
    have c1: "clock (view s) \<le> clock (view s1)" "clock (view s1) \<le> lim"
      using call_clock [OF hi] call_clock [OF ex] c2 by auto
    note hi' = hincrby_counts [OF hi c c1(2)]
    from expire_counts [OF ex _ c2] hi' lim c1 obtain e where
      "clock (view s1) + ?d \<le> e" "store (view s2) key = Some (VHash ?h, Some e)" by auto
    with c1 hi' show ?thesis by (intro conjI exI [of _ e]) auto
  qed
  from run show ?thesis
  proof (cases rule: record_key_calls)
    case (1 r s1 r2 s2)
    with main [OF 1(1,2)] lim show ?thesis by (auto simp: get_hash_field_update)
  next
    case (2 r s1 r2 s2 l s3 cur r4)
    have "clock (view s2) \<le> lim" using call_clock [OF 2(4)] call_clock [OF 2(5)] lim by simp
    from main [OF 2(1,2) this] obtain e where r: "reply_int r = n + 1"
      and e: "clock (view s) + ?d \<le> e" "store (view s2) key = Some (VHash ?h, Some e)" by auto
    have st3: "store (view s3) key = Some (VHash ?h, Some e)" using hget_reads [OF 2(4)] e by simp
    from call_ok [OF 2(5)] obtain t where
      d: "redis_does (HSET key ''locked_until'' (str_float (max now cur + seconds ?lock)))
            ((view s3)\<lparr>clock := t\<rparr>) r4 (view s')" unfolding r by blast
    have "t < e" using redis_does_clock [OF d] lim e by simp
    with d st3 have "store (view s') key = Some (VHash (AList.update ''locked_until''
        (str_float (max now cur + seconds ?lock)) ?h), Some e)"
      by (auto simp: redis_does_def live_def as_hash_def expiry_def dest!: put_sym)
    then show ?thesis using e rt
      by (intro exI [of _ e] exI) (auto simp: locked_from_def)
  qed
qed

lemma record_failure_locks:
  assumes run: "record_failure call sha str_float read_float window now later ip email s = (Inr st, s')"
    and rt: "\<And>t. read_float (str_float t) = Some t"
    and c: "counts (view s) lim (ip_key ip) n h1" "counts (view s) lim (email_key sha email) m h2"
    and lim: "clock (view s') \<le> lim" "lim < clock (view s) + seconds (window + 3600)"
    and key: "(key, k) \<in> {(ip_key ip, n), (email_key sha email, m)}"
  shows "\<exists>h' e. store (view s') key = Some (VHash h', Some e) \<and>
      clock (view s) + seconds (window + 3600) \<le> e \<and>
      get_hash_field h' ''failures'' read_int = Some (k + 1) \<and>
      (0 < get_lockout_seconds (k + 1) \<longrightarrow>
         locked_from read_float h' (now + seconds (get_lockout_seconds (k + 1))))"
proof -
  from run obtain s1 s2 where r1: "record_key call str_float read_float window now (ip_key ip) s = (Inr (), s1)"
    and r2: "record_key call str_float read_float window now (email_key sha email) s1 = (Inr (), s2)"
    and ch: "check call sha read_float later ip email s2 = (Inr st, s')"
    by (auto simp: record_failure_def thenE_def bindE_success)
  have ch': "store (view s') = store (view s2) \<and> clock (view s2) \<le> clock (view s')"
  proof -
    obtain a b t where a: "call (HGETALL (ip_key ip)) s2 = (Inr a, t)"
      and b: "call (HGETALL (email_key sha email)) t = (Inr b, s')"
      using ch by (auto simp: check_def locked_status_def Let_def bindE_success redis_cmd_Inr split: if_splits)
    have "store (view t) = store (view s2)" "store (view s') = store (view t)"
      by (rule call_reads [OF a], simp add: redis_does_def split: option.splits, force)
        (rule call_reads [OF b], simp add: redis_does_def split: option.splits, force)
    with call_clock [OF a] call_clock [OF b] show ?thesis by simp
  qed
  note f1 = record_key_frame [OF r1] and f2 = record_key_frame [OF r2]
  have le: "clock (view s1) \<le> lim" "clock (view s2) \<le> lim" using f1(1) f2(1) ch' lim(1) by auto
  from key consider "key = ip_key ip" "k = n" | "key = email_key sha email" "k = m" by auto
  then show ?thesis
  proof cases
    case 1
    with record_key_locks [OF r1 rt c(1) le(1) lim(2)] f2(2) [of key] ch' show ?thesis by simp
  next
    case 2
    have c1: "counts (view s1) lim (email_key sha email) m h2"
      using c(2) counts_cong [OF f1(2) [of "email_key sha email"]] by simp
    have "lim < clock (view s1) + seconds (window + 3600)" using lim(2) f1(1) by simp
    from record_key_locks [OF r2 rt c1 le(2) this] obtain h' e where
      "store (view s2) (email_key sha email) = Some (VHash h', Some e)"
      "clock (view s1) + seconds (window + 3600) \<le> e"
      "get_hash_field h' ''failures'' read_int = Some (m + 1)"
      "0 < get_lockout_seconds (m + 1) \<longrightarrow>
         locked_from read_float h' (now + seconds (get_lockout_seconds (m + 1)))" by blast
    with f1(1) ch' 2 show ?thesis by (intro exI [of _ h'] exI [of _ e]) simp
  qed
qed

lemma check_locked:
  assumes "check call sha read_float now ip email s = (Inr st, s')"
    and "store (view s) key = Some (VHash h, Some e)" and "clock (view s') < e"
    and "locked_from read_float h u" and "now < u" and "key \<in> {ip_key ip, email_key sha email}"
  shows "ls_locked st \<and> ls_retry_after st \<noteq> None"
proof -
  obtain a b t where a: "call (HGETALL (ip_key ip)) s = (Inr a, t)"
    and b: "call (HGETALL (email_key sha email)) t = (Inr b, s')"
    using assms(1) by (auto simp: check_def locked_status_def Let_def bindE_success redis_cmd_Inr split: if_splits)
  have st: "store (view t) = store (view s)"
    by (rule call_reads [OF a]) (auto simp: redis_does_def)
  have clk: "clock (view t) \<le> clock (view s')" using call_clock [OF b] .
  have read: "r = RHash h" if "call (HGETALL key) s0 = (Inr r, s1)" "store (view s0) key = store (view s) key"
    "clock (view s1) \<le> clock (view s')" for r s0 s1
  proof -
    from call_ok [OF that(1)] obtain t0 where d: "redis_does (HGETALL key) ((view s0)\<lparr>clock := t0\<rparr>) r (view s1)"
      by blast
    with redis_does_clock [OF d] that assms(2,3) show ?thesis
      by (auto simp: redis_does_def live_def as_hash_def split: if_splits)
  qed
  obtain v where v: "get_hash_field h ''locked_until'' read_float = Some v" "now < v"
    using assms(4,5) by (auto simp: locked_from_def)
  from assms(6) show ?thesis
  proof (elim insertE)
    assume "key = ip_key ip"
    with read [OF _ _ clk] a have "a = RHash h" by simp
    with assms(1) a b v show ?thesis
      by (auto simp: check_def locked_status_def Let_def bindE_success redis_cmd_Inr reply_hash_def split: if_splits)
  next
    assume "key = email_key sha email"
    with read [of t b s'] b st have "b = RHash h" by simp
    with assms(1) a b v show ?thesis
      by (auto simp: check_def locked_status_def Let_def bindE_success redis_cmd_Inr reply_hash_def split: if_splits)
  qed simp
qed

end

subsection \<open>Properties\<close>

text \<open>
  C36: A lockout is applied and enforced.  Suppose \<open>record_failure\<close> returns, the counter of the address
  (or of the e-mail) was \<open>n\<close>, and no key expires meanwhile.  Then the counter is \<open>n + 1\<close> and lives
  for the clean-up window; and when the table locks \<open>n + 1\<close> failures, every later check of this address
  (or e-mail) before the lockout ends reports it as locked, whatever the other key says.
\<close>

theorem lockout_enforced:
  assumes "redis_contract call view" and "\<And>t. read_float (str_float t) = Some t"
    and "record_failure call sha str_float read_float window now later ip email s = (Inr st, s')"
    and "counts (view s) lim (ip_key ip) n h1" and "counts (view s) lim (email_key sha email) m h2"
    and "clock (view s') \<le> lim" and "lim < clock (view s) + seconds (window + 3600)"
    and "(key, k) \<in> {(ip_key ip, n), (email_key sha email, m)}"
  shows "\<exists>h e. store (view s') key = Some (VHash h, Some e) \<and>
    get_hash_field h ''failures'' read_int = Some (k + 1) \<and>
    clock (view s) + seconds (window + 3600) \<le> e \<and>
    (\<forall>ip' email' s2 s3 st' now'. key \<in> {ip_key ip', email_key sha email'} \<and>
       0 < get_lockout_seconds (k + 1) \<and> store (view s2) key = store (view s') key \<and>
       check call sha read_float now' ip' email' s2 = (Inr st', s3) \<and>
       clock (view s3) < clock (view s) + seconds (window + 3600) \<and>
       now' < now + seconds (get_lockout_seconds (k + 1)) \<longrightarrow> ls_locked st')"
proof -
  from redis_contract.record_failure_locks [OF assms(1,3,2,4-8)] obtain h e where
    h: "store (view s') key = Some (VHash h, Some e)" "clock (view s) + seconds (window + 3600) \<le> e"
      "get_hash_field h ''failures'' read_int = Some (k + 1)"
      "0 < get_lockout_seconds (k + 1) \<longrightarrow>
         locked_from read_float h (now + seconds (get_lockout_seconds (k + 1)))" by blast
  have "ls_locked st'" if "key \<in> {ip_key ip', email_key sha email'}" "0 < get_lockout_seconds (k + 1)"
    "store (view s2) key = store (view s') key"
    "check call sha read_float now' ip' email' s2 = (Inr st', s3)"
    "clock (view s3) < clock (view s) + seconds (window + 3600)"
    "now' < now + seconds (get_lockout_seconds (k + 1))" for ip' email' s2 s3 st' now'
    using redis_contract.check_locked [OF assms(1) that(4), of key h e "now + seconds (get_lockout_seconds (k + 1))"]
      that h by simp
  with h show ?thesis by blast
qed

definition sample_limiter :: mem_redis where
  "sample_limiter = (mem_empty [])\<lparr>mr_store := \<lparr>clock = 0, entries =
     [(ip_key ''10.0.0.1'', VHash [(''failures'', ''5'')], None)]\<rparr>\<rparr>"

lemma lockout_enforced_witness:
  "\<exists>st. check mem_call (\<lambda>_. ''h'') read_int (seconds 170) ''10.0.0.1'' ''other''
      (snd (record_failure mem_call (\<lambda>_. ''h'') show_int read_int 86400 (seconds 10) (seconds 10)
        ''10.0.0.1'' ''u'' sample_limiter)) = st \<and> (\<forall>x. fst st = Inr x \<longrightarrow> ls_locked x)"
proof -
  let ?m = "record_failure mem_call (\<lambda>_. ''h'') show_int read_int 86400 (seconds 10) (seconds 10) ''10.0.0.1'' ''u''"
  let ?s = "snd (?m sample_limiter)"
  let ?c = "check mem_call (\<lambda>_. ''h'') read_int (seconds 170) ''10.0.0.1'' ''other''"
  have nums: "read_int ''5'' = Some 5" "show_int 6 = ''6''" "read_int ''6'' = Some 6" "show_int 1 = ''1''"
    "show_int 190000000 = ''190000000''" "read_int ''190000000'' = Some 190000000" "read_int ''1'' = Some 1"
    by (simp_all add: show_int_def show_nat.simps char_of_def bit_Suc_0_iff read_int_def strip_def lstrip_def
        rstrip_def is_space_def is_digit_def read_nat_def digit_value_def Let_def)
  note ev = record_failure_def record_key_def check_def locked_status_def eval_simps mem_eval_simps
    ip_key_def email_key_def hash_email_key_def reply_int_def reply_hash_def parsed_def nums
    get_hash_field_def get_lockout_seconds_def LOCKOUT_TABLE_def sample_limiter_def seconds_def timestamp_def
  have run0: "fst (?m sample_limiter) =
      Inr \<lparr>ls_locked = True, ls_retry_after = Some 180, ls_failures = 6\<rparr>"
    and clk: "clock (mr_store ?s) \<le> 100" and clk3: "clock (mr_store (snd (?c ?s))) < 100"
    by (simp_all add: ev cong: eval_congs)
  note run = run_of [OF run0]
  have clk0: "clock (mr_store sample_limiter) = 0" by (simp add: sample_limiter_def)
  have c1: "counts (mr_store sample_limiter) 100 (ip_key ''10.0.0.1'') 5 [(''failures'', ''5'')]"
    by (simp add: counts_def store_def sample_limiter_def get_hash_field_def nums)
  have c2: "counts (mr_store sample_limiter) 100 (email_key (\<lambda>_. ''h'') ''u'') 0 []"
    by (simp add: counts_def store_def sample_limiter_def get_hash_field_def)
  have lim: "100 < clock (mr_store sample_limiter) + seconds (86400 + 3600)"
    unfolding clk0 by (simp add: seconds_def)
  have "(ip_key ''10.0.0.1'', 5 :: int) \<in>
      {(ip_key ''10.0.0.1'', 5), (email_key (\<lambda>_. ''h'') ''u'', 0)}" by simp
  note enforced = lockout_enforced [OF mem_contract read_int_show run c1 c2 clk lim this]
  have lock: "get_lockout_seconds (5 + 1) = 180"
    by (simp add: get_lockout_seconds_def LOCKOUT_TABLE_def)
  have t: "0 < get_lockout_seconds (5 + 1)"
    "seconds 170 < seconds 10 + seconds (get_lockout_seconds (5 + 1))"
    "clock (mr_store (snd (?c ?s))) < clock (mr_store sample_limiter) + seconds (86400 + 3600)"
    unfolding lock using clk3 lim by (simp_all add: seconds_def)
  have "ls_locked x" if x: "fst (?c ?s) = Inr x" for x
    using enforced t run_of [OF x] by blast
  then show ?thesis by blast
qed

end
