(* ===== verification/Auth_Router.thy ===== *)
theory Auth_Router
  imports Auth_Service Rate_Limit
begin

text \<open>
  \<open>app/modules/auth/router.py\<close>: the four endpoints around the authentication service, with the rate
  limiter before and after it.  The limiter's environment holds its settings and the library functions
  it uses; the two instants are its clock readings.  The refresh cookie is the value paired with the
  answer.
\<close>

record limiter_env =
  le_enabled :: bool
  le_sha :: "nat list \<Rightarrow> string"
  le_str :: "time \<Rightarrow> string"
  le_read :: "string \<Rightarrow> time option"
  le_window :: int
  le_now :: time
  le_later :: time

definition get_client_ip :: "string list \<Rightarrow> string option \<Rightarrow> string option \<Rightarrow> string" where
  "get_client_ip trusted_proxies client forwarded = (case client of
      None \<Rightarrow> ''unknown''
    | Some host \<Rightarrow> (case forwarded of
          Some f \<Rightarrow> if trusted_proxies \<noteq> [] \<and> f \<noteq> '''' \<and> host \<in> set trusted_proxies
            then strip (takeWhile (\<lambda>c. c \<noteq> CHR '','') f) else host
        | None \<Rightarrow> host))"

fun app_detail :: "exn \<Rightarrow> string" where
  "app_detail (AuthError c m) = m"
| "app_detail (TenantError c m) = m"
| "app_detail (UserError c m) = m"
| "app_detail (VulnerabilityError c m) = m"
| "app_detail (ServiceUnavailableError m) = m"
| "app_detail _ = ''''"

text \<open>The check before the service: \<open>on_outage\<close> is what a Redis error means for the endpoint.\<close>

definition rate_precheck ::
  "'r redis_call \<Rightarrow> limiter_env \<Rightarrow> exn \<Rightarrow> exn option \<Rightarrow> string \<Rightarrow> string \<Rightarrow> ('r, unit) db_prog" where
  "rate_precheck call le locked on_outage ip key =
     whenE (le_enabled le)
      (catchE (bindE (on_redis (check call (le_sha le) (le_read le) (le_now le) ip key))
                 (\<lambda>st. if ls_locked st then raiseE locked else retE ()))
        (\<lambda>e. case e of
            HTTPException c m \<Rightarrow> raiseE e
          | RawRedis x \<Rightarrow> if is_redis_error x
              then (case on_outage of None \<Rightarrow> retE () | Some h \<Rightarrow> raiseE h)
              else if is_exception x then retE () else raiseE e
          | _ \<Rightarrow> if is_app_exception e then retE () else raiseE e))"

text \<open>\<open>except Exception\<close> around the bookkeeping of the limiter.\<close>

definition best_effort :: "('r, 'a) redis_prog \<Rightarrow> ('r, unit) db_prog" where
  "best_effort m = on_redis (catchE (bindE m (\<lambda>_. retE ())) (\<lambda>e. if is_app_exception e then retE () else raiseE e))"

definition rate_failure :: "'r redis_call \<Rightarrow> limiter_env \<Rightarrow> string \<Rightarrow> string \<Rightarrow> ('r, unit) db_prog" where
  "rate_failure call le ip key = whenE (le_enabled le) (best_effort
     (record_failure call (le_sha le) (le_str le) (le_read le) (le_window le) (le_now le) (le_later le) ip key))"

definition rate_success :: "'r redis_call \<Rightarrow> limiter_env \<Rightarrow> string \<Rightarrow> string \<Rightarrow> ('r, unit) db_prog" where
  "rate_success call le ip key = whenE (le_enabled le) (best_effort (record_success call (le_sha le) ip key))"

text \<open>\<open>except AppError\<close>: a server error passes, a client error is recorded and becomes an HTTP answer.\<close>

definition on_app_error :: "'r redis_call \<Rightarrow> limiter_env \<Rightarrow> string \<Rightarrow> string \<Rightarrow> ('r, 'a) db_prog \<Rightarrow> ('r, 'a) db_prog" where
  "on_app_error call le ip key m = catchE m (\<lambda>e. case app_status e of
      None \<Rightarrow> raiseE e
    | Some c \<Rightarrow> if 500 \<le> c then raiseE e
        else thenE (rate_failure call le ip key) (raiseE (HTTPException c (app_detail e))))"

definition bad_login :: exn where
  "bad_login = HTTPException 401 ''Credenciales incorrectas''"

definition too_many :: exn where
  "too_many = HTTPException 429 ''Demasiados intentos. Intenta mas tarde.''"

definition login_route ::
  "'r redis_call \<Rightarrow> limiter_env \<Rightarrow> auth_env \<Rightarrow> draws \<Rightarrow> 'r event_bus \<Rightarrow> string \<Rightarrow> string option
   \<Rightarrow> string \<Rightarrow> string \<Rightarrow> ('r, token_response \<times> string) db_prog" where
  "login_route call le env d bus ip user_agent email password =
     thenE (rate_precheck call le bad_login (Some bad_login) ip email)
      (bindE (on_app_error call le ip email (login call env d bus email password (Some ip) user_agent))
        (\<lambda>answer. thenE (rate_success call le ip email) (retE answer)))"

text \<open>
  \<open>header\<close> is the Authorization header, \<open>decode\<close> is \<open>jwt.decode\<close>; a token that does not decode gives no
  old id.
\<close>

definition old_token_id :: "(string \<Rightarrow> exn + jdict) \<Rightarrow> string \<Rightarrow> exn + string option" where
  "old_token_id decode header =
     (if starts_with ''Bearer '' header then (case decode_access_token decode (drop 7 header) of
          Inr payload \<Rightarrow> Inr (case map_of payload ''jti'' of Some (JStr j) \<Rightarrow> Some j | _ \<Rightarrow> None)
        | Inl e \<Rightarrow> if e = InvalidTokenError then Inr None else Inl e)
      else Inr None)"

definition refresh_route ::
  "'r redis_call \<Rightarrow> limiter_env \<Rightarrow> auth_env \<Rightarrow> draws \<Rightarrow> (string \<Rightarrow> exn + jdict) \<Rightarrow> uuid list \<Rightarrow> string \<Rightarrow> string
   \<Rightarrow> string option \<Rightarrow> ('r, token_response \<times> string) db_prog" where
  "refresh_route call le env d decode locked ip header cookie = (case cookie of
      None \<Rightarrow> raiseE (HTTPException 401 ''Refresh token ausente'')
    | Some refresh_token \<Rightarrow>
        if refresh_token = '''' then raiseE (HTTPException 401 ''Refresh token ausente'')
        else let key = ''refresh:'' @ ip in
          thenE (rate_precheck call le too_many None ip key)
           (bindE (ofE (old_token_id decode header)) (\<lambda>old_jti.
            bindE (on_app_error call le ip key
                    (refresh_tokens call env d locked refresh_token (Some ip) old_jti)) (\<lambda>answer.
            thenE (rate_success call le ip key) (retE answer)))))"

definition logout_route ::
  "'r redis_call \<Rightarrow> limiter_env \<Rightarrow> auth_env \<Rightarrow> time \<Rightarrow> string \<Rightarrow> user_row \<Rightarrow> string \<Rightarrow> string option
   \<Rightarrow> ('r, unit) db_prog" where
  "logout_route call le env now ip current_user jti cookie =
     (let key = ''logout:'' @ ae_str env (u_id current_user) in
      thenE (rate_precheck call le too_many None ip key)
        (on_app_error call le ip key (logout call env now jti (case cookie of None \<Rightarrow> '''' | Some c \<Rightarrow> c)
            (ae_str env (u_id current_user)))))"

definition change_password_route ::
  "'r redis_call \<Rightarrow> limiter_env \<Rightarrow> auth_env \<Rightarrow> draws \<Rightarrow> string \<Rightarrow> user_row \<Rightarrow> string \<Rightarrow> string \<Rightarrow> ('r, unit) db_prog" where
  "change_password_route call le env d ip current_user current_password new_password =
     (let key = ''change-password:'' @ ae_str env (u_id current_user) in
      thenE (rate_precheck call le too_many None ip key)
        (on_app_error call le ip key (change_password call env d (u_id current_user) current_password new_password)))"

subsection \<open>What an endpoint answers\<close>

lemma best_effort_run:
  "best_effort m w = (x, w') \<Longrightarrow> work w' = work w \<and> committed w' = committed w \<and>
     (\<forall>e. x = Inl e \<longrightarrow> \<not> is_app_exception e)"
  by (auto simp: best_effort_def on_redis_run catchE_def split: prod.splits sum.splits if_splits)

lemma rate_run:
  "rate_failure call le ip key w = (x, w') \<Longrightarrow> work w' = work w \<and> committed w' = committed w \<and>
     (\<forall>e. x = Inl e \<longrightarrow> \<not> is_app_exception e)"
  "rate_success call le ip key w = (x, w') \<Longrightarrow> work w' = work w \<and> committed w' = committed w \<and>
     (\<forall>e. x = Inl e \<longrightarrow> \<not> is_app_exception e)"
  by (cases "le_enabled le"; auto simp: rate_failure_def rate_success_def dest: best_effort_run)+

lemma parsed_Inl: "parsed x s = (Inl e, t) \<longleftrightarrow> x = None \<and> e = ValueError ''could not convert string'' \<and> t = s"
  by (auto simp: parsed_def split: option.splits)

lemma check_error:
  "check call sha rd now ip key s = (Inl e, t) \<Longrightarrow> (\<exists>x. e = RawRedis x) \<or> (\<exists>m. e = ValueError m)"
  by (auto simp: check_def bindE_failure redis_cmd_Inl locked_status_def parsed_Inl Let_def split: if_splits)

lemma rate_precheck_run:
  assumes "rate_precheck call le locked outage ip key w = (x, w')" and "\<exists>c m. locked = HTTPException c m"
  shows "work w' = work w \<and> committed w' = committed w \<and>
    (\<forall>e. x = Inl e \<longrightarrow> e = locked \<or> outage = Some e \<or> \<not> is_app_exception e)"
proof (cases "le_enabled le")
  case True
  obtain y q where y: "check call (le_sha le) (le_read le) (le_now le) ip key (redis w) = (y, q)" by fastforce
  show ?thesis
  proof (cases y)
    case (Inl e)
    from check_error [OF y [unfolded Inl]] consider z where "e = RawRedis z" | m where "e = ValueError m"
      by blast
    then show ?thesis
      by cases (use assms Inl y True in \<open>auto simp: rate_precheck_def whenE_def catchE_def bindE_def on_redis_def
          split: if_splits option.splits\<close>)
  next
    case (Inr st)
    with assms y True show ?thesis
      by (auto simp: rate_precheck_def whenE_def catchE_def bindE_def on_redis_def split: if_splits)
  qed
next
  case False
  with assms show ?thesis by (auto simp: rate_precheck_def)
qed

text \<open>A failed login has one answer, also when the limiter refuses it.\<close>

lemma on_app_error_Inr: "on_app_error call le ip key m w = (Inr y, w') \<Longrightarrow> m w = (Inr y, w')"
  by (auto simp: on_app_error_def catchE_def thenE_def bindE_def
      split: prod.splits sum.splits option.splits if_splits)

lemma on_app_error_Inl:
  assumes "on_app_error call le ip key m w = (Inl e, w')"
  obtains e0 w0 where "m w = (Inl e0, w0)" and "e = e0" and "w' = w0"
      and "\<forall>c. app_status e0 = Some c \<longrightarrow> 500 \<le> c"
    | e0 w0 c where "m w = (Inl e0, w0)" and "app_status e0 = Some c" and "c < 500"
      and "work w' = work w0" and "committed w' = committed w0"
      and "e = HTTPException c (app_detail e0) \<or> \<not> is_app_exception e"
proof -
  obtain y w0 where y: "m w = (y, w0)" by fastforce
  with assms obtain e0 where e0: "y = Inl e0" by (cases y) (auto simp: on_app_error_def catchE_def)
  show thesis
  proof (cases "app_status e0")
    case None
    with assms y e0 that(1) show thesis by (auto simp: on_app_error_def catchE_def)
  next
    case (Some c)
    obtain z w1 where z: "rate_failure call le ip key w0 = (z, w1)" by fastforce
    with assms y e0 Some that(1) rate_run(1) [OF z] that(2) [of e0 w0 c] show thesis
      by (cases z) (auto simp: on_app_error_def catchE_def thenE_def bindE_def split: if_splits)
  qed
qed

text \<open>The service itself never raises an HTTP answer.\<close>

fun not_http :: "exn \<Rightarrow> bool" where
  "not_http (HTTPException _ _) = False"
| "not_http _ = True"

lemma outage_not_http [simp]: "not_http (classify_redis_error e)"
  by (cases e) auto

lemma raises_redis_cmd [intro]: "raises not_http (redis_cmd call c)"
  by (auto simp: raises_def redis_cmd_Inl)

lemma raises_redis_do [intro]: "raises not_http (redis_do call c)"
  by (auto simp: raises_def redis_do_Inl)

lemma raises_parts [intro]:
  "raises not_http (require_redis call)" "raises not_http (set_tenant_context None True)"
  "raises not_http (check_account_lockout call env email)"
  "raises not_http (record_failed_attempt call env email)"
  "raises not_http (clear_login_attempts call env email)"
  "raises not_http (check_tenant_active u t)"
  "raises not_http (publish bus ev k)" "raises not_http (redis_exec call c)"
  "raises not_http (create_refresh_token env d i ip)"
  by (auto simp: require_redis_def check_redis_healthy_def service_unavailable_def set_tenant_context_def
      check_account_lockout_def bad_credentials_def record_failed_attempt_def clear_login_attempts_def
      check_tenant_active_def publish_def Let_def redis_exec_def create_refresh_token_def
      acquire_session_cap_lock_def split: reply.splits option.splits intro!: raises_intros)

lemma login_values_not_http:
  "login_event env d u ip ua = Inl e \<Longrightarrow> not_http e" "user_token env d u = Inl e \<Longrightarrow> not_http e"
  by (auto simp: login_event_def user_token_def create_access_token_def Let_def split: option.splits if_splits)

lemma raises_login: "raises not_http (login call env d bus email password ip ua)"
  unfolding login_def publish_login_def track_jti_def Let_def get_active_user_def get_active_user_where_def
    scalar_one_or_none_def bad_credentials_def
  by (auto split: option.splits exn.splits list.splits intro!: raises_intros raises_parts
      dest: login_values_not_http)

text \<open>The status of the answer to the client.\<close>

fun http_status :: "exn \<Rightarrow> nat" where
  "http_status (HTTPException c _) = c"
| "http_status e = (case app_status e of Some c \<Rightarrow> c | None \<Rightarrow> 500)"

lemma http_status_cases:
  "not_http e \<Longrightarrow> http_status e = (case app_status e of Some c \<Rightarrow> c | None \<Rightarrow> 500)"
  "\<not> is_app_exception e \<Longrightarrow> http_status e = 500"
  by (cases e; simp)+

lemma login_committed: "login call env d bus email password ip ua w = (x, w') \<Longrightarrow> committed w' = committed w"
  by (erule login_outcome) simp_all

lemma login_error:
  assumes "login call env d bus email password ip ua w = (Inl e, w')"
  shows "committed w' = committed w \<and>
    (e = AuthError 401 ''Credenciales incorrectas'' \<and> work w' = work w \<or>
     (app_status e = Some 503 \<or> app_status e = None) \<and> http_status e \<in> {500, 503})"
  using assms raisesD [OF raises_login assms]
  by (cases rule: login_outcome) (auto simp: bad_credentials_def http_status_cases)

lemma login_route_error:
  assumes "login_route call le env d bus ip ua email password w = (Inl e, w')"
  shows "committed w' = committed w \<and> (e = bad_login \<or> 500 \<le> http_status e)"
proof -
  obtain x1 w1 where r1: "rate_precheck call le bad_login (Some bad_login) ip email w = (x1, w1)" by fastforce
  from rate_precheck_run [OF this] have p1: "work w1 = work w" "committed w1 = committed w"
    "\<And>e. x1 = Inl e \<Longrightarrow> e = bad_login \<or> \<not> is_app_exception e" by (auto simp: bad_login_def)
  show ?thesis
  proof (cases x1)
    case (Inl e1)
    with assms r1 p1 show ?thesis
      by (auto simp: login_route_def thenE_def bindE_def simp: http_status_cases)
  next
    case Inr1: (Inr v)
    obtain x2 w2 where r2: "on_app_error call le ip email
        (login call env d bus email password (Some ip) ua) w1 = (x2, w2)" by fastforce
    show ?thesis
    proof (cases x2)
      case (Inl e2)
      with assms r1 r2 Inr1 have e: "e = e2" "w' = w2" by (auto simp: login_route_def thenE_def bindE_def)
      from r2 [unfolded Inl] show ?thesis
      proof (cases rule: on_app_error_Inl)
        case (1 e0 w0)
        with login_error [OF 1(1)] p1 e show ?thesis
          by auto
      next
        case (2 e0 w0 c)
        with login_error [OF 2(1)] p1 e show ?thesis
          by (auto simp: bad_login_def http_status_cases)
      qed
    next
      case (Inr answer)
      then have "\<not> is_app_exception e \<and> committed w' = committed w2"
        using assms r1 r2 Inr1 rate_run(2) [of call le ip email w2]
        by (auto simp: login_route_def thenE_def bindE_def split: prod.splits sum.splits)
      moreover have "committed w2 = committed w"
        using login_committed [OF on_app_error_Inr [OF r2 [unfolded Inr]]] p1 by simp
      ultimately show ?thesis by (auto simp: http_status_cases)
    qed
  qed
qed

text \<open>
  The login endpoint gives away no account.  Every failure it answers with a client error - an unknown
  account, a wrong password, an inactive account or tenant, an account or address that is locked out, or
  a limiter that cannot reach Redis - is the same HTTP 401 with the same text, and nothing is committed; the
  only other failures are server errors.  A request that returns was for an account that may log in, and
  not one whose address or e-mail the limiter reports as locked.
\<close>

theorem login_route_uniform:
  assumes "with_session refuse (login_route call le env d bus ip ua email password) w = (res, w')"
    and "\<And>t e. refuse t = Some e \<Longrightarrow> 500 \<le> http_status e"
  shows "(\<forall>e. res = Inl e \<longrightarrow> committed w' = committed w \<and>
      (http_status e < 500 \<longrightarrow> e = HTTPException 401 ''Credenciales incorrectas'')) \<and>
    (\<forall>tr cookie. res = Inr (tr, cookie) \<longrightarrow> (\<exists>u. may_login env (work w) email password u) \<and>
      (\<forall>st q. le_enabled le \<and> check call (le_sha le) (le_read le) (le_now le) ip email (redis w) = (Inr st, q)
         \<longrightarrow> \<not> ls_locked st))"
proof -
  let ?m = "login_route call le env d bus ip ua email password"
  have fails: "committed w1 = committed w \<and> (http_status e < 500 \<longrightarrow> e = bad_login)"
    if "?m w = (Inl e, w1)" for e w1
    using login_route_error [OF that] by auto
  have ok: "committed w1 = committed w \<and> (\<exists>u. may_login env (work w) email password u) \<and>
      (\<forall>st q. le_enabled le \<and> check call (le_sha le) (le_read le) (le_now le) ip email (redis w) = (Inr st, q)
         \<longrightarrow> \<not> ls_locked st)" if run: "?m w = (Inr y, w1)" for y w1
  proof -
    from run obtain w2 w3 where pre: "rate_precheck call le bad_login (Some bad_login) ip email w = (Inr (), w2)"
      and mid: "on_app_error call le ip email (login call env d bus email password (Some ip) ua) w2 = (Inr y, w3)"
      and post: "committed w1 = committed w3"
      by (auto simp: login_route_def thenE_def bindE_success dest: rate_run(2))
    from mid have lg: "login call env d bus email password (Some ip) ua w2 = (Inr y, w3)"
      by (rule on_app_error_Inr)
    from rate_precheck_run [OF pre] have p: "work w2 = work w" "committed w2 = committed w"
      by (auto simp: bad_login_def)
    from lg have "\<exists>u. may_login env (work w) email password u"
      by (cases rule: login_outcome) (auto simp: p)
    moreover have "\<not> ls_locked st" if "le_enabled le"
      "check call (le_sha le) (le_read le) (le_now le) ip email (redis w) = (Inr st, q)" for st q
      using pre that by (auto simp: rate_precheck_def catchE_def bindE_def on_redis_def bad_login_def
          split: if_splits)
    ultimately show ?thesis using login_committed [OF lg] p post by auto
  qed
  have end_ok: "http_status e = 500 \<or> 500 \<le> http_status e" if "commit refuse w1 = (Inl e, w2)" for e w1 w2
    using that assms(2) by (auto simp: commit_def thenE_def bindE_failure flush_cases split: option.splits)
  from assms(1) show ?thesis
  proof (cases rule: with_session_cases)
    case (1 e w1)
    with fails [OF 1(1)] show ?thesis by (simp add: bad_login_def)
  next
    case (2 x e w1)
    with ok [OF 2(1)] end_ok [OF 2(2)] show ?thesis by auto
  next
    case (3 x w1)
    with ok [OF 3(1)] show ?thesis by auto
  qed
qed

lemma login_route_uniform_witness:
  "\<exists>w'. with_session no_refusal (login_route mem_call \<lparr>le_enabled = True, le_sha = map char_of, le_str = (\<lambda>_. ''''),
      le_read = (\<lambda>_. None), le_window = 900, le_now = 0, le_later = 0\<rparr> sample_env sample_draws sample_bus
      ''1.1.1.1'' None ''u@x.io'' ''hash'') (sample_login [Some (RedisConnectionError, False)] []) =
    (Inl (HTTPException 401 ''Credenciales incorrectas''), w') \<and>
    committed w' = committed (sample_login [] [])"
proof -
  let ?m = "with_session no_refusal (login_route mem_call \<lparr>le_enabled = True, le_sha = map char_of, le_str = (\<lambda>_. ''''),
      le_read = (\<lambda>_. None), le_window = 900, le_now = 0, le_later = 0\<rparr> sample_env sample_draws sample_bus
      ''1.1.1.1'' None ''u@x.io'' ''hash'')"
  let ?w = "sample_login [Some (RedisConnectionError, False)] []"
  have run: "fst (?m ?w) = Inl (HTTPException 401 ''Credenciales incorrectas'')"
    by (simp add: with_session_def login_route_def rate_precheck_def check_def on_redis_def bad_login_def
        ip_key_def sample_login_def eval_simps mem_eval_simps cong: eval_congs)
  from login_route_uniform [OF run_of [OF run]] have "committed (snd (?m ?w)) = committed ?w"
    by (simp add: no_refusal_def)
  with run_of [OF run] show ?thesis by (intro exI [of _ "snd (?m ?w)"]) (simp add: sample_login_def Let_def)
qed

end
