(* ===== verification/Auth_Schemas.thy ===== *)
theory Auth_Schemas
  imports Tokens
begin

text \<open>
  The request schemas of the authentication, \<open>app/modules/auth/schemas.py\<close>: the address of a login and the strength of a
  new password.  Classes of characters are those of ASCII.
\<close>

text \<open>\<open>^[^@\s]+@[^@\s]+\.[^@\s]+$\<close>, on a text that has no blanks at its ends.\<close>

definition email_form :: "string \<Rightarrow> bool" where
  "email_form v \<longleftrightarrow> (let p = (\<lambda>c. c \<noteq> CHR 0x40); local_part = takeWhile p v; domain = tl (dropWhile p v)
     in \<not> list_ex is_space v \<and> count_list v (CHR 0x40) = 1 \<and> local_part \<noteq> [] \<and> CHR 0x2E \<in> set (butlast (tl domain)))"

definition normalize_email :: "string \<Rightarrow> exn + string" where
  "normalize_email v =
     (let v = lower (strip v) in if \<not> email_form v then Inl (ValueError ''Formato de email invalido'') else Inr v)"

definition validate_new_password_bytes :: "string \<Rightarrow> exn + string" where
  "validate_new_password_bytes v =
     (if 72 < length (utf8 v) then Inl (ValueError ''Password exceeds 72 bytes (UTF-8). Choose a shorter password.'') else Inr v)"

definition validate_strength :: "string \<Rightarrow> exn + string" where
  "validate_strength v =
     (if length v < 12 then Inl (ValueError ''La contrasena debe de tener al menos 12 caracteres'')
      else if \<not> list_ex (\<lambda>c. 65 \<le> (of_char c :: nat) \<and> (of_char c :: nat) \<le> 90) v
      then Inl (ValueError ''Debe de contener al menos una mayuscula'')
      else if \<not> list_ex (\<lambda>c. 97 \<le> (of_char c :: nat) \<and> (of_char c :: nat) \<le> 122) v
      then Inl (ValueError ''Debe de contenener al menos una minuscula'')
      else if \<not> list_ex is_digit v then Inl (ValueError ''Debe de contener algun numero'')
      else Inr v)"

definition new_password :: "string \<Rightarrow> exn + string" where
  "new_password v = (case validate_new_password_bytes v of Inl e \<Rightarrow> Inl e | Inr v \<Rightarrow> validate_strength v)"

text \<open>A new password that passes is never refused or cut by the hashing, and an address that passes has its parts.\<close>

lemma new_password_hashes:
  "new_password v = Inr u \<Longrightarrow> u = v \<and> validate_password_length v s = (Inr (), s) \<and> 12 \<le> length v"
  by (auto simp: new_password_def validate_new_password_bytes_def validate_strength_def validate_password_length_def
      split: if_splits)

lemma split_at_char: "c \<in> set u \<Longrightarrow> u = takeWhile (\<lambda>d. d \<noteq> c) u @ c # tl (dropWhile (\<lambda>d. d \<noteq> c) u)"
  by (induction u) auto

lemma normalized_email_parts:
  assumes "normalize_email v = Inr u"
  shows "\<exists>name host. u = name @ CHR 0x40 # host \<and> name \<noteq> [] \<and> CHR 0x40 \<notin> set (name @ host) \<and> CHR 0x2E \<in> set host"
proof -
  define name host where "name = takeWhile (\<lambda>c. c \<noteq> CHR 0x40) u" and "host = tl (dropWhile (\<lambda>c. c \<noteq> CHR 0x40) u)"
  have form: "count_list u (CHR 0x40) = 1" "name \<noteq> []" "CHR 0x2E \<in> set (butlast (tl host))"
    using assms by (auto simp: normalize_email_def email_form_def Let_def name_def host_def split: if_splits)
  have "CHR 0x40 \<in> set u" by (rule ccontr) (use form(1) in \<open>simp add: count_list_0_iff\<close>)
  then have split: "u = name @ CHR 0x40 # host"
    unfolding name_def host_def by (rule split_at_char)
  have name: "CHR 0x40 \<notin> set name" unfolding name_def by (auto dest: set_takeWhileD)
  with form(1) have "CHR 0x40 \<notin> set host" by (simp add: split count_list_0_iff)
  moreover have "CHR 0x2E \<in> set host"
    using in_set_butlastD [OF form(3)] by (cases host) auto
  ultimately show ?thesis using split name form(2) by auto
qed

end
