(* ===== verification/Access.thy ===== *)
theory Access
  imports Auth_Service
begin

text \<open>
  \<open>app/dependencies/auth.py\<close>, \<open>cross_tenant.py\<close> and \<open>db_deps.py\<close>: who a request runs for, the roles its
  endpoint admits, the row-level context its statements run under, and the check before an
  administrator touches another user or tenant.  \<open>decode\<close> is \<open>jwt.decode\<close>, which accepts only text as
  \<open>sub\<close> and \<open>jti\<close>; \<open>parse\<close> is the constructor of \<open>UUID\<close>.
\<close>

definition text_claim :: "jdict \<Rightarrow> string \<Rightarrow> string" where
  "text_claim payload k = (case map_of payload k of Some (JStr s) \<Rightarrow> s | _ \<Rightarrow> '''')"

definition unauthorized :: "string \<Rightarrow> exn" where
  "unauthorized detail = HTTPException 401 detail"

text \<open>The checks on the loaded account, after which its own context replaces the elevated one.\<close>

definition admit_user :: "string \<Rightarrow> user_row \<times> tenant_row option \<Rightarrow> ('r, user_row \<times> string) db_prog" where
  "admit_user jti row = (case row of (user, tenant) \<Rightarrow>
     if \<not> u_active user then raiseE (unauthorized ''Usuario no encontrado o inactivo'')
     else if \<not> u_super user \<and> (case tenant of None \<Rightarrow> True | Some t \<Rightarrow> \<not> t_active t)
     then raiseE (unauthorized ''Tenant inactivo o no encontrado'')
     else if u_super user then thenE (set_tenant_context (u_tenant user) True) (retE (user, jti))
     else if u_tenant user = None then raiseE (unauthorized ''Usuario no encontrado o inactivo'')
     else thenE (set_tenant_context (u_tenant user) False) (retE (user, jti)))"

definition get_current_user ::
  "'r redis_call \<Rightarrow> (string \<Rightarrow> exn + jdict) \<Rightarrow> (string \<Rightarrow> uuid option) \<Rightarrow> string
   \<Rightarrow> ('r, user_row \<times> string) db_prog" where
  "get_current_user call decode parse token =
     (case decode_access_token decode token of
        Inl e \<Rightarrow> raiseE (if e = InvalidTokenError then unauthorized ''Token invalido o expirado'' else e)
      | Inr payload \<Rightarrow>
          let user_id = text_claim payload ''sub''; jti = text_claim payload ''jti'' in
          if user_id = '''' then raiseE (unauthorized ''Token invalido o expirado'')
          else (case parse user_id of
              None \<Rightarrow> raiseE (unauthorized ''Token invalido o expirado'')
            | Some user_uuid \<Rightarrow>
                thenE (require_redis call)
                (bindE (if jti = '''' then retE True else on_redis (is_token_revoked call jti)) (\<lambda>revoked.
                 if revoked then raiseE (unauthorized ''Token revocado'')
                 else thenE (modE (\<lambda>w. w\<lparr>guc := \<lparr>g_tenant = None, g_super = True\<rparr>\<rparr>))
                 (bindE (bindE (getE (\<lambda>w. map (\<lambda>u. (u, tenant_of w u))
                           (filter (\<lambda>u. u_id u = user_uuid) (seen_users w)))) scalar_one_or_none) (\<lambda>row.
                  case row of
                    None \<Rightarrow> raiseE (unauthorized ''Usuario no encontrado o inactivo'')
                  | Some row \<Rightarrow> admit_user jti row))))))"

definition get_db_with_tenant :: "user_row \<Rightarrow> ('r, unit) db_prog" where
  "get_db_with_tenant current_user = set_tenant_context (u_tenant current_user) (u_super current_user)"

definition forbidden :: exn where
  "forbidden = HTTPException 403 ''Permisos insuficientes''"

definition require_role :: "string \<Rightarrow> user_row \<Rightarrow> exn + user_row" where
  "require_role minimum_role current_user =
     (if \<not> has_minimum_role (u_role current_user) minimum_role then Inl forbidden else Inr current_user)"

definition require_any_role :: "string list \<Rightarrow> user_row \<Rightarrow> exn + user_row" where
  "require_any_role roles current_user =
     (if u_role current_user \<notin> set roles then Inl forbidden else Inr current_user)"

definition require_superadmin :: "user_row \<Rightarrow> exn + user_row" where
  "require_superadmin current_user =
     (if \<not> u_super current_user then Inl (HTTPException 403 ''Se requieren permisos de superadmin'')
      else Inr current_user)"

text \<open>\<open>try ... finally\<close>.\<close>

definition finallyE :: "('s, 'e, 'a) prog \<Rightarrow> ('s, 'e, unit) prog \<Rightarrow> ('s, 'e, 'a) prog" where
  "finallyE m k = bindE (catchE m (\<lambda>e. thenE k (raiseE e))) (\<lambda>x. thenE k (retE x))"

definition get_user_for_admin :: "uuid \<Rightarrow> user_row \<Rightarrow> ('r, user_row) db_prog" where
  "get_user_for_admin user_id current_user =
     (let find = bindE (getE (\<lambda>w. filter (\<lambda>u. u_id u = user_id) (seen_users w))) scalar_one_or_none
      in if u_super current_user
         then bindE find (\<lambda>row. case row of
             None \<Rightarrow> raiseE (HTTPException 404 ''Usuario no encontrado'') | Some u \<Rightarrow> retE u)
         else thenE (modE (\<lambda>w. w\<lparr>guc := \<lparr>g_tenant = None, g_super = True\<rparr>\<rparr>))
          (bindE (finallyE find (set_tenant_context (u_tenant current_user) False)) (\<lambda>row. case row of
             None \<Rightarrow> raiseE (HTTPException 404 ''Usuario no encontrado'')
           | Some u \<Rightarrow> if u_tenant u \<noteq> u_tenant current_user then raiseE forbidden else retE u)))"

definition get_tenant_for_admin :: "uuid \<Rightarrow> user_row \<Rightarrow> ('r, tenant_row) db_prog" where
  "get_tenant_for_admin tenant_id current_user =
     (let find = bindE (bindE (getE (\<lambda>w. filter (\<lambda>t. t_id t = tenant_id) (seen_tenants w))) scalar_one_or_none)
                  (\<lambda>row. case row of
                     None \<Rightarrow> raiseE (HTTPException 404 ''Tenant no encontrado'') | Some t \<Rightarrow> retE t)
      in if u_super current_user then find
         else if Some tenant_id \<noteq> u_tenant current_user then raiseE forbidden
         else find)"

subsection \<open>What a request can see\<close>

text \<open>The row-level context of a user, and the tenants it opens.\<close>

definition context_of :: "user_row \<Rightarrow> rls" where
  "context_of u = (if u_super u then \<lparr>g_tenant = None, g_super = True\<rparr>
     else \<lparr>g_tenant = u_tenant u, g_super = False\<rparr>)"

lemma context_rows: "rls_row (context_of u) t \<longleftrightarrow> u_super u \<or> u_tenant u = Some t"
  by (auto simp: context_of_def rls_row_def)

lemma scalar_map_run:
  "scalar_one_or_none xs w = (Inr y, w') \<longleftrightarrow> w' = w \<and> (case y of None \<Rightarrow> xs = [] | Some x \<Rightarrow> xs = [x])"
  by (cases y) (auto simp: scalar_one_or_none_run)

lemma admit_user_run:
  "admit_user jti row w = (Inr (u, j), w') \<Longrightarrow> fst row = u \<and> j = jti \<and> u_active u \<and>
     (u_super u \<or> (\<exists>t. snd row = Some t \<and> t_active t)) \<and> w' = w\<lparr>guc := context_of u\<rparr>"
  by (cases row) (auto simp: admit_user_def context_of_def set_tenant_context_def split: if_splits option.splits)

lemma get_current_user_run:
  fixes w w' :: "'r world"
  assumes "get_current_user call decode parse token w = (Inr (u, jti), w')"
  obtains payload y q q2 where "decode_access_token decode token = Inr payload"
    and "parse (text_claim payload ''sub'') = Some (u_id u)" and "text_claim payload ''jti'' = jti"
    and "jti \<noteq> ''''" and "call PING (redis w) = (y, q)" and "is_token_revoked call jti q = (Inr False, q2)" and "redis w' = q2"
    and "u \<in> set (users (work w))" and "u_active u"
    and "u_super u \<or> (\<exists>t \<in> set (tenants (work w)). u_tenant u = Some (t_id t) \<and> t_active t)"
    and "committed w' = committed w" and "work w' = work w" and "guc w' = context_of u"
proof -
  from assms obtain payload uid where
    p: "decode_access_token decode token = Inr payload" "parse (text_claim payload ''sub'') = Some uid"
    by (auto simp: get_current_user_def Let_def split: sum.splits option.splits if_splits)
  define b where "b = (\<lambda>q. w\<lparr>redis := q, guc := \<lparr>g_tenant = None, g_super = True\<rparr>\<rparr>)"
  from assms p obtain q q2 y row where
    r: "call PING (redis w) = (y, q)" "text_claim payload ''jti'' \<noteq> ''''"
      "is_token_revoked call (text_claim payload ''jti'') q = (Inr False, q2)"
    and usr: "map (\<lambda>u. (u, tenant_of (b q2) u)) (filter (\<lambda>u. u_id u = uid) (users (work w))) = [row]"
    and adm: "admit_user (text_claim payload ''jti'') row (b q2) = (Inr (u, jti), w')"
    by (auto simp: get_current_user_def Let_def thenE_def bindE_success scalar_map_run on_redis_run
        seen_super b_def dest!: require_redis_run split: if_splits option.splits)
  obtain t where row: "row = (u, t)" using admit_user_run [OF adm] by (cases row) auto
  have act: "u_active u" "u_super u \<or> (\<exists>tn. t = Some tn \<and> t_active tn)" "jti = text_claim payload ''jti''"
    and w': "w' = w\<lparr>redis := q2, guc := context_of u\<rparr>"
    using admit_user_run [OF adm] row by (simp_all add: b_def)
  from usr have "(u, t) \<in> set (map (\<lambda>u. (u, tenant_of (b q2) u)) (filter (\<lambda>u. u_id u = uid) (users (work w))))"
    by (simp add: row)
  then have u: "u \<in> set (users (work w))" "u_id u = uid" "t = tenant_of (b q2) u" by auto
  with act tenant_of_Some [of "b q2" u]
  have "u_super u \<or> (\<exists>t \<in> set (tenants (work w)). u_tenant u = Some (t_id t) \<and> t_active t)"
    by (auto simp: seen_super b_def)
  with p r u act w' that show thesis by simp
qed

text \<open>
  C7: A request runs as its user.  When \<open>get_current_user\<close> lets a request through, its token decodes, names
  an active account of the platform or of an active tenant, and is not on the denylist; and from then on
  every statement of the request sees, of every table, exactly the rows of that user's tenant, or all
  rows for the platform's administrator.
\<close>

theorem request_runs_as_user:
  assumes "redis_contract call view"
    and "get_current_user call decode parse token w = (Inr (u, jti), w')"
  shows "(\<exists>payload. decode token = Inr payload \<and> map_of payload ''jti'' = Some (JStr jti) \<and>
      parse (text_claim payload ''sub'') = Some (u_id u)) \<and>
    (\<forall>lo. denied (view (redis w)) lo jti \<longrightarrow> lo \<le> clock (view (redis w'))) \<and>
    u \<in> set (users (work w)) \<and> u_active u \<and>
    (u_super u \<or> (\<exists>t \<in> set (tenants (work w)). u_tenant u = Some (t_id t) \<and> t_active t)) \<and>
    seen_scans w' = filter (\<lambda>r. u_super u \<or> u_tenant u = Some (sc_tenant r)) (scans (work w)) \<and>
    seen_assets w' = filter (\<lambda>r. u_super u \<or> u_tenant u = Some (a_tenant r)) (assets (work w)) \<and>
    seen_vulns w' = filter (\<lambda>r. u_super u \<or> u_tenant u = Some (v_tenant r)) (vulns (work w)) \<and>
    seen_reports w' = filter (\<lambda>r. u_super u \<or> u_tenant u = Some (rp_tenant r)) (reports (work w))"
  using assms(2)
proof (rule get_current_user_run)
  fix payload y q q2
  assume a: "decode_access_token decode token = Inr payload"
    "parse (text_claim payload ''sub'') = Some (u_id u)" "text_claim payload ''jti'' = jti" "jti \<noteq> ''''"
    "call PING (redis w) = (y, q)" "is_token_revoked call jti q = (Inr False, q2)" "redis w' = q2"
    "u \<in> set (users (work w))" "u_active u"
    "u_super u \<or> (\<exists>t \<in> set (tenants (work w)). u_tenant u = Some (t_id t) \<and> t_active t)"
    "committed w' = committed w" "work w' = work w" "guc w' = context_of u"
  have "lo \<le> clock (view (redis w'))" if "denied (view (redis w)) lo jti" for lo
  proof -
    have "store (view q) (denylist_key jti) = store (view (redis w)) (denylist_key jti)"
      by (rule redis_contract.call_frame [OF assms(1) a(5)]) simp
    from denied_store [OF this, THEN iffD2, OF that] have "denied (view q) lo jti" .
    from redis_contract.revoked_token_reported [OF assms(1) a(6) this] have "\<not> clock (view q2) < lo" by blast
    with a(7) show ?thesis by simp
  qed
  moreover have "map_of payload ''jti'' = Some (JStr jti)"
    using a(3,4) by (auto simp: text_claim_def split: option.splits json.splits)
  moreover have "decode token = Inr payload"
    using a(1) by (auto simp: decode_access_token_def split: sum.splits if_splits)
  ultimately show ?thesis using a
    by (simp add: seen_scans_def seen_assets_def seen_vulns_def seen_reports_def context_rows)
qed

definition sample_claims :: "string \<Rightarrow> exn + jdict" where
  "sample_claims token = Inr (token_payload ''5'' ''j'' (Some ''1'') ''admin'' False 0 900)"

definition sample_uuid :: "string \<Rightarrow> uuid option" where
  "sample_uuid s = (if s = ''5'' then Some 5 else None)"

lemma request_runs_as_user_witness:
  "\<exists>w'. get_current_user mem_call sample_claims sample_uuid ''t'' (sample_login [] []) =
      (Inr (sample_user 5 (Some 1) ''u@x.io'' ''admin'', ''j''), w') \<and>
     seen_assets w' = [sample_asset 2 1 ''8.8.8.8'']"
proof -
  let ?m = "get_current_user mem_call sample_claims sample_uuid ''t''"
  have run: "fst (?m (sample_login [] [])) = Inr (sample_user 5 (Some 1) ''u@x.io'' ''admin'', ''j'')"
    by (simp add: get_current_user_def decode_access_token_def sample_claims_def token_payload_def
        required_fields_def text_claim_def sample_uuid_def is_token_revoked_def denylist_key_def
        admit_user_def set_tenant_context_def login_eval cong: eval_congs)
  have "assets (work (sample_login [] [])) = [sample_asset 2 1 ''8.8.8.8'']"
    "u_tenant (sample_user 5 (Some 1) ''u@x.io'' ''admin'') = Some 1" "a_tenant (sample_asset 2 1 ''8.8.8.8'') = 1"
    by (simp_all add: sample_login_def sample_defs Let_def)
  with request_runs_as_user [OF mem_contract run_of [OF run]] run_of [OF run] show ?thesis
    by (intro exI [of _ "snd (?m (sample_login [] []))"]) simp
qed

lemma filter_key_single:
  assumes "distinct (map k xs)" and "x \<in> set xs" and "k x = a"
  shows "filter (\<lambda>y. k y = a) xs = [x]"
  using assms(1,2)
proof (induction xs)
  case (Cons y ys)
  show ?case
  proof (cases "k y = a")
    case True
    with Cons.prems assms(3) have "y = x" "filter (\<lambda>y. k y = a) ys = []"
      by (auto simp: filter_empty_conv image_iff)
    with True show ?thesis by simp
  next
    case False
    with Cons assms(3) show ?thesis by auto
  qed
qed simp

lemma find_filter_hd: "filter p xs = x # ys \<Longrightarrow> List.find p xs = Some x"
  by (induction xs) (auto split: if_splits)

lemma finallyE_run:
  "finallyE m (modE f) w = (Inr x, w') \<longleftrightarrow> (\<exists>w1. m w = (Inr x, w1) \<and> w' = f w1)"
  "finallyE m (modE f) w = (Inl e, w') \<longleftrightarrow> (\<exists>w1. m w = (Inl e, w1) \<and> w' = f w1)"
  by (auto simp: finallyE_def catchE_def bindE_def thenE_def split: prod.splits sum.splits)

lemma get_user_for_admin_run:
  assumes "guc w = context_of me" and "u_super me \<or> u_tenant me \<noteq> None"
  shows "get_user_for_admin i me w = (case filter (\<lambda>u. u_id u = i) (users (work w)) of
      [] \<Rightarrow> (Inl (HTTPException 404 ''Usuario no encontrado''), w)
    | [u] \<Rightarrow> (if u_super me \<or> u_tenant u = u_tenant me then Inr u else Inl forbidden, w)
    | _ \<Rightarrow> (Inl (RuntimeError ''MultipleResultsFound''), w))"
proof (cases "u_super me")
  case True
  with assms(1) have "g_super (guc w)" by (simp add: context_of_def)
  with True show ?thesis
    by (simp add: get_user_for_admin_def Let_def bindE_def seen_super scalar_one_or_none_def split: list.split)
next
  case False
  have same: "w\<lparr>guc := \<lparr>g_tenant = u_tenant me, g_super = False\<rparr>\<rparr> = w"
    using assms(1) False by (cases w) (simp add: context_of_def)
  obtain t where t: "u_tenant me = Some t" using assms(2) False by auto
  have "seen_users (w\<lparr>guc := \<lparr>g_tenant = None, g_super = True\<rparr>\<rparr>) = users (work w)"
    by (simp add: seen_super)
  with False same t show ?thesis
    by (simp add: get_user_for_admin_def Let_def finallyE_def catchE_def bindE_def thenE_def scalar_one_or_none_def
        split: list.split)
qed

text \<open>
  Administrators stay in their tenant.  The check before a user is touched leaves the tables alone and
  hands back the caller's own row-level context on every path, failures included; it returns a row only
  to the platform's administrator or for a user of the caller's tenant, answers 403 for a user of another
  tenant and 404 only when no such user exists; and the check before a tenant is touched answers 403 for
  every tenant but the caller's.
\<close>

theorem cross_tenant_blocked:
  assumes "guc w = context_of me" and "u_super me \<or> u_tenant me \<noteq> None"
    and "distinct (map u_id (users (work w)))"
  shows "(case get_user_for_admin i me w of (res, w') \<Rightarrow> w' = w \<and>
      res = (if \<forall>u \<in> set (users (work w)). u_id u \<noteq> i then Inl (HTTPException 404 ''Usuario no encontrado'')
             else if u_super me \<or> (\<exists>u \<in> set (users (work w)). u_id u = i \<and> u_tenant u = u_tenant me)
             then Inr (the (List.find (\<lambda>u. u_id u = i) (users (work w))))
             else Inl (HTTPException 403 ''Permisos insuficientes''))) \<and>
    (\<not> u_super me \<and> u_tenant me \<noteq> Some i \<longrightarrow>
       get_tenant_for_admin i me w = (Inl (HTTPException 403 ''Permisos insuficientes''), w)) \<and>
    (\<forall>t w'. get_tenant_for_admin i me w = (Inr t, w') \<longrightarrow>
       t_id t = i \<and> t \<in> set (tenants (work w)) \<and> (u_super me \<or> u_tenant me = Some i))"
proof (intro conjI)
  let ?f = "filter (\<lambda>u. u_id u = i) (users (work w))"
  show "case get_user_for_admin i me w of (res, w') \<Rightarrow> w' = w \<and>
      res = (if \<forall>u \<in> set (users (work w)). u_id u \<noteq> i then Inl (HTTPException 404 ''Usuario no encontrado'')
             else if u_super me \<or> (\<exists>u \<in> set (users (work w)). u_id u = i \<and> u_tenant u = u_tenant me)
             then Inr (the (List.find (\<lambda>u. u_id u = i) (users (work w))))
             else Inl (HTTPException 403 ''Permisos insuficientes''))"
  proof (cases "\<forall>u \<in> set (users (work w)). u_id u \<noteq> i")
    case True
    then have "?f = []" by (simp add: filter_empty_conv)
    with True show ?thesis by (simp add: get_user_for_admin_run [OF assms(1,2)])
  next
    case False
    then obtain u where u: "u \<in> set (users (work w))" "u_id u = i" by blast
    have f: "?f = [u]" using filter_key_single [OF assms(3) u] .
    have fnd: "List.find (\<lambda>u. u_id u = i) (users (work w)) = Some u"
      using f by (simp add: find_filter_hd)
    have "v = u" if "v \<in> set (users (work w))" "u_id v = i" for v
      using distinct_map_inj [OF assms(3) that(1) u(1)] that(2) u(2) by simp
    with u have "(\<exists>v \<in> set (users (work w)). u_id v = i \<and> u_tenant v = u_tenant me) \<longleftrightarrow> u_tenant u = u_tenant me"
      by blast
    with f fnd False show ?thesis
      by (simp add: get_user_for_admin_run [OF assms(1,2)] forbidden_def)
  qed
  show "\<not> u_super me \<and> u_tenant me \<noteq> Some i \<longrightarrow>
       get_tenant_for_admin i me w = (Inl (HTTPException 403 ''Permisos insuficientes''), w)"
    by (auto simp: get_tenant_for_admin_def forbidden_def)
  show "\<forall>t w'. get_tenant_for_admin i me w = (Inr t, w') \<longrightarrow>
       t_id t = i \<and> t \<in> set (tenants (work w)) \<and> (u_super me \<or> u_tenant me = Some i)"
    by (auto simp: get_tenant_for_admin_def Let_def bindE_success scalar_map_run seen_tenants_def filter_eq_Cons_iff
        split: if_splits option.splits)
qed

lemma cross_tenant_blocked_witness:
  "get_user_for_admin 5 (sample_user 6 (Some 2) ''v@x.io'' ''admin'')
      ((sample_login [] [])\<lparr>guc := \<lparr>g_tenant = Some 2, g_super = False\<rparr>\<rparr>) =
    (Inl (HTTPException 403 ''Permisos insuficientes''),
     (sample_login [] [])\<lparr>guc := \<lparr>g_tenant = Some 2, g_super = False\<rparr>\<rparr>)"
proof -
  let ?me = "sample_user 6 (Some 2) ''v@x.io'' ''admin''"
  let ?w = "(sample_login [] [])\<lparr>guc := \<lparr>g_tenant = Some 2, g_super = False\<rparr>\<rparr>"
  have "guc ?w = context_of ?me" "u_super ?me \<or> u_tenant ?me \<noteq> None" "\<not> u_super ?me" "u_tenant ?me = Some 2"
    by (simp_all add: context_of_def sample_user_def)
  moreover have us: "users (work ?w) = [sample_user 5 (Some 1) ''u@x.io'' ''admin'']"
    by (simp add: sample_login_def sample_tables_def Let_def)
  moreover have "distinct (map u_id (users (work ?w)))" unfolding us by simp
  ultimately show ?thesis using cross_tenant_blocked [of ?w ?me 5]
    by (simp add: sample_user_def split: prod.splits)
qed

end
