(* ===== verification/Users.thy ===== *)
theory Users
  imports Access
begin

text \<open>
  User administration, \<open>app/modules/users/service.py\<close> with its schemas, the address type of
  \<open>app/core/types.py\<close> and the endpoints of \<open>users/router.py\<close>.  An absent field of a patch is \<open>None\<close>, an explicit
  null \<open>Some None\<close>.  The lemmas show that no endpoint lets an administrator of a tenant raise a role or
  leave the tenant, and that a deactivated user loses every session.
\<close>

subsection \<open>Addresses\<close>

definition address_char :: "char \<Rightarrow> bool" where
  "address_char c \<longleftrightarrow> c \<noteq> CHR ''@'' \<and> \<not> is_space c"

text \<open>The pattern \<open>^[^@\s]+@[^@\s]+\.[^@\s]+$\<close>: one \<open>@\<close>, and a dot inside the part after it.\<close>

definition EMAIL_RE :: "string \<Rightarrow> bool" where
  "EMAIL_RE v = (let name = takeWhile (\<lambda>c. c \<noteq> CHR ''@'') v; domain = drop (Suc (length name)) v
     in name \<noteq> [] \<and> length name < length v \<and> list_all address_char name \<and> list_all address_char domain \<and>
        CHR ''.'' \<in> set (butlast (tl domain)))"

definition validate_email_lenient :: "string \<Rightarrow> exn + string" where
  "validate_email_lenient v0 = (let v = lower (strip v0)
     in if EMAIL_RE v then Inr v else Inl (ValueError (''Formato de email inv'' @ [CHR 0xE1] @ ''lido'')))"

subsection \<open>Requests\<close>

definition ROLES :: "string list" where
  "ROLES = [''viewer'', ''analyst'', ''ingestor'', ''admin'', ''superadmin'']"

record user_create =
  uc_email :: string
  uc_password :: string
  uc_name :: string
  uc_role :: string
  uc_tenant :: "uuid option"
  uc_super :: bool

definition between :: "nat \<Rightarrow> nat \<Rightarrow> string \<Rightarrow> bool" where
  "between lo hi s \<longleftrightarrow> lo \<le> length s \<and> length s \<le> hi"

text \<open>The fields that both schemas share, then the consistency check, which the internal schema replaces.\<close>

definition check_user_fields :: "user_create \<Rightarrow> user_create option" where
  "check_user_fields d = (case validate_email_lenient (uc_email d) of
      Inl e \<Rightarrow> None
    | Inr email \<Rightarrow>
        if between 12 128 (uc_password d) \<and> length (utf8 (uc_password d)) \<le> 72 \<and> between 1 255 (uc_name d) \<and>
           uc_role d \<in> set ROLES
        then Some (d\<lparr>uc_email := email\<rparr>) else None)"

definition check_user_create :: "user_create \<Rightarrow> user_create option" where
  "check_user_create d = (case check_user_fields d of
      None \<Rightarrow> None
    | Some d' \<Rightarrow> if uc_super d' \<or> uc_tenant d' = None \<or> uc_role d' = ''superadmin'' then None else Some d')"

definition check_user_internal :: "user_create \<Rightarrow> user_create option" where
  "check_user_internal d = (case check_user_fields d of
      None \<Rightarrow> None
    | Some d' \<Rightarrow>
        if uc_super d' \<and> uc_tenant d' \<noteq> None \<or> \<not> uc_super d' \<and> uc_tenant d' = None \<or>
           uc_super d' \<and> uc_role d' \<noteq> ''superadmin''
        then None else Some d')"

record user_update =
  uu_email :: "string option option"
  uu_name :: "string option option"
  uu_role :: "string option option"
  uu_active :: "bool option option"

definition set_field :: "'a option option \<Rightarrow> 'a option" where
  "set_field x = (case x of Some v \<Rightarrow> v | None \<Rightarrow> None)"

definition check_user_update :: "user_update \<Rightarrow> user_update option" where
  "check_user_update d =
     (if \<not> (case set_field (uu_name d) of None \<Rightarrow> True | Some n \<Rightarrow> between 1 255 n) \<or>
         \<not> (case set_field (uu_role d) of None \<Rightarrow> True | Some r \<Rightarrow> r \<in> set ROLES \<and> r \<noteq> ''superadmin'') then None
      else case set_field (uu_email d) of
          None \<Rightarrow> Some d
        | Some v \<Rightarrow> (case validate_email_lenient v of
              Inl e \<Rightarrow> None
            | Inr email \<Rightarrow> if length email \<le> 255 then Some (d\<lparr>uu_email := Some (Some email)\<rparr>) else None))"

subsection \<open>The service\<close>

definition email_taken :: exn where
  "email_taken = UserError 409 (''El email ya est'' @ [CHR 0xE1] @ '' registrado'')"

definition is_email_taken :: "string \<Rightarrow> uuid option \<Rightarrow> ('r, bool) db_prog" where
  "is_email_taken email exclude_id = getE (\<lambda>w. 0 < count_where
     (\<lambda>u. lower (u_email u) = lower email \<and> (case exclude_id of None \<Rightarrow> True | Some i \<Rightarrow> u_id u \<noteq> i)) (seen_users w))"

definition get_active_tenant :: "uuid \<Rightarrow> ('r, tenant_row) db_prog" where
  "get_active_tenant tenant_id =
     bindE (bindE (getE (\<lambda>w. filter (\<lambda>t. t_id t = tenant_id) (seen_tenants w))) scalar_one_or_none) (\<lambda>tenant.
       case tenant of
         None \<Rightarrow> raiseE (UserError 404 ''Tenant no encontrado'')
       | Some t \<Rightarrow> if \<not> t_active t then raiseE (UserError 409 (''El tenant est'' @ [CHR 0xE1] @ '' inactivo'')) else retE t)"

text \<open>The error code of a unique violation, \<open>23505\<close>, for the constraints of the schema.\<close>

definition is_unique_violation :: "exn \<Rightarrow> bool" where
  "is_unique_violation exc = (case exc of
      IntegrityError name \<Rightarrow> name \<in> {''tenants_pkey'', ''tenants_slug_key'', ''users_pkey'', ''users_email_key'',
        ''refresh_tokens_pkey'', ''refresh_tokens_token_hash_key''}
    | _ \<Rightarrow> False)"

definition new_user :: "auth_env \<Rightarrow> draws \<Rightarrow> user_create \<Rightarrow> user_row" where
  "new_user env d data = \<lparr>u_id = dr_row d, u_tenant = uc_tenant data, u_email = strip (lower (uc_email data)),
     u_password = hash_password (ae_hashpw env) (dr_salt d) (uc_password data), u_name = uc_name data,
     u_role = uc_role data, u_active = True, u_super = uc_super data, u_last_login = None, u_created = dr_now d\<rparr>"

definition create_user :: "auth_env \<Rightarrow> draws \<Rightarrow> user_create \<Rightarrow> ('r, user_row) db_prog" where
  "create_user env d data =
     bindE (is_email_taken (uc_email data) None) (\<lambda>taken.
       if taken then raiseE email_taken
       else thenE (case uc_tenant data of
              Some t \<Rightarrow> if uc_super data then retE () else thenE (get_active_tenant t) (retE ())
            | None \<Rightarrow> retE ())
         (thenE (validate_password_length (uc_password data))
           (let user = new_user env d data
            in thenE (except_integrity (insert_checked (\<lambda>g. rls_user g user) (\<lambda>t. t\<lparr>users := users t @ [user]\<rparr>))
                 (\<lambda>exc. raiseE (if is_unique_violation exc then email_taken else exc)))
               (bindE (getE (\<lambda>w. filter (\<lambda>u. u_id u = u_id user) (seen_users w))) scalar_one))))"

definition get_user_by_email :: "string \<Rightarrow> ('r, user_row option) db_prog" where
  "get_user_by_email email =
     bindE (getE (\<lambda>w. filter (\<lambda>u. lower (u_email u) = lower email) (seen_users w))) scalar_one_or_none"

definition list_users :: "uuid option \<Rightarrow> bool \<Rightarrow> nat \<Rightarrow> nat \<Rightarrow> ('r, user_row list) db_prog" where
  "list_users tenant_id include_inactive offset limit =
     getE (\<lambda>w. take (min limit 200) (drop offset (rev (sort_key u_created
       (filter (\<lambda>u. (tenant_id \<noteq> None \<longrightarrow> u_tenant u = tenant_id) \<and> (include_inactive \<or> u_active u)) (seen_users w))))))"

text \<open>Both deactivations: refresh tokens in the database, then the tokens in Redis.\<close>

definition end_sessions :: "'r redis_call \<Rightarrow> auth_env \<Rightarrow> time \<Rightarrow> uuid \<Rightarrow> ('r, unit) db_prog" where
  "end_sessions call env now user_id =
     thenE (revoke_all_user_tokens now user_id)
       (on_redis (revoke_all_user_access_tokens call (ae_str env user_id) (ae_minutes env * 60)))"

definition refresh_user :: "uuid \<Rightarrow> ('r, user_row) db_prog" where
  "refresh_user i = bindE (getE (\<lambda>w. filter (\<lambda>u. u_id u = i) (seen_users w))) scalar_one"

text \<open>The assignments to the row; a null name, role or address has no method to call, a null flag is refused by the column.\<close>

definition update_email :: "user_update \<Rightarrow> user_row \<Rightarrow> ('r, user_row) db_prog" where
  "update_email data user = (case uu_email data of
      None \<Rightarrow> retE user
    | Some None \<Rightarrow> raiseE (AttributeError ''lower'')
    | Some (Some v) \<Rightarrow> let new_email = strip (lower v) in
        bindE (is_email_taken new_email (Some (u_id user))) (\<lambda>taken.
          if taken then raiseE (UserError 409 ''El email ya esta registrado'') else retE (user\<lparr>u_email := new_email\<rparr>)))"

definition apply_user_update :: "user_update \<Rightarrow> user_row \<Rightarrow> exn + user_row" where
  "apply_user_update data u0 =
     (case (case uu_name data of None \<Rightarrow> Inr u0 | Some None \<Rightarrow> Inl (AttributeError ''strip'')
              | Some (Some n) \<Rightarrow> Inr (u0\<lparr>u_name := strip n\<rparr>)) of
        Inl e \<Rightarrow> Inl e
      | Inr u1 \<Rightarrow> (case (case uu_role data of None \<Rightarrow> Inr u1 | Some None \<Rightarrow> Inl (AttributeError ''value'')
                | Some (Some r) \<Rightarrow> Inr (u1\<lparr>u_role := r\<rparr>)) of
          Inl e \<Rightarrow> Inl e
        | Inr u2 \<Rightarrow> (case uu_active data of None \<Rightarrow> Inr u2 | Some None \<Rightarrow> Inl (IntegrityError ''is_active'')
                | Some (Some b) \<Rightarrow> Inr (u2\<lparr>u_active := b\<rparr>))))"

definition update_user ::
  "'r redis_call \<Rightarrow> auth_env \<Rightarrow> time \<Rightarrow> user_row \<Rightarrow> user_row \<Rightarrow> user_update \<Rightarrow> ('r, user_row) db_prog" where
  "update_user call env now current_user target data =
     (if \<not> u_super current_user \<and> u_tenant target \<noteq> u_tenant current_user
      then raiseE (UserError 403 ''Permisos insuficientes'')
      else let is_deactivating = (uu_active data = Some (Some False) \<and> u_active target) in
        bindE (bindE (update_email data target) (\<lambda>user. ofE (apply_user_update data user))) (\<lambda>user.
        thenE (exec (\<lambda>t. t\<lparr>users := update_where (\<lambda>u. u_id u = u_id target) (\<lambda>_. user) (users t)\<rparr>))
        (thenE flush
        (thenE (whenE is_deactivating (end_sessions call env now (u_id target)))
          (refresh_user (u_id target))))))"

definition deactivate_user ::
  "'r redis_call \<Rightarrow> auth_env \<Rightarrow> time \<Rightarrow> user_row \<Rightarrow> user_row \<Rightarrow> ('r, unit) db_prog" where
  "deactivate_user call env now current_user target =
     (if \<not> u_super current_user \<and> u_tenant target \<noteq> u_tenant current_user
      then raiseE (UserError 403 ''Permisos insuficientes'')
      else if \<not> u_active target
      then raiseE (UserError 409 (''El usuario ya est'' @ [CHR 0xE1] @ '' desactivado''))
      else thenE (exec (\<lambda>t. t\<lparr>users := update_where (\<lambda>u. u_id u = u_id target) (\<lambda>u. u\<lparr>u_active := False\<rparr>) (users t)\<rparr>))
        (thenE flush (end_sessions call env now (u_id target))))"

subsection \<open>The endpoints\<close>

definition user_error :: "('r, 'a) db_prog \<Rightarrow> ('r, 'a) db_prog" where
  "user_error m = catchE m (\<lambda>e. case e of UserError code detail \<Rightarrow> raiseE (HTTPException code detail) | _ \<Rightarrow> raiseE e)"

definition create_user_route :: "auth_env \<Rightarrow> draws \<Rightarrow> user_row \<Rightarrow> user_create \<Rightarrow> ('r, user_row) db_prog" where
  "create_user_route env d current_user body =
     (if \<not> u_super current_user \<and> uc_tenant body \<noteq> u_tenant current_user
      then raiseE (HTTPException 403 ''Solo puedes crear usuarios en tu propio tenant.'')
      else if \<not> u_super current_user \<and> uc_role body \<in> {''admin'', ''superadmin''}
      then raiseE (HTTPException 403 ''No puedes asignar un rol igual o superior al tuyo'')
      else user_error (create_user env d body))"

definition list_users_route ::
  "user_row \<Rightarrow> uuid option \<Rightarrow> bool \<Rightarrow> nat \<Rightarrow> nat \<Rightarrow> ('r, user_row list) db_prog" where
  "list_users_route current_user tenant_id include_inactive offset limit =
     (if u_super current_user then list_users tenant_id include_inactive offset limit
      else if tenant_id \<noteq> None \<and> tenant_id \<noteq> u_tenant current_user
      then raiseE (HTTPException 403 ''Solo puedes listar usuarios de tu propio tenant'')
      else list_users (u_tenant current_user) include_inactive offset limit)"

definition get_user_route :: "user_row \<Rightarrow> user_row \<Rightarrow> ('r, user_row) db_prog" where
  "get_user_route user current_user =
     (if u_id user = u_id current_user \<or> u_super current_user \<or> has_minimum_role (u_role current_user) ''admin''
      then retE user else raiseE forbidden)"

text \<open>The policy of a patch, the exception it raises or none.\<close>

definition patch_policy :: "user_row \<Rightarrow> user_row \<Rightarrow> user_update \<Rightarrow> exn option" where
  "patch_policy current_user target body =
     (let is_self = (u_id target = u_id current_user) in
      if u_super current_user then
        (if is_self \<and> set_field (uu_active body) = Some False
         then Some (HTTPException 409 ''No puedes desactivarte a ti mismo'') else None)
      else if is_self then
        (if set_field (uu_role body) \<noteq> None \<or> set_field (uu_active body) \<noteq> None
         then Some (HTTPException 403 (''No puedes cambiar tu propio rol o estado de activaci'' @ [CHR 0xF3] @ ''n'')) else None)
      else if has_minimum_role (u_role current_user) ''admin'' then
        (if u_super target then Some (HTTPException 403 ''No puedes modificar a un superadmin.'')
         else if (case set_field (uu_role body) of None \<Rightarrow> False | Some r \<Rightarrow> has_minimum_role r ''admin'')
         then Some (HTTPException 403 ''No puedes elegir un rol igual o superior al tuyo'')
         else if set_field (uu_active body) \<noteq> None \<and> has_minimum_role (u_role target) ''admin''
         then Some (HTTPException 403 (''Un admin no puede cambiar el estado de activaci'' @ [CHR 0xF3] @ ''n de otro admin''))
         else None)
      else Some forbidden)"

definition update_user_route ::
  "'r redis_call \<Rightarrow> auth_env \<Rightarrow> time \<Rightarrow> user_row \<Rightarrow> user_row \<Rightarrow> user_update \<Rightarrow> ('r, user_row) db_prog" where
  "update_user_route call env now current_user target body =
     (case patch_policy current_user target body of
        Some e \<Rightarrow> raiseE e
      | None \<Rightarrow> user_error (update_user call env now current_user target body))"

definition deactivate_user_route ::
  "'r redis_call \<Rightarrow> auth_env \<Rightarrow> time \<Rightarrow> user_row \<Rightarrow> user_row \<Rightarrow> ('r, unit) db_prog" where
  "deactivate_user_route call env now current_user target =
     (if u_id target = u_id current_user then raiseE (HTTPException 409 ''No puedes desactivarte a ti mismo'')
      else if \<not> u_super current_user \<and> u_super target
      then raiseE (HTTPException 403 ''No se puede desactivar a un superadmin'')
      else if \<not> u_super current_user \<and> has_minimum_role (u_role target) ''admin''
      then raiseE (HTTPException 403 ''Un admin no puede desactivar a otro admin'')
      else user_error (deactivate_user call env now current_user target))"

text \<open>The requests that change users, with the dependencies of their endpoints and the schema of the body.\<close>

datatype user_request = PostUser user_create | PatchUser uuid user_update | RemoveUser uuid

definition unprocessable :: exn where
  "unprocessable = HTTPException 422 ''Unprocessable Entity''"

definition ignoring :: "('s, 'e, 'a) prog \<Rightarrow> ('s, 'e, unit) prog" where
  "ignoring m = thenE m (retE ())"

definition user_endpoint :: "'r redis_call \<Rightarrow> auth_env \<Rightarrow> draws \<Rightarrow> user_row \<Rightarrow> user_request \<Rightarrow> ('r, unit) db_prog" where
  "user_endpoint call env d current_user req = (case req of
      PostUser data \<Rightarrow> thenE (ofE (require_role ''admin'' current_user)) (case check_user_create data of
          None \<Rightarrow> raiseE unprocessable
        | Some body \<Rightarrow> ignoring (create_user_route env d current_user body))
    | PatchUser i data \<Rightarrow> bindE (get_user_for_admin i current_user) (\<lambda>target. case check_user_update data of
          None \<Rightarrow> raiseE unprocessable
        | Some body \<Rightarrow> ignoring (update_user_route call env (dr_now d) current_user target body))
    | RemoveUser i \<Rightarrow> thenE (ofE (require_role ''admin'' current_user))
        (bindE (get_user_for_admin i current_user) (\<lambda>target.
          deactivate_user_route call env (dr_now d) current_user target)))"

definition serve_user ::
  "(tables \<Rightarrow> exn option) \<Rightarrow> 'r redis_call \<Rightarrow> auth_env \<Rightarrow> draws \<Rightarrow> user_row \<Rightarrow> user_request \<Rightarrow> ('r, unit) db_prog" where
  "serve_user refuse call env d current_user req = with_session refuse (user_endpoint call env d current_user req)"

subsection \<open>What the parts keep\<close>

text \<open>Nothing reaches the committed tables before the session ends.\<close>

definition saved :: "tables \<Rightarrow> 'r world \<Rightarrow> bool" where
  "saved C w \<longleftrightarrow> committed w = C"

lemma keeps_saved [intro]:
  "keeps (saved C) flush" "keeps (saved C) (exec f)" "keeps (saved C) (on_redis m)" "keeps (saved C) (ofE x)"
  "keeps (saved C) (set_tenant_context t b)" "keeps (saved C) (insert_checked p f)" "keeps (saved C) (scalar_one xs)"
  "keeps (saved C) (scalar_one_or_none xs)" "keeps (saved C) (revoke_all_user_tokens now i)"
  "keeps (saved C) (validate_password_length v)"
  by (auto simp: keeps_def saved_def flush_def on_redis_def ofE_def set_tenant_context_def insert_checked_def scalar_one_def
      scalar_one_or_none_def revoke_all_user_tokens_def validate_password_length_def whenE_def
      split: option.splits prod.splits sum.splits list.splits)

lemma keeps_except_integrity: "keeps P m \<Longrightarrow> (\<And>e. keeps P (h e)) \<Longrightarrow> keeps P (except_integrity m h)"
  unfolding except_integrity_def by (rule keeps_catch) (auto split: exn.split)

lemma keeps_user_error: "keeps P m \<Longrightarrow> keeps P (user_error m)"
  unfolding user_error_def by (rule keeps_catch) (auto split: exn.split)

lemma keeps_end_sessions: "keeps (saved C) (end_sessions call env now i)"
  unfolding end_sessions_def by (intro keeps_then keeps_saved)

lemma keeps_create_user: "keeps (saved C) (create_user env d data)"
  unfolding create_user_def is_email_taken_def get_active_tenant_def Let_def
  by (intro keeps_intros keeps_saved keeps_except_integrity)

lemma keeps_update_email: "keeps (saved C) (update_email data u)"
  unfolding update_email_def is_email_taken_def Let_def by (intro keeps_intros)

lemma keeps_update_user: "keeps (saved C) (update_user call env now me target data)"
  unfolding update_user_def refresh_user_def Let_def
  by (intro keeps_intros keeps_saved keeps_update_email keeps_end_sessions)

lemma keeps_deactivate_user: "keeps (saved C) (deactivate_user call env now me target)"
  unfolding deactivate_user_def by (intro keeps_intros keeps_saved keeps_end_sessions)

lemma keeps_get_user_for_admin: "keeps (saved C) (get_user_for_admin i me)"
  unfolding get_user_for_admin_def finallyE_def Let_def
  by (intro keeps_intros keeps_mod keeps_saved) (simp add: saved_def)

lemma keeps_user_endpoint: "keeps (saved C) (user_endpoint call env d me req)"
  unfolding user_endpoint_def ignoring_def create_user_route_def update_user_route_def deactivate_user_route_def
  by (cases req; simp; intro keeps_intros keeps_saved keeps_user_error keeps_create_user keeps_update_user
      keeps_deactivate_user keeps_get_user_for_admin)

lemma with_session_saved:
  assumes "\<And>C. keeps (saved C) m" and "with_session refuse m w = (res, w')"
  obtains (failed) e where "res = Inl e" and "committed w' = committed w"
    | (returned) x w1 where "m w = (Inr x, w1)" and "res = Inr x" and "violation (work w1) = None"
        and "w' = end_tx (work w1) w1"
proof -
  have saved: "committed w1 = committed w" if "m w = (y, w1)" for y w1
    using keepsD [OF assms(1) _ that] by (simp add: saved_def)
  from assms(2) show thesis
  proof (cases rule: with_session_cases)
    case (1 e w1)
    then show thesis using saved [OF 1(1)] by (intro that(1)) simp_all
  next
    case (2 x e w1)
    then show thesis using saved [OF 2(1)] by (intro that(1)) simp_all
  next
    case (3 x w1)
    then show thesis by (intro that(2))
  qed
qed

lemma end_sessions_work:
  assumes "end_sessions call env now i w = (x, w')"
  shows "users (work w') = users (work w)" "guc w' = guc w" "tenants (work w') = tenants (work w)"
  using assms by (auto simp: end_sessions_def thenE_def bindE_def revoke_all_user_tokens_def on_redis_run)

lemma user_error_Inr: "user_error m w = (Inr x, w') \<longleftrightarrow> m w = (Inr x, w')"
proof (cases "m w")
  case (Pair y t)
  then show ?thesis
    by (cases y) (auto simp: user_error_def catchE_def split: exn.split)
qed

lemma create_user_Inr:
  assumes "create_user env d data w = (Inr u, w')"
  shows "users (work w') = users (work w) @ [new_user env d data] \<and> rls_user (guc w) (new_user env d data) \<and>
    (\<forall>q \<in> set (seen_users w). lower (u_email q) \<noteq> lower (uc_email data)) \<and>
    (\<forall>t. \<not> uc_super data \<and> uc_tenant data = Some t \<longrightarrow> (\<exists>r \<in> set (seen_tenants w). t_id r = t \<and> t_active r))"
proof -
  have ten: "v = w \<and> (\<exists>r \<in> set (seen_tenants w). t_id r = t \<and> t_active r)"
    if "get_active_tenant t w = (Inr x, v)" for t x v
    using that by (auto simp: get_active_tenant_def bindE_success scalar_one_or_none_run filter_eq_Cons_iff
        split: option.splits if_splits)
  have ins: "insert_checked p f v = (Inr y, v')" if "except_integrity (insert_checked p f) (\<lambda>exc. raiseE (h exc)) v = (Inr y, v')"
    for p f v y v' h using that by (auto elim!: except_integrity_cases)
  from assms show ?thesis
    by (auto simp: create_user_def is_email_taken_def bindE_success thenE_def Let_def scalar_one_run insert_checked_Inr
        validate_password_length_def count_where_0 dest!: ins ten split: if_splits option.splits)
qed

subsection \<open>The bounds of an administrator\<close>

text \<open>What an update leaves alone, and where the role and the flag come from.\<close>

definition updated_from :: "user_update \<Rightarrow> user_row \<Rightarrow> user_row \<Rightarrow> bool" where
  "updated_from data p q \<longleftrightarrow> u_id q = u_id p \<and> u_tenant q = u_tenant p \<and> u_password q = u_password p \<and>
     u_super q = u_super p \<and> u_created q = u_created p \<and> u_last_login q = u_last_login p \<and>
     u_role q = (case set_field (uu_role data) of None \<Rightarrow> u_role p | Some r \<Rightarrow> r) \<and>
     u_active q = (case set_field (uu_active data) of None \<Rightarrow> u_active p | Some b \<Rightarrow> b)"

lemma apply_user_update_from: "apply_user_update data p = Inr q \<Longrightarrow> updated_from data p q"
  by (auto simp: apply_user_update_def updated_from_def set_field_def split: option.splits sum.splits)

lemma update_email_from:
  "update_email data p w = (Inr q, w') \<Longrightarrow> w' = w \<and> (q = p \<or> (\<exists>e. q = p\<lparr>u_email := e\<rparr>))"
  by (auto simp: update_email_def is_email_taken_def Let_def bindE_success split: option.splits if_splits)

lemma update_user_Inr:
  assumes "update_user call env now me target data w = (Inr r, w')"
  obtains q where "updated_from data target q"
    and "users (work w') = update_where (\<lambda>u. u_id u = u_id target) (\<lambda>_. q) (users (work w))"
proof -
  from assms obtain p q v where p: "update_email data target w = (Inr p, v)" and q: "apply_user_update data p = Inr q"
    and rest: "thenE flush (thenE (whenE (uu_active data = Some (Some False) \<and> u_active target)
        (end_sessions call env now (u_id target))) (refresh_user (u_id target)))
      (v\<lparr>work := (work v)\<lparr>users := update_where (\<lambda>u. u_id u = u_id target) (\<lambda>_. q) (users (work v))\<rparr>\<rparr>) = (Inr r, w')"
    by (auto simp: update_user_def Let_def bindE_success thenE_def split: if_splits)
  have "users (work w') = update_where (\<lambda>u. u_id u = u_id target) (\<lambda>_. q) (users (work v))"
    using rest by (auto simp: thenE_def bindE_success flush_cases refresh_user_def scalar_one_run whenE_def end_sessions_work
        split: if_splits)
  moreover have "updated_from data target q"
    using update_email_from [OF p] apply_user_update_from [OF q]
    by (auto simp: updated_from_def cong: option.case_cong)
  ultimately show thesis using update_email_from [OF p] by (intro that) auto
qed

lemma deactivate_user_Inr:
  assumes "deactivate_user call env now me target w = (Inr r, w')"
  shows "users (work w') = update_where (\<lambda>u. u_id u = u_id target) (\<lambda>u. u\<lparr>u_active := False\<rparr>) (users (work w))"
  using assms by (auto simp: deactivate_user_def thenE_def bindE_success flush_cases end_sessions_work split: if_splits)

definition is_admin :: "user_row \<Rightarrow> bool" where
  "is_admin u \<longleftrightarrow> has_minimum_role (u_role u) ''admin''"

text \<open>What a request of the user \<open>me\<close>, not one of the platform, may make of a row.\<close>

definition in_bounds :: "user_row \<Rightarrow> user_row \<Rightarrow> user_row \<Rightarrow> bool" where
  "in_bounds me p q \<longleftrightarrow> u_id q = u_id p \<and> u_tenant q = u_tenant p \<and> u_password q = u_password p \<and> u_super q = u_super p \<and>
     (q \<noteq> p \<longrightarrow> u_tenant p = u_tenant me \<and> \<not> u_super p \<and> (u_id p = u_id me \<or> is_admin me)) \<and>
     (u_role q \<noteq> u_role p \<longrightarrow> u_id p \<noteq> u_id me \<and> \<not> is_admin q) \<and>
     (u_active q \<noteq> u_active p \<longrightarrow> u_id p \<noteq> u_id me \<and> \<not> is_admin p)"

lemma in_bounds_refl [simp]: "in_bounds me p p"
  by (simp add: in_bounds_def)

lemma in_bounds_all_refl [simp]: "list_all2 (in_bounds me) us us"
  by (simp add: list.rel_refl)

lemma in_bounds_update:
  assumes "distinct (map u_id us)" and "t \<in> set us" and "in_bounds me t (f t)"
  shows "list_all2 (in_bounds me) us (update_where (\<lambda>u. u_id u = u_id t) f us)"
proof -
  have "in_bounds me u (if u_id u = u_id t then f u else u)" if "u \<in> set us" for u
    using assms distinct_map_inj [OF assms(1) that assms(2)] by auto
  then show ?thesis by (simp add: update_where_def list_all2_map2 list_all2_same)
qed

lemma valid_users:
  assumes "violation t = None"
  shows "distinct (map u_id (users t))" "u \<in> set (users t) \<Longrightarrow> \<not> u_super u \<Longrightarrow> u_tenant u \<noteq> None"
    "u \<in> set (users t) \<Longrightarrow> u_super u \<Longrightarrow> u_tenant u = None"
  using assms by (auto simp: violation_None constraints_def users_ok_def)

text \<open>The three endpoints on tables where the user and its target are rows.\<close>

lemma patch_in_bounds:
  assumes "patch_policy me t data = None" and "\<not> u_super me" and "u_tenant t = u_tenant me"
    and "u_id t = u_id me \<Longrightarrow> t = me" and "updated_from data t q"
  shows "in_bounds me t q"
proof (cases "u_id t = u_id me")
  case True
  with assms show ?thesis
    by (auto simp: patch_policy_def updated_from_def in_bounds_def split: if_splits)
next
  case False
  with assms show ?thesis
    by (auto simp: patch_policy_def updated_from_def in_bounds_def is_admin_def split: if_splits option.splits)
qed

lemma found_target:
  assumes "guc w = context_of me" and "\<not> u_super me" and "u_tenant me \<noteq> None"
    and "get_user_for_admin i me w = (Inr t, w')"
  shows "w' = w \<and> t \<in> set (users (work w)) \<and> u_tenant t = u_tenant me"
  using assms(4) get_user_for_admin_run [OF assms(1) disjI2 [OF assms(3)], of i] assms(2)
  by (auto simp: filter_eq_Cons_iff split: list.splits if_splits)

lemma served_in_bounds:
  assumes "serve_user refuse call env d me req w = (Inr u, w')"
    and "violation (work w) = None" and "guc w = context_of me" and "me \<in> set (users (work w))" and "\<not> u_super me"
  shows "\<exists>old new. users (committed w') = old @ new \<and> list_all2 (in_bounds me) (users (work w)) old \<and> length new \<le> 1 \<and>
    (\<forall>q \<in> set new. is_admin me \<and> \<not> is_admin q \<and> \<not> u_super q \<and> u_tenant q = u_tenant me \<and>
       (\<exists>t \<in> set (tenants (work w)). u_tenant me = Some (t_id t) \<and> t_active t))"
proof -
  note ids = valid_users(1) [OF assms(2)] and ten = valid_users(2) [OF assms(2,4,5)]
  have target: "t = me" if "t \<in> set (users (work w))" "u_id t = u_id me" for t
    using distinct_map_inj [OF ids that(1) assms(4) that(2)] .
  show ?thesis
  proof (cases req)
    case (PostUser data)
    with assms(1) obtain body w1 r where b: "check_user_create data = Some body" and admin: "is_admin me"
      and run: "create_user_route env d me body w = (Inr r, w1)" and w': "users (committed w') = users (work w1)"
      by (auto simp: serve_user_def user_endpoint_def with_session_Inr ignoring_def thenE_def bindE_success require_role_def is_admin_def
          split: option.splits if_splits)
    from run assms(5) have g: "uc_tenant body = u_tenant me" "uc_role body \<notin> {''admin'', ''superadmin''}"
      and c: "create_user env d body w = (Inr r, w1)"
      by (auto simp: create_user_route_def user_error_Inr split: if_splits)
    from b have s: "\<not> uc_super body" "uc_role body \<in> set ROLES"
      by (auto simp: check_user_create_def check_user_fields_def split: option.splits if_splits sum.splits)
    obtain tn where tn: "u_tenant me = Some tn" using ten by auto
    from create_user_Inr [OF c] g(1) s(1) tn obtain t where "t \<in> set (tenants (work w))" "t_id t = tn" "t_active t"
      by (auto simp: seen_tenants_def)
    moreover have "\<not> is_admin (new_user env d body)"
      using g(2) s(2) by (auto simp: is_admin_def new_user_def has_minimum_role_def ROLES_def)
    ultimately show ?thesis using create_user_Inr [OF c] w' admin s(1) g(1) tn
      by (intro exI [of _ "users (work w)"] exI [of _ "[new_user env d body]"]) (auto simp: new_user_def)
  next
    case (PatchUser i data)
    with assms(1) obtain body t w0 w1 r where b: "check_user_update data = Some body"
      and t: "get_user_for_admin i me w = (Inr t, w0)" and run: "update_user_route call env (dr_now d) me t body w0 = (Inr r, w1)"
      and w': "users (committed w') = users (work w1)"
      by (auto simp: serve_user_def user_endpoint_def with_session_Inr ignoring_def thenE_def bindE_success split: option.splits)
    note found = found_target [OF assms(3,5) ten t]
    from run have p: "patch_policy me t body = None" and u: "update_user call env (dr_now d) me t body w = (Inr r, w1)"
      using found by (auto simp: update_user_route_def user_error_Inr split: option.splits)
    from u obtain q where q: "updated_from body t q"
      "users (work w1) = update_where (\<lambda>u. u_id u = u_id t) (\<lambda>_. q) (users (work w))" by (rule update_user_Inr)
    have "in_bounds me t q" using patch_in_bounds [OF p assms(5) _ target q(1)] found by blast
    from in_bounds_update [OF ids _ this] found w' q(2) show ?thesis
      by (intro exI [of _ "users (work w1)"] exI [of _ "[]"]) auto
  next
    case (RemoveUser i)
    with assms(1) obtain t w0 w1 where admin: "is_admin me" and t: "get_user_for_admin i me w = (Inr t, w0)"
      and run: "deactivate_user_route call env (dr_now d) me t w0 = (Inr u, w1)" and w': "users (committed w') = users (work w1)"
      by (auto simp: serve_user_def user_endpoint_def with_session_Inr thenE_def bindE_success require_role_def is_admin_def split: if_splits)
    note found = found_target [OF assms(3,5) ten t]
    from run assms(5) found have p: "u_id t \<noteq> u_id me" "\<not> u_super t" "\<not> is_admin t"
      and c: "deactivate_user call env (dr_now d) me t w = (Inr u, w1)"
      by (auto simp: deactivate_user_route_def user_error_Inr is_admin_def split: if_splits)
    have "in_bounds me t (t\<lparr>u_active := False\<rparr>)" using p admin found by (simp add: in_bounds_def)
    from in_bounds_update [OF ids, of t me "\<lambda>u. u\<lparr>u_active := False\<rparr>"] this found w' deactivate_user_Inr [OF c] show ?thesis
      by (intro exI [of _ "users (work w1)"] exI [of _ "[]"]) auto
  qed
qed

text \<open>
  C15: An administrator of a tenant stays in bounds.  A request on the user endpoints by a user who is not one of
  the platform keeps every stored user, in order, with its id, tenant, password and platform flag; it changes
  only users of its own tenant, and another user only when the requester is an administrator; no role
  rises to administrator, no one changes the role or the flag of himself, and no administrator is
  deactivated; at most one user is added, in the requester's own active tenant and below an administrator.
\<close>

theorem tenant_admin_in_bounds:
  assumes "serve_user refuse call env d me req w = (res, w')" and "work w = committed w"
    and "violation (committed w) = None" and "guc w = context_of me" and "me \<in> set (users (committed w))" and "\<not> u_super me"
  shows "\<exists>old new. users (committed w') = old @ new \<and> length new \<le> 1 \<and>
    list_all2 (\<lambda>p q. u_id q = u_id p \<and> u_tenant q = u_tenant p \<and> u_password q = u_password p \<and> u_super q = u_super p \<and>
       (q = p \<or> u_tenant p = u_tenant me \<and> \<not> u_super p \<and> (u_id p = u_id me \<or> has_minimum_role (u_role me) ''admin'')) \<and>
       (u_role q = u_role p \<or> u_id p \<noteq> u_id me \<and> \<not> has_minimum_role (u_role q) ''admin'') \<and>
       (u_active q = u_active p \<or> u_id p \<noteq> u_id me \<and> \<not> has_minimum_role (u_role p) ''admin''))
      (users (committed w)) old \<and>
    list_all (\<lambda>q. has_minimum_role (u_role me) ''admin'' \<and> \<not> has_minimum_role (u_role q) ''admin'' \<and> \<not> u_super q \<and>
       u_tenant q = u_tenant me \<and> (\<exists>t \<in> set (tenants (committed w)). u_tenant me = Some (t_id t) \<and> t_active t)) new"
proof -
  from assms(1) consider (failed) "committed w' = committed w" | (returned) u where "res = Inr u"
    unfolding serve_user_def by (rule with_session_saved [OF keeps_user_endpoint])
  then show ?thesis
  proof cases
  case failed
  then show ?thesis by (intro exI [of _ "users (committed w)"] exI [of _ "[]"]) (simp add: list.rel_refl)
next
  case (returned u)
  with assms(1) have "serve_user refuse call env d me req w = (Inr u, w')" by simp
  from served_in_bounds [OF this] assms(2-6) obtain old new where
    users: "users (committed w') = old @ new" and old: "list_all2 (in_bounds me) (users (committed w)) old"
    and new: "length new \<le> 1" "\<forall>q \<in> set new. is_admin me \<and> \<not> is_admin q \<and> \<not> u_super q \<and> u_tenant q = u_tenant me \<and>
       (\<exists>t \<in> set (tenants (committed w)). u_tenant me = Some (t_id t) \<and> t_active t)" by auto
  have "list_all2 (\<lambda>p q. u_id q = u_id p \<and> u_tenant q = u_tenant p \<and> u_password q = u_password p \<and> u_super q = u_super p \<and>
       (q = p \<or> u_tenant p = u_tenant me \<and> \<not> u_super p \<and> (u_id p = u_id me \<or> has_minimum_role (u_role me) ''admin'')) \<and>
       (u_role q = u_role p \<or> u_id p \<noteq> u_id me \<and> \<not> has_minimum_role (u_role q) ''admin'') \<and>
       (u_active q = u_active p \<or> u_id p \<noteq> u_id me \<and> \<not> has_minimum_role (u_role p) ''admin''))
      (users (committed w)) old"
    using old by (rule list_all2_mono) (unfold in_bounds_def is_admin_def, blast)
  moreover have "list_all (\<lambda>q. has_minimum_role (u_role me) ''admin'' \<and> \<not> has_minimum_role (u_role q) ''admin'' \<and> \<not> u_super q \<and>
       u_tenant q = u_tenant me \<and> (\<exists>t \<in> set (tenants (committed w)). u_tenant me = Some (t_id t) \<and> t_active t)) new"
    using new(2) unfolding is_admin_def list_all_iff by blast
  ultimately show ?thesis using users new(1) by blast
  qed
qed

definition sample_hire :: user_create where
  "sample_hire = \<lparr>uc_email = '' Ana@X.io'', uc_password = ''correct horse'', uc_name = ''Ana'', uc_role = ''analyst'',
     uc_tenant = Some 1, uc_super = False\<rparr>"

lemma tenant_admin_in_bounds_witness:
  "\<exists>w'. serve_user no_refusal mem_call sample_env sample_draws (sample_user 5 (Some 1) ''u@x.io'' ''admin'') (PostUser sample_hire)
      ((sample_login [] [])\<lparr>guc := \<lparr>g_tenant = Some 1, g_super = False\<rparr>\<rparr>) = (Inr (), w') \<and>
     (\<exists>old new. users (committed w') = old @ new \<and> length old = 1 \<and> list_all (\<lambda>q. u_tenant q = Some 1) new)"
proof -
  let ?me = "sample_user 5 (Some 1) ''u@x.io'' ''admin''"
  let ?w = "(sample_login [] [])\<lparr>guc := \<lparr>g_tenant = Some 1, g_super = False\<rparr>\<rparr>"
  let ?m = "serve_user no_refusal mem_call sample_env sample_draws ?me (PostUser sample_hire)"
  have b: "check_user_create sample_hire = Some (sample_hire\<lparr>uc_email := ''ana@x.io''\<rparr>)" by code_simp
  have mails: "strip ''ana@x.io'' = ''ana@x.io''" "lower ''ana@x.io'' = ''ana@x.io''" "lower ''u@x.io'' = ''u@x.io''" by code_simp+
  have "fst (?m ?w) = Inr ()"
    unfolding serve_user_def user_endpoint_def user_request.case b option.case
    by (simp add: mails Let_def with_session_def create_user_route_def create_user_def is_email_taken_def
        get_active_tenant_def require_role_def has_minimum_role_def sample_hire_def sample_login_def sample_defs ofE_def
        validate_password_length_def utf8_def utf8_char_def new_user_def insert_checked_def flush_def commit_def
        constraint_defs scalar_one_def scalar_one_or_none_def user_error_def except_integrity_def ignoring_def
        sample_draws_def sample_env_def hash_password_def rls_user_def seen_users_def seen_tenants_def rls_row_def eval_simps cong: eval_congs)
  note run = run_of [OF this]
  have us: "users (committed ?w) = [?me]" by (simp add: sample_login_def sample_defs Let_def)
  have "violation (committed ?w) = None" by (simp add: constraint_defs sample_login_def sample_defs Let_def)
  moreover have "work ?w = committed ?w" "guc ?w = context_of ?me" "\<not> u_super ?me" "u_tenant ?me = Some 1"
    by (simp_all add: sample_login_def context_of_def sample_user_def Let_def)
  moreover have "me \<in> set (users (committed ?w))" if "me = ?me" for me using us that by simp
  ultimately obtain old new where new: "users (committed (snd (?m ?w))) = old @ new" "list_all (\<lambda>q. u_tenant q = Some 1) new"
    and "list_all2 (\<lambda>p q. u_id q = u_id p) (users (committed ?w)) old"
    using tenant_admin_in_bounds [OF run] unfolding list_all_iff list_all2_conv_all_nth by metis
  from list_all2_lengthD [OF this(3)] have "length old = 1" unfolding us by simp
  with new run show ?thesis by blast
qed

subsection \<open>Deactivation\<close>

lemma end_sessions_Inr:
  assumes "end_sessions call env now i w = (Inr x, w')" and "u \<in> set (users (work w))" and "u_id u = i"
    and "rls_user (guc w) u"
  shows "(\<forall>r \<in> set (rtokens (work w')). rt_user r = i \<longrightarrow> rt_revoked r \<noteq> None) \<and>
    revoke_all_user_access_tokens call (ae_str env i) (ae_minutes env * 60) (redis w) = (Inr x, redis w')"
proof -
  have seen: "rls_rtoken (guc w) (work w) r" if "rt_user r = i" for r
    using assms(2-4) that unfolding rls_user_def rls_rtoken_def by metis
  from assms(1) have toks: "rtokens (work w') = update_where (\<lambda>r. rls_rtoken (guc w) (work w) r \<and> unrevoked i r)
      (revoke_row now) (rtokens (work w))"
    and run: "revoke_all_user_access_tokens call (ae_str env i) (ae_minutes env * 60) (redis w) = (Inr x, redis w')"
    by (auto simp: end_sessions_def thenE_def bindE_def revoke_all_user_tokens_def on_redis_run)
  have "rt_revoked r \<noteq> None" if "r \<in> set (rtokens (work w'))" "rt_user r = i" for r
  proof -
    from that(1) obtain r0 where "r = (if rls_rtoken (guc w) (work w) r0 \<and> unrevoked i r0 then revoke_row now r0 else r0)"
      unfolding toks update_where_image by (rule imageE)
    with that(2) seen [of r0] show ?thesis by (auto simp: unrevoked_def revoke_row_def split: if_splits)
  qed
  with run show ?thesis by blast
qed

text \<open>The user rows a run leaves, and the run of \<open>end_sessions\<close> in it when it deactivates an active target.\<close>

lemma update_user_sessions:
  assumes "update_user call env now me target data w = (Inr r, w')" and "set_field (uu_active data) = Some False" and "u_active target"
  obtains v where "end_sessions call env now (u_id target) v = (Inr (), w')" and "redis v = redis w" and "guc v = guc w"
    and "users (work v) = users (work w')"
proof -
  from assms obtain p q v where p: "update_email data target w = (Inr p, v)"
    and rest: "thenE flush (thenE (end_sessions call env now (u_id target)) (refresh_user (u_id target)))
      (v\<lparr>work := (work v)\<lparr>users := update_where (\<lambda>u. u_id u = u_id target) (\<lambda>_. q) (users (work v))\<rparr>\<rparr>) = (Inr r, w')"
    by (auto simp: update_user_def Let_def bindE_success thenE_def set_field_def split: if_splits option.splits)
  define v' where "v' = v\<lparr>work := (work v)\<lparr>users := update_where (\<lambda>u. u_id u = u_id target) (\<lambda>_. q) (users (work v))\<rparr>\<rparr>"
  from rest have run: "end_sessions call env now (u_id target) v' = (Inr (), w')"
    unfolding v'_def by (auto simp: thenE_def bindE_success flush_cases refresh_user_def scalar_one_run)
  show thesis by (rule that [OF run]) (use update_email_from [OF p] end_sessions_work [OF run] in \<open>auto simp: v'_def\<close>)
qed

lemma deactivate_user_sessions:
  assumes "deactivate_user call env now me target w = (Inr r, w')"
  obtains v where "end_sessions call env now (u_id target) v = (Inr (), w')" and "redis v = redis w" and "guc v = guc w"
    and "users (work v) = users (work w')"
proof -
  define v where "v = w\<lparr>work := (work w)\<lparr>users := update_where (\<lambda>u. u_id u = u_id target) (\<lambda>u. u\<lparr>u_active := False\<rparr>) (users (work w))\<rparr>\<rparr>"
  from assms have run: "end_sessions call env now (u_id target) v = (Inr (), w')"
    by (auto simp: deactivate_user_def thenE_def bindE_success flush_cases v_def split: if_splits)
  show thesis by (rule that [OF run]) (use end_sessions_work [OF run] in \<open>auto simp: v_def\<close>)
qed

lemma update_where_key:
  assumes "distinct (map k xs)" and "p \<in> set xs" and "q \<in> set (update_where (\<lambda>x. k x = k t) f xs)" and "k q = k p"
    and "\<And>x. k x = k t \<Longrightarrow> k (f x) = k t" and "t \<in> set xs" and "q \<noteq> p"
  shows "p = t \<and> q = f p"
proof -
  from assms(3) obtain x where x: "x \<in> set xs" "q = (if k x = k t then f x else x)" by (auto simp: update_where_image)
  with assms(4,5) have "k x = k p" by (auto split: if_splits)
  then have "x = p" using distinct_map_inj [OF assms(1) x(1) assms(2)] by blast
  with x(2) assms(7) have "k p = k t" "q = f p" by (auto split: if_splits)
  with distinct_map_inj [OF assms(1,2,6)] show ?thesis by blast
qed

text \<open>Whichever endpoint took the flag of a user away has run \<open>end_sessions\<close> for it.\<close>

lemma served_deactivation:
  assumes "user_endpoint call env d me req w = (Inr u, w1)" and "guc w = context_of me" and "u_super me \<or> u_tenant me \<noteq> None"
    and "distinct (map u_id (users (work w)))" and "p \<in> set (users (work w))" and "u_active p"
    and "q \<in> set (users (work w1))" and "u_id q = u_id p" and "\<not> u_active q"
  obtains v where "end_sessions call env (dr_now d) (u_id p) v = (Inr (), w1)" and "redis v = redis w"
    and "q \<in> set (users (work v))" and "rls_user (guc v) q"
proof -
  have target: "v = w \<and> t \<in> set (users (work w)) \<and> (u_super me \<or> u_tenant t = u_tenant me)"
    if "get_user_for_admin i me w = (Inr t, v)" for i t v
    using that get_user_for_admin_run [OF assms(2,3), of i] by (auto simp: filter_eq_Cons_iff split: list.splits if_splits)
  have seen: "rls_user (context_of me) x" if "u_super me \<or> u_tenant x = u_tenant me" for x
    using that assms(3) by (auto simp: rls_user_def context_of_def)
  have "q \<noteq> p" using assms(6,9) by blast
  show thesis
  proof (cases req)
    case (PostUser data)
    with assms(1) obtain body r where "create_user env d body w = (Inr r, w1)"
      by (auto simp: user_endpoint_def ignoring_def thenE_def bindE_success create_user_route_def user_error_Inr
          split: option.splits if_splits)
    from create_user_Inr [OF this] assms(7,9) have "q \<in> set (users (work w))" by (auto simp: new_user_def)
    from distinct_map_inj [OF assms(4) this assms(5,8)] \<open>q \<noteq> p\<close> show thesis by blast
  next
    case (PatchUser i data)
    with assms(1) obtain body t w0 r where t: "get_user_for_admin i me w = (Inr t, w0)"
      and run: "update_user_route call env (dr_now d) me t body w0 = (Inr r, w1)"
      by (auto simp: user_endpoint_def ignoring_def thenE_def bindE_success split: option.splits)
    note t = target [OF t]
    from run t have up: "update_user call env (dr_now d) me t body w = (Inr r, w1)"
      by (auto simp: update_user_route_def user_error_Inr split: option.splits)
    from up obtain z where z: "updated_from body t z"
      "users (work w1) = update_where (\<lambda>u. u_id u = u_id t) (\<lambda>_. z) (users (work w))" by (rule update_user_Inr)
    with update_where_key [OF assms(4,5) _ assms(8), of t "\<lambda>_. z"] t assms(7) \<open>q \<noteq> p\<close>
    have same: "p = t" "q = z" by (auto simp: updated_from_def)
    with z(1) assms(6,9) have "set_field (uu_active body) = Some False"
      by (auto simp: updated_from_def split: option.splits)
    with up assms(6) same obtain v where "end_sessions call env (dr_now d) (u_id p) v = (Inr (), w1)" "redis v = redis w"
      "guc v = guc w" "users (work v) = users (work w1)" by (blast elim: update_user_sessions)
    moreover have "u_tenant q = u_tenant t" using z(1) same by (simp add: updated_from_def)
    ultimately show thesis using assms(2,7) t seen [of q] by (intro that [of v]) auto
  next
    case (RemoveUser i)
    with assms(1) obtain t w0 where t: "get_user_for_admin i me w = (Inr t, w0)"
      and run: "deactivate_user_route call env (dr_now d) me t w0 = (Inr u, w1)"
      by (auto simp: user_endpoint_def thenE_def bindE_success split: if_splits)
    note t = target [OF t]
    from run t have de: "deactivate_user call env (dr_now d) me t w = (Inr u, w1)"
      by (auto simp: deactivate_user_route_def user_error_Inr split: if_splits)
    have "q \<in> set (update_where (\<lambda>u. u_id u = u_id t) (\<lambda>u. u\<lparr>u_active := False\<rparr>) (users (work w)))"
      using assms(7) unfolding deactivate_user_Inr [OF de] .
    from update_where_key [OF assms(4,5) this assms(8)] t \<open>q \<noteq> p\<close> have same: "p = t" "q = p\<lparr>u_active := False\<rparr>" by auto
    from de same obtain v where "end_sessions call env (dr_now d) (u_id p) v = (Inr (), w1)" "redis v = redis w"
      "guc v = guc w" "users (work v) = users (work w1)" by (blast elim: deactivate_user_sessions)
    with assms(2,7) t same seen [of q] show thesis by (intro that [of v]) auto
  qed
qed

text \<open>
  C14: A deactivated user has no session left.  Whatever request on the user endpoints took the active flag of a
  user away, every refresh token of that user is revoked in the committed tables, and every active access
  token it had is on the denylist for its whole life time.
\<close>

theorem deactivated_user_has_no_session:
  assumes "redis_contract call view" and "serve_user refuse call env d me req w = (res, w')"
    and "work w = committed w" and "violation (committed w) = None" and "guc w = context_of me"
    and "u_super me \<or> u_tenant me \<noteq> None"
    and "p \<in> set (users (committed w))" and "u_active p"
    and "q \<in> set (users (committed w'))" and "u_id q = u_id p" and "\<not> u_active q"
    and "store (view (redis w)) (active_jtis_key (ae_str env (u_id p))) = Some (VSet js, None)" and "finite js"
  shows "(\<forall>r \<in> set (rtokens (committed w')). rt_user r = u_id p \<longrightarrow> rt_revoked r \<noteq> None) \<and>
    (\<forall>j \<in> js. denied (view (redis w')) (clock (view (redis w)) + seconds (ae_minutes env * 60)) j)"
proof -
  have ids: "distinct (map u_id (users (work w)))" using valid_users(1) [OF assms(4)] assms(3) by simp
  from assms(2) obtain w1 u where run: "user_endpoint call env d me req w = (Inr u, w1)" and w': "w' = end_tx (work w1) w1"
    unfolding serve_user_def
  proof (rule with_session_saved [OF keeps_user_endpoint])
    assume "committed w' = committed w"
    with assms(7-11) ids have False using distinct_map_inj [OF ids, of p q] by (auto simp: assms(3))
    then show thesis ..
  qed
  from assms w' have p: "p \<in> set (users (work w))" and q: "q \<in> set (users (work w1))" by auto
  obtain v where e: "end_sessions call env (dr_now d) (u_id p) v = (Inr (), w1)" "redis v = redis w"
    and seen: "q \<in> set (users (work v))" "rls_user (guc v) q"
    by (rule served_deactivation [OF run assms(5,6) ids p assms(8) q assms(10,11)])
  note ended = end_sessions_Inr [OF e(1) seen(1) assms(10) seen(2)]
  then have "revoke_all_user_access_tokens call (ae_str env (u_id p)) (ae_minutes env * 60) (redis w) = (Inr (), redis w1)"
    by (simp add: e(2))
  from redis_contract.revoke_all_fail_closed [OF assms(1) this assms(12,13)] ended show ?thesis by (auto simp: w')
qed

definition sample_team :: "mem_redis world" where
  "sample_team = (let t = (sample_tables [])\<lparr>users := [sample_user 5 (Some 1) ''u@x.io'' ''admin'',
       sample_user 6 (Some 1) ''v@x.io'' ''analyst''], rtokens := [(sample_token 1 ''h'' 500)\<lparr>rt_user := 6\<rparr>]\<rparr>
     in \<lparr>committed = t, work = t, guc = \<lparr>g_tenant = Some 1, g_super = False\<rparr>, redis = (mem_empty [])\<lparr>mr_store :=
        \<lparr>clock = 5, entries = [(active_jtis_key (show_nat 6), VSet {''a''}, None)]\<rparr>\<rparr>\<rparr>)"

lemma deactivated_user_has_no_session_witness:
  "\<exists>w'. serve_user no_refusal mem_call sample_env sample_draws (sample_user 5 (Some 1) ''u@x.io'' ''admin'') (RemoveUser 6)
      sample_team = (Inr (), w') \<and> map rt_revoked (rtokens (committed w')) = [Some 100] \<and>
     denied (mr_store (redis w')) (5 + seconds 900) ''a''"
proof -
  let ?me = "sample_user 5 (Some 1) ''u@x.io'' ''admin''" and ?w = sample_team
  let ?m = "serve_user no_refusal mem_call sample_env sample_draws ?me (RemoveUser 6)"
  let ?p = "sample_user 6 (Some 1) ''v@x.io'' ''analyst''"
  have guc: "guc ?w = context_of ?me" by (simp add: sample_team_def context_of_def sample_user_def Let_def)
  have us: "users (committed ?w) = [?me, ?p]" "work ?w = committed ?w" by (simp_all add: sample_team_def Let_def)
  have run: "fst (?m ?w) = Inr () \<and> users (committed (snd (?m ?w))) = [?me, ?p\<lparr>u_active := False\<rparr>] \<and>
      map rt_revoked (rtokens (committed (snd (?m ?w)))) = [Some 100]"
    unfolding serve_user_def user_endpoint_def user_request.case
    unfolding serve_user_def user_endpoint_def user_request.case
    by (simp add: Let_def with_session_def get_user_for_admin_def finallyE_def deactivate_user_route_def deactivate_user_def
        end_sessions_def require_role_def has_minimum_role_def sample_team_def sample_token_def sample_defs ofE_def flush_def
        commit_def revoke_all_user_tokens_def revoke_all_user_access_tokens_def reply_set_def deny_def unrevoked_def revoke_row_def
        constraint_defs scalar_one_or_none_def user_error_def rls_rtoken_def sample_draws_def sample_env_def rls_user_def
        seen_users_def on_redis_def redis_exec_def eval_simps mem_eval_simps cong: eval_congs)
  define S where "S = ?m ?w"
  have S: "serve_user no_refusal mem_call sample_env sample_draws ?me (RemoveUser 6) ?w = (fst S, snd S)" by (simp add: S_def)
  have st: "store (mr_store (redis ?w)) (active_jtis_key (ae_str sample_env (u_id ?p))) = Some (VSet {''a''}, None)"
    by (simp add: sample_team_def store_def sample_env_def sample_user_def Let_def)
  have clk: "clock (mr_store (redis ?w)) = 5" "ae_minutes sample_env * 60 = 900"
    by (simp_all add: sample_team_def sample_env_def Let_def)
  have valid: "violation (committed ?w) = None"
    by (simp add: constraint_defs sample_team_def sample_token_def sample_defs Let_def)
  have "u_super ?me \<or> u_tenant ?me \<noteq> None" "?p \<in> set (users (committed ?w))" "u_active ?p"
    "u_id (?p\<lparr>u_active := False\<rparr>) = u_id ?p" "\<not> u_active (?p\<lparr>u_active := False\<rparr>)" "finite {''a''}"
    unfolding us by (simp_all add: sample_user_def)
  moreover have "?p\<lparr>u_active := False\<rparr> \<in> set (users (committed (snd S)))" using run unfolding S_def by simp
  ultimately have "denied (mr_store (redis (snd S))) (clock (mr_store (redis ?w)) + seconds (ae_minutes sample_env * 60)) ''a''"
    using deactivated_user_has_no_session [OF mem_contract S us(2) valid guc _ _ _ _ _ _ st] by blast
  then show ?thesis using run S unfolding clk S_def by (intro exI [of _ "snd (?m ?w)"]) simp
qed

end
