(* ===== verification/Ip.thy ===== *)
theory Ip
  imports Prelude
begin

text \<open>
  What the program uses of Python's \<open>ipaddress\<close>: an address is its integer, a network its first
  address and its prefix length.  The classifications and their tables are those of CPython 3.12.7 and
  later, which decide an IPv4-mapped address by the IPv4 address inside.  The conversions from and to
  text are a parameter, \<open>ip_lib\<close>.  The lemmas reduce a question on an address of a small network to
  the first address of the network.
\<close>

datatype ip = V4 nat | V6 nat

datatype net = Net4 nat nat | Net6 nat nat

record ip_lib =
  ip_address :: "string \<Rightarrow> ip option"
  ip_network :: "string \<Rightarrow> net option"
  ip_text :: "ip \<Rightarrow> string"
  net_text :: "net \<Rightarrow> string"

fun version :: "net \<Rightarrow> nat" where
  "version (Net4 _ _) = 4"
| "version (Net6 _ _) = 6"

fun num_addresses :: "net \<Rightarrow> nat" where
  "num_addresses (Net4 _ p) = 2 ^ (32 - p)"
| "num_addresses (Net6 _ p) = 2 ^ (128 - p)"

fun network_address :: "net \<Rightarrow> ip" where
  "network_address (Net4 b _) = V4 b"
| "network_address (Net6 b _) = V6 b"

fun broadcast_address :: "net \<Rightarrow> ip" where
  "broadcast_address (Net4 b p) = V4 (b + (2 ^ (32 - p) - 1))"
| "broadcast_address (Net6 b p) = V6 (b + (2 ^ (128 - p) - 1))"

text \<open>The host bits of the first address are zero (\<open>strict=False\<close> clears them).\<close>

fun wf_net :: "net \<Rightarrow> bool" where
  "wf_net (Net4 b p) \<longleftrightarrow> p \<le> 32 \<and> b < 2 ^ 32 \<and> b mod 2 ^ (32 - p) = 0"
| "wf_net (Net6 b p) \<longleftrightarrow> p \<le> 128 \<and> b < 2 ^ 128 \<and> b mod 2 ^ (128 - p) = 0"

fun in_net :: "ip \<Rightarrow> net \<Rightarrow> bool" where
  "in_net (V4 a) (Net4 b p) \<longleftrightarrow> a div 2 ^ (32 - p) = b div 2 ^ (32 - p)"
| "in_net (V6 a) (Net6 b p) \<longleftrightarrow> a div 2 ^ (128 - p) = b div 2 ^ (128 - p)"
| "in_net _ _ \<longleftrightarrow> False"

definition quad :: "nat \<Rightarrow> nat \<Rightarrow> nat \<Rightarrow> nat \<Rightarrow> nat" where
  "quad a b c d = ((a * 256 + b) * 256 + c) * 256 + d"

text \<open>An IPv6 address from its first three hextets; \<open>\<dots>::n\<close> adds the last ones.\<close>

definition hextets :: "nat \<Rightarrow> nat \<Rightarrow> nat \<Rightarrow> nat" where
  "hextets a b c = ((a * 65536 + b) * 65536 + c) * 2 ^ 80"

subsection \<open>The registries\<close>

definition private4 :: "net list" where
  "private4 = [Net4 0 8, Net4 (quad 10 0 0 0) 8, Net4 (quad 127 0 0 0) 8, Net4 (quad 169 254 0 0) 16,
     Net4 (quad 172 16 0 0) 12, Net4 (quad 192 0 0 0) 24, Net4 (quad 192 0 0 170) 31,
     Net4 (quad 192 0 2 0) 24, Net4 (quad 192 168 0 0) 16, Net4 (quad 198 18 0 0) 15,
     Net4 (quad 198 51 100 0) 24, Net4 (quad 203 0 113 0) 24, Net4 (quad 240 0 0 0) 4,
     Net4 (quad 255 255 255 255) 32]"

definition private4_exceptions :: "net list" where
  "private4_exceptions = [Net4 (quad 192 0 0 9) 32, Net4 (quad 192 0 0 10) 32]"

definition shared4 :: net where
  "shared4 = Net4 (quad 100 64 0 0) 10"

definition private6 :: "net list" where
  "private6 = [Net6 1 128, Net6 0 128, Net6 (65535 * 2 ^ 32) 96, Net6 (hextets 0x64 0xff9b 1) 48,
     Net6 (hextets 0x100 0 0) 64, Net6 (hextets 0x2001 0 0) 23, Net6 (hextets 0x2001 0xdb8 0) 32,
     Net6 (hextets 0x2002 0 0) 16, Net6 (hextets 0xfc00 0 0) 7, Net6 (hextets 0xfe80 0 0) 10]"

definition private6_exceptions :: "net list" where
  "private6_exceptions = [Net6 (hextets 0x2001 1 0 + 1) 128, Net6 (hextets 0x2001 1 0 + 2) 128,
     Net6 (hextets 0x2001 3 0) 32, Net6 (hextets 0x2001 4 0x112) 48, Net6 (hextets 0x2001 0x20 0) 28,
     Net6 (hextets 0x2001 0x30 0) 28]"

definition reserved6 :: "net list" where
  "reserved6 = [Net6 0 8, Net6 (hextets 0x100 0 0) 8, Net6 (hextets 0x200 0 0) 7,
     Net6 (hextets 0x400 0 0) 6, Net6 (hextets 0x800 0 0) 5, Net6 (hextets 0x1000 0 0) 4,
     Net6 (hextets 0x4000 0 0) 3, Net6 (hextets 0x6000 0 0) 3, Net6 (hextets 0x8000 0 0) 3,
     Net6 (hextets 0xa000 0 0) 3, Net6 (hextets 0xc000 0 0) 3, Net6 (hextets 0xe000 0 0) 4,
     Net6 (hextets 0xf000 0 0) 5, Net6 (hextets 0xf800 0 0) 6, Net6 (hextets 0xfe00 0 0) 9]"

definition ipv4_mapped :: "nat \<Rightarrow> nat option" where
  "ipv4_mapped a = (if a div 2 ^ 32 = 65535 then Some (a mod 2 ^ 32) else None)"

subsection \<open>Classification of an address\<close>

definition listed :: "net list \<Rightarrow> ip \<Rightarrow> bool" where
  "listed ns a \<longleftrightarrow> list_ex (in_net a) ns"

definition is_private4 :: "nat \<Rightarrow> bool" where
  "is_private4 a \<longleftrightarrow> listed private4 (V4 a) \<and> \<not> listed private4_exceptions (V4 a)"

definition is_global4 :: "nat \<Rightarrow> bool" where
  "is_global4 a \<longleftrightarrow> \<not> in_net (V4 a) shared4 \<and> \<not> is_private4 a"

definition is_private6 :: "nat \<Rightarrow> bool" where
  "is_private6 a \<longleftrightarrow> listed private6 (V6 a) \<and> \<not> listed private6_exceptions (V6 a)"

fun is_global :: "ip \<Rightarrow> bool" where
  "is_global (V4 a) \<longleftrightarrow> is_global4 a"
| "is_global (V6 a) \<longleftrightarrow> (case ipv4_mapped a of Some m \<Rightarrow> is_global4 m | None \<Rightarrow> \<not> is_private6 a)"

fun is_loopback :: "ip \<Rightarrow> bool" where
  "is_loopback (V4 a) \<longleftrightarrow> in_net (V4 a) (Net4 (quad 127 0 0 0) 8)"
| "is_loopback (V6 a) \<longleftrightarrow> a = 1"

definition link_local4 :: net where
  "link_local4 = Net4 (quad 169 254 0 0) 16"

definition multicast4 :: net where
  "multicast4 = Net4 (quad 224 0 0 0) 4"

definition reserved4 :: net where
  "reserved4 = Net4 (quad 240 0 0 0) 4"

fun is_link_local :: "ip \<Rightarrow> bool" where
  "is_link_local (V4 a) \<longleftrightarrow> in_net (V4 a) link_local4"
| "is_link_local (V6 a) \<longleftrightarrow> (case ipv4_mapped a of Some m \<Rightarrow> in_net (V4 m) link_local4
     | None \<Rightarrow> in_net (V6 a) (Net6 (hextets 0xfe80 0 0) 10))"

fun is_multicast :: "ip \<Rightarrow> bool" where
  "is_multicast (V4 a) \<longleftrightarrow> in_net (V4 a) multicast4"
| "is_multicast (V6 a) \<longleftrightarrow> (case ipv4_mapped a of Some m \<Rightarrow> in_net (V4 m) multicast4
     | None \<Rightarrow> in_net (V6 a) (Net6 (hextets 0xff00 0 0) 8))"

fun is_reserved :: "ip \<Rightarrow> bool" where
  "is_reserved (V4 a) \<longleftrightarrow> in_net (V4 a) reserved4"
| "is_reserved (V6 a) \<longleftrightarrow> (case ipv4_mapped a of Some m \<Rightarrow> in_net (V4 m) reserved4
     | None \<Rightarrow> listed reserved6 (V6 a))"

fun is_unspecified :: "ip \<Rightarrow> bool" where
  "is_unspecified (V4 a) \<longleftrightarrow> a = 0"
| "is_unspecified (V6 a) \<longleftrightarrow> (case ipv4_mapped a of Some m \<Rightarrow> m = 0 | None \<Rightarrow> a = 0)"

subsection \<open>Classification of a network\<close>

definition net_private :: "net list \<Rightarrow> net list \<Rightarrow> net \<Rightarrow> bool" where
  "net_private ns es n \<longleftrightarrow>
     list_ex (\<lambda>p. in_net (network_address n) p \<and> in_net (broadcast_address n) p) ns \<and>
     list_all (\<lambda>e. \<not> in_net (network_address n) e \<and> \<not> in_net (broadcast_address n) e) es"

fun net_is_global :: "net \<Rightarrow> bool" where
  "net_is_global (Net4 b p) \<longleftrightarrow>
     \<not> (in_net (network_address (Net4 b p)) shared4 \<and> in_net (broadcast_address (Net4 b p)) shared4) \<and>
     \<not> net_private private4 private4_exceptions (Net4 b p)"
| "net_is_global (Net6 b p) \<longleftrightarrow> \<not> net_private private6 private6_exceptions (Net6 b p)"

subsection \<open>Addresses of a small network\<close>

lemma div_pow_le:
  fixes a b :: nat
  assumes "a div 2 ^ k = b div 2 ^ k" and "k \<le> m"
  shows "a div 2 ^ m = b div 2 ^ m"
proof -
  have "(2::nat) ^ m = 2 ^ k * 2 ^ (m - k)" using assms(2) by (simp flip: power_add)
  with assms(1) show ?thesis by (simp add: div_mult2_eq)
qed

lemma last_of_block:
  assumes "2 ^ k dvd b"
  shows "(b + 2 ^ k - Suc 0) div 2 ^ k = b div 2 ^ k"
proof -
  from assms obtain q :: nat where q: "b = 2 ^ k * q" by (elim dvdE)
  have "2 ^ k * q + 2 ^ k - Suc 0 = 2 ^ k * q + (2 ^ k - 1)" by (simp add: Suc_leI)
  also have "\<dots> div 2 ^ k = q + (2 ^ k - 1) div 2 ^ k" by (rule div_mult_self4) simp
  finally show ?thesis by (simp add: q)
qed

lemma in_net_boundaries: "wf_net n \<Longrightarrow> in_net (network_address n) n \<and> in_net (broadcast_address n) n"
  by (cases n) (auto simp: last_of_block mod_eq_0_iff_dvd)

text \<open>A block that is no smaller than the network holds all of it or nothing of it.\<close>

fun no_smaller :: "net \<Rightarrow> net \<Rightarrow> bool" where
  "no_smaller (Net4 _ q) (Net4 _ p) \<longleftrightarrow> q \<le> p"
| "no_smaller (Net6 _ q) (Net6 _ p) \<longleftrightarrow> q \<le> p"
| "no_smaller _ _ \<longleftrightarrow> True"

lemma block_iff:
  fixes x y z v :: nat
  assumes "x div 2 ^ k = v div 2 ^ k" and "y div 2 ^ k = v div 2 ^ k" and "k \<le> m"
  shows "x div 2 ^ m = z div 2 ^ m \<longleftrightarrow> y div 2 ^ m = z div 2 ^ m"
  using div_pow_le [OF assms(1,3)] div_pow_le [OF assms(2,3)] by simp

lemma same_block:
  assumes "in_net a n" and "in_net b n" and "no_smaller c n"
  shows "in_net a c \<longleftrightarrow> in_net b c"
proof (cases n)
  case (Net4 v p)
  with assms(1,2) obtain x y where xy: "a = V4 x" "b = V4 y" by (cases a; cases b) auto
  show ?thesis
  proof (cases c)
    fix z q assume c: "c = Net4 z q"
    with assms(3) Net4 have "32 - p \<le> 32 - q" by auto
    with assms(1,2) show ?thesis unfolding xy c Net4 in_net.simps by (rule block_iff)
  qed (simp add: xy)
next
  case (Net6 v p)
  with assms(1,2) obtain x y where xy: "a = V6 x" "b = V6 y" by (cases a; cases b) auto
  show ?thesis
  proof (cases c)
    fix z q assume c: "c = Net6 z q"
    with assms(3) Net6 have "128 - p \<le> 128 - q" by auto
    with assms(1,2) show ?thesis unfolding xy c Net6 in_net.simps by (rule block_iff)
  qed (simp add: xy)
qed

lemma listed_same:
  assumes "in_net a n" and "in_net b n" and "list_all (\<lambda>c. no_smaller c n) ns"
  shows "listed ns a \<longleftrightarrow> listed ns b"
  using assms same_block [OF assms(1,2)] by (auto simp: listed_def list_ex_iff list_all_iff)

lemma in_net_range:
  "wf_net (Net4 b p) \<Longrightarrow> in_net (V4 a) (Net4 b p) \<longleftrightarrow> b \<le> a \<and> a \<le> b + (2 ^ (32 - p) - 1)"
  "wf_net (Net6 b p) \<Longrightarrow> in_net (V6 a) (Net6 b p) \<longleftrightarrow> b \<le> a \<and> a \<le> b + (2 ^ (128 - p) - 1)"
proof -
  have range: "a div 2 ^ k = b div 2 ^ k \<longleftrightarrow> b \<le> a \<and> a \<le> b + (2 ^ k - 1)" if "b mod 2 ^ k = 0"
    for a b k :: nat
  proof -
    from that obtain q where b: "b = q * 2 ^ k" by (metis add.right_neutral div_mult_mod_eq)
    have "a div 2 ^ k = q" if "q * 2 ^ k \<le> a" "a < q * 2 ^ k + 2 ^ k"
      by (rule div_nat_eqI) (use that in \<open>simp_all add: mult.commute\<close>)
    moreover have "a div 2 ^ k * 2 ^ k \<le> a" "a < a div 2 ^ k * 2 ^ k + 2 ^ k"
      using dividend_less_div_times [of "2 ^ k" a] by (simp_all add: add.commute)
    moreover have "a < q * 2 ^ k + 2 ^ k \<longleftrightarrow> a \<le> q * 2 ^ k + (2 ^ k - 1)"
      using one_le_power [of "2::nat" k] by linarith
    ultimately show ?thesis by (auto simp: b)
  qed
  show "wf_net (Net4 b p) \<Longrightarrow> in_net (V4 a) (Net4 b p) \<longleftrightarrow> b \<le> a \<and> a \<le> b + (2 ^ (32 - p) - 1)"
    "wf_net (Net6 b p) \<Longrightarrow> in_net (V6 a) (Net6 b p) \<longleftrightarrow> b \<le> a \<and> a \<le> b + (2 ^ (128 - p) - 1)"
    using range [of b "32 - p" a] range [of b "128 - p" a] by simp_all
qed

end
