(* ===== verification/Assets.thy ===== *)
theory Assets
  imports Ip Service_Base "HOL-Library.Product_Lexorder"
begin

text \<open>
  The asset service, \<open>app/modules/assets/service.py\<close>: the validation and canonical form of an asset
  value per type, and the five operations on the table.  \<open>ipaddress\<close> text conversions and pydantic's
  \<open>HttpUrl\<close> are parameters.  The lemmas show that canonical values are fixed points of the validation,
  that every operation commits canonical values only, and that it publishes after the commit.
\<close>

text \<open>\<open>url_parse\<close> gives the scheme and the text of \<open>HttpUrl(value)\<close>, \<open>None\<close> when it raises.\<close>

record asset_lib =
  al_ip :: ip_lib
  url_parse :: "string \<Rightarrow> (string \<times> string) option"

subsection \<open>Validation\<close>

fun split_on :: "char \<Rightarrow> string \<Rightarrow> string list" where
  "split_on c [] = [[]]"
| "split_on c (x # xs) = (if x = c then [] # split_on c xs
     else case split_on c xs of [] \<Rightarrow> [[x]] | y # ys \<Rightarrow> (x # y) # ys)"

definition rstrip_char :: "char \<Rightarrow> string \<Rightarrow> string" where
  "rstrip_char c s = rev (dropWhile (\<lambda>x. x = c) (rev s))"

definition is_alpha :: "char \<Rightarrow> bool" where
  "is_alpha c \<longleftrightarrow> (let n = (of_char c :: nat) in 65 \<le> n \<and> n \<le> 90 \<or> 97 \<le> n \<and> n \<le> 122)"

definition is_alnum :: "char \<Rightarrow> bool" where
  "is_alnum c \<longleftrightarrow> is_alpha c \<or> is_digit c"

text \<open>The label, the full FQDN and the host name pattern.\<close>

definition fqdn_label :: "string \<Rightarrow> bool" where
  "fqdn_label s \<longleftrightarrow> s \<noteq> [] \<and> length s \<le> 63 \<and> is_alnum (hd s) \<and> is_alnum (last s) \<and>
     list_all (\<lambda>c. is_alnum c \<or> c = CHR ''-'') s"

definition fqdn_full :: "string \<Rightarrow> bool" where
  "fqdn_full s \<longleftrightarrow> 1 \<le> length s \<and> length s \<le> 253 \<and>
     (let ls = split_on CHR ''.'' s in 2 \<le> length ls \<and> list_all fqdn_label (butlast ls) \<and>
        2 \<le> length (last ls) \<and> length (last ls) \<le> 63 \<and> list_all is_alpha (last ls))"

definition hostname_full :: "string \<Rightarrow> bool" where
  "hostname_full s \<longleftrightarrow> 1 \<le> length s \<and> length s \<le> 253 \<and> list_all fqdn_label (split_on CHR ''.'' s)"

definition arn_full :: "string \<Rightarrow> bool" where
  "arn_full s \<longleftrightarrow> (let ps = split_on CHR '':'' s; rest = drop 5 ps in
     6 \<le> length ps \<and> ps ! 0 = ''arn'' \<and> ps ! 1 \<noteq> [] \<and> ps ! 2 \<noteq> [] \<and> rest \<noteq> [[]] \<and>
     list_all (list_all (\<lambda>c. c \<noteq> CHR 0x0A)) rest)"

definition validate_asset_value :: "asset_lib \<Rightarrow> string \<Rightarrow> string \<Rightarrow> exn + string" where
  "validate_asset_value lib asset_type val =
     (if asset_type = ''ip'' then
        (case ip_address (al_ip lib) val of
           None \<Rightarrow> Inl (ValueError ''value must be a valid IPv4 or IPv6 address'')
         | Some a \<Rightarrow> Inr (ip_text (al_ip lib) a))
      else if asset_type = ''domain'' then
        (let v = lower (rstrip_char CHR ''.'' (strip val)) in
         if v = [] \<or> \<not> fqdn_full v then Inl (ValueError ''value must be a valid FQDN'')
         else if \<not> list_all fqdn_label (split_on CHR ''.'' v) then Inl (ValueError ''value must be a valid FQDN'')
         else Inr v)
      else if asset_type = ''hostname'' then
        (let v = lower (strip val) in
         if v = [] \<or> \<not> hostname_full v then Inl (ValueError ''value must be a valid hostname'') else Inr v)
      else if asset_type = ''web_app'' then
        (case url_parse lib val of
           None \<Rightarrow> Inl (ValueError ''value must be a valid http(s) URL'')
         | Some (scheme, text) \<Rightarrow>
             if lower scheme \<notin> {''http'', ''https''} then Inl (ValueError ''value must be a valid http(s) URL'')
             else Inr text)
      else if asset_type = ''subnet'' then
        (case ip_network (al_ip lib) val of
           None \<Rightarrow> Inl (ValueError ''value must be a valid CIDR'')
         | Some n \<Rightarrow> Inr (net_text (al_ip lib) n))
      else if asset_type = ''cloud_resource'' then
        (let v = strip val in
         if \<not> arn_full v then Inl (ValueError ''value must be a valid ARN'') else Inr v)
      else Inl (ValueError (''unknown asset type: '' @ py_repr asset_type)))"

text \<open>
  An explicit null in a patch: \<open>value.strip()\<close> raises \<open>AttributeError\<close> for the textual types, the
  parsers of the others raise inside their \<open>try\<close>; a null type is unknown.
\<close>

definition validate_patched :: "asset_lib \<Rightarrow> string option \<Rightarrow> string option \<Rightarrow> exn + string" where
  "validate_patched lib ty val = (case (ty, val) of
       (None, _) \<Rightarrow> Inl (ValueError ''unknown asset type: None'')
     | (Some ty, Some v) \<Rightarrow> validate_asset_value lib ty v
     | (Some ty, None) \<Rightarrow>
         if ty \<in> {''domain'', ''hostname'', ''cloud_resource''}
         then Inl (AttributeError '''' )
         else if ty = ''ip'' then Inl (ValueError ''value must be a valid IPv4 or IPv6 address'')
         else if ty = ''web_app'' then Inl (ValueError ''value must be a valid http(s) URL'')
         else if ty = ''subnet'' then Inl (ValueError ''value must be a valid CIDR'')
         else Inl (ValueError (''unknown asset type: '' @ py_repr ty)))"

subsection \<open>The operations\<close>

definition ASSET_EVENTS_STREAM :: string where
  "ASSET_EVENTS_STREAM = ''asset.events''"

definition is_duplicate_constraint_error :: "exn \<Rightarrow> bool" where
  "is_duplicate_constraint_error exc = violates_constraint exc ''uq_assets_tenant_type_value''"

definition on_duplicate :: "exn \<Rightarrow> exn" where
  "on_duplicate exc = (if is_duplicate_constraint_error exc then AssetDuplicateError else exc)"

definition asset_event :: "string \<Rightarrow> uuid \<Rightarrow> time \<Rightarrow> uuid \<Rightarrow> uuid \<Rightarrow> (string \<times> pyval) list \<Rightarrow> event" where
  "asset_event ty event_id now tenant asset_id rest = \<lparr>ev_type = ty, ev_fields =
     [(''event_id'', PUuid event_id), (''event_type'', PStr ty), (''tenant_id'', PUuid tenant),
      (''timestamp'', PTime now), (''asset_id'', PUuid asset_id)] @ rest\<rparr>"

definition insert_asset :: "asset_row \<Rightarrow> tables \<Rightarrow> tables" where
  "insert_asset r t = t\<lparr>assets := assets t @ [r]\<rparr>"

definition create_asset ::
  "(tables \<Rightarrow> exn option) \<Rightarrow> 'r event_bus \<Rightarrow> asset_lib \<Rightarrow> time \<Rightarrow> uuid \<Rightarrow> uuid \<Rightarrow> string \<Rightarrow> string \<Rightarrow> uuid
   \<Rightarrow> ('r, asset_row) db_prog" where
  "create_asset refuse bus lib now new_id event_id ty val tenant_id =
     (case validate_asset_value lib ty val of
        Inl e \<Rightarrow> raiseE e
      | Inr canonical \<Rightarrow>
          let asset = \<lparr>a_id = new_id, a_tenant = tenant_id, a_value = canonical, a_type = ty,
                a_status = ''active'', a_metadata = None, a_created = now\<rparr>
          in thenE (except_integrity (insert_checked (\<lambda>g. rls_row g tenant_id) (insert_asset asset))
                   (\<lambda>exc. raiseE (on_duplicate exc)))
               (thenE (commit refuse)
                 (thenE (on_redis (publish bus (asset_event ''asset.created'' event_id now tenant_id new_id
                           [(''type'', PStr ty), (''value'', PStr canonical), (''created_at'', PTime now)])
                         (Some ASSET_EVENTS_STREAM)))
                   (retE asset))))"

definition get_asset :: "uuid \<Rightarrow> uuid option \<Rightarrow> ('r, asset_row option) db_prog" where
  "get_asset asset_id tenant_id =
     bindE (getE (\<lambda>w. filter (\<lambda>r. a_id r = asset_id \<and> tenant_predicate tenant_id (a_tenant r)) (seen_assets w)))
       scalar_one_or_none"

definition list_assets :: "uuid option \<Rightarrow> nat \<Rightarrow> nat \<Rightarrow> ('r, asset_row list \<times> nat) db_prog" where
  "list_assets tenant_id limit offset =
     (let p = (\<lambda>r. tenant_predicate tenant_id (a_tenant r))
      in bindE (getE (\<lambda>w. count_where p (seen_assets w))) (\<lambda>total.
         bindE (getE (\<lambda>w. take limit (drop offset
             (rev (sort_key (\<lambda>r. (a_created r, a_id r)) (filter p (seen_assets w)))))))
           (\<lambda>items. retE (items, total))))"

text \<open>\<open>exclude_unset=True\<close>: the outer option is the presence of the key, the inner one its null.\<close>

record asset_update =
  au_type :: "string option option"
  au_value :: "string option option"

text \<open>The loop over the public fields and the validation of the effective pair.\<close>

definition apply_asset_update :: "asset_lib \<Rightarrow> asset_update \<Rightarrow> asset_row \<Rightarrow> exn + asset_row \<times> string list" where
  "apply_asset_update lib data asset =
     (let ty = (case au_type data of None \<Rightarrow> Some (a_type asset) | Some t \<Rightarrow> t);
          c1 = (if ty \<noteq> Some (a_type asset) then [''type''] else [])
      in case (case au_value data of None \<Rightarrow> Inr (a_value asset) | Some v \<Rightarrow> validate_patched lib ty v) of
           Inl e \<Rightarrow> Inl e
         | Inr candidate \<Rightarrow>
             let c2 = (if candidate \<noteq> a_value asset then c1 @ [''value''] else c1)
             in case validate_patched lib ty (Some candidate) of
                  Inl e \<Rightarrow> Inl e
                | Inr canonical \<Rightarrow>
                    let c3 = (if canonical \<noteq> candidate \<and> ''value'' \<notin> set c2 then c2 @ [''value''] else c2)
                    in Inr (asset\<lparr>a_type := the ty, a_value := canonical\<rparr>, c3))"

definition update_asset ::
  "(tables \<Rightarrow> exn option) \<Rightarrow> 'r event_bus \<Rightarrow> asset_lib \<Rightarrow> time \<Rightarrow> uuid \<Rightarrow> uuid \<Rightarrow> uuid option
   \<Rightarrow> asset_update \<Rightarrow> ('r, asset_row option) db_prog" where
  "update_asset refuse bus lib now event_id asset_id tenant_id data =
     bindE (get_asset asset_id tenant_id) (\<lambda>found. case found of
       None \<Rightarrow> retE None
     | Some asset \<Rightarrow> (case apply_asset_update lib data asset of
         Inl e \<Rightarrow> raiseE e
       | Inr (asset', changed) \<Rightarrow>
           thenE (exec (\<lambda>t. t\<lparr>assets := update_where (\<lambda>r. a_id r = a_id asset) (\<lambda>_. asset') (assets t)\<rparr>))
            (thenE (except_integrity flush (\<lambda>exc. raiseE (on_duplicate exc)))
              (thenE (commit refuse)
                (thenE (on_redis (publish bus (asset_event ''asset.updated'' event_id now (a_tenant asset')
                          (a_id asset') [(''changed_fields'', PList changed)]) (Some ASSET_EVENTS_STREAM)))
                  (retE (Some asset')))))))"

definition delete_asset ::
  "(tables \<Rightarrow> exn option) \<Rightarrow> 'r event_bus \<Rightarrow> time \<Rightarrow> uuid \<Rightarrow> uuid \<Rightarrow> uuid option \<Rightarrow> ('r, bool) db_prog" where
  "delete_asset refuse bus now event_id asset_id tenant_id =
     bindE (get_asset asset_id tenant_id) (\<lambda>found. case found of
       None \<Rightarrow> retE False
     | Some asset \<Rightarrow>
         thenE (exec (delete_assets_where (\<lambda>a. a_id a = a_id asset)))
           (thenE (commit refuse)
             (thenE (on_redis (publish bus (asset_event ''asset.deleted'' event_id now (a_tenant asset)
                       (a_id asset) []) (Some ASSET_EVENTS_STREAM)))
               (retE True))))"

subsection \<open>Canonical values\<close>

text \<open>
  The documented behaviour of the parsers the validation relies on: the text they give is read back as
  the same value.
\<close>

definition canonical_texts :: "asset_lib \<Rightarrow> bool" where
  "canonical_texts lib \<longleftrightarrow>
     (\<forall>s a. ip_address (al_ip lib) s = Some a \<longrightarrow> ip_address (al_ip lib) (ip_text (al_ip lib) a) = Some a) \<and>
     (\<forall>s n. ip_network (al_ip lib) s = Some n \<longrightarrow> ip_network (al_ip lib) (net_text (al_ip lib) n) = Some n) \<and>
     (\<forall>s c t. url_parse lib s = Some (c, t) \<longrightarrow> url_parse lib t = Some (c, t))"

lemma split_on_ne [simp]: "split_on c s \<noteq> []"
  by (cases s) (auto split: list.splits)

lemma split_on_chars: "x \<in> set s \<Longrightarrow> x = c \<or> (\<exists>l \<in> set (split_on c s). x \<in> set l)"
proof (induction s)
  case (Cons y ys)
  then show ?case by (cases "split_on c ys") auto
qed simp

lemma alnum_no_space: "is_alnum c \<Longrightarrow> \<not> is_space c"
  by (auto simp: is_alnum_def is_alpha_def is_digit_def is_space_def Let_def)

lemma label_no_space: "fqdn_label l \<Longrightarrow> c \<in> set l \<Longrightarrow> \<not> is_space c"
proof -
  assume "fqdn_label l" and "c \<in> set l"
  then have "is_alnum c \<or> c = CHR ''-''" by (simp add: fqdn_label_def list_all_iff)
  then show ?thesis by (auto simp: alnum_no_space) (simp add: is_space_def)
qed

lemma labels_no_space:
  assumes "list_all fqdn_label (split_on CHR ''.'' s)" and "c \<in> set s"
  shows "\<not> is_space c"
  using split_on_chars [OF assms(2), of "CHR ''.''"]
proof
  assume "c = CHR ''.''"
  then show ?thesis by (simp add: is_space_def)
next
  assume "\<exists>l \<in> set (split_on CHR ''.'' s). c \<in> set l"
  with assms(1) show ?thesis by (auto simp: list_all_iff dest: label_no_space)
qed

lemma strip_clean: "(\<And>c. c \<in> set s \<Longrightarrow> \<not> is_space c) \<Longrightarrow> strip s = s"
  by (cases "s = []") (simp add: strip_def lstrip_def rstrip_def, rule strip_no_space, auto)

lemma strip_strip [simp]: "strip (strip s) = strip s"
proof (cases "strip s = []")
  case False
  let ?t = "dropWhile is_space s"
  have r: "rev (strip s) = dropWhile is_space (rev ?t)" by (simp add: strip_def lstrip_def rstrip_def)
  with False have l: "\<not> is_space (last (strip s))"
    by (metis hd_dropWhile hd_rev rev_is_Nil_conv)
  have t: "?t = strip s @ rev (takeWhile is_space (rev ?t))"
    by (metis r rev_append rev_rev_ident takeWhile_dropWhile_id)
  from False t have "hd ?t = hd (strip s)" "?t \<noteq> []" by (metis hd_append2, metis append_is_Nil_conv)
  then have "\<not> is_space (hd (strip s))" by (metis hd_dropWhile)
  with l False show ?thesis by (intro strip_no_space) auto
next
  case True
  then show ?thesis unfolding True by (simp add: strip_def lstrip_def rstrip_def)
qed

lemma rstrip_char_idem [simp]: "rstrip_char c (rstrip_char c s) = rstrip_char c s"
  by (simp add: rstrip_char_def dropWhile_idem)

lemma lower_char_dot: "lower_char c = CHR ''.'' \<longleftrightarrow> c = CHR ''.''"
proof
  assume a: "lower_char c = CHR ''.''"
  show "c = CHR ''.''"
  proof (cases "65 \<le> (of_char c :: nat) \<and> (of_char c :: nat) \<le> 90")
    case True
    then have "(of_char (lower_char c) :: nat) = of_char c + 32" by (simp add: lower_char_def of_char_of)
    with a True show ?thesis by simp
  next
    case False
    then have "lower_char c = c" by (simp only: lower_char_def if_False)
    with a show ?thesis by simp
  qed
qed (simp add: lower_char_def)

lemma rstrip_lower: "rstrip_char CHR ''.'' (lower s) = lower (rstrip_char CHR ''.'' s)"
proof -
  have "dropWhile (\<lambda>x. x = CHR ''.'') (map lower_char t) = map lower_char (dropWhile (\<lambda>x. x = CHR ''.'') t)"
    for t
    by (induction t) (auto simp: lower_char_dot)
  then show ?thesis by (simp add: rstrip_char_def lower_def rev_map)
qed

lemma validate_canonical:
  assumes "canonical_texts lib" and "validate_asset_value lib ty v = Inr c"
  shows "validate_asset_value lib ty c = Inr c"
proof -
  have domain: ?thesis if "ty = ''domain''"
  proof -
    from that assms(2) have c: "c = lower (rstrip_char CHR ''.'' (strip v))" "c \<noteq> []" "fqdn_full c"
      "list_all fqdn_label (split_on CHR ''.'' c)"
      by (auto simp: validate_asset_value_def Let_def split: if_splits)
    then have "strip c = c" by (intro strip_clean labels_no_space)
    moreover have "lower (rstrip_char CHR ''.'' c) = c" by (simp add: c(1) rstrip_lower)
    ultimately show ?thesis using that c(2-4) by (simp add: validate_asset_value_def)
  qed
  have hostname: ?thesis if "ty = ''hostname''"
  proof -
    from that assms(2) have c: "c = lower (strip v)" "c \<noteq> []" "hostname_full c"
      by (auto simp: validate_asset_value_def Let_def split: if_splits)
    have "list_all fqdn_label (split_on CHR ''.'' c)" using c(3) by (simp add: hostname_full_def)
    then have "strip c = c" by (intro strip_clean labels_no_space)
    moreover have "lower c = c" by (simp add: c(1))
    ultimately show ?thesis using that c(2,3) by (simp add: validate_asset_value_def)
  qed
  have arn: ?thesis if "ty = ''cloud_resource''"
    using that assms(2) by (auto simp: validate_asset_value_def Let_def split: if_splits)
  show ?thesis
    using assms domain hostname arn
    by (auto simp: validate_asset_value_def canonical_texts_def Let_def split: if_splits option.splits)
qed

subsection \<open>Outcomes of the operations\<close>

lemma get_asset_state: "get_asset i t w = (x, w') \<Longrightarrow> w' = w"
  by (auto simp: get_asset_def dest: scalar_state)

lemma get_asset_Some:
  "get_asset i t w = (Inr (Some r), w') \<Longrightarrow> r \<in> set (seen_assets w) \<and> a_id r = i \<and> tenant_predicate t (a_tenant r)"
proof -
  assume "get_asset i t w = (Inr (Some r), w')"
  then have "filter (\<lambda>r. a_id r = i \<and> tenant_predicate t (a_tenant r)) (seen_assets w) = [r]"
    by (auto simp: get_asset_def scalar_one_or_none_run)
  then have "r \<in> set (filter (\<lambda>r. a_id r = i \<and> tenant_predicate t (a_tenant r)) (seen_assets w))" by simp
  then show ?thesis by simp
qed

text \<open>
  A mutation of the assets: it committed the new tables without violating a constraint, and what it did
  to Redis is one publication.
\<close>

definition committed_by :: "(tables \<Rightarrow> tables) \<Rightarrow> 'r event_bus \<Rightarrow> event \<Rightarrow> 'r world \<Rightarrow> (exn + 'a) \<Rightarrow> 'r world \<Rightarrow> bool" where
  "committed_by f bus ev w res w' \<longleftrightarrow> violation (f (work w)) = None \<and> committed w' = f (work w) \<and>
     (\<exists>y. publish bus ev (Some ASSET_EVENTS_STREAM) (redis w) = (y, redis w') \<and> isl res = isl y)"

lemma create_asset_outcome:
  assumes "create_asset refuse bus lib now new_id event_id ty val tenant w = (res, w')"
  obtains (refused) e where "res = Inl e" and "untouched w w'"
    | (created) c r ev where "validate_asset_value lib ty val = Inr c" and "rls_row (guc w) tenant"
        and "a_id r = new_id" and "a_tenant r = tenant" and "a_type r = ty" and "a_value r = c"
        and "committed_by (insert_asset r) bus ev w res w'" and "\<And>x. res = Inr x \<Longrightarrow> x = r"
proof (cases "validate_asset_value lib ty val")
  case (Inl e)
  with assms refused show thesis by (auto simp: create_asset_def)
next
  case (Inr c)
  define r where "r = \<lparr>a_id = new_id, a_tenant = tenant, a_value = c, a_type = ty, a_status = ''active'',
    a_metadata = None, a_created = now\<rparr>"
  define ev where "ev = asset_event ''asset.created'' event_id now tenant new_id
    [(''type'', PStr ty), (''value'', PStr c), (''created_at'', PTime now)]"
  from assms Inr have "thenE (except_integrity (insert_checked (\<lambda>g. rls_row g tenant) (insert_asset r))
      (\<lambda>exc. raiseE (on_duplicate exc)))
      (thenE (commit refuse) (thenE (on_redis (publish bus ev (Some ASSET_EVENTS_STREAM))) (retE r))) w = (res, w')"
    by (simp add: create_asset_def Let_def r_def ev_def)
  then show thesis
  proof (cases rule: insert_commit_publish)
    case (published y)
    have "committed_by (insert_asset r) bus ev w res w'"
      using published(2,3,5,6) by (cases y) (auto simp: committed_by_def)
    moreover have "x = r" if "res = Inr x" for x using published(6) that by (auto split: sum.splits)
    ultimately show thesis
      by (intro created [of c r ev]) (use Inr published(1) in \<open>auto simp: r_def\<close>)
  qed (use refused in auto)
qed

lemma update_asset_outcome:
  assumes "update_asset refuse bus lib now event_id i t data w = (res, w')"
  obtains (refused) e where "res = Inl e" and "untouched w w'"
    | (missing) "res = Inr None" and "w' = w"
    | (updated) r r' ch where "r \<in> set (seen_assets w)" and "a_id r = i" and "tenant_predicate t (a_tenant r)"
        and "apply_asset_update lib data r = Inr (r', ch)"
        and "committed_by (\<lambda>t. t\<lparr>assets := update_where (\<lambda>x. a_id x = i) (\<lambda>_. r') (assets t)\<rparr>) bus
               (asset_event ''asset.updated'' event_id now (a_tenant r') (a_id r')
                 [(''changed_fields'', PList ch)]) w res w'"
        and "\<And>x. res = Inr x \<Longrightarrow> x = Some r'"
  using assms unfolding update_asset_def
proof (cases rule: found_cases [consumes 1, case_names state refused missing found])
  case (state x u)
  then show ?case by (rule get_asset_state)
next
  case (found r)
  note r = get_asset_Some [OF found(1)]
  show thesis
  proof (cases "apply_asset_update lib data r")
    case (Inl e)
    with found(2) refused show thesis by auto
  next
    case (Inr p)
    obtain r' ch where p: "p = (r', ch)" by fastforce
    define ev where "ev = asset_event ''asset.updated'' event_id now (a_tenant r') (a_id r')
      [(''changed_fields'', PList ch)]"
    let ?f = "\<lambda>t. t\<lparr>assets := update_where (\<lambda>x. a_id x = i) (\<lambda>_. r') (assets t)\<rparr>"
    from found(2) Inr p r have "thenE (exec ?f) (thenE (except_integrity flush (\<lambda>exc. raiseE (on_duplicate exc)))
        (thenE (commit refuse) (thenE (on_redis (publish bus ev (Some ASSET_EVENTS_STREAM)))
          (retE (Some r'))))) w = (res, w')" by (simp add: ev_def)
    then show thesis
    proof (cases rule: update_commit)
      case flushed
      from flushed(2) show thesis
      proof (cases rule: commit_publish)
        case (2 y)
        show thesis
          by (rule updated [of r r' ch])
            (use 2 r Inr p flushed(1) in \<open>auto simp: committed_by_def ev_def split: sum.splits\<close>)
      qed (use refused in \<open>auto simp: untouched_def\<close>)
    qed (use refused in auto)
  qed
qed (use refused missing in auto)

lemma delete_asset_outcome:
  assumes "delete_asset refuse bus now event_id i t w = (res, w')"
  obtains (refused) e where "res = Inl e" and "untouched w w'"
    | (missing) "res = Inr False" and "w' = w"
    | (deleted) r ev where "r \<in> set (seen_assets w)" and "a_id r = i" and "tenant_predicate t (a_tenant r)"
        and "committed_by (delete_assets_where (\<lambda>a. a_id a = i)) bus ev w res w'"
  using assms unfolding delete_asset_def
proof (cases rule: found_cases [consumes 1, case_names state refused missing found])
  case (state x u)
  then show ?case by (rule get_asset_state)
next
  case (found r)
  note r = get_asset_Some [OF found(1)]
  define ev where "ev = asset_event ''asset.deleted'' event_id now (a_tenant r) (a_id r) []"
  define w1 where "w1 = w\<lparr>work := delete_assets_where (\<lambda>a. a_id a = i) (work w)\<rparr>"
  from found(2) r have "thenE (commit refuse) (thenE (on_redis (publish bus ev (Some ASSET_EVENTS_STREAM)))
      (retE True)) w1 = (res, w')"
    by (simp add: ev_def w1_def thenE_def bindE_def)
  then show thesis
  proof (cases rule: commit_publish)
    case (2 y)
    show thesis
      by (rule deleted [of r ev]) (use 2 r in \<open>auto simp: committed_by_def w1_def split: sum.splits\<close>)
  qed (use refused in \<open>auto simp: untouched_def w1_def\<close>)
qed (use refused missing in auto)

subsection \<open>Properties\<close>

text \<open>A stored asset whose value is the canonical text of its type.\<close>

definition asset_canonical :: "asset_lib \<Rightarrow> asset_row \<Rightarrow> bool" where
  "asset_canonical lib r \<longleftrightarrow> validate_asset_value lib (a_type r) (a_value r) = Inr (a_value r)"

lemma update_canonical:
  assumes "canonical_texts lib" and "apply_asset_update lib data r = Inr (r', ch)"
  shows "asset_canonical lib r'"
proof -
  obtain ty cand c where "validate_patched lib ty (Some cand) = Inr c" "r' = r\<lparr>a_type := the ty, a_value := c\<rparr>"
    using assms(2) by (auto simp: apply_asset_update_def Let_def split: option.splits sum.splits)
  moreover from this(1) obtain y where "ty = Some y" by (cases ty) (auto simp: validate_patched_def)
  ultimately show ?thesis
    using validate_canonical [OF assms(1)] by (simp add: asset_canonical_def validate_patched_def)
qed

lemma update_identity:
  "apply_asset_update lib data r = Inr (r', ch) \<Longrightarrow> a_id r' = a_id r \<and> a_tenant r' = a_tenant r"
  by (auto simp: apply_asset_update_def Let_def split: option.splits sum.splits)

lemma assets_delete [simp]: "assets (delete_assets_where p t) = filter (\<lambda>a. \<not> p a) (assets t)"
  by (simp add: delete_assets_where_def Let_def)

datatype asset_request =
    PostAsset string string uuid
  | PatchAsset uuid "uuid option" asset_update
  | RemoveAsset uuid "uuid option"

fun serve_asset ::
  "(tables \<Rightarrow> exn option) \<Rightarrow> 'r event_bus \<Rightarrow> asset_lib \<Rightarrow> time \<Rightarrow> uuid \<Rightarrow> uuid \<Rightarrow> asset_request
   \<Rightarrow> ('r, unit) db_prog" where
  "serve_asset refuse bus lib now new_id ev (PostAsset ty v tenant) =
     thenE (create_asset refuse bus lib now new_id ev ty v tenant) (retE ())"
| "serve_asset refuse bus lib now new_id ev (PatchAsset i tenant data) =
     thenE (update_asset refuse bus lib now ev i tenant data) (retE ())"
| "serve_asset refuse bus lib now new_id ev (RemoveAsset i tenant) =
     thenE (delete_asset refuse bus now ev i tenant) (retE ())"

lemma then_unit: "thenE m (retE ()) w = (res, w') \<Longrightarrow> \<exists>x. m w = (x, w')"
  by (auto simp: thenE_def bindE_def split: prod.splits sum.splits)

lemma committed_unique:
  assumes "committed_by f bus ev w res w'"
  shows "distinct (map (\<lambda>r. (a_tenant r, a_type r, a_value r)) (assets (committed w')))"
  using assms by (auto simp: committed_by_def violation_None constraints_def assets_ok_def)

lemma serve_asset_commits:
  assumes "canonical_texts lib" and "serve_asset refuse bus lib now new_id ev req w = (res, w')"
    and "list_all (asset_canonical lib) (assets (work w))"
  shows "committed w' = committed w \<or> list_all (asset_canonical lib) (assets (committed w')) \<and>
    distinct (map (\<lambda>r. (a_tenant r, a_type r, a_value r)) (assets (committed w')))"
proof (cases req)
  case (PostAsset ty v tenant)
  with then_unit [of _ w res w'] assms(2) obtain x where "create_asset refuse bus lib now new_id ev ty v tenant w = (x, w')"
    by auto
  then show ?thesis
  proof (cases rule: create_asset_outcome)
    case (created c r e)
    with validate_canonical [OF assms(1)] have "asset_canonical lib r" by (simp add: asset_canonical_def)
    with created(7) assms(3) committed_unique [OF created(7)] show ?thesis
      by (simp add: committed_by_def insert_asset_def)
  qed (simp add: untouched_def)
next
  case (PatchAsset i tenant data)
  with then_unit [of _ w res w'] assms(2) obtain x where "update_asset refuse bus lib now ev i tenant data w = (x, w')"
    by auto
  then show ?thesis
  proof (cases rule: update_asset_outcome)
    case (updated r r' ch)
    with update_canonical [OF assms(1)] assms(3) committed_unique [OF updated(5)] show ?thesis
      by (auto simp: committed_by_def list_all_iff update_where_image)
  qed (auto simp: untouched_def)
next
  case (RemoveAsset i tenant)
  with then_unit [of _ w res w'] assms(2) obtain x where "delete_asset refuse bus now ev i tenant w = (x, w')"
    by auto
  then show ?thesis
  proof (cases rule: delete_asset_outcome)
    case (deleted r e)
    with assms(3) committed_unique [OF deleted(4)] show ?thesis
      by (auto simp: committed_by_def list_all_iff)
  qed (auto simp: untouched_def)
qed

text \<open>
  C27: The stored assets stay canonical, and no two spellings of one asset coexist.  Given parsers whose
  text is read back as the same value, whatever request the service is given, if every committed and
  working row holds the canonical text of its type, so does every row it leaves committed; and when it
  committed anything, two rows of one tenant and type whose values have the same canonical text are the
  same row.
\<close>

theorem assets_stay_canonical:
  assumes "canonical_texts lib" and "serve_asset refuse bus lib now new_id ev req w = (res, w')"
    and "list_all (asset_canonical lib) (assets (committed w))"
    and "list_all (asset_canonical lib) (assets (work w))"
  shows "list_all (asset_canonical lib) (assets (committed w')) \<and>
    (committed w' \<noteq> committed w \<longrightarrow> (\<forall>a \<in> set (assets (committed w')). \<forall>b \<in> set (assets (committed w')).
       a_tenant a = a_tenant b \<and> a_type a = a_type b \<and>
       validate_asset_value lib (a_type a) (a_value a) = validate_asset_value lib (a_type b) (a_value b) \<longrightarrow>
       a = b))"
proof -
  have all: "list_all (asset_canonical lib) (assets (committed w'))"
    using serve_asset_commits [OF assms(1,2,4)] assms(3) by auto
  have "a = b" if "committed w' \<noteq> committed w" "a \<in> set (assets (committed w'))"
    "b \<in> set (assets (committed w'))" "a_tenant a = a_tenant b" "a_type a = a_type b"
    "validate_asset_value lib (a_type a) (a_value a) = validate_asset_value lib (a_type b) (a_value b)" for a b
  proof (rule distinct_map_inj)
    show "distinct (map (\<lambda>r. (a_tenant r, a_type r, a_value r)) (assets (committed w')))"
      using serve_asset_commits [OF assms(1,2,4)] that(1) by blast
    show "(a_tenant a, a_type a, a_value a) = (a_tenant b, a_type b, a_value b)"
      using that all by (auto simp: list_all_iff asset_canonical_def)
  qed (use that in auto)
  with all show ?thesis by blast
qed

text \<open>A small instance of the parsers, by table.\<close>

definition sample_ips :: ip_lib where
  "sample_ips = \<lparr>
     ip_address = (\<lambda>s. map_of [(''8.8.8.8'', V4 0x08080808), (''10.0.0.5'', V4 0x0a000005),
        (''2001:0DB8::1'', V6 (0x20010db8 * 2 ^ 96 + 1)), (''2001:db8::1'', V6 (0x20010db8 * 2 ^ 96 + 1))] s),
     ip_network = (\<lambda>s. map_of [(''8.8.8.8'', Net4 0x08080808 32), (''8.8.8.0/24'', Net4 0x08080800 24),
        (''8.8.8.7/24'', Net4 0x08080800 24), (''10.0.0.5'', Net4 0x0a000005 32), (''::/120'', Net6 0 120),
        (''2001:db8::1'', Net6 (0x20010db8 * 2 ^ 96 + 1) 128)] s),
     ip_text = (\<lambda>a. if a = V4 0x08080808 then ''8.8.8.8'' else if a = V4 0x0a000005 then ''10.0.0.5''
        else ''2001:db8::1''),
     net_text = (\<lambda>n. if n = Net4 0x08080808 32 then ''8.8.8.8'' else if n = Net4 0x0a000005 32 then ''10.0.0.5''
        else if n = Net6 0 120 then ''::/120'' else if n = Net6 (0x20010db8 * 2 ^ 96 + 1) 128 then ''2001:db8::1''
        else ''8.8.8.0/24'')\<rparr>"

definition sample_lib :: asset_lib where
  "sample_lib = \<lparr>al_ip = sample_ips, url_parse = (\<lambda>s.
     if s = ''http://X.io'' \<or> s = ''http://x.io/'' then Some (''http'', ''http://x.io/'') else None)\<rparr>"

lemma sample_lib_texts: "canonical_texts sample_lib"
  by (auto simp: canonical_texts_def sample_lib_def sample_ips_def map_of_Cons_code split: if_splits)

lemma assets_stay_canonical_witness:
  "\<exists>r w'. create_asset no_refusal sample_bus sample_lib 0 9 31 ''subnet'' ''8.8.8.7/24'' 1
       (sample_world (mem_empty []) \<lparr>g_tenant = Some 1, g_super = False\<rparr> []) = (Inr r, w') \<and>
     a_value r = ''8.8.8.0/24'' \<and> r \<in> set (assets (committed w')) \<and>
     list_all (asset_canonical sample_lib) (assets (committed w'))"
proof -
  let ?w = "sample_world (mem_empty []) \<lparr>g_tenant = Some 1, g_super = False\<rparr> [] :: mem_redis world"
  let ?m = "create_asset no_refusal sample_bus sample_lib 0 9 31 ''subnet'' ''8.8.8.7/24'' 1 :: (mem_redis, asset_row) db_prog"
  let ?req = "PostAsset ''subnet'' ''8.8.8.7/24'' 1"
  have v: "validate_asset_value sample_lib ''subnet'' ''8.8.8.7/24'' = Inr ''8.8.8.0/24''"
    by (simp add: validate_asset_value_def sample_lib_def sample_ips_def)
  have "case fst (?m ?w) of Inr r \<Rightarrow> a_value r = ''8.8.8.0/24'' | _ \<Rightarrow> False"
    by (simp add: create_asset_def v insert_checked_def flush_def commit_def on_redis_def asset_event_def
        except_integrity_def publish_def sample_bus_def ASSET_EVENTS_STREAM_def rls_row_def insert_asset_def
        constraint_defs sample_defs eval_simps mem_eval_simps cong: eval_congs)
  then obtain r w' where r: "?m ?w = (Inr r, w')" "a_value r = ''8.8.8.0/24''"
    by (cases "?m ?w"; cases "fst (?m ?w)") auto
  have c: "list_all (asset_canonical sample_lib) (assets (work ?w))"
    "list_all (asset_canonical sample_lib) (assets (committed ?w))"
    by (simp_all add: sample_defs asset_canonical_def validate_asset_value_def sample_lib_def sample_ips_def)
  have "serve_asset no_refusal sample_bus sample_lib 0 9 31 ?req ?w = (Inr (), w')"
    using r(1) by (simp add: thenE_def bindE_def)
  from assets_stay_canonical [OF sample_lib_texts this c(2,1)]
  have "list_all (asset_canonical sample_lib) (assets (committed w'))" by blast
  moreover from r(1) have "r \<in> set (assets (committed w'))"
    by (cases rule: create_asset_outcome) (auto simp: committed_by_def insert_asset_def)
  ultimately show ?thesis using r by blast
qed

end
