(* ===== verification/Tenants.thy ===== *)
theory Tenants
  imports Users Assets
begin

text \<open>
  Tenant administration, \<open>app/modules/tenants/service.py\<close> with its schemas and endpoints.  \<open>fold\<close> is the Unicode
  decomposition followed by the ASCII encoding that drops what has no ASCII form, \<open>mail\<close> the validation of
  \<open>EmailStr\<close>, \<open>show_exc\<close> the name and text of an exception.  A stored settings document with a value of
  another type than the field's is refused.  The lemmas treat the choice of the slug, the limits of the
  plans and what a deactivation ends.
\<close>

subsection \<open>Settings\<close>

record scan_limits =
  sl_daily :: int
  sl_concurrent :: int

record tenant_settings =
  ts_mail :: "string option"
  ts_schedule :: string
  ts_severity :: string
  ts_timezone :: string
  ts_limits :: scan_limits
  ts_buffer :: int
  ts_reset :: bool

definition default_limits :: scan_limits where
  "default_limits = \<lparr>sl_daily = 5, sl_concurrent = 1\<rparr>"

definition default_settings :: tenant_settings where
  "default_settings = \<lparr>ts_mail = None, ts_schedule = ''0 2 * * *'', ts_severity = ''medium'', ts_timezone = ''Europe/Madrid'',
     ts_limits = default_limits, ts_buffer = 500, ts_reset = False\<rparr>"

definition SEVERITY_THRESHOLDS :: "string list" where
  "SEVERITY_THRESHOLDS = [''critical'', ''high'', ''medium'', ''low'']"

fun as_str :: "json \<Rightarrow> string option" where
  "as_str (JStr s) = Some s" | "as_str _ = None"

fun as_bool :: "json \<Rightarrow> bool option" where
  "as_bool (JBool b) = Some b" | "as_bool _ = None"

fun as_positive :: "json \<Rightarrow> int option" where
  "as_positive (JInt n) = (if 0 < n then Some n else None)" | "as_positive _ = None"

definition as_severity :: "json \<Rightarrow> string option" where
  "as_severity j = (case as_str j of Some s \<Rightarrow> if s \<in> set SEVERITY_THRESHOLDS then Some s else None | None \<Rightarrow> None)"

fun as_mail :: "(string \<Rightarrow> string option) \<Rightarrow> json \<Rightarrow> string option option" where
  "as_mail mail JNull = Some None"
| "as_mail mail (JStr s) = map_option Some (mail s)"
| "as_mail mail _ = None"

text \<open>A field of a document: its default when it is absent.\<close>

definition field :: "jdict \<Rightarrow> string \<Rightarrow> 'a \<Rightarrow> (json \<Rightarrow> 'a option) \<Rightarrow> 'a option" where
  "field d k missing parse = (case map_of d k of None \<Rightarrow> Some missing | Some j \<Rightarrow> parse j)"

fun as_limits :: "json \<Rightarrow> scan_limits option" where
  "as_limits (JObj d) =
     (if \<not> set (map fst d) \<subseteq> {''daily_max'', ''concurrent_max''} then None
      else Option.bind (field d ''daily_max'' 5 as_positive) (\<lambda>a.
        map_option (\<lambda>b. \<lparr>sl_daily = a, sl_concurrent = b\<rparr>) (field d ''concurrent_max'' 1 as_positive)))"
| "as_limits _ = None"

text \<open>\<open>TenantSettings.model_validate\<close> and \<open>model_dump\<close>; unknown fields are ignored.\<close>

definition settings_of_json :: "(string \<Rightarrow> string option) \<Rightarrow> jdict \<Rightarrow> tenant_settings option" where
  "settings_of_json mail d =
     Option.bind (field d ''notification_email'' None (as_mail mail)) (\<lambda>m.
     Option.bind (field d ''scan_schedule'' ''0 2 * * *'' as_str) (\<lambda>sch.
     Option.bind (field d ''severity_threshold'' ''medium'' as_severity) (\<lambda>sev.
     Option.bind (field d ''timezone'' ''Europe/Madrid'' as_str) (\<lambda>tz.
     Option.bind (field d ''scan_limits'' default_limits as_limits) (\<lambda>lim.
     Option.bind (field d ''log_buffer_max'' 500 as_positive) (\<lambda>buf.
     map_option (\<lambda>reset. \<lparr>ts_mail = m, ts_schedule = sch, ts_severity = sev, ts_timezone = tz, ts_limits = lim,
         ts_buffer = buf, ts_reset = reset\<rparr>)
       (field d ''baseline_reset_requested'' False as_bool)))))))"

definition json_of_limits :: "scan_limits \<Rightarrow> json" where
  "json_of_limits l = JObj [(''daily_max'', JInt (sl_daily l)), (''concurrent_max'', JInt (sl_concurrent l))]"

definition json_of_mail :: "string option \<Rightarrow> json" where
  "json_of_mail m = (case m of None \<Rightarrow> JNull | Some s \<Rightarrow> JStr s)"

definition json_of_settings :: "tenant_settings \<Rightarrow> jdict" where
  "json_of_settings s =
     [(''notification_email'', json_of_mail (ts_mail s)), (''scan_schedule'', JStr (ts_schedule s)),
      (''severity_threshold'', JStr (ts_severity s)), (''timezone'', JStr (ts_timezone s)),
      (''scan_limits'', json_of_limits (ts_limits s)), (''log_buffer_max'', JInt (ts_buffer s)),
      (''baseline_reset_requested'', JBool (ts_reset s))]"

text \<open>The settings of a patch, \<open>model_dump(exclude_unset=True)\<close>: only the fields the request set, also of the limits.\<close>

record settings_patch =
  sp_mail :: "string option option"
  sp_schedule :: "string option"
  sp_severity :: "string option"
  sp_timezone :: "string option"
  sp_limits :: "(int option \<times> int option) option"
  sp_buffer :: "int option"
  sp_reset :: "bool option"

definition set_key :: "string \<Rightarrow> ('a \<Rightarrow> json) \<Rightarrow> 'a option \<Rightarrow> jdict" where
  "set_key k f x = (case x of None \<Rightarrow> [] | Some v \<Rightarrow> [(k, f v)])"

definition json_of_patch :: "settings_patch \<Rightarrow> jdict" where
  "json_of_patch p =
     set_key ''notification_email'' json_of_mail (sp_mail p) @ set_key ''scan_schedule'' JStr (sp_schedule p) @
     set_key ''severity_threshold'' JStr (sp_severity p) @ set_key ''timezone'' JStr (sp_timezone p) @
     set_key ''scan_limits'' (\<lambda>(a, b). JObj (set_key ''daily_max'' JInt a @ set_key ''concurrent_max'' JInt b)) (sp_limits p) @
     set_key ''log_buffer_max'' JInt (sp_buffer p) @ set_key ''baseline_reset_requested'' JBool (sp_reset p)"

text \<open>The schema of a patch: every set field is valid, and the address is stored as it was normalized.\<close>

definition check_settings_patch :: "(string \<Rightarrow> string option) \<Rightarrow> settings_patch \<Rightarrow> settings_patch option" where
  "check_settings_patch mail p =
     (case sp_mail p of
        Some (Some a) \<Rightarrow> (case mail a of
            None \<Rightarrow> None
          | Some b \<Rightarrow> if settings_of_json mail (json_of_patch p) = None then None else Some (p\<lparr>sp_mail := Some (Some b)\<rparr>))
      | _ \<Rightarrow> if settings_of_json mail (json_of_patch p) = None then None else Some p)"

definition merge_settings :: "(string \<Rightarrow> string option) \<Rightarrow> jdict option \<Rightarrow> settings_patch \<Rightarrow> exn + jdict" where
  "merge_settings mail stored p =
     (case settings_of_json mail (case stored of None \<Rightarrow> [] | Some d \<Rightarrow> d) of
        None \<Rightarrow> Inl (ValueError ''TenantSettings'')
      | Some current \<Rightarrow>
          (case settings_of_json mail (fold (\<lambda>(k, v). AList.update k v) (json_of_patch p) (json_of_settings current)) of
             None \<Rightarrow> Inl (ValueError ''TenantSettings'')
           | Some s \<Rightarrow> Inr (json_of_settings s)))"

subsection \<open>Slugs and plans\<close>

definition PLAN_MAX_ASSETS :: "(string \<times> int) list" where
  "PLAN_MAX_ASSETS = [(''free'', 10), (''starter'', 25), (''pro'', 100), (''enterprise'', 500)]"

definition plan_to_max_assets :: "string \<Rightarrow> exn + int" where
  "plan_to_max_assets plan = (case map_of PLAN_MAX_ASSETS plan of
      None \<Rightarrow> Inl (TenantError 400 (''Plan inv'' @ [CHR 0xE1] @ ''lido: '' @ py_repr plan))
    | Some n \<Rightarrow> Inr n)"

definition slug_char :: "char \<Rightarrow> bool" where
  "slug_char c \<longleftrightarrow> is_alnum c \<and> lower_char c = c"

text \<open>The pattern \<open>[a-z0-9]+(-[a-z0-9]+)*\<close>.\<close>

definition slug_form :: "string \<Rightarrow> bool" where
  "slug_form s \<longleftrightarrow> list_all (\<lambda>p. p \<noteq> [] \<and> list_all slug_char p) (split_on CHR ''-'' s)"

text \<open>The schema matches it with \<open>$\<close>, which also stands before a line feed at the end.\<close>

definition slug_must_be_valid :: "string \<Rightarrow> bool" where
  "slug_must_be_valid v \<longleftrightarrow> (slug_form v \<or> (v \<noteq> [] \<and> last v = CHR 0x0A \<and> slug_form (butlast v))) \<and> between 3 100 v"

text \<open>\<open>re.sub\<close> of the runs of a class of characters by one dash.\<close>

fun dash_runs :: "(char \<Rightarrow> bool) \<Rightarrow> bool \<Rightarrow> string \<Rightarrow> string" where
  "dash_runs p run [] = []"
| "dash_runs p run (c # cs) =
     (if p c then (if run then dash_runs p True cs else CHR ''-'' # dash_runs p True cs)
      else c # dash_runs p False cs)"

definition strip_dash :: "string \<Rightarrow> string" where
  "strip_dash s = rstrip_char CHR ''-'' (dropWhile (\<lambda>c. c = CHR ''-'') s)"

definition base_slug :: "string \<Rightarrow> string" where
  "base_slug ascii =
     (let s1 = strip (lower ascii);
          s2 = filter (\<lambda>c. is_alnum c \<or> c = CHR ''_'' \<or> is_space c \<or> c = CHR ''-'') s1;
          s3 = dash_runs (\<lambda>c. is_space c \<or> c = CHR ''_'') False s2;
          s4 = dash_runs (\<lambda>c. c = CHR ''-'') False s3
      in strip_dash s4)"

definition generate_slug :: "(string \<Rightarrow> string) \<Rightarrow> string \<Rightarrow> exn + string" where
  "generate_slug fold_ascii name = (let slug = base_slug (fold_ascii name)
     in if slug = '''' then Inl (TenantError 400 (''El nombre no produce un slug v'' @ [CHR 0xE1] @ ''lido''))
        else Inr (take 100 slug))"

definition is_slug_taken :: "string \<Rightarrow> uuid option \<Rightarrow> ('r, bool) db_prog" where
  "is_slug_taken slug exclude_id = getE (\<lambda>w. 0 < count_where
     (\<lambda>t. t_slug t = slug \<and> (case exclude_id of None \<Rightarrow> True | Some i \<Rightarrow> t_id t \<noteq> i)) (seen_tenants w))"

definition MAX_SLUG_ATTEMPTS :: nat where
  "MAX_SLUG_ATTEMPTS = 100"

function slug_loop :: "string \<Rightarrow> string \<Rightarrow> nat \<Rightarrow> ('r, string) db_prog" where
  "slug_loop base slug suffix = bindE (is_slug_taken slug None) (\<lambda>taken.
     if \<not> taken then retE slug
     else if MAX_SLUG_ATTEMPTS < suffix
     then raiseE (TenantError 409 (''No se pudo generar un slug '' @ [CHR 0xFA] @ ''nico para este nombre.''))
     else slug_loop base (base @ ''-'' @ show_nat suffix) (Suc suffix))"
  by pat_completeness auto

termination slug_loop
  by (relation "measure (\<lambda>(base, slug, suffix). Suc MAX_SLUG_ATTEMPTS - suffix)") auto

declare slug_loop.simps [simp del]

subsection \<open>Requests\<close>

record tenant_create =
  tc_name :: string
  tc_slug :: "string option option"
  tc_plan :: string
  tc_max_assets :: int
  tc_settings :: tenant_settings

text \<open>The validator of the slug also runs on an explicit null, where \<open>re.match\<close> raises.\<close>

definition check_tenant_create :: "(string \<Rightarrow> string option) \<Rightarrow> tenant_create \<Rightarrow> exn + tenant_create" where
  "check_tenant_create mail d =
     (case settings_of_json mail (json_of_settings (tc_settings d)) of
        None \<Rightarrow> Inl unprocessable
      | Some s \<Rightarrow>
          if tc_slug d = Some None then Inl (OtherError ''TypeError'')
          else if strip (tc_name d) = '''' \<or> tc_plan d \<notin> fst ` set PLAN_MAX_ASSETS \<or> tc_max_assets d < 1 \<or>
             (case tc_slug d of Some (Some v) \<Rightarrow> \<not> slug_must_be_valid v | _ \<Rightarrow> False) then Inl unprocessable
          else Inr (d\<lparr>tc_name := strip (tc_name d), tc_settings := s\<rparr>))"

record tenant_update =
  tu_name :: "string option option"
  tu_plan :: "string option option"
  tu_active :: "bool option option"
  tu_max_assets :: "int option option"
  tu_settings :: "settings_patch option option"

definition check_tenant_update :: "(string \<Rightarrow> string option) \<Rightarrow> tenant_update \<Rightarrow> tenant_update option" where
  "check_tenant_update mail d =
     (if (case set_field (tu_name d) of None \<Rightarrow> False | Some v \<Rightarrow> strip v = '''') \<or>
         (case set_field (tu_plan d) of None \<Rightarrow> False | Some v \<Rightarrow> v \<notin> fst ` set PLAN_MAX_ASSETS) \<or>
         (case set_field (tu_max_assets d) of None \<Rightarrow> False | Some v \<Rightarrow> v < 1) then None
      else let d' = d\<lparr>tu_name := map_option (map_option strip) (tu_name d)\<rparr> in
        (case set_field (tu_settings d) of
           None \<Rightarrow> Some d'
         | Some p \<Rightarrow> map_option (\<lambda>q. d'\<lparr>tu_settings := Some (Some q)\<rparr>) (check_settings_patch mail p)))"

subsection \<open>The service\<close>

record tenant_lib =
  tl_fold :: "string \<Rightarrow> string"
  tl_mail :: "string \<Rightarrow> string option"
  tl_show :: "exn \<Rightarrow> string"

definition attempt :: "('s, 'e, 'a) prog \<Rightarrow> ('s, 'f, 'e + 'a) prog" where
  "attempt m s = (case m s of (x, t) \<Rightarrow> (Inr x, t))"

text \<open>\<open>asyncio.gather(..., return_exceptions=True)\<close>, the revocations one after the other, with their users.\<close>

primrec gather_revocations ::
  "'r redis_call \<Rightarrow> int \<Rightarrow> string list \<Rightarrow> ('r, (string \<times> (exn + unit)) list) redis_prog" where
  "gather_revocations call ttl_seconds [] = retE []"
| "gather_revocations call ttl_seconds (user_id # user_ids) =
     bindE (attempt (revoke_all_user_access_tokens call user_id ttl_seconds)) (\<lambda>result.
     bindE (gather_revocations call ttl_seconds user_ids) (\<lambda>results. retE ((user_id, result) # results)))"

definition revocation_outcome :: "(exn \<Rightarrow> string) \<Rightarrow> string \<times> (exn + unit) \<Rightarrow> string" where
  "revocation_outcome show_exc r = (case snd r of
      Inl e \<Rightarrow> fst r @ '': '' @ show_exc e
    | Inr u \<Rightarrow> fst r @ '': success'')"

fun semicolons :: "string list \<Rightarrow> string" where
  "semicolons [] = ''''"
| "semicolons [x] = x"
| "semicolons (x # xs) = x @ ''; '' @ semicolons xs"

definition revoke_user_tokens_deterministically ::
  "'r redis_call \<Rightarrow> (exn \<Rightarrow> string) \<Rightarrow> int \<Rightarrow> string list \<Rightarrow> ('r, unit) redis_prog" where
  "revoke_user_tokens_deterministically call show_exc ttl_seconds user_ids =
     bindE (gather_revocations call ttl_seconds user_ids) (\<lambda>results.
       if list_ex (\<lambda>r. isl (snd r)) results
       then raiseE (PartialFailureError (''Tenant token revocation partially failed: '' @
              semicolons (map (revocation_outcome show_exc) results)))
       else retE ())"

definition refresh_tenant :: "uuid \<Rightarrow> ('r, tenant_row) db_prog" where
  "refresh_tenant i = bindE (getE (\<lambda>w. filter (\<lambda>t. t_id t = i) (seen_tenants w))) scalar_one"

definition new_tenant :: "uuid \<Rightarrow> time \<Rightarrow> string \<Rightarrow> string \<Rightarrow> string \<Rightarrow> int \<Rightarrow> tenant_settings \<Rightarrow> tenant_row" where
  "new_tenant i now name slug plan limit s = \<lparr>t_id = i, t_name = strip name, t_slug = slug, t_plan = plan,
     t_max_assets = limit, t_scans_per_day = 1, t_ai_level = ''basic'', t_report_types = Some [''vulnerability''],
     t_active = True, t_settings = Some (json_of_settings s), t_created = now\<rparr>"

definition choose_slug :: "tenant_lib \<Rightarrow> tenant_create \<Rightarrow> ('r, string) db_prog" where
  "choose_slug lib data = (case set_field (tc_slug data) of
      Some slug \<Rightarrow> bindE (is_slug_taken slug None) (\<lambda>taken.
        if taken then raiseE (TenantError 409 ''El slug ya esta en uso.'') else retE slug)
    | None \<Rightarrow> bindE (ofE (generate_slug (tl_fold lib) (tc_name data))) (\<lambda>base. slug_loop base base 2))"

definition create_tenant :: "tenant_lib \<Rightarrow> uuid \<Rightarrow> time \<Rightarrow> tenant_create \<Rightarrow> ('r, tenant_row) db_prog" where
  "create_tenant lib new_id now data =
     bindE (choose_slug lib data) (\<lambda>slug.
     bindE (ofE (case settings_of_json (tl_mail lib) (json_of_settings (tc_settings data)) of
         None \<Rightarrow> Inl (ValueError ''TenantSettings'') | Some s \<Rightarrow> Inr s)) (\<lambda>s.
     bindE (ofE (plan_to_max_assets (tc_plan data))) (\<lambda>limit.
       let tenant = new_tenant new_id now (tc_name data) slug (tc_plan data) limit s
       in thenE (insert_checked (\<lambda>g. rls_row g new_id) (\<lambda>t. t\<lparr>tenants := tenants t @ [tenant]\<rparr>))
            (refresh_tenant new_id))))"

definition get_tenant_by_id :: "uuid \<Rightarrow> ('r, tenant_row option) db_prog" where
  "get_tenant_by_id tenant_id =
     bindE (getE (\<lambda>w. filter (\<lambda>t. t_id t = tenant_id) (seen_tenants w))) scalar_one_or_none"

definition list_tenants :: "bool \<Rightarrow> nat \<Rightarrow> nat \<Rightarrow> ('r, tenant_row list) db_prog" where
  "list_tenants include_inactive offset limit =
     getE (\<lambda>w. take (min limit 200) (drop offset (rev (sort_key t_created
       (filter (\<lambda>t. include_inactive \<or> t_active t) (seen_tenants w))))))"

text \<open>The users of a tenant, their refresh tokens and their access tokens.\<close>

definition deactivate_users :: "uuid \<Rightarrow> ('r, unit) db_prog" where
  "deactivate_users tenant_id w = (Inr (), w\<lparr>work := (work w)\<lparr>users :=
     update_where (\<lambda>u. rls_user (guc w) u \<and> u_tenant u = Some tenant_id) (\<lambda>u. u\<lparr>u_active := False\<rparr>) (users (work w))\<rparr>\<rparr>)"

definition end_tenant_sessions ::
  "'r redis_call \<Rightarrow> auth_env \<Rightarrow> tenant_lib \<Rightarrow> time \<Rightarrow> uuid \<Rightarrow> ('r, unit) db_prog" where
  "end_tenant_sessions call env lib now tenant_id =
     thenE (deactivate_users tenant_id)
       (thenE (revoke_all_user_tokens_for_tenant now tenant_id)
         (bindE (getE (\<lambda>w. map u_id (filter (\<lambda>u. u_tenant u = Some tenant_id) (seen_users w)))) (\<lambda>user_ids.
           on_redis (revoke_user_tokens_deterministically call (tl_show lib) (ae_minutes env * 60) (map (ae_str env) user_ids)))))"

definition apply_tenant_plan :: "tenant_update \<Rightarrow> tenant_row \<Rightarrow> exn + tenant_row" where
  "apply_tenant_plan data t0 =
     (case tu_plan data of
        Some None \<Rightarrow> Inl (TenantError 400 (''Plan inv'' @ [CHR 0xE1] @ ''lido: None''))
      | plan \<Rightarrow>
        (let t1 = (case plan of Some (Some p) \<Rightarrow> t0\<lparr>t_plan := p\<rparr> | _ \<Rightarrow> t0) in
         case tu_max_assets data of
           None \<Rightarrow> (case plan of
               Some (Some p) \<Rightarrow> map_sum id (\<lambda>n. t1\<lparr>t_max_assets := n\<rparr>) (plan_to_max_assets p)
             | _ \<Rightarrow> Inr t1)
         | Some m \<Rightarrow> (case plan_to_max_assets (t_plan t1) of
               Inl e \<Rightarrow> Inl e
             | Inr plan_limit \<Rightarrow> (case m of
                   None \<Rightarrow> Inl (OtherError ''TypeError'')
                 | Some n \<Rightarrow>
                     if plan_limit < n
                     then Inl (TenantError 422 (''max_assets '' @ show_int n @ '' excede el l'' @ [CHR 0xED] @ ''mite del plan '' @
                            py_repr (t_plan t1) @ '' ('' @ show_int plan_limit @ '')''))
                     else Inr (t1\<lparr>t_max_assets := n\<rparr>)))))"

definition apply_tenant_update :: "tenant_lib \<Rightarrow> tenant_update \<Rightarrow> tenant_row \<Rightarrow> exn + tenant_row" where
  "apply_tenant_update lib data t0 =
     (case (case tu_name data of None \<Rightarrow> Inr t0 | Some None \<Rightarrow> Inl (AttributeError ''strip'')
              | Some (Some n) \<Rightarrow> Inr (t0\<lparr>t_name := strip n\<rparr>)) of
        Inl e \<Rightarrow> Inl e
      | Inr t1 \<Rightarrow> (case apply_tenant_plan data t1 of
          Inl e \<Rightarrow> Inl e
        | Inr t2 \<Rightarrow> (case (case tu_settings data of
                None \<Rightarrow> Inr t2
              | Some None \<Rightarrow> (case settings_of_json (tl_mail lib) (case t_settings t2 of None \<Rightarrow> [] | Some d \<Rightarrow> d) of
                    None \<Rightarrow> Inl (ValueError ''TenantSettings'') | Some s \<Rightarrow> Inl (OtherError ''TypeError''))
              | Some (Some p) \<Rightarrow> map_sum id (\<lambda>d. t2\<lparr>t_settings := Some d\<rparr>) (merge_settings (tl_mail lib) (t_settings t2) p)) of
            Inl e \<Rightarrow> Inl e
          | Inr t3 \<Rightarrow> (case tu_active data of None \<Rightarrow> Inr t3 | Some None \<Rightarrow> Inl (IntegrityError ''is_active'')
              | Some (Some b) \<Rightarrow> Inr (t3\<lparr>t_active := b\<rparr>)))))"

definition update_tenant ::
  "'r redis_call \<Rightarrow> auth_env \<Rightarrow> tenant_lib \<Rightarrow> time \<Rightarrow> uuid \<Rightarrow> tenant_update \<Rightarrow> ('r, tenant_row) db_prog" where
  "update_tenant call env lib now tenant_id data =
     bindE (get_tenant_by_id tenant_id) (\<lambda>found. case found of
       None \<Rightarrow> raiseE (TenantError 404 ''Tenant no encontrado'')
     | Some t \<Rightarrow> let is_deactivating = (tu_active data = Some (Some False) \<and> t_active t) in
         bindE (ofE (apply_tenant_update lib data t)) (\<lambda>t'.
         thenE (exec (\<lambda>tb. tb\<lparr>tenants := update_where (\<lambda>r. t_id r = tenant_id) (\<lambda>_. t') (tenants tb)\<rparr>))
         (thenE flush
         (thenE (whenE is_deactivating (end_tenant_sessions call env lib now tenant_id))
           (refresh_tenant tenant_id)))))"

definition deactivate_tenant ::
  "'r redis_call \<Rightarrow> auth_env \<Rightarrow> tenant_lib \<Rightarrow> time \<Rightarrow> uuid \<Rightarrow> ('r, tenant_row) db_prog" where
  "deactivate_tenant call env lib now tenant_id =
     bindE (get_tenant_by_id tenant_id) (\<lambda>found. case found of
       None \<Rightarrow> raiseE (TenantError 404 ''Tenant no encontrado'')
     | Some t \<Rightarrow>
         if \<not> t_active t then raiseE (TenantError 409 ''El tenant ya esta desactivado'')
         else thenE (exec (\<lambda>tb. tb\<lparr>tenants := update_where (\<lambda>r. t_id r = tenant_id) (\<lambda>r. r\<lparr>t_active := False\<rparr>) (tenants tb)\<rparr>))
          (thenE flush
          (thenE (end_tenant_sessions call env lib now tenant_id)
            (thenE flush (refresh_tenant tenant_id)))))"

subsection \<open>The endpoints\<close>

definition tenant_error :: "('r, 'a) db_prog \<Rightarrow> ('r, 'a) db_prog" where
  "tenant_error m = catchE m (\<lambda>e. case e of TenantError code detail \<Rightarrow> raiseE (HTTPException code detail) | _ \<Rightarrow> raiseE e)"

datatype tenant_request = PostTenant tenant_create | PatchTenant uuid tenant_update | RemoveTenant uuid

definition tenant_endpoint ::
  "'r redis_call \<Rightarrow> auth_env \<Rightarrow> tenant_lib \<Rightarrow> draws \<Rightarrow> user_row \<Rightarrow> tenant_request \<Rightarrow> ('r, unit) db_prog" where
  "tenant_endpoint call env lib d current_user req =
     thenE (ofE (require_superadmin current_user)) (case req of
       PostTenant data \<Rightarrow> (case check_tenant_create (tl_mail lib) data of
           Inl e \<Rightarrow> raiseE e
         | Inr body \<Rightarrow> ignoring (tenant_error (create_tenant lib (dr_row d) (dr_now d) body)))
     | PatchTenant i data \<Rightarrow> (case check_tenant_update (tl_mail lib) data of
           None \<Rightarrow> raiseE unprocessable
         | Some body \<Rightarrow> ignoring (tenant_error (update_tenant call env lib (dr_now d) i body)))
     | RemoveTenant i \<Rightarrow> ignoring (tenant_error (deactivate_tenant call env lib (dr_now d) i)))"

definition serve_tenant ::
  "(tables \<Rightarrow> exn option) \<Rightarrow> 'r redis_call \<Rightarrow> auth_env \<Rightarrow> tenant_lib \<Rightarrow> draws \<Rightarrow> user_row \<Rightarrow> tenant_request \<Rightarrow> ('r, unit) db_prog" where
  "serve_tenant refuse call env lib d current_user req =
     with_session refuse (tenant_endpoint call env lib d current_user req)"

subsection \<open>Revoking the tokens of many users\<close>

context redis_contract
begin

lemma revoke_all_frame:
  assumes "revoke_all_user_access_tokens call v n s = (x, s')"
  shows "u \<noteq> v \<Longrightarrow> store (view s') (active_jtis_key u) = store (view s) (active_jtis_key u)"
    and "denied (view s) lo j \<Longrightarrow> lo \<le> clock (view s) + seconds n \<Longrightarrow> denied (view s') lo j"
    and "clock (view s) \<le> clock (view s')"
proof -
  obtain y s1 where y: "redis_do call (SMEMBERS (active_jtis_key v)) s = (y, s1)" by fastforce
  then obtain z where z: "call (SMEMBERS (active_jtis_key v)) s = (z, s1)"
    by (cases y) (auto simp: redis_do_Inr redis_do_Inl)
  note rd = smembers_reads(1) [OF z] and c1 = call_clock [OF z]
  have same: "denied (view s1) lo j \<longleftrightarrow> denied (view s) lo j" for lo j by (rule denied_store) (simp add: rd)
  have "(u \<noteq> v \<longrightarrow> store (view s') (active_jtis_key u) = store (view s) (active_jtis_key u)) \<and>
    (\<forall>lo j. denied (view s) lo j \<and> lo \<le> clock (view s) + seconds n \<longrightarrow> denied (view s') lo j) \<and>
    clock (view s) \<le> clock (view s')" for u
  proof (cases "s' = s1")
    case True
    with rd c1 same show ?thesis by simp
  next
    case False
    with assms y obtain r where r: "y = Inr r" "reply_set r \<noteq> {}"
      by (cases y) (auto simp: revoke_all_user_access_tokens_def bindE_def split: if_splits)
    obtain f s2 where f: "forE (sorted_list_of_set (reply_set r)) (\<lambda>j. redis_exec call (deny j n)) s1 = (f, s2)"
      by fastforce
    note all = deny_all [OF f]
    have keep: "store (view s2) (active_jtis_key u) = store (view s) (active_jtis_key u)" for u
      using all rd by simp
    have den: "denied (view s2) lo j" if "denied (view s) lo j" "lo \<le> clock (view s) + seconds n" for lo j
      using all same that c1 by auto
    have c2: "clock (view s) \<le> clock (view s2)" using all c1 by simp
    show ?thesis
    proof (cases f)
      case (Inl e)
      with assms y r f have "s' = s2"
        by (auto simp: revoke_all_user_access_tokens_def bindE_def thenE_def)
      with keep den c2 show ?thesis by simp
    next
      case (Inr w)
      with assms y r f have "redis_exec call (DEL (active_jtis_key v)) s2 = (x, s')"
        by (auto simp: revoke_all_user_access_tokens_def bindE_def thenE_def)
      from this obtain a where a: "call (DEL (active_jtis_key v)) s2 = (a, s')" by (rule redis_exec_call)
      have "denied (view s') lo j \<longleftrightarrow> denied (view s2) lo j" for lo j
        by (rule denied_store) (rule del_step(3) [OF a], simp)
      with keep den c2 del_step(3) [OF a] call_clock [OF a] show ?thesis by auto
    qed
  qed
  then show "u \<noteq> v \<Longrightarrow> store (view s') (active_jtis_key u) = store (view s) (active_jtis_key u)"
    "denied (view s) lo j \<Longrightarrow> lo \<le> clock (view s) + seconds n \<Longrightarrow> denied (view s') lo j"
    "clock (view s) \<le> clock (view s')" by blast+
qed

text \<open>After each revocation the set of a user is still there, or all of it is denied; denied when all returned.\<close>

lemma gather_denies:
  assumes "gather_revocations call n uids s = (Inr rs, s')" and "finite js" and "lo \<le> clock (view s) + seconds n"
    and "store (view s) (active_jtis_key u) = Some (VSet js, None) \<or> (\<forall>j \<in> js. denied (view s) lo j)"
  shows "(store (view s') (active_jtis_key u) = Some (VSet js, None) \<or> (\<forall>j \<in> js. denied (view s') lo j)) \<and>
    (u \<in> set uids \<and> (\<forall>r \<in> set rs. \<not> isl (snd r)) \<longrightarrow> (\<forall>j \<in> js. denied (view s') lo j))"
  using assms
proof (induction uids arbitrary: s rs)
  case (Cons v uids)
  from Cons.prems(1) obtain x s1 rest where x: "revoke_all_user_access_tokens call v n s = (x, s1)"
    and rest: "gather_revocations call n uids s1 = (Inr rest, s')" and rs: "rs = (v, x) # rest"
    by (auto simp: bindE_success attempt_def split: prod.splits)
  note frame = revoke_all_frame [OF x]
  have lo: "lo \<le> clock (view s1) + seconds n" using Cons.prems(3) frame(3) by simp
  have mono: "denied (view s1) lo j" if "denied (view s) lo j" for j using frame(2) [OF that Cons.prems(3)] .
  have step: "(store (view s1) (active_jtis_key u) = Some (VSet js, None) \<or> (\<forall>j \<in> js. denied (view s1) lo j)) \<and>
      (u = v \<and> \<not> isl x \<longrightarrow> (\<forall>j \<in> js. denied (view s1) lo j))"
  proof (cases "u = v \<and> store (view s) (active_jtis_key u) = Some (VSet js, None)")
    case True
    with revoke_all_fail_closed [OF x _ Cons.prems(2)] have
      "store (view s1) (active_jtis_key u) = Some (VSet js, None) \<and> (x = Inr () \<longrightarrow> js = {}) \<or>
       (\<forall>j \<in> js. denied (view s1) (clock (view s) + seconds n) j)" by auto
    then show ?thesis using Cons.prems(3) by (cases x) (auto intro: denied_mono)
  next
    case False
    with Cons.prems(4) frame(1) [of u] mono show ?thesis by (cases "u = v") auto
  qed
  have "(\<forall>j \<in> js. denied (view s1) lo j) \<Longrightarrow> (\<forall>j \<in> js. denied (view s') lo j)"
  proof -
    assume all: "\<forall>j \<in> js. denied (view s1) lo j"
    have keep: "denied (view s') lo j" if "gather_revocations call n us q = (Inr zs, s')" "denied (view q) lo j"
      "lo \<le> clock (view q) + seconds n" for us q zs j
      using that
    proof (induction us arbitrary: q zs)
      case (Cons w us)
      then obtain y q1 where y: "revoke_all_user_access_tokens call w n q = (y, q1)"
        "\<exists>ws. gather_revocations call n us q1 = (Inr ws, s')"
        by (auto simp: bindE_success attempt_def split: prod.splits)
      with Cons.IH Cons.prems(2,3) revoke_all_frame(2,3) [OF y(1)] show ?case by (meson add_right_mono order_trans)
    qed simp
    show ?thesis using keep [OF rest] all lo by blast
  qed
  with Cons.IH [OF rest Cons.prems(2) lo] step show ?case by (auto simp: rs)
qed simp

end

subsection \<open>Runs of the service\<close>

lemma keeps_tenant_parts [intro]:
  "keeps (saved C) (deactivate_users i)" "keeps (saved C) (revoke_all_user_tokens_for_tenant now i)"
  by (simp_all add: keeps_def saved_def deactivate_users_def revoke_all_user_tokens_for_tenant_def)

lemma keeps_tenant_error: "keeps P m \<Longrightarrow> keeps P (tenant_error m)"
  unfolding tenant_error_def by (rule keeps_catch) (auto split: exn.split)

lemma keeps_slug_loop: "keeps (saved C) (slug_loop base slug suffix)"
proof (induction base slug suffix rule: slug_loop.induct)
  case (1 base slug suffix)
  show ?case
    unfolding slug_loop.simps [of base slug suffix] is_slug_taken_def
    by (intro keeps_bind keeps_get keeps_if keeps_ret keeps_raise 1) simp_all
qed

lemma keeps_create_tenant: "keeps (saved C) (create_tenant lib i now data)"
  unfolding create_tenant_def choose_slug_def is_slug_taken_def refresh_tenant_def Let_def
  by (intro keeps_intros keeps_saved keeps_slug_loop)

lemma keeps_end_tenant_sessions: "keeps (saved C) (end_tenant_sessions call env lib now i)"
  unfolding end_tenant_sessions_def by (intro keeps_intros keeps_saved keeps_tenant_parts)

lemma keeps_update_tenant: "keeps (saved C) (update_tenant call env lib now i data)"
  unfolding update_tenant_def get_tenant_by_id_def refresh_tenant_def Let_def
  by (intro keeps_intros keeps_saved keeps_end_tenant_sessions)

lemma keeps_deactivate_tenant: "keeps (saved C) (deactivate_tenant call env lib now i)"
  unfolding deactivate_tenant_def get_tenant_by_id_def refresh_tenant_def
  by (intro keeps_intros keeps_saved keeps_end_tenant_sessions)

lemma keeps_tenant_endpoint: "keeps (saved C) (tenant_endpoint call env lib d me req)"
  unfolding tenant_endpoint_def ignoring_def
  by (cases req; simp; intro keeps_intros keeps_sum keeps_saved keeps_tenant_error keeps_create_tenant keeps_update_tenant
      keeps_deactivate_tenant)

lemma tenant_error_Inr: "tenant_error m w = (Inr x, w') \<longleftrightarrow> m w = (Inr x, w')"
proof (cases "m w")
  case (Pair y t)
  then show ?thesis
    by (cases y) (auto simp: tenant_error_def catchE_def split: exn.split)
qed

lemma seen_tenant:
  assumes "get_tenant_by_id i w = (Inr found, w')"
  shows "w' = w \<and> (\<forall>t. found = Some t \<longrightarrow> t \<in> set (tenants (work w)) \<and> t_id t = i)"
  using assms by (auto simp: get_tenant_by_id_def bindE_success scalar_one_or_none_run filter_eq_Cons_iff seen_tenants_def)

lemma found_tenant:
  assumes "bindE (get_tenant_by_id i) (\<lambda>found. case found of None \<Rightarrow> raiseE e | Some t \<Rightarrow> f t) w = (Inr r, w')"
  obtains t where "t \<in> set (tenants (work w))" and "t_id t = i" and "f t w = (Inr r, w')"
proof -
  from assms obtain found v where g: "get_tenant_by_id i w = (Inr found, v)"
    and k: "(case found of None \<Rightarrow> raiseE e | Some t \<Rightarrow> f t) v = (Inr r, w')" by (auto simp: bindE_success)
  from seen_tenant [OF g] k show thesis by (cases found) (auto intro: that)
qed

lemma refresh_tenant_Inr:
  "refresh_tenant i w = (Inr r, w') \<Longrightarrow> w' = w"
  by (auto simp: refresh_tenant_def bindE_success scalar_one_run)

text \<open>Under the context of the platform: the users of the tenant are off, without refresh tokens, and revoked.\<close>

lemma end_tenant_sessions_Inr:
  assumes "end_tenant_sessions call env lib now i w = (Inr u, w')" and "g_super (guc w)"
  shows "tenants (work w') = tenants (work w) \<and>
    users (work w') = update_where (\<lambda>u. u_tenant u = Some i) (\<lambda>u. u\<lparr>u_active := False\<rparr>) (users (work w)) \<and>
    (\<forall>r \<in> set (rtokens (work w')). rt_user r \<in> u_id ` {u \<in> set (users (work w)). u_tenant u = Some i} \<longrightarrow> rt_revoked r \<noteq> None) \<and>
    (\<exists>rs. gather_revocations call (ae_minutes env * 60)
        (map (ae_str env \<circ> u_id) (filter (\<lambda>u. u_tenant u = Some i) (users (work w)))) (redis w) = (Inr rs, redis w') \<and>
      (\<forall>r \<in> set rs. \<not> isl (snd r)))"
proof -
  let ?us = "update_where (\<lambda>u. u_tenant u = Some i) (\<lambda>u. u\<lparr>u_active := False\<rparr>) (users (work w))"
  define w1 where "w1 = w\<lparr>work := (work w)\<lparr>users := ?us, rtokens := update_where (\<lambda>r. rt_revoked r = None \<and>
      rt_user r \<in> u_id ` set (filter (\<lambda>u. u_tenant u = Some i) ?us)) (revoke_row now) (rtokens (work w))\<rparr>\<rparr>"
  have ids: "map u_id (filter (\<lambda>u. u_tenant u = Some i) ?us) = map u_id (filter (\<lambda>u. u_tenant u = Some i) (users (work w)))"
    by (simp add: update_where_def filter_map o_def if_distrib cong: if_cong)
  have "deactivate_users i w = (Inr (), w\<lparr>work := (work w)\<lparr>users := ?us\<rparr>\<rparr>)"
    using assms(2) by (simp add: deactivate_users_def rls_user_def)
  moreover have "revoke_all_user_tokens_for_tenant now i (w\<lparr>work := (work w)\<lparr>users := ?us\<rparr>\<rparr>) = (Inr (), w1)"
    using assms(2) by (simp add: revoke_all_user_tokens_for_tenant_def rls_rtoken_def seen_super w1_def)
  moreover have "seen_users w1 = ?us" "redis w1 = redis w"
    using assms(2) by (simp_all add: seen_super w1_def)
  ultimately have run: "on_redis (revoke_user_tokens_deterministically call (tl_show lib) (ae_minutes env * 60)
      (map (ae_str env) (map u_id (filter (\<lambda>u. u_tenant u = Some i) (users (work w)))))) w1 = (Inr u, w')"
    using assms(1) unfolding end_tenant_sessions_def thenE_def bindE_def getE_def ids [symmetric] by simp
  then obtain rs where rs: "gather_revocations call (ae_minutes env * 60)
        (map (ae_str env \<circ> u_id) (filter (\<lambda>u. u_tenant u = Some i) (users (work w)))) (redis w) = (Inr rs, redis w')"
      "\<forall>r \<in> set rs. \<not> isl (snd r)" and w': "w' = w1\<lparr>redis := redis w'\<rparr>"
    using \<open>redis w1 = redis w\<close>
    by (auto simp: on_redis_run revoke_user_tokens_deterministically_def bindE_success list_ex_iff split: if_splits)
  have "u_id ` set (filter (\<lambda>u. u_tenant u = Some i) ?us) = u_id ` {u \<in> set (users (work w)). u_tenant u = Some i}"
    using ids by (metis list.set_map set_filter)
  then have "rt_revoked r \<noteq> None" if "r \<in> set (rtokens (work w1))"
    "rt_user r \<in> u_id ` {u \<in> set (users (work w)). u_tenant u = Some i}" for r
    using that by (auto simp: w1_def update_where_image revoke_row_def split: if_splits)
  moreover have "tenants (work w') = tenants (work w)" "users (work w') = ?us" "rtokens (work w') = rtokens (work w1)"
    by (subst w', simp add: w1_def)+
  ultimately show ?thesis using rs by auto
qed

lemma slug_loop_state: "slug_loop base slug suffix w = (x, w') \<Longrightarrow> w' = w"
proof (induction base slug suffix arbitrary: x rule: slug_loop.induct)
  case (1 base slug suffix)
  have IH: "w' = w" if "\<not> MAX_SLUG_ATTEMPTS < suffix" "slug_loop base (base @ ''-'' @ show_nat suffix) (Suc suffix) w = (x, w')"
    using 1(1) [of True] that by simp
  from 1(2) show ?case
    unfolding slug_loop.simps [of base slug suffix] is_slug_taken_def
    by (auto simp: bindE_def split: if_splits dest: IH)
qed

lemma choose_slug_state: "choose_slug lib data w = (x, w') \<Longrightarrow> w' = w"
  by (auto simp: choose_slug_def is_slug_taken_def bindE_def ofE_def dest: slug_loop_state
      split: option.splits if_splits sum.splits)

lemma create_tenant_Inr:
  assumes "create_tenant lib i now data w = (Inr r, w')"
  obtains slug s limit where "choose_slug lib data w = (Inr slug, w)"
    and "settings_of_json (tl_mail lib) (json_of_settings (tc_settings data)) = Some s"
    and "plan_to_max_assets (tc_plan data) = Inr limit"
    and "r = new_tenant i now (tc_name data) slug (tc_plan data) limit s"
    and "tenants (work w') = tenants (work w) @ [r]" and "violation (work w') = None"
proof -
  from assms obtain slug s limit v where slug: "choose_slug lib data w = (Inr slug, v)"
    and s: "settings_of_json (tl_mail lib) (json_of_settings (tc_settings data)) = Some s"
    and limit: "plan_to_max_assets (tc_plan data) = Inr limit"
    and rest: "thenE (insert_checked (\<lambda>g. rls_row g i) (\<lambda>t. t\<lparr>tenants := tenants t @
        [new_tenant i now (tc_name data) slug (tc_plan data) limit s]\<rparr>)) (refresh_tenant i) v = (Inr r, w')"
    by (auto simp: create_tenant_def bindE_success Let_def split: option.splits)
  note v = choose_slug_state [OF slug]
  let ?new = "new_tenant i now (tc_name data) slug (tc_plan data) limit s"
  from rest have w': "w' = w\<lparr>work := (work w)\<lparr>tenants := tenants (work w) @ [?new]\<rparr>\<rparr>" and "violation (work w') = None"
    and rls: "rls_row (guc w) i" and "filter (\<lambda>t. t_id t = i) (seen_tenants w') = [r]"
    by (auto simp: thenE_def bindE_success insert_checked_Inr refresh_tenant_def scalar_one_run v)
  moreover have "?new \<in> set (filter (\<lambda>t. t_id t = i) (seen_tenants w'))"
    using rls by (simp add: w' seen_tenants_def new_tenant_def)
  ultimately have "r = ?new" by auto
  with slug v s limit w' \<open>violation (work w') = None\<close> show thesis by (intro that) auto
qed

lemma apply_tenant_update_keeps:
  assumes "apply_tenant_update lib data t = Inr t'"
  shows "t_id t' = t_id t" "t_slug t' = t_slug t" "t_created t' = t_created t"
    "t_active t' = (case set_field (tu_active data) of None \<Rightarrow> t_active t | Some b \<Rightarrow> b)"
  using assms
  by (auto simp: apply_tenant_update_def apply_tenant_plan_def set_field_def Let_def map_sum_Inr split: option.splits sum.splits if_splits)

lemma update_tenant_Inr:
  assumes "update_tenant call env lib now i data w = (Inr r, w')"
  obtains t t' where "t \<in> set (tenants (work w))" and "t_id t = i" and "apply_tenant_update lib data t = Inr t'"
    and "tenants (work w') = update_where (\<lambda>r. t_id r = i) (\<lambda>_. t') (tenants (work w))"
    and "tu_active data = Some (Some False) \<and> t_active t \<longrightarrow>
      (\<exists>v. end_tenant_sessions call env lib now i v = (Inr (), w') \<and> redis v = redis w \<and> guc v = guc w \<and>
        users (work v) = users (work w))"
proof -
  from assms obtain t where t: "t \<in> set (tenants (work w))" "t_id t = i"
    and run: "(let is_deactivating = (tu_active data = Some (Some False) \<and> t_active t) in
         bindE (ofE (apply_tenant_update lib data t)) (\<lambda>t'.
         thenE (exec (\<lambda>tb. tb\<lparr>tenants := update_where (\<lambda>r. t_id r = i) (\<lambda>_. t') (tenants tb)\<rparr>))
         (thenE flush (thenE (whenE is_deactivating (end_tenant_sessions call env lib now i)) (refresh_tenant i))))) w = (Inr r, w')"
    unfolding update_tenant_def by (rule found_tenant)
  from run obtain t' where t': "apply_tenant_update lib data t = Inr t'"
    and rest: "thenE flush (thenE (whenE (tu_active data = Some (Some False) \<and> t_active t)
        (end_tenant_sessions call env lib now i)) (refresh_tenant i))
      (w\<lparr>work := (work w)\<lparr>tenants := update_where (\<lambda>r. t_id r = i) (\<lambda>_. t') (tenants (work w))\<rparr>\<rparr>) = (Inr r, w')"
    by (auto simp: Let_def bindE_success thenE_def)
  define v where "v = w\<lparr>work := (work w)\<lparr>tenants := update_where (\<lambda>r. t_id r = i) (\<lambda>_. t') (tenants (work w))\<rparr>\<rparr>"
  have ends: "end_tenant_sessions call env lib now i v = (Inr (), w')" if "tu_active data = Some (Some False) \<and> t_active t"
    using rest that unfolding v_def [symmetric] by (auto simp: thenE_def bindE_success flush_cases dest: refresh_tenant_Inr)
  have "tenants (work w') = tenants (work v)"
  proof (cases "tu_active data = Some (Some False) \<and> t_active t")
    case True
    have "tenants (work z) = tenants (work y)" if "end_tenant_sessions call env lib now i y = (Inr (), z)" for y z
      using that by (auto simp: end_tenant_sessions_def thenE_def bindE_success deactivate_users_def on_redis_run
          revoke_all_user_tokens_for_tenant_def)
    with ends [OF True] show ?thesis by blast
  next
    case False
    with rest show ?thesis unfolding v_def [symmetric] by (auto simp: thenE_def bindE_success flush_cases dest: refresh_tenant_Inr)
  qed
  with t t' ends show thesis by (intro that [of t t']) (auto simp: v_def intro!: exI [of _ v])
qed

lemma deactivate_tenant_Inr:
  assumes "deactivate_tenant call env lib now i w = (Inr r, w')" and "g_super (guc w)"
  obtains t v where "t \<in> set (tenants (work w))" and "t_id t = i" and "t_active t"
    and "end_tenant_sessions call env lib now i v = (Inr (), w')" and "redis v = redis w" and "guc v = guc w"
    and "users (work v) = users (work w)"
    and "tenants (work w') = update_where (\<lambda>r. t_id r = i) (\<lambda>r. r\<lparr>t_active := False\<rparr>) (tenants (work w))"
proof -
  define v where "v = w\<lparr>work := (work w)\<lparr>tenants := update_where (\<lambda>r. t_id r = i) (\<lambda>r. r\<lparr>t_active := False\<rparr>) (tenants (work w))\<rparr>\<rparr>"
  from assms(1) obtain t where t: "t \<in> set (tenants (work w))" "t_id t = i"
    and rest: "(if \<not> t_active t then raiseE (TenantError 409 ''El tenant ya esta desactivado'')
         else thenE (exec (\<lambda>tb. tb\<lparr>tenants := update_where (\<lambda>r. t_id r = i) (\<lambda>r. r\<lparr>t_active := False\<rparr>) (tenants tb)\<rparr>))
          (thenE flush (thenE (end_tenant_sessions call env lib now i) (thenE flush (refresh_tenant i))))) w = (Inr r, w')"
    unfolding deactivate_tenant_def by (rule found_tenant)
  from rest have "t_active t" and run: "end_tenant_sessions call env lib now i v = (Inr (), w')"
    by (auto simp: bindE_success thenE_def v_def flush_cases dest!: refresh_tenant_Inr split: if_splits)
  have "g_super (guc v)" using assms(2) by (simp add: v_def)
  from end_tenant_sessions_Inr [OF run this] t \<open>t_active t\<close> run show thesis
    by (intro that [of t v]) (auto simp: v_def)
qed

subsection \<open>Deactivation\<close>

lemma valid_tenant_ids: "violation t = None \<Longrightarrow> distinct (map t_id (tenants t))"
  by (auto simp: violation_None constraints_def tenants_ok_def)

lemma served_tenant_deactivation:
  assumes "tenant_endpoint call env lib d me req w = (Inr u, w1)" and "guc w = context_of me"
    and "distinct (map t_id (tenants (work w)))" and "p \<in> set (tenants (work w))" and "t_active p"
    and "q \<in> set (tenants (work w1))" and "t_id q = t_id p" and "\<not> t_active q"
  obtains v where "end_tenant_sessions call env lib (dr_now d) (t_id p) v = (Inr (), w1)" and "redis v = redis w"
    and "g_super (guc v)" and "users (work v) = users (work w)"
proof -
  from assms(1,2) have super: "g_super (guc w)"
    by (auto simp: tenant_endpoint_def thenE_def bindE_success require_superadmin_def context_of_def split: if_splits)
  have "q \<noteq> p" using assms(5,8) by blast
  show thesis
  proof (cases req)
    case (PostTenant data)
    with assms(1) obtain body r where "create_tenant lib (dr_row d) (dr_now d) body w = (Inr r, w1)"
      by (auto simp: tenant_endpoint_def ignoring_def thenE_def bindE_success tenant_error_Inr split: sum.splits)
    then have "q \<in> set (tenants (work w))"
      using assms(6,8) by (elim create_tenant_Inr) (auto simp: new_tenant_def)
    from distinct_map_inj [OF assms(3) this assms(4,7)] \<open>q \<noteq> p\<close> show thesis by blast
  next
    case (PatchTenant i data)
    with assms(1) obtain body r where "update_tenant call env lib (dr_now d) i body w = (Inr r, w1)"
      by (auto simp: tenant_endpoint_def ignoring_def thenE_def bindE_success tenant_error_Inr split: option.splits)
    then obtain t t' where t: "t \<in> set (tenants (work w))" "t_id t = i" "apply_tenant_update lib body t = Inr t'"
      and ten: "tenants (work w1) = update_where (\<lambda>r. t_id r = i) (\<lambda>_. t') (tenants (work w))"
      and ends: "tu_active body = Some (Some False) \<and> t_active t \<longrightarrow>
        (\<exists>v. end_tenant_sessions call env lib (dr_now d) i v = (Inr (), w1) \<and> redis v = redis w \<and> guc v = guc w \<and>
          users (work v) = users (work w))" by (rule update_tenant_Inr)
    note t' = apply_tenant_update_keeps [OF t(3)]
    from update_where_key [OF assms(3,4) _ assms(7), of t "\<lambda>_. t'"] t t'(1) ten assms(6) \<open>q \<noteq> p\<close>
    have same: "p = t" "q = t'" by auto
    with t'(4) assms(5,8) have "tu_active body = Some (Some False)"
      by (auto simp: set_field_def split: option.splits)
    with ends super same assms(5) t(2) show thesis by (auto intro: that)
  next
    case (RemoveTenant i)
    with assms(1) obtain r where "deactivate_tenant call env lib (dr_now d) i w = (Inr r, w1)"
      by (auto simp: tenant_endpoint_def ignoring_def thenE_def bindE_success tenant_error_Inr)
    then obtain t v where t: "t \<in> set (tenants (work w))" "t_id t = i"
      and v: "end_tenant_sessions call env lib (dr_now d) i v = (Inr (), w1)" "redis v = redis w" "guc v = guc w"
        "users (work v) = users (work w)"
      and ten: "tenants (work w1) = update_where (\<lambda>r. t_id r = i) (\<lambda>r. r\<lparr>t_active := False\<rparr>) (tenants (work w))"
      using super by (rule deactivate_tenant_Inr)
    have "q \<in> set (update_where (\<lambda>r. t_id r = t_id t) (\<lambda>r. r\<lparr>t_active := False\<rparr>) (tenants (work w)))"
      using assms(6) unfolding ten t(2) .
    from update_where_key [OF assms(3,4) this assms(7)] t \<open>q \<noteq> p\<close> have "p = t" by auto
    with t v super show thesis by (intro that [of v]) auto
  qed
qed

text \<open>
  C13: A deactivated tenant is locked out.  Whatever request on the tenant endpoints took the active flag of a
  tenant away, every user of the tenant is inactive in the committed tables, every refresh token of such a
  user is revoked, and every active access token of such a user is on the denylist for its whole life time;
  a request that fails, for one user's tokens or otherwise, commits nothing.
\<close>

theorem deactivated_tenant_locked_out:
  assumes "redis_contract call view" and "serve_tenant refuse call env lib d me req w = (res, w')"
    and "work w = committed w" and "violation (committed w) = None" and "guc w = context_of me"
    and "p \<in> set (tenants (committed w))" and "t_active p"
    and "q \<in> set (tenants (committed w'))" and "t_id q = t_id p" and "\<not> t_active q"
  shows "res = Inr () \<and>
    (\<forall>u \<in> set (users (committed w')). u_tenant u = Some (t_id p) \<longrightarrow> \<not> u_active u \<and>
      (\<forall>r \<in> set (rtokens (committed w')). rt_user r = u_id u \<longrightarrow> rt_revoked r \<noteq> None) \<and>
      (\<forall>js j. store (view (redis w)) (active_jtis_key (ae_str env (u_id u))) = Some (VSet js, None) \<and> finite js \<and> j \<in> js \<longrightarrow>
         denied (view (redis w')) (clock (view (redis w)) + seconds (ae_minutes env * 60)) j))"
proof -
  have ids: "distinct (map t_id (tenants (work w)))" using valid_tenant_ids [OF assms(4)] assms(3) by simp
  from assms(2) obtain w1 where run: "tenant_endpoint call env lib d me req w = (Inr (), w1)" and w': "w' = end_tx (work w1) w1"
    and res: "res = Inr ()"
    unfolding serve_tenant_def
  proof (rule with_session_saved [OF keeps_tenant_endpoint])
    assume "committed w' = committed w"
    with assms(6-10) ids have False using distinct_map_inj [OF ids, of p q] by (auto simp: assms(3))
    then show thesis ..
  qed simp
  from assms w' have p: "p \<in> set (tenants (work w))" and q: "q \<in> set (tenants (work w1))" by auto
  obtain v where e: "end_tenant_sessions call env lib (dr_now d) (t_id p) v = (Inr (), w1)" "redis v = redis w"
    and super: "g_super (guc v)" and us: "users (work v) = users (work w)"
    by (rule served_tenant_deactivation [OF run assms(5) ids p assms(7) q assms(9,10)])
  let ?mine = "filter (\<lambda>u. u_tenant u = Some (t_id p)) (users (work w))"
  from end_tenant_sessions_Inr [OF e(1) super] obtain rs where
    users: "users (work w1) = update_where (\<lambda>u. u_tenant u = Some (t_id p)) (\<lambda>u. u\<lparr>u_active := False\<rparr>) (users (work w))"
    and toks: "\<forall>r \<in> set (rtokens (work w1)). rt_user r \<in> u_id ` {u \<in> set (users (work w)). u_tenant u = Some (t_id p)} \<longrightarrow>
      rt_revoked r \<noteq> None"
    and g: "gather_revocations call (ae_minutes env * 60) (map (ae_str env \<circ> u_id) ?mine) (redis w) = (Inr rs, redis w1)"
      "\<forall>r \<in> set rs. \<not> isl (snd r)"
    by (auto simp: us e(2))
  have "\<not> u_active u \<and> (\<forall>r \<in> set (rtokens (work w1)). rt_user r = u_id u \<longrightarrow> rt_revoked r \<noteq> None) \<and>
      (\<forall>js j. store (view (redis w)) (active_jtis_key (ae_str env (u_id u))) = Some (VSet js, None) \<and> finite js \<and> j \<in> js \<longrightarrow>
         denied (view (redis w1)) (clock (view (redis w)) + seconds (ae_minutes env * 60)) j)"
    if u: "u \<in> set (users (work w1))" "u_tenant u = Some (t_id p)" for u
  proof -
    from u users obtain x where x: "x \<in> set ?mine" "u_id x = u_id u" and off: "\<not> u_active u"
      by (auto simp: update_where_image split: if_splits)
    have "denied (view (redis w1)) (clock (view (redis w)) + seconds (ae_minutes env * 60)) j"
      if "store (view (redis w)) (active_jtis_key (ae_str env (u_id u))) = Some (VSet js, None)" "finite js" "j \<in> js" for js j
    proof -
      have "ae_str env (u_id u) \<in> set (map (ae_str env \<circ> u_id) ?mine)" using x by (force simp: x(2) [symmetric])
      with redis_contract.gather_denies [OF assms(1) g(1) that(2) order_refl disjI1 [OF that(1)]] g(2) that(3)
      show ?thesis by blast
    qed
    moreover have "u_id u \<in> u_id ` {u \<in> set (users (work w)). u_tenant u = Some (t_id p)}"
      unfolding x(2) [symmetric] using x(1) by (intro imageI) simp
    then have "\<forall>r \<in> set (rtokens (work w1)). rt_user r = u_id u \<longrightarrow> rt_revoked r \<noteq> None" using toks by metis
    ultimately show ?thesis using off by blast
  qed
  with res w' show ?thesis by auto
qed

definition sample_tlib :: tenant_lib where
  "sample_tlib = \<lparr>tl_fold = id, tl_mail = Some, tl_show = (\<lambda>_. '''')\<rparr>"

lemma deactivated_tenant_locked_out_witness:
  "\<exists>w'. serve_tenant no_refusal mem_call sample_env sample_tlib sample_draws (sample_user 3 None ''r@x.io'' ''superadmin'')
      (RemoveTenant 1) (sample_team\<lparr>guc := \<lparr>g_tenant = None, g_super = True\<rparr>\<rparr>) = (Inr (), w') \<and>
     map u_active (users (committed w')) = [False, False] \<and> denied (mr_store (redis w')) (5 + seconds 900) ''a''"
proof -
  let ?me = "sample_user 3 None ''r@x.io'' ''superadmin''" and ?w = "sample_team\<lparr>guc := \<lparr>g_tenant = None, g_super = True\<rparr>\<rparr>"
  let ?m = "serve_tenant no_refusal mem_call sample_env sample_tlib sample_draws ?me (RemoveTenant 1)"
  let ?p = "sample_tenant 1" and ?u5 = "sample_user 5 (Some 1) ''u@x.io'' ''admin''" and ?u6 = "sample_user 6 (Some 1) ''v@x.io'' ''analyst''"
  define t0 where "t0 = committed ?w"
  have us: "tenants (committed ?w) = [?p]" "work ?w = committed ?w" "guc ?w = context_of ?me"
    by (simp_all add: sample_team_def sample_tables_def context_of_def sample_user_def Let_def)
  have t0: "tenants t0 = [?p]" "users t0 = [?u5, ?u6]" "rtokens t0 = [(sample_token 1 ''h'' 500)\<lparr>rt_user := 6\<rparr>]" "work ?w = t0"
    "g_super (guc ?w)"
    by (simp_all add: t0_def sample_team_def sample_tables_def Let_def)
  define t1 where "t1 = t0\<lparr>tenants := [?p\<lparr>t_active := False\<rparr>]\<rparr>"
  define t2 where "t2 = t1\<lparr>users := [?u5\<lparr>u_active := False\<rparr>, ?u6\<lparr>u_active := False\<rparr>],
    rtokens := [(sample_token 1 ''h'' 500)\<lparr>rt_user := 6, rt_revoked := Some 100\<rparr>]\<rparr>"
  have valid: "violation t0 = None" "violation t1 = None" "violation t2 = None"
    by (simp_all add: constraint_defs t0_def t1_def t2_def sample_team_def sample_token_def sample_defs Let_def)
  have "fst (revoke_user_tokens_deterministically mem_call (\<lambda>_. '''') 900 [show_nat 5, show_nat 6] (redis sample_team)) = Inr ()"
    by code_simp
  from run_of [OF this] obtain q where
    revoked: "revoke_user_tokens_deterministically mem_call (\<lambda>_. '''') 900 [show_nat 5, show_nat 6] (redis sample_team) = (Inr (), q)"
    by blast
  have get: "get_tenant_by_id 1 ?w = (Inr (Some ?p), ?w)"
    using t0 by (simp add: get_tenant_by_id_def seen_super scalar_one_or_none_def bindE_def sample_tenant_def)
  have des: "deactivate_users 1 (?w\<lparr>work := t1\<rparr>) = (Inr (), ?w\<lparr>work := t1\<lparr>users := users t2\<rparr>\<rparr>)"
    using t0 by (simp add: deactivate_users_def rls_user_def t1_def t2_def sample_user_def)
  have rev: "revoke_all_user_tokens_for_tenant 100 1 (?w\<lparr>work := t1\<lparr>users := users t2\<rparr>\<rparr>) = (Inr (), ?w\<lparr>work := t2\<rparr>)"
    using t0 by (simp add: revoke_all_user_tokens_for_tenant_def rls_rtoken_def seen_super t1_def t2_def sample_user_def
        sample_token_def revoke_row_def)
  have ends: "end_tenant_sessions mem_call sample_env sample_tlib 100 1 (?w\<lparr>work := t1\<rparr>) = (Inr (), ?w\<lparr>work := t2, redis := q\<rparr>)"
  proof -
    have ids: "map (ae_str sample_env) (map u_id (filter (\<lambda>u. u_tenant u = Some 1) (seen_users (?w\<lparr>work := t2\<rparr>)))) =
        [show_nat 5, show_nat 6]"
      using t0(5) by (simp add: seen_super t2_def sample_user_def sample_env_def del: show_nat.simps)
    have "on_redis (revoke_user_tokens_deterministically mem_call (tl_show sample_tlib) (ae_minutes sample_env * 60)
        [show_nat 5, show_nat 6]) (?w\<lparr>work := t2\<rparr>) = (Inr (), ?w\<lparr>work := t2, redis := q\<rparr>)"
      using revoked by (simp add: on_redis_def sample_tlib_def sample_env_def del: show_nat.simps)
    then show ?thesis
      unfolding end_tenant_sessions_def thenE_def bindE_def des rev prod.case sum.case getE_def ids .
  qed
  have "refresh_tenant 1 (?w\<lparr>work := t2, redis := q\<rparr>) = (Inr (?p\<lparr>t_active := False\<rparr>), ?w\<lparr>work := t2, redis := q\<rparr>)"
    using t0 by (simp add: refresh_tenant_def bindE_def seen_super scalar_one_def t2_def t1_def sample_tenant_def)
  with get ends valid t0 have "deactivate_tenant mem_call sample_env sample_tlib 100 1 ?w =
      (Inr (?p\<lparr>t_active := False\<rparr>), ?w\<lparr>work := t2, redis := q\<rparr>)"
    by (simp add: deactivate_tenant_def bindE_def thenE_def flush_ok sample_tenant_def t1_def)
  with valid have "?m ?w = (Inr (), end_tx t2 (?w\<lparr>work := t2, redis := q\<rparr>))"
    by (simp add: serve_tenant_def tenant_endpoint_def with_session_Inr require_superadmin_def ignoring_def tenant_error_def
        catchE_def thenE_def bindE_def ofE_def sample_draws_def sample_user_def no_refusal_def)
  then have run: "fst (?m ?w) = Inr () \<and> tenants (committed (snd (?m ?w))) = [?p\<lparr>t_active := False\<rparr>] \<and>
      users (committed (snd (?m ?w))) = [?u5\<lparr>u_active := False\<rparr>, ?u6\<lparr>u_active := False\<rparr>]"
    by (simp add: t2_def t1_def)
  define S where "S = ?m ?w"
  have S: "serve_tenant no_refusal mem_call sample_env sample_tlib sample_draws ?me (RemoveTenant 1) ?w = (fst S, snd S)"
    by (simp add: S_def)
  have st: "store (mr_store (redis ?w)) (active_jtis_key (ae_str sample_env 6)) = Some (VSet {''a''}, None)"
    by (simp add: sample_team_def store_def sample_env_def Let_def)
  have clk: "clock (mr_store (redis ?w)) = 5" "ae_minutes sample_env * 60 = 900"
    by (simp_all add: sample_team_def sample_env_def Let_def)
  have "?p \<in> set (tenants (committed ?w))" "t_active ?p" "t_id (?p\<lparr>t_active := False\<rparr>) = t_id ?p" "\<not> t_active (?p\<lparr>t_active := False\<rparr>)"
    unfolding us by (simp_all add: sample_tenant_def)
  moreover have "?p\<lparr>t_active := False\<rparr> \<in> set (tenants (committed (snd S)))" using run unfolding S_def by simp
  moreover have "?u6\<lparr>u_active := False\<rparr> \<in> set (users (committed (snd S)))" "u_id (?u6\<lparr>u_active := False\<rparr>) = 6"
    "u_tenant (?u6\<lparr>u_active := False\<rparr>) = Some (t_id ?p)"
    using run unfolding S_def by (simp_all add: sample_tenant_def sample_user_def)
  ultimately have "denied (mr_store (redis (snd S))) (clock (mr_store (redis ?w)) + seconds (ae_minutes sample_env * 60)) ''a''"
    using deactivated_tenant_locked_out [OF mem_contract S us(2) valid(1) [unfolded t0_def] us(3), of ?p "?p\<lparr>t_active := False\<rparr>"] st by auto
  moreover have "map u_active (users (committed (snd S))) = [False, False]" using run unfolding S_def by auto
  ultimately show ?thesis using run S unfolding clk S_def by (intro exI [of _ "snd (?m ?w)"]) simp
qed

subsection \<open>Slugs\<close>

abbreviation not_both_dashes :: "char \<Rightarrow> char \<Rightarrow> bool" where
  "not_both_dashes a b \<equiv> \<not> (a = CHR ''-'' \<and> b = CHR ''-'')"

lemma split_on_Cons: "split_on c (x # xs) =
    (if x = c then [] # split_on c xs else (x # hd (split_on c xs)) # tl (split_on c xs))"
  using split_on_ne [of c xs] by (cases "split_on c xs") simp_all

lemma list_all_hd_tl: "xs \<noteq> [] \<Longrightarrow> list_all P xs \<longleftrightarrow> P (hd xs) \<and> list_all P (tl xs)"
  by (cases xs) simp_all

lemma slug_tail:
  "(list_all slug_char (hd (split_on CHR ''-'' s)) \<and> list_all (\<lambda>p. p \<noteq> [] \<and> list_all slug_char p) (tl (split_on CHR ''-'' s))) \<longleftrightarrow>
    list_all (\<lambda>c. slug_char c \<or> c = CHR ''-'') s \<and> successively not_both_dashes s \<and> (s \<noteq> [] \<longrightarrow> last s \<noteq> CHR ''-'')"
proof (induction s)
  case (Cons c s)
  have dash: "\<not> slug_char CHR ''-''" by (simp add: slug_char_def is_alnum_def is_alpha_def is_digit_def)
  have first: "hd (split_on CHR ''-'' s) = [] \<longleftrightarrow> s = [] \<or> hd s = CHR ''-''"
    by (cases s) (auto simp: split_on_Cons simp del: split_on.simps(2))
  show ?case
  proof (cases "c = CHR ''-''")
    case True
    have "list_all (\<lambda>p. p \<noteq> [] \<and> list_all slug_char p) (split_on CHR ''-'' s) \<longleftrightarrow>
        hd (split_on CHR ''-'' s) \<noteq> [] \<and> list_all slug_char (hd (split_on CHR ''-'' s)) \<and>
        list_all (\<lambda>p. p \<noteq> [] \<and> list_all slug_char p) (tl (split_on CHR ''-'' s))"
      by (simp add: list_all_hd_tl)
    with True first Cons.IH dash show ?thesis
      by (cases s) (auto simp: split_on_Cons simp del: split_on.simps(2))
  next
    case False
    with Cons.IH show ?thesis
      by (cases s) (auto simp: split_on_Cons simp del: split_on.simps(2))
  qed
qed simp

lemma slug_form_iff:
  "slug_form s \<longleftrightarrow> s \<noteq> [] \<and> hd s \<noteq> CHR ''-'' \<and> last s \<noteq> CHR ''-'' \<and>
    list_all (\<lambda>c. slug_char c \<or> c = CHR ''-'') s \<and> successively not_both_dashes s"
proof -
  have first: "hd (split_on CHR ''-'' s) = [] \<longleftrightarrow> s = [] \<or> hd s = CHR ''-''"
    by (cases s) (auto simp: split_on_Cons simp del: split_on.simps(2))
  have "slug_form s \<longleftrightarrow> hd (split_on CHR ''-'' s) \<noteq> [] \<and> (list_all slug_char (hd (split_on CHR ''-'' s)) \<and>
      list_all (\<lambda>p. p \<noteq> [] \<and> list_all slug_char p) (tl (split_on CHR ''-'' s)))"
    unfolding slug_form_def by (simp add: list_all_hd_tl)
  then show ?thesis unfolding slug_tail first by auto
qed

lemma dash_runs_chars: "c \<in> set (dash_runs p run s) \<Longrightarrow> c = CHR ''-'' \<or> c \<in> set s \<and> \<not> p c"
  by (induction p run s rule: dash_runs.induct) (auto split: if_splits)

lemma dash_runs_single:
  "successively not_both_dashes (dash_runs (\<lambda>c. c = CHR ''-'') run s) \<and>
   (run \<longrightarrow> dash_runs (\<lambda>c. c = CHR ''-'') run s = [] \<or> hd (dash_runs (\<lambda>c. c = CHR ''-'') run s) \<noteq> CHR ''-'')"
proof (induction s arbitrary: run)
  case (Cons c s)
  from Cons.IH [of True] Cons.IH [of False] show ?case
    by (cases "dash_runs (\<lambda>c. c = CHR ''-'') True s"; cases "dash_runs (\<lambda>c. c = CHR ''-'') False s") auto
qed simp

lemma dash_runs_none: "list_all (\<lambda>c. \<not> p c) s \<Longrightarrow> dash_runs p run s = s"
  by (induction p run s rule: dash_runs.induct) auto

lemma dash_runs_dashes:
  "successively not_both_dashes s \<Longrightarrow> \<not> (run \<and> s \<noteq> [] \<and> hd s = CHR ''-'') \<Longrightarrow> dash_runs (\<lambda>c. c = CHR ''-'') run s = s"
proof (induction s arbitrary: run)
  case (Cons c s)
  then show ?case by (cases s) auto
qed simp

lemma successively_dropWhile: "successively P xs \<Longrightarrow> successively P (dropWhile q xs)"
  using successively_append_iff [of P "takeWhile q xs" "dropWhile q xs"] by simp

lemma strip_dash_form:
  assumes "successively not_both_dashes s"
  shows "successively not_both_dashes (strip_dash s) \<and> set (strip_dash s) \<subseteq> set s \<and>
    (strip_dash s \<noteq> [] \<longrightarrow> hd (strip_dash s) \<noteq> CHR ''-'' \<and> last (strip_dash s) \<noteq> CHR ''-'')"
proof -
  let ?d = "dropWhile (\<lambda>c. c = CHR ''-'')"
  let ?t = "?d s"
  have t: "successively not_both_dashes ?t" by (rule successively_dropWhile [OF assms])
  then have "successively not_both_dashes (rev ?t)"
    unfolding successively_rev by (rule successively_mono) auto
  from successively_dropWhile [OF this] have "successively not_both_dashes (rev (?d (rev ?t)))"
    unfolding successively_rev by (rule successively_mono) auto
  moreover have "set (?d (rev ?t)) \<subseteq> set s" by (auto dest!: set_dropWhileD)
  moreover have "last (rev (?d (rev ?t))) \<noteq> CHR ''-''" if "?d (rev ?t) \<noteq> []"
    using hd_dropWhile [of "\<lambda>c. c = CHR ''-''" "rev ?t"] that by (simp add: last_rev)
  moreover have "hd (rev (?d (rev ?t))) \<noteq> CHR ''-''" if ne: "?d (rev ?t) \<noteq> []"
  proof -
    define u v where "u = takeWhile (\<lambda>c. c = CHR ''-'') (rev ?t)" and "v = ?d (rev ?t)"
    have "rev ?t = u @ v" by (simp add: u_def v_def)
    then have t: "?t = rev v @ rev u" by (metis rev_append rev_rev_ident)
    have "v \<noteq> []" using ne by (simp add: v_def)
    with t have "hd (rev v) = hd ?t" "?t \<noteq> []" by simp_all
    with hd_dropWhile [of "\<lambda>c. c = CHR ''-''" s] show ?thesis by (simp add: v_def)
  qed
  ultimately show ?thesis
    unfolding strip_dash_def rstrip_char_def set_rev rev_is_Nil_conv by blast
qed

lemma strip_chars: "set (strip s) \<subseteq> set s"
  unfolding strip_def rstrip_def lstrip_def by (auto dest!: set_dropWhileD)

lemma base_slug_form:
  assumes "base_slug a \<noteq> []"
  shows "slug_form (base_slug a)"
proof -
  define s2 where "s2 = filter (\<lambda>c. is_alnum c \<or> c = CHR ''_'' \<or> is_space c \<or> c = CHR ''-'') (strip (lower a))"
  define s3 where "s3 = dash_runs (\<lambda>c. is_space c \<or> c = CHR ''_'') False s2"
  define s4 where "s4 = dash_runs (\<lambda>c. c = CHR ''-'') False s3"
  have b: "base_slug a = strip_dash s4" by (simp add: base_slug_def Let_def s2_def s3_def s4_def)
  have low: "lower_char c = c" if "c \<in> set s2" for c
    using that strip_chars [of "lower a"] by (auto simp: s2_def lower_def)
  have "slug_char c \<or> c = CHR ''-''" if "c \<in> set s4" for c
  proof -
    from dash_runs_chars [OF that [unfolded s4_def]] have "c = CHR ''-'' \<or> c \<in> set s3" by blast
    then have "c = CHR ''-'' \<or> c \<in> set s2 \<and> \<not> (is_space c \<or> c = CHR ''_'')"
      using dash_runs_chars unfolding s3_def by blast
    with low show ?thesis by (auto simp: slug_char_def s2_def)
  qed
  moreover note strip_dash_form [OF conjunct1 [OF dash_runs_single [of False s3]], folded s4_def]
  ultimately show ?thesis using assms unfolding b slug_form_iff list_all_iff by blast
qed

lemma dropWhile_hd: "s \<noteq> [] \<Longrightarrow> \<not> q (hd s) \<Longrightarrow> dropWhile q s = s"
  by (cases s) simp_all

lemma strip_dash_id: "s \<noteq> [] \<Longrightarrow> hd s \<noteq> CHR ''-'' \<Longrightarrow> last s \<noteq> CHR ''-'' \<Longrightarrow> strip_dash s = s"
  by (simp add: strip_dash_def rstrip_char_def dropWhile_hd hd_rev)

lemma base_slug_id:
  assumes "slug_form s"
  shows "base_slug s = s"
proof -
  from assms have s: "s \<noteq> []" "hd s \<noteq> CHR ''-''" "last s \<noteq> CHR ''-''" "list_all (\<lambda>c. slug_char c \<or> c = CHR ''-'') s"
    "successively not_both_dashes s" by (simp_all add: slug_form_iff)
  have dash: "\<not> is_space CHR ''-''" "lower_char CHR ''-'' = CHR ''-''" by (simp_all add: is_space_def lower_char_def)
  have ch: "\<not> is_space c \<and> lower_char c = c \<and> (is_alnum c \<or> c = CHR ''-'') \<and> c \<noteq> CHR ''_''" if "c \<in> set s" for c
    using that s(4) dash alnum_no_space [of c]
    by (auto simp: list_all_iff slug_char_def is_alnum_def is_alpha_def is_digit_def)
  have "lower s = s" using ch by (simp add: lower_def map_idI)
  moreover have "strip s = s" using ch by (intro strip_clean) simp
  moreover have "filter (\<lambda>c. is_alnum c \<or> c = CHR ''_'' \<or> is_space c \<or> c = CHR ''-'') s = s"
    using ch by (auto simp: filter_id_conv)
  moreover have "dash_runs (\<lambda>c. is_space c \<or> c = CHR ''_'') False s = s"
    using ch by (intro dash_runs_none) (auto simp: list_all_iff)
  moreover have "dash_runs (\<lambda>c. c = CHR ''-'') False s = s" using s(5) by (intro dash_runs_dashes) simp_all
  moreover have "strip_dash s = s" by (rule strip_dash_id [OF s(1-3)])
  ultimately show ?thesis by (simp add: base_slug_def Let_def)
qed

text \<open>The loop: the first free candidate, or the error when there is none.\<close>

lemma slug_loop_run:
  "slug_loop base slug suffix w =
    (case List.find (\<lambda>s. s \<notin> t_slug ` set (seen_tenants w))
       (slug # map (\<lambda>k. base @ ''-'' @ show_nat k) [suffix..<Suc MAX_SLUG_ATTEMPTS]) of
     Some s \<Rightarrow> (Inr s, w)
   | None \<Rightarrow> (Inl (TenantError 409 (''No se pudo generar un slug '' @ [CHR 0xFA] @ ''nico para este nombre.'')), w))"
proof (induction base slug suffix rule: slug_loop.induct)
  case (1 base slug suffix)
  let ?taken = "0 < count_where (\<lambda>t. t_slug t = slug) (seen_tenants w)"
  have taken: "?taken \<longleftrightarrow> slug \<in> t_slug ` set (seen_tenants w)"
    using count_where_0 [of "\<lambda>t. t_slug t = slug" "seen_tenants w"] by auto
  have step: "slug_loop base slug suffix w = (if \<not> ?taken then (Inr slug, w)
     else if MAX_SLUG_ATTEMPTS < suffix
     then (Inl (TenantError 409 (''No se pudo generar un slug '' @ [CHR 0xFA] @ ''nico para este nombre.'')), w)
     else slug_loop base (base @ ''-'' @ show_nat suffix) (Suc suffix) w)"
    by (subst slug_loop.simps) (simp add: is_slug_taken_def bindE_def)
  show ?case
  proof (cases "?taken \<and> suffix \<le> MAX_SLUG_ATTEMPTS")
    case True
    then have "[suffix..<Suc MAX_SLUG_ATTEMPTS] = suffix # [Suc suffix..<Suc MAX_SLUG_ATTEMPTS]"
      by (simp add: upt_conv_Cons)
    with True 1 [of True] taken show ?thesis unfolding step by simp
  next
    case False
    with taken show ?thesis unfolding step by (auto simp del: show_nat.simps)
  qed
qed

text \<open>
  The slug of a new tenant.  What \<open>_generate_slug\<close> makes of any name, before it is cut to a hundred characters,
  is empty or has the form the schema asks for, and making a slug of a slug changes nothing.  A requested slug is
  taken as it is or refused with a conflict; otherwise the slug is the first of the generated one and its
  numbered variants from 2 to 100 that no visible tenant has, and only when all hundred are taken there is a
  conflict.  The search always ends, and changes nothing.
\<close>

theorem tenant_slug_choice:
  "(base_slug a = [] \<or> slug_form (base_slug a)) \<and> base_slug (base_slug a) = base_slug a \<and>
   choose_slug lib data w =
     ((case set_field (tc_slug data) of
         Some s \<Rightarrow> if s \<in> t_slug ` set (seen_tenants w) then Inl (TenantError 409 ''El slug ya esta en uso.'') else Inr s
       | None \<Rightarrow> (case generate_slug (tl_fold lib) (tc_name data) of
             Inl e \<Rightarrow> Inl e
           | Inr base \<Rightarrow>
               (case List.find (\<lambda>s. s \<notin> t_slug ` set (seen_tenants w))
                   (base # map (\<lambda>k. base @ ''-'' @ show_nat k) [2..<101]) of
                  Some s \<Rightarrow> Inr s
                | None \<Rightarrow> Inl (TenantError 409 (''No se pudo generar un slug '' @ [CHR 0xFA] @ ''nico para este nombre.''))))), w)"
proof -
  have "base_slug a = [] \<or> slug_form (base_slug a)" using base_slug_form by blast
  moreover have "base_slug [] = []"
    by (simp add: base_slug_def lower_def strip_def rstrip_def lstrip_def strip_dash_def rstrip_char_def)
  ultimately have "base_slug (base_slug a) = base_slug a" using base_slug_id by metis
  moreover have taken: "0 < count_where (\<lambda>t. t_slug t = s) (seen_tenants w) \<longleftrightarrow> s \<in> t_slug ` set (seen_tenants w)" for s
    using count_where_0 [of "\<lambda>t. t_slug t = s" "seen_tenants w"] by auto
  have "Suc MAX_SLUG_ATTEMPTS = 101" by (simp add: MAX_SLUG_ATTEMPTS_def)
  note loop = slug_loop_run [where w = w and suffix = 2, unfolded this]
  have "choose_slug lib data w =
     ((case set_field (tc_slug data) of
         Some s \<Rightarrow> if s \<in> t_slug ` set (seen_tenants w) then Inl (TenantError 409 ''El slug ya esta en uso.'') else Inr s
       | None \<Rightarrow> (case generate_slug (tl_fold lib) (tc_name data) of
             Inl e \<Rightarrow> Inl e
           | Inr base \<Rightarrow>
               (case List.find (\<lambda>s. s \<notin> t_slug ` set (seen_tenants w))
                   (base # map (\<lambda>k. base @ ''-'' @ show_nat k) [2..<101]) of
                  Some s \<Rightarrow> Inr s
                | None \<Rightarrow> Inl (TenantError 409 (''No se pudo generar un slug '' @ [CHR 0xFA] @ ''nico para este nombre.''))))), w)"
  proof (cases "set_field (tc_slug data)")
    case None
    then show ?thesis
      by (cases "generate_slug (tl_fold lib) (tc_name data)")
        (simp_all add: choose_slug_def bindE_def ofE_def loop del: upt_rec_numeral split: option.split)
  next
    case (Some s)
    then show ?thesis by (simp add: choose_slug_def is_slug_taken_def bindE_def taken)
  qed
  ultimately show ?thesis using \<open>base_slug a = [] \<or> slug_form (base_slug a)\<close> by blast
qed

subsection \<open>Settings and plans\<close>

text \<open>Parsing what a parse gave, printed, gives it again, when the validation of an address is idempotent.\<close>

lemma settings_roundtrip:
  assumes "settings_of_json mail d = Some s" and "\<And>a b. mail a = Some b \<Longrightarrow> mail b = Some b"
  shows "settings_of_json mail (json_of_settings s) = Some s"
proof -
  have str: "as_str (JStr v) = Some v" for v by simp
  from assms(1) obtain m sch sev tz lim buf rst where p:
    "field d ''notification_email'' None (as_mail mail) = Some m" "field d ''severity_threshold'' ''medium'' as_severity = Some sev"
    "field d ''scan_limits'' default_limits as_limits = Some lim" "field d ''log_buffer_max'' 500 as_positive = Some buf"
    and s: "s = \<lparr>ts_mail = m, ts_schedule = sch, ts_severity = sev, ts_timezone = tz, ts_limits = lim, ts_buffer = buf, ts_reset = rst\<rparr>"
    by (auto simp: settings_of_json_def bind_eq_Some_conv)
  have pos: "as_positive j = Some n \<Longrightarrow> 0 < n" for j n by (cases j) (auto split: if_splits)
  have "as_mail mail (json_of_mail m) = Some m"
  proof -
    have "as_mail mail j = Some m \<Longrightarrow> as_mail mail (json_of_mail m) = Some m" for j
      using assms(2) by (cases j) (auto simp: json_of_mail_def)
    then show ?thesis using p(1) by (auto simp: field_def json_of_mail_def split: option.splits)
  qed
  moreover have "as_severity (JStr sev) = Some sev"
    using p(2) by (auto simp: field_def as_severity_def SEVERITY_THRESHOLDS_def split: option.splits if_splits)
  moreover have "as_limits (json_of_limits lim) = Some lim"
  proof -
    have "0 < sl_daily lim \<and> 0 < sl_concurrent lim"
    proof (cases "map_of d ''scan_limits''")
      case None
      with p(3) show ?thesis by (auto simp: field_def default_limits_def)
    next
      case (Some j)
      with p(3) have "as_limits j = Some lim" by (simp add: field_def)
      then show ?thesis
        by (cases j) (auto simp: bind_eq_Some_conv field_def split: if_splits option.splits dest!: pos)
    qed
    then show ?thesis by (simp add: json_of_limits_def field_def)
  qed
  moreover have "0 < buf" using p(4) by (auto simp: field_def split: option.splits dest!: pos)
  ultimately show ?thesis by (simp add: settings_of_json_def json_of_settings_def field_def s)
qed

definition plan_wf :: "tenant_row \<Rightarrow> bool" where
  "plan_wf r \<longleftrightarrow> (case map_of PLAN_MAX_ASSETS (t_plan r) of None \<Rightarrow> False | Some n \<Rightarrow> 1 \<le> t_max_assets r \<and> t_max_assets r \<le> n)"

definition settings_wf :: "(string \<Rightarrow> string option) \<Rightarrow> jdict option \<Rightarrow> bool" where
  "settings_wf mail stored \<longleftrightarrow> (case stored of None \<Rightarrow> True
      | Some d \<Rightarrow> (case settings_of_json mail d of None \<Rightarrow> False | Some s \<Rightarrow> d = json_of_settings s))"

definition tenant_wf :: "(string \<Rightarrow> string option) \<Rightarrow> tenant_row \<Rightarrow> bool" where
  "tenant_wf mail r \<longleftrightarrow> plan_wf r \<and> settings_wf mail (t_settings r)"

lemma plan_to_max_assets_Inr: "plan_to_max_assets p = Inr n \<longleftrightarrow> map_of PLAN_MAX_ASSETS p = Some n"
  by (auto simp: plan_to_max_assets_def split: option.splits)

lemma plan_positive: "map_of PLAN_MAX_ASSETS p = Some n \<Longrightarrow> 1 \<le> n"
  by (auto simp: PLAN_MAX_ASSETS_def split: if_splits)

lemma settings_wf_json: "settings_of_json mail (json_of_settings s) = Some s \<Longrightarrow> settings_wf mail (Some (json_of_settings s))"
  by (simp add: settings_wf_def)

lemma merge_settings_wf:
  assumes "merge_settings mail stored p = Inr d" and "\<And>a b. mail a = Some b \<Longrightarrow> mail b = Some b"
  shows "settings_wf mail (Some d)"
  using assms(1) settings_roundtrip [OF _ assms(2)] settings_wf_json
  by (fastforce simp: merge_settings_def split: option.splits)

lemma apply_tenant_plan_wf:
  assumes "apply_tenant_plan data t = Inr t'" and "plan_wf t" and "\<And>v. set_field (tu_max_assets data) = Some v \<Longrightarrow> 1 \<le> v"
  shows "plan_wf t' \<and> t_settings t' = t_settings t"
  using assms
  by (auto simp: apply_tenant_plan_def plan_wf_def Let_def map_sum_Inr plan_to_max_assets_Inr set_field_def dest: plan_positive
      split: option.splits sum.splits if_splits)

lemma apply_tenant_update_wf:
  assumes "apply_tenant_update lib data t = Inr t'" and "tenant_wf (tl_mail lib) t"
    and "\<And>v. set_field (tu_max_assets data) = Some v \<Longrightarrow> 1 \<le> v"
    and "\<And>a b. tl_mail lib a = Some b \<Longrightarrow> tl_mail lib b = Some b"
  shows "tenant_wf (tl_mail lib) t'"
proof -
  have flag: "tenant_wf m (u\<lparr>t_active := b\<rparr>) = tenant_wf m u" "plan_wf (u\<lparr>t_name := n\<rparr>) = plan_wf u"
    "plan_wf (u\<lparr>t_settings := x\<rparr>) = plan_wf u" for m u b n x
    by (simp_all add: tenant_wf_def plan_wf_def split: option.split)
  have main: "tenant_wf (tl_mail lib) t'" if plan: "apply_tenant_plan data t1 = Inr t2" and t1: "plan_wf t1" "t_settings t1 = t_settings t"
    and t': "t' = t3 \<or> (\<exists>b. t' = t3\<lparr>t_active := b\<rparr>)"
    and t3: "t3 = t2 \<or> (\<exists>p d. merge_settings (tl_mail lib) (t_settings t2) p = Inr d \<and> t3 = t2\<lparr>t_settings := Some d\<rparr>)" for t1 t2 t3
  proof -
    note t2 = apply_tenant_plan_wf [OF plan t1(1) assms(3)]
    have "tenant_wf (tl_mail lib) t3"
      using t3 t2 t1(2) assms(2) merge_settings_wf [OF _ assms(4)] by (auto simp: tenant_wf_def flag)
    with t' show ?thesis by (auto simp: flag)
  qed
  have t: "plan_wf t" using assms(2) by (simp add: tenant_wf_def)
  define rest :: "tenant_row \<Rightarrow> exn + tenant_row" where "rest t2 = (case (case tu_settings data of
                None \<Rightarrow> Inr t2
              | Some None \<Rightarrow> (case settings_of_json (tl_mail lib) (case t_settings t2 of None \<Rightarrow> [] | Some d \<Rightarrow> d) of
                    None \<Rightarrow> Inl (ValueError ''TenantSettings'') | Some s \<Rightarrow> Inl (OtherError ''TypeError''))
              | Some (Some p) \<Rightarrow> map_sum id (\<lambda>d. t2\<lparr>t_settings := Some d\<rparr>) (merge_settings (tl_mail lib) (t_settings t2) p)) of
            Inl e \<Rightarrow> Inl e
          | Inr t3 \<Rightarrow> (case tu_active data of None \<Rightarrow> Inr t3 | Some None \<Rightarrow> Inl (IntegrityError ''is_active'')
              | Some (Some b) \<Rightarrow> Inr (t3\<lparr>t_active := b\<rparr>)))" for t2
  have "\<exists>t1 t2. (t1 = t \<or> (\<exists>n. t1 = t\<lparr>t_name := n\<rparr>)) \<and> apply_tenant_plan data t1 = Inr t2 \<and> rest t2 = Inr t'"
  proof (cases "tu_name data")
    case None
    with assms(1) show ?thesis unfolding apply_tenant_update_def rest_def [symmetric] by (auto split: sum.split_asm)
  next
    case (Some n)
    with assms(1) show ?thesis unfolding apply_tenant_update_def rest_def [symmetric]
      by (cases n) (simp_all split: sum.split_asm, blast)
  qed
  then obtain t1 t2 where t1: "t1 = t \<or> (\<exists>n. t1 = t\<lparr>t_name := n\<rparr>)" and t2: "apply_tenant_plan data t1 = Inr t2"
    and rest: "rest t2 = Inr t'" by blast
  from rest [unfolded rest_def] obtain t3 where
    t3: "t3 = t2 \<or> (\<exists>p d. merge_settings (tl_mail lib) (t_settings t2) p = Inr d \<and> t3 = t2\<lparr>t_settings := Some d\<rparr>)"
    and "(case tu_active data of None \<Rightarrow> Inr t3 | Some None \<Rightarrow> Inl (IntegrityError ''is_active'')
              | Some (Some b) \<Rightarrow> Inr (t3\<lparr>t_active := b\<rparr>)) = Inr t'"
    by (auto simp: map_sum_Inr split: sum.split_asm option.split_asm)
  then have "t' = t3 \<or> (\<exists>b. t' = t3\<lparr>t_active := b\<rparr>)" by (auto split: option.split_asm)
  moreover have "plan_wf t1" "t_settings t1 = t_settings t" using t1 t by (auto simp: flag)
  ultimately show ?thesis using main [OF t2] t3 by blast
qed

lemma endpoint_keeps_tenants_wf:
  assumes "tenant_endpoint call env lib d me req w = (Inr u, w1)" and "guc w = context_of me"
    and "\<And>a b. tl_mail lib a = Some b \<Longrightarrow> tl_mail lib b = Some b" and "\<forall>t \<in> set (tenants (work w)). tenant_wf (tl_mail lib) t"
  shows "\<forall>t \<in> set (tenants (work w1)). tenant_wf (tl_mail lib) t"
proof -
  from assms(1,2) have super: "g_super (guc w)"
    by (auto simp: tenant_endpoint_def thenE_def bindE_success require_superadmin_def context_of_def split: if_splits)
  show ?thesis
  proof (cases req)
    case (PostTenant data)
    with assms(1) obtain body r where run: "create_tenant lib (dr_row d) (dr_now d) body w = (Inr r, w1)"
      by (auto simp: tenant_endpoint_def ignoring_def thenE_def bindE_success tenant_error_Inr split: sum.splits)
    then obtain slug s limit where s: "settings_of_json (tl_mail lib) (json_of_settings (tc_settings body)) = Some s"
      and limit: "plan_to_max_assets (tc_plan body) = Inr limit"
      and r: "r = new_tenant (dr_row d) (dr_now d) (tc_name body) slug (tc_plan body) limit s"
      and ten: "tenants (work w1) = tenants (work w) @ [r]" by (rule create_tenant_Inr)
    have "plan_wf r" using limit plan_positive by (auto simp: plan_wf_def r new_tenant_def plan_to_max_assets_Inr)
    moreover have "settings_wf (tl_mail lib) (t_settings r)"
      using settings_wf_json [OF settings_roundtrip [OF s assms(3)]] by (simp add: r new_tenant_def)
    ultimately show ?thesis using assms(4) by (simp add: ten tenant_wf_def)
  next
    case (PatchTenant i data)
    with assms(1) obtain body r where body: "check_tenant_update (tl_mail lib) data = Some body"
      and "update_tenant call env lib (dr_now d) i body w = (Inr r, w1)"
      by (auto simp: tenant_endpoint_def ignoring_def thenE_def bindE_success tenant_error_Inr split: option.splits)
    then obtain t t' where t: "t \<in> set (tenants (work w))" "apply_tenant_update lib body t = Inr t'"
      and ten: "tenants (work w1) = update_where (\<lambda>r. t_id r = i) (\<lambda>_. t') (tenants (work w))" by (blast elim: update_tenant_Inr)
    have "1 \<le> v" if "set_field (tu_max_assets body) = Some v" for v
      using body that by (auto simp: check_tenant_update_def Let_def split: if_splits option.splits)
    with t assms(3,4) have "tenant_wf (tl_mail lib) t'" by (blast intro: apply_tenant_update_wf)
    with assms(4) show ?thesis by (auto simp: ten update_where_image)
  next
    case (RemoveTenant i)
    with assms(1) obtain r where "deactivate_tenant call env lib (dr_now d) i w = (Inr r, w1)"
      by (auto simp: tenant_endpoint_def ignoring_def thenE_def bindE_success tenant_error_Inr)
    then have "tenants (work w1) = update_where (\<lambda>r. t_id r = i) (\<lambda>r. r\<lparr>t_active := False\<rparr>) (tenants (work w))"
      using super by (rule deactivate_tenant_Inr)
    moreover have "tenant_wf m (t\<lparr>t_active := False\<rparr>) = tenant_wf m t" for m t
      by (simp add: tenant_wf_def plan_wf_def split: option.split)
    ultimately show ?thesis using assms(4) by (auto simp: update_where_image)
  qed
qed

text \<open>
  C17: Every stored tenant stays within its plan and keeps settings the service can read.  When the validation of
  addresses accepts what it returns, then through every request on the tenant endpoints each tenant has a known
  plan and between one and the plan's number of assets, and its stored settings are exactly the document
  that printing the parsed settings gives.
\<close>

theorem tenants_keep_limits:
  assumes "serve_tenant refuse call env lib d me req w = (res, w')" and "work w = committed w" and "guc w = context_of me"
    and "\<And>a b. tl_mail lib a = Some b \<Longrightarrow> tl_mail lib b = Some b"
    and "list_all (\<lambda>t. plan_wf t \<and> settings_wf (tl_mail lib) (t_settings t)) (tenants (committed w))"
  shows "list_all (\<lambda>t. plan_wf t \<and> settings_wf (tl_mail lib) (t_settings t)) (tenants (committed w'))"
proof -
  have wf: "\<forall>t \<in> set (tenants (work w)). tenant_wf (tl_mail lib) t"
    using assms(2,5) by (simp add: tenant_wf_def list_all_iff)
  from assms(1) show ?thesis unfolding serve_tenant_def
  proof (rule with_session_saved [OF keeps_tenant_endpoint])
    assume "committed w' = committed w"
    with assms(5) show ?thesis by simp
  next
    fix x w1 assume "tenant_endpoint call env lib d me req w = (Inr x, w1)" and "w' = end_tx (work w1) w1"
    with endpoint_keeps_tenants_wf [OF _ assms(3,4) wf] show ?thesis by (auto simp: tenant_wf_def list_all_iff)
  qed
qed

definition sample_acme :: tenant_create where
  "sample_acme = \<lparr>tc_name = '' Acme  Sec. '', tc_slug = None, tc_plan = ''pro'', tc_max_assets = 7, tc_settings = default_settings\<rparr>"

lemma tenants_keep_limits_witness:
  "\<exists>w'. serve_tenant no_refusal mem_call sample_env sample_tlib sample_draws (sample_user 3 None ''r@x.io'' ''superadmin'')
      (PostTenant sample_acme) (sample_team\<lparr>guc := \<lparr>g_tenant = None, g_super = True\<rparr>\<rparr>) = (Inr (), w') \<and>
     map t_slug (tenants (committed w')) = [''acme1'', ''acme-sec''] \<and> map t_max_assets (tenants (committed w')) = [2, 100] \<and>
     list_all (\<lambda>t. plan_wf t \<and> settings_wf Some (t_settings t)) (tenants (committed w'))"
proof -
  let ?me = "sample_user 3 None ''r@x.io'' ''superadmin''" and ?w = "sample_team\<lparr>guc := \<lparr>g_tenant = None, g_super = True\<rparr>\<rparr>"
  let ?m = "serve_tenant no_refusal mem_call sample_env sample_tlib sample_draws ?me (PostTenant sample_acme)"
  define t0 where "t0 = work ?w"
  let ?new = "new_tenant 60 100 ''Acme  Sec.'' ''acme-sec'' ''pro'' 100 default_settings"
  define t1 where "t1 = t0\<lparr>tenants := [sample_tenant 1, ?new]\<rparr>"
  have t0: "tenants t0 = [sample_tenant 1]" "committed ?w = t0" "work ?w = t0" "g_super (guc ?w)" "guc ?w = context_of ?me"
    by (simp_all add: t0_def sample_team_def sample_tables_def context_of_def sample_user_def Let_def)
  have one: "show_nat (Suc 0) = ''1''" by code_simp
  have valid: "violation t1 = None"
    by (simp add: one t1_def t0_def constraint_defs new_tenant_def sample_team_def sample_token_def sample_defs Let_def)
  have body: "check_tenant_create Some sample_acme = Inr (sample_acme\<lparr>tc_name := ''Acme  Sec.''\<rparr>)" by code_simp
  have slug: "generate_slug id ''Acme  Sec.'' = Inr ''acme-sec''" by code_simp
  have conf: "settings_of_json Some (json_of_settings default_settings) = Some default_settings" by code_simp
  have name: "t_slug (sample_tenant 1) = ''acme1''" by code_simp
  have slugs: "t_slug ` set (tenants t0) = {''acme1''}" by (simp only: t0(1) name list.set image_insert image_empty)
  have none: "count_where (\<lambda>t. t_slug t = ''acme-sec'') (tenants t0) = 0"
    unfolding count_where_0
  proof
    fix t assume "t \<in> set (tenants t0)"
    with slugs have "t_slug t \<in> {''acme1''}" by blast
    then show "t_slug t \<noteq> ''acme-sec''" by simp
  qed
  have seen: "seen_tenants ?w = tenants t0" using seen_super(3) [OF t0(4)] by (simp only: t0(3))
  have "is_slug_taken ''acme-sec'' None ?w = (Inr False, ?w)"
    unfolding is_slug_taken_def getE_def by (simp only: option.case simp_thms seen none less_irrefl)
  then have free: "slug_loop ''acme-sec'' ''acme-sec'' 2 ?w = (Inr ''acme-sec'', ?w)"
    by (simp add: slug_loop.simps bindE_def)
  have "refresh_tenant 60 (?w\<lparr>work := t1\<rparr>) = (Inr ?new, ?w\<lparr>work := t1\<rparr>)"
    using t0(4) by (simp add: refresh_tenant_def bindE_def seen_super scalar_one_def t1_def sample_tenant_def new_tenant_def)
  moreover have "insert_checked (\<lambda>g. rls_row g 60) (\<lambda>t. t\<lparr>tenants := tenants t @ [?new]\<rparr>) ?w = (Inr (), ?w\<lparr>work := t1\<rparr>)"
    using valid t0 by (simp add: insert_checked_Inr rls_row_def t1_def)
  ultimately have "create_tenant sample_tlib 60 100 (sample_acme\<lparr>tc_name := ''Acme  Sec.''\<rparr>) ?w = (Inr ?new, ?w\<lparr>work := t1\<rparr>)"
    using slug free conf
    by (simp add: create_tenant_def choose_slug_def bindE_def thenE_def ofE_def sample_tlib_def sample_acme_def set_field_def Let_def
        plan_to_max_assets_def PLAN_MAX_ASSETS_def)
  with valid body have run: "?m ?w = (Inr (), end_tx t1 (?w\<lparr>work := t1\<rparr>))"
    by (simp add: serve_tenant_def tenant_endpoint_def with_session_Inr require_superadmin_def ignoring_def tenant_error_def
        catchE_def thenE_def bindE_def ofE_def sample_draws_def sample_user_def no_refusal_def sample_tlib_def)
  have "list_all (\<lambda>t. plan_wf t \<and> settings_wf (tl_mail sample_tlib) (t_settings t)) (tenants (committed ?w))"
    unfolding t0 by (simp add: plan_wf_def settings_wf_def sample_tenant_def PLAN_MAX_ASSETS_def)
  from tenants_keep_limits [OF run _ _ _ this] t0(2,3,5)
  have "list_all (\<lambda>t. plan_wf t \<and> settings_wf Some (t_settings t)) (tenants t1)" by (simp add: sample_tlib_def)
  moreover have "map t_slug (tenants t1) = [''acme1'', ''acme-sec'']" "map t_max_assets (tenants t1) = [2, 100]"
    using name by (simp_all add: t1_def new_tenant_def) (simp add: sample_tenant_def)
  ultimately show ?thesis using run by (intro exI [of _ "end_tx t1 (?w\<lparr>work := t1\<rparr>)"]) simp
qed

end
