(* ===== verification/Nmap_Report.thy ===== *)
theory Nmap_Report
  imports Assets
begin

text \<open>
  What is read out of the scanner's output: \<open>app/modules/scans/nmap/parser.py\<close>, whose XML reader
  (expat behind defusedxml) is a parameter, and \<open>app/modules/scans/nmap/findings.py\<close>, whose regular
  expressions are written out as matchers on ASCII text.  Scores are kept in tenths.  The lemmas show that a
  finding fits the columns it is stored in, whatever the output was.
\<close>

subsection \<open>The report\<close>

datatype xml = Elem string "(string \<times> string) list" "xml list"

fun tag :: "xml \<Rightarrow> string" where
  "tag (Elem t _ _) = t"

fun attr :: "string \<Rightarrow> xml \<Rightarrow> string option" where
  "attr k (Elem _ as _) = map_of as k"

text \<open>\<open>element.findall("a/b")\<close> and \<open>element.find\<close>, the path as the list of its tags.\<close>

fun find_all :: "string list \<Rightarrow> xml \<Rightarrow> xml list" where
  "find_all [] e = [e]"
| "find_all (t # ts) (Elem n as cs) = concat (map (find_all ts) (filter (\<lambda>c. tag c = t) cs))"

definition find_first :: "string list \<Rightarrow> xml \<Rightarrow> xml option" where
  "find_first path e = (case find_all path e of [] \<Rightarrow> None | c # _ \<Rightarrow> Some c)"

record script_finding =
  sf_id :: "string option"
  sf_output :: "string option"

record nmap_service =
  sv_name :: "string option"
  sv_product :: "string option"
  sv_version :: "string option"
  sv_extrainfo :: "string option"

record nmap_port =
  np_protocol :: "string option"
  np_port :: int
  np_state :: "string option"
  np_service :: "nmap_service option"
  np_scripts :: "script_finding list"

record nmap_host =
  nh_addresses :: "string list"
  nh_hostnames :: "string list"
  nh_status :: "string option"
  nh_os :: "string list"
  nh_ports :: "nmap_port list"
  nh_scripts :: "script_finding list"

record nmap_report =
  nr_scan_types :: "string list"
  nr_hosts :: "nmap_host list"

text \<open>\<open>NmapParseError\<close> is its reason.\<close>

fun map_err :: "('a \<Rightarrow> 'e + 'b) \<Rightarrow> 'a list \<Rightarrow> 'e + 'b list" where
  "map_err f [] = Inr []"
| "map_err f (x # xs) = (case f x of Inl e \<Rightarrow> Inl e
     | Inr y \<Rightarrow> (case map_err f xs of Inl e \<Rightarrow> Inl e | Inr ys \<Rightarrow> Inr (y # ys)))"

definition xml_scripts :: "string list \<Rightarrow> xml \<Rightarrow> script_finding list" where
  "xml_scripts path e = map (\<lambda>s. \<lparr>sf_id = attr ''id'' s, sf_output = attr ''output'' s\<rparr>) (find_all path e)"

definition xml_attributes :: "string list \<Rightarrow> string \<Rightarrow> xml \<Rightarrow> string list" where
  "xml_attributes path a e = List.map_filter (attr a) (find_all path e)"

definition xml_port :: "xml \<Rightarrow> string + nmap_port" where
  "xml_port e = (case read_int (case attr ''portid'' e of None \<Rightarrow> '''' | Some s \<Rightarrow> s) of
       None \<Rightarrow> Inl ''invalid_port''
     | Some port_id \<Rightarrow>
         if \<not> (0 \<le> port_id \<and> port_id \<le> 65535) then Inl ''invalid_port''
         else Inr \<lparr>np_protocol = attr ''protocol'' e, np_port = port_id,
            np_state = Option.bind (find_first [''state''] e) (attr ''state''),
            np_service = map_option (\<lambda>s. \<lparr>sv_name = attr ''name'' s, sv_product = attr ''product'' s,
               sv_version = attr ''version'' s, sv_extrainfo = attr ''extrainfo'' s\<rparr>) (find_first [''service''] e),
            np_scripts = xml_scripts [''script''] e\<rparr>)"

definition xml_host :: "xml \<Rightarrow> string + nmap_host" where
  "xml_host e = (case map_err xml_port (find_all [''ports'', ''port''] e) of
       Inl r \<Rightarrow> Inl r
     | Inr ports \<Rightarrow> Inr \<lparr>nh_addresses = xml_attributes [''address''] ''addr'' e,
          nh_hostnames = xml_attributes [''hostnames'', ''hostname''] ''name'' e,
          nh_status = Option.bind (find_first [''status''] e) (attr ''state''),
          nh_os = xml_attributes [''os'', ''osmatch''] ''name'' e,
          nh_ports = ports, nh_scripts = xml_scripts [''hostscript'', ''script''] e\<rparr>)"

text \<open>
  What the XML reader meets first in a document: a document type, for which it calls the hook of the
  program, another forbidden construct, malformed text or the end of the root element.
\<close>

record doctype =
  dt_name :: string
  dt_sysid :: "string option"
  dt_pubid :: "string option"
  dt_internal :: bool

datatype reading = Doctype doctype reading | Forbidden | Malformed | Root xml

definition doctype_forbidden :: "doctype \<Rightarrow> bool" where
  "doctype_forbidden d \<longleftrightarrow> dt_name d \<noteq> ''nmaprun'' \<or> dt_sysid d \<notin> {None, Some ''''} \<or>
     dt_pubid d \<notin> {None, Some ''''} \<or> dt_internal d"

fun read_xml :: "reading \<Rightarrow> string + xml" where
  "read_xml (Doctype d rest) = (if doctype_forbidden d then Inl ''forbidden_xml_construct'' else read_xml rest)"
| "read_xml Forbidden = Inl ''forbidden_xml_construct''"
| "read_xml Malformed = Inl ''malformed_xml''"
| "read_xml (Root e) = Inr e"

definition parse_nmap_xml :: "(string \<Rightarrow> reading) \<Rightarrow> string \<Rightarrow> string + nmap_report" where
  "parse_nmap_xml reader data = (case read_xml (reader data) of
       Inl r \<Rightarrow> Inl r
     | Inr root \<Rightarrow>
         if tag root \<noteq> ''nmaprun'' then Inl ''unexpected_root''
         else let scan_types = xml_attributes [''scaninfo''] ''type'' root in
         if scan_types = [] then Inl ''missing_scaninfo''
         else if find_first [''runstats'', ''finished''] root = None then Inl ''incomplete_report''
         else (case map_err xml_host (find_all [''host''] root) of
             Inl r \<Rightarrow> Inl r
           | Inr hosts \<Rightarrow> Inr \<lparr>nr_scan_types = scan_types, nr_hosts = hosts\<rparr>))"

definition verify_scan_types :: "string list \<Rightarrow> nmap_report \<Rightarrow> string + unit" where
  "verify_scan_types required report =
     (if \<not> set required \<subseteq> set (nr_scan_types report) then Inl ''scan_type_mismatch'' else Inr ())"

subsection \<open>Regular expressions\<close>

definition is_word :: "char \<Rightarrow> bool" where
  "is_word c \<longleftrightarrow> is_alnum c \<or> c = CHR ''_''"

text \<open>\<open>\\b\<close> between the character before and the rest.\<close>

definition word_boundary :: "char option \<Rightarrow> string \<Rightarrow> bool" where
  "word_boundary prev s \<longleftrightarrow> (case prev of None \<Rightarrow> False | Some c \<Rightarrow> is_word c) \<noteq> (s \<noteq> [] \<and> is_word (hd s))"

definition starts_with_i :: "string \<Rightarrow> string \<Rightarrow> bool" where
  "starts_with_i p s \<longleftrightarrow> lower (take (length p) s) = lower p"

text \<open>A matcher gives the length of its match at this position; no pattern matches the empty string.\<close>

type_synonym matcher = "char option \<Rightarrow> string \<Rightarrow> nat option"

function re_sub :: "matcher \<Rightarrow> char option \<Rightarrow> string \<Rightarrow> string" where
  "re_sub m prev [] = []"
| "re_sub m prev (c # s) = (case m prev (c # s) of
       Some (Suc n) \<Rightarrow> re_sub m (Some ((c # s) ! n)) (drop n s)
     | _ \<Rightarrow> c # re_sub m (Some c) s)"
  by pat_completeness auto

termination by (relation "measure (\<lambda>(m, p, s). length s)") auto

fun re_search :: "(char option \<Rightarrow> string \<Rightarrow> 'a option) \<Rightarrow> char option \<Rightarrow> string \<Rightarrow> 'a option" where
  "re_search m prev [] = m prev []"
| "re_search m prev (c # s) = (case m prev (c # s) of Some x \<Rightarrow> Some x | None \<Rightarrow> re_search m (Some c) s)"

text \<open>\<open>\\bVULNERABLE\\b\<close> and \<open>\\bNOT\\s+VULNERABLE\\b\<close>.\<close>

definition vulnerable_at :: matcher where
  "vulnerable_at prev s =
     (if word_boundary prev s \<and> starts_with_i ''VULNERABLE'' s \<and> word_boundary (Some (s ! 9)) (drop 10 s)
      then Some 10 else None)"

definition not_vulnerable_at :: matcher where
  "not_vulnerable_at prev s =
     (let blanks = length (takeWhile is_space (drop 3 s)); t = drop (3 + blanks) s
      in if word_boundary prev s \<and> starts_with_i ''NOT'' s \<and> 0 < blanks \<and> starts_with_i ''VULNERABLE'' t \<and>
            word_boundary (Some (t ! 9)) (drop 10 t)
         then Some (13 + blanks) else None)"

text \<open>\<open>CVE-\\d{4}-\\d{4,}\<close>.\<close>

definition cve_at :: "char option \<Rightarrow> string \<Rightarrow> string option" where
  "cve_at prev s =
     (let year = take 4 (drop 4 s); number = takeWhile is_digit (drop 9 s)
      in if starts_with ''CVE-'' s \<and> length year = 4 \<and> list_all is_digit year \<and>
            starts_with ''-'' (drop 8 s) \<and> 4 \<le> length number
         then Some (take 9 s @ number) else None)"

text \<open>\<open>\\bCVSS:\\d(?:\\.\\d)?/\\S*\<close>: a vector string.\<close>

definition vector_at :: matcher where
  "vector_at prev s =
     (let t = drop 5 s;
          k = (if 3 \<le> length t \<and> t ! 1 = CHR ''.'' \<and> is_digit (t ! 2) then 3 else 1);
          rest = drop k t
      in if word_boundary prev s \<and> starts_with_i ''CVSS:'' s \<and> t \<noteq> [] \<and> is_digit (hd t) \<and> starts_with ''/'' rest
         then Some (5 + k + 1 + length (takeWhile (\<lambda>c. \<not> is_space c) (tl rest))) else None)"

text \<open>
  \<open>\\bCVSS(?:v\\d(?:\\.\\d)?)?[^\\d\\n+-]*([+-]?\\d+(?:\\.\\d+)?)\<close>: the version may be given back when no number
  follows it, the longest reading first.
\<close>

definition version_tails :: "string \<Rightarrow> string list" where
  "version_tails s =
     (if 2 \<le> length s \<and> lower_char (s ! 0) = CHR ''v'' \<and> is_digit (s ! 1)
      then (if 4 \<le> length s \<and> s ! 2 = CHR ''.'' \<and> is_digit (s ! 3) then [drop 4 s] else []) @ [drop 2 s, s]
      else [s])"

definition number_at :: "string \<Rightarrow> string option" where
  "number_at s =
     (let sign = (if s \<noteq> [] \<and> hd s \<in> {CHR ''+'', CHR ''-''} then [hd s] else []);
          t = drop (length sign) s; whole = takeWhile is_digit t; u = drop (length whole) t;
          frac = (if starts_with ''.'' u then takeWhile is_digit (tl u) else [])
      in if whole = [] then None
         else Some (sign @ whole @ (if frac = [] then [] else CHR ''.'' # frac)))"

definition score_at :: "char option \<Rightarrow> string \<Rightarrow> string option" where
  "score_at prev s =
     (if word_boundary prev s \<and> starts_with_i ''CVSS'' s
      then Option.bind (List.find (\<lambda>t. number_at t \<noteq> None)
             (map (dropWhile (\<lambda>c. \<not> is_digit c \<and> c \<notin> {CHR 0x0A, CHR ''+'', CHR ''-''}))
                (version_tails (drop 4 s)))) number_at
      else None)"

subsection \<open>Findings\<close>

record finding_draft =
  fd_title :: string
  fd_description :: string
  fd_severity :: string
  fd_cve :: "string option"
  fd_cvss :: "int option"
  fd_metadata :: jdict

definition severity_from_cvss :: "int option \<Rightarrow> string" where
  "severity_from_cvss score = (case score of
       None \<Rightarrow> ''medium''
     | Some s \<Rightarrow> if 90 \<le> s then ''critical'' else if 70 \<le> s then ''high'' else if 40 \<le> s then ''medium''
                 else if 0 < s then ''low'' else ''info'')"

text \<open>
  \<open>round(x, 1)\<close> in tenths: the tenth next to the exact value, the even one on a tie.  \<open>to_float\<close> is the
  value of \<open>float(text)\<close>.
\<close>

definition round_tenths :: "rat \<Rightarrow> int" where
  "round_tenths x = (let y = 10 * x; f = \<lfloor>y\<rfloor>; d = y - of_int f
     in if d < 1 / 2 then f else if 1 / 2 < d then f + 1 else if even f then f else f + 1)"

definition cvss_tenths :: "(string \<Rightarrow> rat) \<Rightarrow> string \<Rightarrow> int" where
  "cvss_tenths to_float text = round_tenths (min 10 (max 0 (to_float text)))"

definition opt_str :: "string option \<Rightarrow> json" where
  "opt_str s = (case s of None \<Rightarrow> JNull | Some t \<Rightarrow> JStr t)"

definition show_opt :: "string option \<Rightarrow> string" where
  "show_opt s = (case s of None \<Rightarrow> ''None'' | Some t \<Rightarrow> t)"

text \<open>One script of a host, with the port and protocol it ran on.\<close>

definition script_draft ::
  "(string \<Rightarrow> rat) \<Rightarrow> string \<Rightarrow> script_finding \<times> int option \<times> string option \<Rightarrow> finding_draft option" where
  "script_draft to_float address = (\<lambda>(script, port, protocol).
     let output = (case sf_output script of None \<Rightarrow> '''' | Some t \<Rightarrow> t);
         positive = re_sub not_vulnerable_at None output
     in if re_search vulnerable_at None positive = None then None
        else let cve = re_search cve_at None output;
                 scored = re_sub vector_at None output;
                 score = map_option (cvss_tenths to_float) (re_search score_at None scored);
                 suffix = (case port of None \<Rightarrow> '''' | Some p \<Rightarrow> '':'' @ show_int p @ ''/'' @ show_opt protocol)
             in Some \<lparr>fd_title = take 255 (show_opt (sf_id script) @ '' on '' @ address @ suffix),
                  fd_description = take 8000 output, fd_severity = severity_from_cvss score,
                  fd_cve = map_option (take 50) cve, fd_cvss = score,
                  fd_metadata = [(''source'', JStr ''nmap''), (''script_id'', opt_str (sf_id script)),
                    (''host'', JStr address), (''port'', case port of None \<Rightarrow> JNull | Some p \<Rightarrow> JInt p),
                    (''protocol'', opt_str protocol),
                    (''severity_source'', JStr (if score \<noteq> None then ''cvss'' else ''default''))]\<rparr>)"

definition extract_findings :: "(string \<Rightarrow> rat) \<Rightarrow> nmap_report \<Rightarrow> finding_draft list" where
  "extract_findings to_float report = concat (map (\<lambda>host.
     let address = (case nh_addresses host of [] \<Rightarrow> ''unknown'' | a # _ \<Rightarrow> a);
         scripts = map (\<lambda>s. (s, None, None)) (nh_scripts host) @
           concat (map (\<lambda>p. map (\<lambda>s. (s, Some (np_port p), np_protocol p)) (np_scripts p)) (nh_ports host))
     in List.map_filter (script_draft to_float address) scripts) (nr_hosts report))"

subsection \<open>Properties\<close>

lemma map_err_Inr: "map_err f xs = Inr ys \<Longrightarrow> y \<in> set ys \<Longrightarrow> \<exists>x \<in> set xs. f x = Inr y"
  by (induction xs arbitrary: ys) (auto split: sum.splits)

lemma map_err_Inl: "map_err f xs = Inl e \<Longrightarrow> \<exists>x \<in> set xs. f x = Inl e"
  by (induction xs) (auto split: sum.splits)

lemma xml_port_Inl: "xml_port e = Inl r \<Longrightarrow> r = ''invalid_port''"
  by (auto simp: xml_port_def split: option.splits if_splits)

lemma xml_port_Inr: "xml_port e = Inr p \<Longrightarrow> 0 \<le> np_port p \<and> np_port p \<le> 65535"
  by (auto simp: xml_port_def split: option.splits if_splits)

lemma read_xml_Inl: "read_xml d = Inl r \<Longrightarrow> r \<in> {''forbidden_xml_construct'', ''malformed_xml''}"
  by (induction d) (auto split: if_splits)

definition parse_reasons :: "string list" where
  "parse_reasons = [''forbidden_xml_construct'', ''malformed_xml'', ''unexpected_root'', ''missing_scaninfo'',
     ''incomplete_report'', ''invalid_port'', ''scan_type_mismatch'']"

lemma reasons [simp]:
  "''forbidden_xml_construct'' \<in> set parse_reasons" "''malformed_xml'' \<in> set parse_reasons"
  "''unexpected_root'' \<in> set parse_reasons" "''missing_scaninfo'' \<in> set parse_reasons"
  "''incomplete_report'' \<in> set parse_reasons" "''invalid_port'' \<in> set parse_reasons"
  "''scan_type_mismatch'' \<in> set parse_reasons"
  unfolding parse_reasons_def by (intro list.set_intros)+

lemma xml_host_Inl: "xml_host h = Inl r \<Longrightarrow> r = ''invalid_port''"
proof -
  assume "xml_host h = Inl r"
  then have "map_err xml_port (find_all [''ports'', ''port''] h) = Inl r"
    by (simp add: xml_host_def split: sum.splits)
  from map_err_Inl [OF this] obtain e where "xml_port e = Inl r" by (rule bexE)
  then show ?thesis by (rule xml_port_Inl)
qed

definition after_root :: "xml \<Rightarrow> string + nmap_report" where
  "after_root root =
     (if tag root \<noteq> ''nmaprun'' then Inl ''unexpected_root''
      else if xml_attributes [''scaninfo''] ''type'' root = [] then Inl ''missing_scaninfo''
      else if find_first [''runstats'', ''finished''] root = None then Inl ''incomplete_report''
      else map_sum id (\<lambda>hosts. \<lparr>nr_scan_types = xml_attributes [''scaninfo''] ''type'' root, nr_hosts = hosts\<rparr>)
             (map_err xml_host (find_all [''host''] root)))"

lemma parse_after_root:
  "parse_nmap_xml reader data = (case read_xml (reader data) of Inl r \<Rightarrow> Inl r | Inr root \<Rightarrow> after_root root)"
  unfolding parse_nmap_xml_def after_root_def Let_def by (auto split: sum.split)

lemma after_root_Inl: "after_root root = Inl r \<Longrightarrow> r \<in> set parse_reasons"
proof -
  assume r: "after_root root = Inl r"
  have hosts: "q = ''invalid_port''" if "map_err xml_host (find_all [''host''] root) = Inl q" for q
    using map_err_Inl [OF that] by (rule bexE) (rule xml_host_Inl)
  show ?thesis
    using r hosts unfolding after_root_def
    by (cases "map_err xml_host (find_all [''host''] root)") (auto split: if_split_asm)
qed

lemma parse_Inl: "parse_nmap_xml reader data = Inl r \<Longrightarrow> r \<in> set parse_reasons"
  using read_xml_Inl [of "reader data"] after_root_Inl
  unfolding parse_after_root by (auto split: sum.splits)

lemma parse_Inr:
  "parse_nmap_xml reader data = Inr rep \<Longrightarrow> nr_scan_types rep \<noteq> [] \<and>
     (\<exists>root. map_err xml_host (find_all [''host''] root) = Inr (nr_hosts rep))"
  unfolding parse_after_root after_root_def
  by (auto split: sum.split_asm if_split_asm simp: map_sum_Inr)

text \<open>A document type the hook refuses, anywhere before the root.\<close>

fun hostile :: "reading \<Rightarrow> bool" where
  "hostile (Doctype d rest) \<longleftrightarrow> doctype_forbidden d \<or> hostile rest"
| "hostile Forbidden \<longleftrightarrow> True"
| "hostile Malformed \<longleftrightarrow> False"
| "hostile (Root e) \<longleftrightarrow> False"

lemma hostile_refused: "hostile d \<Longrightarrow> \<exists>r. read_xml d = Inl r"
  by (induction d) auto

text \<open>
  A report is complete, of the required kind and in range, or it is refused with a reason that can be
  stored.  A failure of the parser or of the check of the scan types is one of seven constant reasons; a
  document with a forbidden construct never becomes a report; a report that passes has the required scan
  types and every port in 0..65535.
\<close>

theorem report_checked:
  "(\<forall>r. parse_nmap_xml reader data = Inl r \<longrightarrow> r \<in> set parse_reasons) \<and>
   (\<forall>rep r. verify_scan_types required rep = Inl r \<longrightarrow> r \<in> set parse_reasons) \<and>
   (hostile (reader data) \<longrightarrow> isl (parse_nmap_xml reader data)) \<and>
   (\<forall>rep u. parse_nmap_xml reader data = Inr rep \<and> verify_scan_types required rep = Inr u \<longrightarrow>
      set required \<subseteq> set (nr_scan_types rep) \<and> nr_scan_types rep \<noteq> [] \<and>
      (\<forall>h \<in> set (nr_hosts rep). \<forall>p \<in> set (nh_ports h). 0 \<le> np_port p \<and> np_port p \<le> 65535))"
proof (intro conjI allI impI)
  fix r assume "parse_nmap_xml reader data = Inl r"
  then show "r \<in> set parse_reasons" by (rule parse_Inl)
next
  fix rep r assume "verify_scan_types required rep = Inl r"
  then show "r \<in> set parse_reasons" by (auto simp: verify_scan_types_def split: if_splits)
next
  assume "hostile (reader data)"
  then show "isl (parse_nmap_xml reader data)" by (auto simp: parse_after_root dest: hostile_refused)
next
  fix rep u assume a: "parse_nmap_xml reader data = Inr rep \<and> verify_scan_types required rep = Inr u"
  then show "set required \<subseteq> set (nr_scan_types rep)" by (auto simp: verify_scan_types_def split: if_splits)
  from a parse_Inr show "nr_scan_types rep \<noteq> []" by blast
  from a parse_Inr obtain root where hosts: "map_err xml_host (find_all [''host''] root) = Inr (nr_hosts rep)"
    by blast
  show "\<forall>h \<in> set (nr_hosts rep). \<forall>p \<in> set (nh_ports h). 0 \<le> np_port p \<and> np_port p \<le> 65535"
  proof (intro ballI)
    fix h p assume h: "h \<in> set (nr_hosts rep)" and p: "p \<in> set (nh_ports h)"
    from map_err_Inr [OF hosts h] obtain e where "xml_host e = Inr h" by blast
    then obtain ports where "map_err xml_port (find_all [''ports'', ''port''] e) = Inr ports" "nh_ports h = ports"
      by (auto simp: xml_host_def split: sum.splits)
    with p have "p \<in> set ports" by simp
    from map_err_Inr [OF \<open>map_err xml_port _ = _\<close> this] obtain x where "xml_port x = Inr p" by (rule bexE)
    then show "0 \<le> np_port p \<and> np_port p \<le> 65535" by (rule xml_port_Inr)
  qed
qed

definition sample_doc :: reading where
  "sample_doc = Doctype \<lparr>dt_name = ''nmaprun'', dt_sysid = None, dt_pubid = None, dt_internal = False\<rparr>
     (Root (Elem ''nmaprun'' [] [Elem ''scaninfo'' [(''type'', ''syn'')] [], Elem ''scaninfo'' [(''type'', ''udp'')] [],
       Elem ''host'' [] [Elem ''address'' [(''addr'', ''8.8.8.8'')] [],
         Elem ''ports'' [] [Elem ''port'' [(''portid'', ''80''), (''protocol'', ''tcp'')]
           [Elem ''script'' [(''id'', ''x''), (''output'', ''VULNERABLE CVE-2021-4422 CVSS: 9.8'')] []]]],
       Elem ''runstats'' [] [Elem ''finished'' [] []]]))"

lemma report_checked_witness:
  "\<exists>rep. parse_nmap_xml (\<lambda>_. sample_doc) '''' = Inr rep \<and> verify_scan_types [''syn'', ''udp''] rep = Inr () \<and>
     set [''syn'', ''udp''] \<subseteq> set (nr_scan_types rep)"
proof -
  have "case parse_nmap_xml (\<lambda>_. sample_doc) '''' of Inr rep \<Rightarrow> verify_scan_types [''syn'', ''udp''] rep = Inr ()
      | _ \<Rightarrow> False" by code_simp
  then obtain rep where "parse_nmap_xml (\<lambda>_. sample_doc) '''' = Inr rep"
    "verify_scan_types [''syn'', ''udp''] rep = Inr ()" by (auto split: sum.splits)
  with report_checked [of "\<lambda>_. sample_doc" "''''" "[''syn'', ''udp'']"] show ?thesis by blast
qed

lemma round_tenths_bounds:
  assumes "0 \<le> x" and "x \<le> 10"
  shows "0 \<le> round_tenths x \<and> round_tenths x \<le> 100"
proof -
  let ?f = "\<lfloor>10 * x\<rfloor>"
  have "round_tenths x = ?f \<or> round_tenths x = ?f + 1 \<and> 1 / 2 \<le> 10 * x - of_int ?f"
    by (auto simp: round_tenths_def Let_def not_less)
  moreover have "0 \<le> ?f" using assms by simp
  moreover have "?f \<le> 100" using assms by linarith
  moreover have "?f < 100" if "1 / 2 \<le> 10 * x - of_int ?f" using assms that by linarith
  ultimately show ?thesis by linarith
qed

lemma script_draft_fields:
  assumes "script_draft to_float address t = Some d"
  shows "length (fd_title d) \<le> 255" "length (fd_description d) \<le> 8000"
    "\<exists>c. fd_cve d = map_option (take 50) c" "\<exists>t. fd_cvss d = map_option (cvss_tenths to_float) t"
    "fd_severity d = severity_from_cvss (fd_cvss d)"
proof -
  obtain script port protocol where t: "t = (script, port, protocol)" by (cases t)
  define OUT where "OUT = (case sf_output script of None \<Rightarrow> '''' | Some t \<Rightarrow> t)"
  define score where "score = re_search score_at None (re_sub vector_at None OUT)"
  define cve where "cve = re_search cve_at None OUT"
  define title where "title = show_opt (sf_id script) @ '' on '' @ address @
    (case port of None \<Rightarrow> '''' | Some p \<Rightarrow> '':'' @ show_int p @ ''/'' @ show_opt protocol)"
  have "fd_title d = take 255 title \<and> fd_description d = take 8000 OUT \<and>
      fd_cve d = map_option (take 50) cve \<and> fd_cvss d = map_option (cvss_tenths to_float) score \<and>
      fd_severity d = severity_from_cvss (map_option (cvss_tenths to_float) score)"
    using assms unfolding script_draft_def t prod.case Let_def
      OUT_def [symmetric] score_def [symmetric] cve_def [symmetric] title_def [symmetric]
    by (auto split: if_splits)
  then show "length (fd_title d) \<le> 255" "length (fd_description d) \<le> 8000"
    "\<exists>c. fd_cve d = map_option (take 50) c" "\<exists>t. fd_cvss d = map_option (cvss_tenths to_float) t"
    "fd_severity d = severity_from_cvss (fd_cvss d)" by (simp, simp, blast, blast, simp)
qed

lemma extracted_draft:
  assumes "d \<in> set (extract_findings to_float report)"
  obtains address t where "script_draft to_float address t = Some d"
  using assms that by (auto simp: extract_findings_def Let_def map_filter_def)

lemma severity_values: "severity_from_cvss s \<in> {''critical'', ''high'', ''medium'', ''low'', ''info''}"
  by (auto simp: severity_from_cvss_def split: option.split)

lemma extracted_severity:
  assumes "d \<in> set (extract_findings to_float report)"
  shows "fd_severity d \<in> {''critical'', ''high'', ''medium'', ''low'', ''info''}"
proof -
  from assms obtain address t where "script_draft to_float address t = Some d" by (rule extracted_draft)
  from script_draft_fields(5) [OF this] severity_values show ?thesis by metis
qed

text \<open>
  C28: A finding fits the row it is stored in, whatever the scanned host made the scanner print: the title
  has at most 255 characters, the description 8000, the CVE identifier 50; the score, when there is one,
  is between 0.0 and 10.0; and the severity is the one of the score, which the severity constraint of the
  table allows.
\<close>

theorem findings_fit_columns:
  assumes "d \<in> set (extract_findings to_float report)"
  shows "length (fd_title d) \<le> 255 \<and> length (fd_description d) \<le> 8000 \<and>
    (\<forall>c. fd_cve d = Some c \<longrightarrow> length c \<le> 50) \<and>
    (\<forall>s. fd_cvss d = Some s \<longrightarrow> 0 \<le> s \<and> s \<le> 100) \<and> fd_severity d = severity_from_cvss (fd_cvss d) \<and>
    fd_severity d \<in> {''critical'', ''high'', ''medium'', ''low'', ''info''}"
proof -
  from assms obtain address t where "script_draft to_float address t = Some d" by (rule extracted_draft)
  note d = script_draft_fields [OF this]
  have "0 \<le> s \<and> s \<le> 100" if "fd_cvss d = Some s" for s
  proof -
    from d(4) obtain t where "fd_cvss d = map_option (cvss_tenths to_float) t" by blast
    with that obtain x where "s = cvss_tenths to_float x" by (cases t) auto
    then show ?thesis using round_tenths_bounds by (simp add: cvss_tenths_def)
  qed
  moreover note severity_values [of "fd_cvss d"]
  moreover have "length c \<le> 50" if "fd_cve d = Some c" for c
  proof -
    from d(3) obtain x where "fd_cve d = map_option (take 50) x" by blast
    with that show ?thesis by (cases x) auto
  qed
  ultimately show ?thesis unfolding d(5) using d(1,2) by (intro conjI allI impI) (assumption | simp)+
qed

lemma findings_fit_columns_witness:
  "\<exists>d. extract_findings (\<lambda>_. 98 / 10) \<lparr>nr_scan_types = [''syn''], nr_hosts = [\<lparr>nh_addresses = [''8.8.8.8''],
      nh_hostnames = [], nh_status = None, nh_os = [], nh_ports = [],
      nh_scripts = [\<lparr>sf_id = Some ''x'', sf_output = Some ''VULNERABLE CVSS: 9.8''\<rparr>]\<rparr>]\<rparr> = [d] \<and>
     fd_severity d = ''critical'' \<and> length (fd_title d) \<le> 255"
proof -
  let ?rep = "\<lparr>nr_scan_types = [''syn''], nr_hosts = [\<lparr>nh_addresses = [''8.8.8.8''],
      nh_hostnames = [], nh_status = None, nh_os = [], nh_ports = [],
      nh_scripts = [\<lparr>sf_id = Some ''x'', sf_output = Some ''VULNERABLE CVSS: 9.8''\<rparr>]\<rparr>]\<rparr>"
  let ?s = "''VULNERABLE CVSS: 9.8''"
  have "re_sub not_vulnerable_at None ?s = ?s" "re_search vulnerable_at None ?s = Some 10"
    "re_sub vector_at None ?s = ?s" "re_search score_at None ?s = Some ''9.8''" "re_search cve_at None ?s = None"
    by code_simp+
  then obtain d where d: "extract_findings (\<lambda>_. 98 / 10) ?rep = [d]" "fd_cvss d = Some 98"
    by (simp add: extract_findings_def script_draft_def List.map_filter_simps Let_def cvss_tenths_def round_tenths_def)
  then have "d \<in> set (extract_findings (\<lambda>_. 98 / 10) ?rep)" by simp
  from findings_fit_columns [OF this] d show ?thesis by (simp add: severity_from_cvss_def)
qed

end
