(* ===== verification/Llm.thy ===== *)
theory Llm
  imports Assets
begin

text \<open>
  \<open>app/core/llm\<close>: the registry of providers and their construction from the settings (\<open>factory.py\<close>), the
  requests of the three kinds of API and the retries of a call (\<open>providers.py\<close>).  The HTTP client is a
  parameter: what it does with a request is its reply and its next state.
\<close>

subsection \<open>Providers\<close>

datatype provider_class = OpenAICompatProvider | AnthropicProvider | GeminiProvider

record provider_entry =
  pe_cls :: provider_class
  pe_key_attr :: "string option"
  pe_model :: string
  pe_url_attr :: "string option"
  pe_url :: "string option"
  pe_normalize :: bool

definition compat_entry :: "string \<Rightarrow> string \<Rightarrow> string \<Rightarrow> provider_entry" where
  "compat_entry key model url = \<lparr>pe_cls = OpenAICompatProvider, pe_key_attr = Some key, pe_model = model,
     pe_url_attr = None, pe_url = Some url, pe_normalize = False\<rparr>"

definition own_entry :: "provider_class \<Rightarrow> string \<Rightarrow> string \<Rightarrow> string \<Rightarrow> provider_entry" where
  "own_entry cls key model url_attr = \<lparr>pe_cls = cls, pe_key_attr = Some key, pe_model = model,
     pe_url_attr = Some url_attr, pe_url = None, pe_normalize = False\<rparr>"

definition PROVIDER_REGISTRY :: "(string \<times> provider_entry) list" where
  "PROVIDER_REGISTRY =
    [(''groq'', compat_entry ''GROQ_API_KEY'' ''llama-3.3-70b-versatile'' ''https://api.groq.com/openai/v1''),
     (''ollama'', \<lparr>pe_cls = OpenAICompatProvider, pe_key_attr = None, pe_model = ''llama3.2'',
        pe_url_attr = Some ''OLLAMA_URL'', pe_url = Some ''http://localhost:11434'', pe_normalize = True\<rparr>),
     (''openai'', compat_entry ''OPENAI_API_KEY'' ''gpt-4o'' ''https://api.openai.com/v1''),
     (''openrouter'', compat_entry ''OPENROUTER_API_KEY'' ''inclusionai/ling-flash-3.0:free'' ''https://openrouter.ai/api/v1''),
     (''anthropic'', own_entry AnthropicProvider ''ANTHROPIC_API_KEY'' ''claude-3-5-haiku-20241107'' ''ANTHROPIC_BASE_URL''),
     (''gemini'', own_entry GeminiProvider ''GEMINI_API_KEY'' ''gemini-2.0-flash'' ''GEMINI_BASE_URL''),
     (''mistral'', compat_entry ''MISTRAL_API_KEY'' ''mistral-large-latest'' ''https://api.mistral.ai/v1''),
     (''cohere'', compat_entry ''COHERE_API_KEY'' ''command-r-plus'' ''https://api.cohere.ai/compatibility/v1''),
     (''together'', compat_entry ''TOGETHER_API_KEY'' ''mistralai/Mistral-7B-Instruct-v0.3'' ''https://api.together.xyz/v1''),
     (''huggingface'', compat_entry ''HUGGINGFACE_API_KEY'' ''meta-llama/Llama-3.3-70B-Instruct'' ''https://router.huggingface.co/v1'')]"

text \<open>\<open>getattr(settings, name, None)\<close>, and the settings of the LLM layer that are read directly.\<close>

record llm_settings =
  ls_attr :: "string \<Rightarrow> string option"
  ls_provider :: string
  ls_timeout :: int

definition resolve_model :: "llm_settings \<Rightarrow> string \<Rightarrow> provider_entry \<Rightarrow> exn + string" where
  "resolve_model cfg name entry =
     (let model = (case ls_attr cfg (upper name @ ''_MODEL'') of None \<Rightarrow> pe_model entry | Some m \<Rightarrow> m)
      in if model = [] then Inl LLMResponseError else Inr model)"

definition get_llm_model_name :: "llm_settings \<Rightarrow> exn + string" where
  "get_llm_model_name cfg =
     (let name = lower (strip (ls_provider cfg))
      in case map_of PROVIDER_REGISTRY name of
           None \<Rightarrow> Inl LLMResponseError | Some entry \<Rightarrow> resolve_model cfg name entry)"

definition normalize_ollama_url :: "string \<Rightarrow> string" where
  "normalize_ollama_url url =
     (let u = rstrip_char (CHR ''/'') url in if starts_with (rev ''/v1'') (rev u) then u else u @ ''/v1'')"

record provider =
  pv_cls :: provider_class
  pv_key :: string
  pv_model :: string
  pv_timeout :: int
  pv_base :: string

definition class_url :: "provider_class \<Rightarrow> string" where
  "class_url cls = (case cls of
      OpenAICompatProvider \<Rightarrow> ''https://api.openai.com/v1''
    | AnthropicProvider \<Rightarrow> ''https://api.anthropic.com/v1/messages''
    | GeminiProvider \<Rightarrow> ''https://generativelanguage.googleapis.com/v1beta'')"

text \<open>The constructors: \<open>base_url or default\<close>, without trailing slashes for the compatible ones.\<close>

definition or_else :: "string option \<Rightarrow> string option \<Rightarrow> string option" where
  "or_else x y = (case x of None \<Rightarrow> y | Some s \<Rightarrow> if s = [] then y else Some s)"

definition make_provider :: "provider_class \<Rightarrow> string \<Rightarrow> string \<Rightarrow> int \<Rightarrow> string option \<Rightarrow> provider" where
  "make_provider cls key model timeout base_url =
     (let url = (case or_else base_url None of None \<Rightarrow> class_url cls | Some u \<Rightarrow> u)
      in \<lparr>pv_cls = cls, pv_key = key, pv_model = model, pv_timeout = timeout,
          pv_base = (if cls = OpenAICompatProvider then rstrip_char (CHR ''/'') url else url)\<rparr>)"

definition provider_key :: "llm_settings \<Rightarrow> provider_entry \<Rightarrow> exn + string" where
  "provider_key cfg entry = (case pe_key_attr entry of
      None \<Rightarrow> Inr []
    | Some attr \<Rightarrow> (case ls_attr cfg attr of
          None \<Rightarrow> Inr [] | Some key \<Rightarrow> if key = [] then Inl LLMResponseError else Inr key))"

definition provider_url :: "llm_settings \<Rightarrow> provider_entry \<Rightarrow> string option" where
  "provider_url cfg entry =
     (let url = (case pe_url_attr entry of None \<Rightarrow> pe_url entry | Some attr \<Rightarrow> or_else (ls_attr cfg attr) (pe_url entry))
      in map_option (\<lambda>u. if pe_normalize entry then normalize_ollama_url u else u) url)"

definition create_provider :: "llm_settings \<Rightarrow> string \<Rightarrow> exn + provider" where
  "create_provider cfg provider_name =
     (let name = lower (strip provider_name)
      in if name = [] then Inl LLMResponseError
         else case map_of PROVIDER_REGISTRY name of
             None \<Rightarrow> Inl LLMResponseError
           | Some entry \<Rightarrow> (case resolve_model cfg name entry of
               Inl e \<Rightarrow> Inl e
             | Inr model \<Rightarrow> (case provider_key cfg entry of
                 Inl e \<Rightarrow> Inl e
               | Inr key \<Rightarrow> Inr (make_provider (pe_cls entry) key model (ls_timeout cfg) (provider_url cfg entry)))))"

text \<open>The cache of the process, by the name of the setting.\<close>

definition get_llm_provider :: "llm_settings \<Rightarrow> ((string \<times> provider) list, exn, provider) prog" where
  "get_llm_provider cfg = bindE (getE (\<lambda>cache. map_of cache (ls_provider cfg))) (\<lambda>found. case found of
       Some p \<Rightarrow> retE p
     | None \<Rightarrow> (case create_provider cfg (ls_provider cfg) of
         Inl e \<Rightarrow> raiseE e
       | Inr p \<Rightarrow> thenE (modE (\<lambda>cache. (ls_provider cfg, p) # cache)) (retE p)))"

subsection \<open>Requests and answers\<close>

record http_request =
  hr_url :: string
  hr_headers :: "(string \<times> string) list"
  hr_body :: json

definition text_message :: "string \<Rightarrow> string \<Rightarrow> json" where
  "text_message role content = JObj [(''role'', JStr role), (''content'', JStr content)]"

definition given :: "string option \<Rightarrow> bool" where
  "given s \<longleftrightarrow> (case s of None \<Rightarrow> False | Some t \<Rightarrow> t \<noteq> [])"

definition build_request :: "provider \<Rightarrow> string \<Rightarrow> int \<Rightarrow> string \<Rightarrow> string option \<Rightarrow> http_request" where
  "build_request p prompt max_tokens temperature system_prompt =
     (let system = (case system_prompt of None \<Rightarrow> [] | Some s \<Rightarrow> s) in
      case pv_cls p of
        OpenAICompatProvider \<Rightarrow> \<lparr>hr_url = pv_base p @ ''/chat/completions'',
          hr_headers = [(''Authorization'', ''Bearer '' @ pv_key p), (''Content-Type'', ''application/json'')],
          hr_body = JObj [(''model'', JStr (pv_model p)),
            (''messages'', JArr ((if given system_prompt then [text_message ''system'' system] else []) @ [text_message ''user'' prompt])),
            (''max_tokens'', JInt max_tokens), (''temperature'', JFloat temperature)]\<rparr>
      | AnthropicProvider \<Rightarrow> \<lparr>hr_url = pv_base p,
          hr_headers = [(''x-api-key'', pv_key p), (''anthropic-version'', ''2023-06-01''), (''Content-Type'', ''application/json'')],
          hr_body = JObj ([(''model'', JStr (pv_model p)), (''messages'', JArr [text_message ''user'' prompt]),
            (''max_tokens'', JInt max_tokens), (''temperature'', JFloat temperature)] @
            (if given system_prompt then [(''system'', JStr system)] else []))\<rparr>
      | GeminiProvider \<Rightarrow> \<lparr>hr_url = pv_base p @ ''/models/'' @ pv_model p @ '':generateContent'',
          hr_headers = [(''x-goog-api-key'', pv_key p), (''Content-Type'', ''application/json'')],
          hr_body = JObj ([(''contents'', JArr [JObj [(''parts'', JArr [JObj [(''text'', JStr prompt)]])]]),
            (''generationConfig'', JObj [(''maxOutputTokens'', JInt max_tokens), (''temperature'', JFloat temperature)])] @
            (if given system_prompt then [(''systemInstruction'', JObj [(''parts'', JArr [JObj [(''text'', JStr system)]])])] else []))\<rparr>)"

text \<open>\<open>d[k]\<close> and \<open>xs[0]\<close> on what the reader of JSON gave; \<open>None\<close> where Python raises.\<close>

definition json_key :: "string \<Rightarrow> json \<Rightarrow> json option" where
  "json_key k j = (case j of JObj d \<Rightarrow> map_of d k | _ \<Rightarrow> None)"

definition json_first :: "json \<Rightarrow> json option" where
  "json_first j = (case j of JArr (x # _) \<Rightarrow> Some x | _ \<Rightarrow> None)"

text \<open>The value is handed on as it is: it may be \<open>null\<close>.\<close>

definition parse_response :: "provider_class \<Rightarrow> json \<Rightarrow> json option" where
  "parse_response cls data = (case cls of
      OpenAICompatProvider \<Rightarrow> Option.bind (Option.bind (Option.bind (json_key ''choices'' data) json_first)
        (json_key ''message'')) (json_key ''content'')
    | AnthropicProvider \<Rightarrow> Option.bind (Option.bind (json_key ''content'' data) json_first) (json_key ''text'')
    | GeminiProvider \<Rightarrow> Option.bind (Option.bind (Option.bind (Option.bind (Option.bind (json_key ''candidates'' data) json_first)
        (json_key ''content'')) (json_key ''parts'')) json_first) (json_key ''text''))"

subsection \<open>A call\<close>

datatype http_reply = RequestTimeout | RequestError | HttpReply nat "json option"

record 'n llm_world =
  lw_net :: 'n
  lw_posts :: "http_request list"
  lw_slept :: "int list"

type_synonym 'n http_client = "http_request \<Rightarrow> 'n \<Rightarrow> http_reply \<times> 'n"

definition LLM_RETRY_MAX_ATTEMPTS :: nat where
  "LLM_RETRY_MAX_ATTEMPTS = 3"

definition LLM_RETRY_BACKOFF_BASE_SECONDS :: int where
  "LLM_RETRY_BACKOFF_BASE_SECONDS = 1"

definition LLM_RETRYABLE_STATUS_CODES :: "nat list" where
  "LLM_RETRYABLE_STATUS_CODES = [429, 500, 502, 503, 504]"

definition http_post :: "'n http_client \<Rightarrow> http_request \<Rightarrow> ('n llm_world, exn, http_reply) prog" where
  "http_post client req w = (case client req (lw_net w) of
      (r, n) \<Rightarrow> (Inr r, w\<lparr>lw_net := n, lw_posts := lw_posts w @ [req]\<rparr>))"

definition llm_sleep :: "int \<Rightarrow> ('n llm_world, exn, unit) prog" where
  "llm_sleep s = modE (\<lambda>w. w\<lparr>lw_slept := lw_slept w @ [s]\<rparr>)"

fun attempt_loop :: "'n http_client \<Rightarrow> provider_class \<Rightarrow> http_request \<Rightarrow> nat list \<Rightarrow> ('n llm_world, exn, json) prog" where
  "attempt_loop client cls req [] = raiseE LLMError"
| "attempt_loop client cls req (attempt # rest) = bindE (http_post client req) (\<lambda>reply. case reply of
       RequestTimeout \<Rightarrow> raiseE LLMTimeoutError
     | RequestError \<Rightarrow> raiseE LLMError
     | HttpReply code body \<Rightarrow>
         if code = 451 then raiseE LLMContentFilterError
         else if code = 429 then
           (if attempt < LLM_RETRY_MAX_ATTEMPTS
            then thenE (llm_sleep (LLM_RETRY_BACKOFF_BASE_SECONDS * 2 ^ (attempt - 1))) (attempt_loop client cls req rest)
            else raiseE LLMRateLimitError)
         else if code \<in> set LLM_RETRYABLE_STATUS_CODES then
           (if attempt < LLM_RETRY_MAX_ATTEMPTS
            then thenE (llm_sleep (LLM_RETRY_BACKOFF_BASE_SECONDS * 2 ^ (attempt - 1))) (attempt_loop client cls req rest)
            else raiseE LLMResponseError)
         else if \<not> (200 \<le> code \<and> code < 300) then raiseE LLMResponseError
         else (case Option.bind body (parse_response cls) of None \<Rightarrow> raiseE LLMResponseError | Some content \<Rightarrow> retE content))"

definition provider_complete ::
  "'n http_client \<Rightarrow> provider \<Rightarrow> string \<Rightarrow> int \<Rightarrow> string \<Rightarrow> string option \<Rightarrow> ('n llm_world, exn, json) prog" where
  "provider_complete client p prompt max_tokens temperature system_prompt =
     attempt_loop client (pv_cls p) (build_request p prompt max_tokens temperature system_prompt)
       [1..<LLM_RETRY_MAX_ATTEMPTS + 1]"

definition llm_safe_complete ::
  "'n http_client \<Rightarrow> provider \<Rightarrow> string \<Rightarrow> int \<Rightarrow> string \<Rightarrow> string option \<Rightarrow> ('n llm_world, exn, json \<times> bool) prog" where
  "llm_safe_complete client p prompt max_tokens temperature system_prompt =
     catchE (bindE (provider_complete client p prompt max_tokens temperature system_prompt) (\<lambda>t. retE (t, False)))
       (\<lambda>e. if is_app_exception e then retE (JStr [], True) else raiseE e)"

subsection \<open>What a call does\<close>

definition retryable :: "http_reply \<Rightarrow> bool" where
  "retryable r \<longleftrightarrow> (case r of HttpReply code _ \<Rightarrow> code \<in> set LLM_RETRYABLE_STATUS_CODES | _ \<Rightarrow> False)"

text \<open>What the last reply of a call means.\<close>

definition verdict :: "provider_class \<Rightarrow> http_reply \<Rightarrow> exn + json" where
  "verdict cls r = (case r of
      RequestTimeout \<Rightarrow> Inl LLMTimeoutError
    | RequestError \<Rightarrow> Inl LLMError
    | HttpReply code body \<Rightarrow>
        if code = 451 then Inl LLMContentFilterError
        else if code = 429 then Inl LLMRateLimitError
        else if 200 \<le> code \<and> code < 300 then
          (case Option.bind body (parse_response cls) of None \<Rightarrow> Inl LLMResponseError | Some c \<Rightarrow> Inr c)
        else Inl LLMResponseError)"

fun net_after :: "'n http_client \<Rightarrow> http_request \<Rightarrow> nat \<Rightarrow> 'n \<Rightarrow> 'n" where
  "net_after client req 0 n = n"
| "net_after client req (Suc k) n = net_after client req k (snd (client req n))"

definition reply_at :: "'n http_client \<Rightarrow> http_request \<Rightarrow> 'n \<Rightarrow> nat \<Rightarrow> http_reply" where
  "reply_at client req n k = fst (client req (net_after client req k n))"

definition resends :: "(nat \<Rightarrow> http_reply) \<Rightarrow> nat" where
  "resends r = (if retryable (r 0) then if retryable (r 1) then 2 else 1 else 0)"

lemma retry_codes: "code \<in> set LLM_RETRYABLE_STATUS_CODES \<Longrightarrow> code \<noteq> 451 \<and> \<not> code < 300"
  by (auto simp: LLM_RETRYABLE_STATUS_CODES_def)

lemma attempts_final:
  assumes "\<not> retryable (fst (client req (lw_net w))) \<or> \<not> a < LLM_RETRY_MAX_ATTEMPTS"
  shows "attempt_loop client cls req (a # rest) w =
    (verdict cls (fst (client req (lw_net w))), w\<lparr>lw_net := snd (client req (lw_net w)), lw_posts := lw_posts w @ [req]\<rparr>)"
proof -
  have "429 \<in> set LLM_RETRYABLE_STATUS_CODES" by (simp add: LLM_RETRYABLE_STATUS_CODES_def)
  with assms show ?thesis
    by (cases "client req (lw_net w)") (auto simp: http_post_def bindE_def verdict_def retryable_def dest: retry_codes split: http_reply.split option.split)
qed

lemma attempts_retry:
  assumes "retryable (fst (client req (lw_net w)))" and "a < LLM_RETRY_MAX_ATTEMPTS"
  shows "attempt_loop client cls req (a # rest) w = attempt_loop client cls req rest
    (w\<lparr>lw_net := snd (client req (lw_net w)), lw_posts := lw_posts w @ [req], lw_slept := lw_slept w @ [2 ^ (a - 1)]\<rparr>)"
  using assms by (cases "client req (lw_net w)") (auto simp: http_post_def bindE_def thenE_def llm_sleep_def retryable_def LLM_RETRY_BACKOFF_BASE_SECONDS_def
      dest: retry_codes split: http_reply.splits)

declare attempt_loop.simps [simp del]

lemma attempts_spec:
  "attempt_loop client cls req [Suc 0, 2, 3] w =
     (let r = reply_at client req (lw_net w); k = resends r
      in (verdict cls (r k), w\<lparr>lw_net := net_after client req (Suc k) (lw_net w),
           lw_posts := lw_posts w @ replicate (Suc k) req, lw_slept := lw_slept w @ take k [1, 2]\<rparr>))"
proof -
  have max: "LLM_RETRY_MAX_ATTEMPTS = 3" by (simp add: LLM_RETRY_MAX_ATTEMPTS_def)
  obtain r0 n1 where 1: "client req (lw_net w) = (r0, n1)" by fastforce
  obtain r1 n2 where 2: "client req n1 = (r1, n2)" by fastforce
  obtain r2 n3 where 3: "client req n2 = (r2, n3)" by fastforce
  have r: "reply_at client req (lw_net w) 0 = r0" "reply_at client req (lw_net w) (Suc 0) = r1" "reply_at client req (lw_net w) 2 = r2"
    using 1 2 3 by (simp_all add: reply_at_def numeral_2_eq_2)
  show ?thesis
  proof (cases "retryable r0")
    case False
    with 1 r show ?thesis by (simp add: attempts_final Let_def resends_def)
  next
    case first: True
    show ?thesis
    proof (cases "retryable r1")
      case False
      with first 1 2 r show ?thesis
        by (simp add: attempts_retry max attempts_final Let_def resends_def)
    next
      case True
      with first 1 2 3 r show ?thesis
        by (simp add: attempts_retry attempts_final max Let_def resends_def numeral_2_eq_2)
    qed
  qed
qed

lemma verdict_handled: "verdict cls r = Inl e \<Longrightarrow> is_app_exception e"
  by (auto simp: verdict_def split: http_reply.splits if_splits option.splits)

text \<open>
  C35: A call of the model always ends, with at most three posts.  Whatever the service answers, the
  same request is posted until an answer is not one to retry, three times at the most, with pauses of one and
  two seconds; the value returned is that of the last answer, or the empty text with the flag of a failure;
  and no exception of the provider leaves the call.
\<close>

theorem llm_call_always_answers:
  "llm_safe_complete client p prompt max_tokens temperature system w =
    (let req = build_request p prompt max_tokens temperature system; r = reply_at client req (lw_net w); k = resends r
     in (Inr (case verdict (pv_cls p) (r k) of Inr content \<Rightarrow> (content, False) | Inl e \<Rightarrow> (JStr '''', True)),
         w\<lparr>lw_net := net_after client req (Suc k) (lw_net w), lw_posts := lw_posts w @ replicate (Suc k) req,
           lw_slept := lw_slept w @ take k [1, 2]\<rparr>))"
proof -
  have "[1..<LLM_RETRY_MAX_ATTEMPTS + 1] = [1, 2, 3]" by (simp add: LLM_RETRY_MAX_ATTEMPTS_def upt_conv_Cons)
  then show ?thesis
    unfolding llm_safe_complete_def provider_complete_def
    by (auto simp: catchE_def bindE_def attempts_spec Let_def verdict_handled split: sum.split)
qed

end
