(* ===== verification/Scan_State.thy ===== *)
theory Scan_State
  imports Db "HOL-Library.Product_Lexorder"
begin

text \<open>
  The scan state machine, \<open>app/modules/scans/state.py\<close>: the transition map and its reverse index,
  the conditional update, the claim of the oldest ready row, the ready count and the reaper.  The
  abstract life cycle of a row is the relation \<open>scan_move\<close>; the lemmas show that every operation
  changes the table by such moves only, and what each operation returns.
\<close>

subsection \<open>The transition map\<close>

definition all_statuses :: "scan_status list" where
  "all_statuses = [Pending, Running, Completed, Failed, ScanCancelled]"

fun SCAN_TRANSITIONS :: "scan_status \<Rightarrow> scan_status list" where
  "SCAN_TRANSITIONS Pending = [Running, ScanCancelled, Failed]"
| "SCAN_TRANSITIONS Running = [Completed, Failed, ScanCancelled]"
| "SCAN_TRANSITIONS Completed = []"
| "SCAN_TRANSITIONS Failed = []"
| "SCAN_TRANSITIONS ScanCancelled = []"

definition TERMINAL_STATUSES :: "scan_status list" where
  "TERMINAL_STATUSES = [Completed, Failed, ScanCancelled]"

definition ALLOWED_FROM :: "scan_status \<Rightarrow> scan_status list" where
  "ALLOWED_FROM target = filter (\<lambda>source. target \<in> set (SCAN_TRANSITIONS source)) all_statuses"

text \<open>The keys of \<open>SCAN_TRANSITIONS\<close>, which are the values of the status column.\<close>

definition status_of :: "string \<Rightarrow> scan_status option" where
  "status_of s =
    (if s = ''pending'' then Some Pending else if s = ''running'' then Some Running
     else if s = ''completed'' then Some Completed else if s = ''failed'' then Some Failed
     else if s = ''cancelled'' then Some ScanCancelled else None)"

lemma ALLOWED_FROM_simps [simp]:
  "ALLOWED_FROM Pending = []" "ALLOWED_FROM Running = [Pending]"
  "ALLOWED_FROM Completed = [Running]" "ALLOWED_FROM Failed = [Pending, Running]"
  "ALLOWED_FROM ScanCancelled = [Pending, Running]"
  by (simp_all add: ALLOWED_FROM_def all_statuses_def)

lemma status_of_simps [simp]:
  "status_of ''pending'' = Some Pending" "status_of ''running'' = Some Running"
  "status_of ''completed'' = Some Completed" "status_of ''failed'' = Some Failed"
  "status_of ''cancelled'' = Some ScanCancelled"
  by (simp_all add: status_of_def)

lemma ALLOWED_FROM_iff: "s \<in> set (ALLOWED_FROM t) \<longleftrightarrow> t \<in> set (SCAN_TRANSITIONS s)"
  by (cases s; cases t) simp_all

lemma terminal_iff: "s \<in> set TERMINAL_STATUSES \<longleftrightarrow> SCAN_TRANSITIONS s = []"
  by (cases s) (simp_all add: TERMINAL_STATUSES_def)

subsection \<open>Statements on the scans table\<close>

text \<open>An \<open>UPDATE\<close>: the rows the policy shows and the predicate selects; the result is the row count.\<close>

definition update_scans :: "(scan_row \<Rightarrow> bool) \<Rightarrow> (scan_row \<Rightarrow> scan_row) \<Rightarrow> ('r, nat) db_prog" where
  "update_scans p f w =
    (let q = (\<lambda>r. rls_row (guc w) (sc_tenant r) \<and> p r)
     in (Inr (count_where q (scans (work w))),
         w\<lparr>work := (work w)\<lparr>scans := update_where q f (scans (work w))\<rparr>\<rparr>))"

definition scan_ready :: "scan_row \<Rightarrow> bool" where
  "scan_ready r \<longleftrightarrow> sc_status r = Pending \<and> sc_dispatched r \<noteq> None"

subsection \<open>The operations\<close>

definition transition_values ::
  "time \<Rightarrow> scan_status \<Rightarrow> string option \<Rightarrow> string option \<Rightarrow> scan_row \<Rightarrow> scan_row" where
  "transition_values now st failure_reason raw_output r =
    (let r1 = r\<lparr>sc_status := st\<rparr>;
         r2 = (if raw_output \<noteq> None then r1\<lparr>sc_raw := raw_output\<rparr> else r1);
         r3 = (if st = Running then r2\<lparr>sc_started := Some now\<rparr>
               else if st \<in> set TERMINAL_STATUSES then r2\<lparr>sc_completed := Some now\<rparr>
               else r2)
     in if st = Failed then r3\<lparr>sc_failure := failure_reason\<rparr> else r3)"

definition transition_scan ::
  "(tables \<Rightarrow> exn option) \<Rightarrow> time \<Rightarrow> uuid \<Rightarrow> string \<Rightarrow> string option \<Rightarrow> string option \<Rightarrow> bool
   \<Rightarrow> ('r, bool) db_prog" where
  "transition_scan refuse now scan_id to failure_reason raw_output do_commit =
    (case status_of to of
       None \<Rightarrow> raiseE (ValueError (''unknown scan status '' @ py_repr to))
     | Some st \<Rightarrow>
         if ALLOWED_FROM st = []
         then raiseE (ValueError (''scan status '' @ py_repr to @ '' cannot be reached by any transition''))
         else if st = Failed \<and> (failure_reason = None \<or> failure_reason = Some '''')
         then raiseE (ValueError (''failure_reason is required when transitioning to '' @ py_repr ''failed''))
         else if st \<noteq> Failed \<and> failure_reason \<noteq> None
         then raiseE (ValueError (''failure_reason is only allowed when transitioning to '' @
                                 py_repr ''failed''))
         else if failure_reason \<noteq> None \<and> 64 < length (the failure_reason)
         then raiseE (ValueError ''failure_reason must not exceed 64 characters'')
         else if raw_output \<noteq> None \<and> st \<notin> {Completed, Failed}
         then raiseE (ValueError ''raw_output is only allowed for completed or failed scans'')
         else bindE
           (update_scans
              (\<lambda>r. sc_id r = scan_id \<and> sc_status r \<in> set (ALLOWED_FROM st) \<and>
                   (st = Running \<longrightarrow> sc_dispatched r \<noteq> None))
              (transition_values now st failure_reason raw_output))
           (\<lambda>rowcount. thenE (whenE do_commit (commit refuse)) (retE (rowcount = 1))))"

definition cancel_scan_state ::
  "(tables \<Rightarrow> exn option) \<Rightarrow> time \<Rightarrow> uuid \<Rightarrow> ('r, bool) db_prog" where
  "cancel_scan_state refuse now scan_id =
     transition_scan refuse now scan_id ''cancelled'' None None True"

definition count_ready_scans :: "(tables \<Rightarrow> exn option) \<Rightarrow> int \<Rightarrow> ('r, nat) db_prog" where
  "count_ready_scans refuse limit =
    (if limit \<le> 0 then raiseE (ValueError ''limit must be positive'')
     else thenE (set_tenant_context None True)
       (bindE (getE (\<lambda>w. length (take (nat limit) (filter scan_ready (seen_scans w)))))
         (\<lambda>n. thenE (commit refuse) (retE n))))"

text \<open>
  \<open>locked\<close> are the rows other transactions hold locks on, which \<open>SKIP LOCKED\<close> passes over;
  \<open>dbnow\<close> is the database clock.
\<close>

definition oldest_ready :: "uuid list \<Rightarrow> scan_row list \<Rightarrow> scan_row option" where
  "oldest_ready locked rs =
    (case sort_key (\<lambda>r. (the (sc_dispatched r), sc_id r))
            (filter (\<lambda>r. scan_ready r \<and> sc_id r \<notin> set locked) rs) of
       [] \<Rightarrow> None | r # _ \<Rightarrow> Some r)"

definition claim_next_scan ::
  "(tables \<Rightarrow> exn option) \<Rightarrow> time \<Rightarrow> uuid list \<Rightarrow> ('r, (uuid \<times> uuid) option) db_prog" where
  "claim_next_scan refuse dbnow locked =
    thenE (set_tenant_context None True)
      (bindE (getE (\<lambda>w. oldest_ready locked (seen_scans w)))
        (\<lambda>oldest. case oldest of
           None \<Rightarrow> thenE (commit refuse) (retE None)
         | Some r \<Rightarrow>
             thenE (update_scans (\<lambda>s. sc_id s = sc_id r \<and> scan_ready s)
                      (\<lambda>s. s\<lparr>sc_status := Running, sc_started := Some dbnow\<rparr>))
               (thenE (commit refuse) (retE (Some (sc_id r, sc_tenant r))))))"

definition reap_stale_scans ::
  "(tables \<Rightarrow> exn option) \<Rightarrow> time \<Rightarrow> int \<Rightarrow> ('r, nat) db_prog" where
  "reap_stale_scans refuse dbnow older_than_seconds =
    (if older_than_seconds \<le> 0 then raiseE (ValueError ''older_than_seconds must be positive'')
     else thenE (set_tenant_context None True)
       (bindE (update_scans
            (\<lambda>r. sc_status r = Running \<and> sc_started r \<noteq> None \<and>
                 the (sc_started r) \<le> dbnow - seconds older_than_seconds)
            (\<lambda>r. r\<lparr>sc_status := Failed, sc_failure := Some ''worker_lost'',
                    sc_completed := Some dbnow\<rparr>))
         (\<lambda>n. thenE (commit refuse) (retE n))))"

subsection \<open>The abstract life cycle of a row\<close>

inductive scan_move :: "scan_row \<Rightarrow> scan_row \<Rightarrow> bool" where
  stay: "scan_move r r"
| edit: "scan_move r (r\<lparr>sc_name := n, sc_type := t, sc_config := c\<rparr>)"
| dispatch: "sc_status r = Pending \<Longrightarrow> sc_dispatched r = None \<Longrightarrow>
    scan_move r (r\<lparr>sc_dispatched := Some d\<rparr>)"
| start: "sc_status r = Pending \<Longrightarrow> sc_dispatched r \<noteq> None \<Longrightarrow>
    scan_move r (r\<lparr>sc_status := Running, sc_started := Some s\<rparr>)"
| complete: "sc_status r = Running \<Longrightarrow> raw = sc_raw r \<or> raw \<noteq> None \<Longrightarrow>
    scan_move r (r\<lparr>sc_status := Completed, sc_raw := raw, sc_completed := Some d\<rparr>)"
| fail: "sc_status r \<in> {Pending, Running} \<Longrightarrow> reason \<noteq> '''' \<Longrightarrow> length reason \<le> 64 \<Longrightarrow>
    raw = sc_raw r \<or> raw \<noteq> None \<Longrightarrow>
    scan_move r (r\<lparr>sc_status := Failed, sc_raw := raw, sc_completed := Some d,
                    sc_failure := Some reason\<rparr>)"
| cancel: "sc_status r \<in> {Pending, Running} \<Longrightarrow>
    scan_move r (r\<lparr>sc_status := ScanCancelled, sc_completed := Some d\<rparr>)"

definition scan_wf :: "scan_row \<Rightarrow> bool" where
  "scan_wf r \<longleftrightarrow> (case sc_status r of
      Pending \<Rightarrow> sc_started r = None \<and> sc_completed r = None \<and> sc_failure r = None \<and> sc_raw r = None
    | Running \<Rightarrow> sc_dispatched r \<noteq> None \<and> sc_started r \<noteq> None \<and> sc_completed r = None \<and>
        sc_failure r = None \<and> sc_raw r = None
    | Completed \<Rightarrow> sc_dispatched r \<noteq> None \<and> sc_started r \<noteq> None \<and> sc_completed r \<noteq> None \<and>
        sc_failure r = None
    | Failed \<Rightarrow> sc_completed r \<noteq> None \<and>
        (\<exists>s. sc_failure r = Some s \<and> s \<noteq> '''' \<and> length s \<le> 64)
    | ScanCancelled \<Rightarrow> sc_completed r \<noteq> None \<and> sc_failure r = None \<and> sc_raw r = None)"

lemma scan_move_wf: "scan_move r r' \<Longrightarrow> scan_wf r \<Longrightarrow> scan_wf r'"
  by (induction rule: scan_move.induct) (auto simp: scan_wf_def split: scan_status.splits)

lemma scan_move_key:
  "scan_move r r' \<Longrightarrow> sc_id r' = sc_id r \<and> sc_tenant r' = sc_tenant r \<and> sc_asset r' = sc_asset r \<and>
     sc_created r' = sc_created r"
  by (induction rule: scan_move.induct) auto

lemma scan_move_edge:
  "scan_move r r' \<Longrightarrow> sc_status r' = sc_status r \<or> sc_status r' \<in> set (SCAN_TRANSITIONS (sc_status r))"
  by (induction rule: scan_move.induct) auto

text \<open>What a row keeps for good once it is terminal: everything but its name and configuration.\<close>

definition scan_outcome ::
  "scan_row \<Rightarrow> scan_status \<times> time option \<times> time option \<times> time option \<times> string option \<times> string option"
where
  "scan_outcome r =
    (sc_status r, sc_dispatched r, sc_started r, sc_completed r, sc_failure r, sc_raw r)"

lemma scan_move_terminal:
  "scan_move r r' \<Longrightarrow> sc_status r \<in> set TERMINAL_STATUSES \<Longrightarrow> scan_outcome r' = scan_outcome r"
  by (induction rule: scan_move.induct) (auto simp: scan_outcome_def TERMINAL_STATUSES_def)

text \<open>
  The table changes by moves of its rows only; the relation is reflexive and transitive, so that it
  composes over the statements and the transactions of a program.
\<close>

definition scans_move :: "scan_row list \<Rightarrow> scan_row list \<Rightarrow> bool" where
  "scans_move xs ys \<longleftrightarrow> list_all2 (scan_move\<^sup>*\<^sup>*) xs ys"

lemma scan_path_wf: "scan_move\<^sup>*\<^sup>* r r' \<Longrightarrow> scan_wf r \<Longrightarrow> scan_wf r'"
  by (induction rule: rtranclp_induct) (auto dest: scan_move_wf)

lemma scan_path_key:
  "scan_move\<^sup>*\<^sup>* r r' \<Longrightarrow> sc_id r' = sc_id r \<and> sc_tenant r' = sc_tenant r \<and> sc_asset r' = sc_asset r \<and>
     sc_created r' = sc_created r"
  by (induction rule: rtranclp_induct) (auto dest: scan_move_key)

lemma scan_path_terminal:
  "scan_move\<^sup>*\<^sup>* r r' \<Longrightarrow> sc_status r \<in> set TERMINAL_STATUSES \<Longrightarrow> scan_outcome r' = scan_outcome r"
proof (induction rule: rtranclp_induct)
  case (step s t)
  then have "sc_status s = sc_status r" by (simp add: scan_outcome_def)
  with step show ?case using scan_move_terminal [OF step.hyps(2)] by simp
qed simp

lemma scans_move_refl [simp, intro]: "scans_move xs xs"
  unfolding scans_move_def by (rule list_all2_refl) simp

lemma scans_move_trans [trans]: "scans_move xs ys \<Longrightarrow> scans_move ys zs \<Longrightarrow> scans_move xs zs"
  unfolding scans_move_def by (rule list_all2_trans [where ?P1.0 = "scan_move\<^sup>*\<^sup>*"]) auto

lemma scans_move_update:
  "(\<And>r. r \<in> set xs \<Longrightarrow> p r \<Longrightarrow> scan_move r (f r)) \<Longrightarrow> scans_move xs (update_where p f xs)"
  by (induction xs) (auto simp: scans_move_def)

lemma scans_move_ids: "scans_move xs ys \<Longrightarrow> map sc_id ys = map sc_id xs"
  unfolding scans_move_def by (induction rule: list_all2_induct) (auto dest: scan_path_key)

lemma scans_move_back:
  "scans_move xs ys \<Longrightarrow> r' \<in> set ys \<Longrightarrow> \<exists>r \<in> set xs. scan_move\<^sup>*\<^sup>* r r'"
  unfolding scans_move_def by (metis in_set_conv_nth list_all2_conv_all_nth)

text \<open>The invariant a program keeps when it changes scans by moves only, whatever it commits.\<close>

definition scans_from :: "scan_row list \<Rightarrow> 'r world \<Rightarrow> bool" where
  "scans_from C w \<longleftrightarrow> scans_move C (scans (committed w)) \<and> scans_move C (scans (work w))"

lemma scans_from_end_tx [simp]:
  "scans_from C (end_tx t w) \<longleftrightarrow> scans_move C (scans t)"
  by (simp add: scans_from_def)

lemma keeps_scans_commit [intro, simp]: "keeps (scans_from C) (commit refuse)"
proof (rule keepsI)
  fix w :: "'r world" assume w: "scans_from C w"
  obtain res w' where run: "commit refuse w = (res, w')" by fastforce
  have "w' = end_tx (committed w) w \<or> w' = end_tx (work w) w"
    using run by (cases res) (auto dest: commit_Inl simp: commit_Inr)
  with w have "scans_from C w'" by (auto simp: scans_from_def)
  then show "scans_from C (snd (commit refuse w))" by (simp add: run)
qed

lemma keeps_scans_rollback [intro, simp]: "keeps (scans_from C) rollback"
  by (rule keepsI) (simp add: scans_from_def)

lemma keeps_scans_context [intro, simp]: "keeps (scans_from C) (set_tenant_context t b)"
  by (auto simp: keeps_def set_tenant_context_def scans_from_def)

lemma keeps_scans_update:
  assumes "\<And>r. p r \<Longrightarrow> scan_move r (f r)"
  shows "keeps (scans_from C) (update_scans p f)"
proof (rule keepsI)
  fix w :: "'r world" assume w: "scans_from C w"
  have "scans_move (scans (work w)) (scans (work (snd (update_scans p f w))))"
    by (auto simp: update_scans_def Let_def assms intro!: scans_move_update)
  with w show "scans_from C (snd (update_scans p f w))"
    by (auto simp: scans_from_def update_scans_def Let_def elim: scans_move_trans)
qed

subsection \<open>Each operation is a refinement of the life cycle\<close>

lemma transition_values_key [simp]:
  "sc_id (transition_values now st reason raw r) = sc_id r"
  "sc_tenant (transition_values now st reason raw r) = sc_tenant r"
  by (simp_all add: transition_values_def Let_def)

lemma transition_values_move:
  assumes "sc_status r \<in> set (ALLOWED_FROM st)" and "st = Running \<Longrightarrow> sc_dispatched r \<noteq> None"
    and "st = Failed \<Longrightarrow> \<exists>s. reason = Some s \<and> s \<noteq> '''' \<and> length s \<le> 64"
    and "raw \<noteq> None \<Longrightarrow> st \<in> {Completed, Failed}"
  shows "scan_move r (transition_values now st reason raw r)"
proof (cases st)
  case Running
  with assms have "raw = None" by (cases raw) auto
  with Running have "transition_values now st reason raw r =
      r\<lparr>sc_status := Running, sc_started := Some now\<rparr>"
    by (simp add: transition_values_def Let_def)
  then show ?thesis using assms Running by (auto intro: scan_move.start)
next
  case Completed
  then have "transition_values now st reason raw r =
      r\<lparr>sc_status := Completed, sc_raw := (if raw \<noteq> None then raw else sc_raw r),
         sc_completed := Some now\<rparr>"
    by (simp add: transition_values_def TERMINAL_STATUSES_def Let_def)
  moreover have "scan_move r (r\<lparr>sc_status := Completed,
      sc_raw := (if raw \<noteq> None then raw else sc_raw r), sc_completed := Some now\<rparr>)"
    using assms Completed by (intro scan_move.complete) auto
  ultimately show ?thesis by simp
next
  case Failed
  with assms obtain s where s: "reason = Some s" "s \<noteq> ''''" "length s \<le> 64" by auto
  have "transition_values now st reason raw r =
      r\<lparr>sc_status := Failed, sc_raw := (if raw \<noteq> None then raw else sc_raw r),
         sc_completed := Some now, sc_failure := Some s\<rparr>"
    using Failed s by (simp add: transition_values_def TERMINAL_STATUSES_def Let_def)
  moreover have "scan_move r (r\<lparr>sc_status := Failed,
      sc_raw := (if raw \<noteq> None then raw else sc_raw r),
      sc_completed := Some now, sc_failure := Some s\<rparr>)"
    using assms Failed s by (intro scan_move.fail) auto
  ultimately show ?thesis by simp
next
  case ScanCancelled
  with assms have "raw = None" by (cases raw) auto
  with ScanCancelled have "transition_values now st reason raw r =
      r\<lparr>sc_status := ScanCancelled, sc_completed := Some now\<rparr>"
    by (simp add: transition_values_def TERMINAL_STATUSES_def Let_def)
  then show ?thesis using assms ScanCancelled by (auto intro: scan_move.cancel)
qed (use assms in simp)

lemma update_scans_run:
  "update_scans p f w = (r, w') \<longleftrightarrow>
     r = Inr (count_where (\<lambda>r. rls_row (guc w) (sc_tenant r) \<and> p r) (scans (work w))) \<and>
     w' = w\<lparr>work := (work w)\<lparr>scans :=
              update_where (\<lambda>r. rls_row (guc w) (sc_tenant r) \<and> p r) f (scans (work w))\<rparr>\<rparr>"
  by (auto simp: update_scans_def Let_def)


lemma transition_scan_keeps [intro]:
  "keeps (scans_from C) (transition_scan refuse now i to reason raw do_commit)"
  unfolding transition_scan_def
  by (intro keeps_intros keeps_scans_commit keeps_scans_update transition_values_move) auto

lemma cancel_scan_state_keeps [intro]: "keeps (scans_from C) (cancel_scan_state refuse now i)"
  unfolding cancel_scan_state_def by (rule transition_scan_keeps)

lemma count_ready_scans_keeps [intro]: "keeps (scans_from C) (count_ready_scans refuse n)"
  unfolding count_ready_scans_def by (auto intro!: keeps_bind keeps_then)

lemma claim_next_scan_keeps [intro]: "keeps (scans_from C) (claim_next_scan refuse d L)"
proof -
  have "keeps (scans_from C) (update_scans (\<lambda>s. sc_id s = i \<and> scan_ready s)
          (\<lambda>s. s\<lparr>sc_status := Running, sc_started := Some d\<rparr>))" for i
    by (rule keeps_scans_update) (auto simp: scan_ready_def intro: scan_move.start)
  then show ?thesis
    unfolding claim_next_scan_def
    by (auto split: option.split intro!: keeps_bind keeps_then)
qed

lemma reap_move:
  "sc_status r = Running \<Longrightarrow>
     scan_move r (r\<lparr>sc_status := Failed, sc_failure := Some ''worker_lost'', sc_completed := Some d\<rparr>)"
proof -
  assume "sc_status r = Running"
  then have "scan_move r (r\<lparr>sc_status := Failed, sc_raw := sc_raw r, sc_completed := Some d,
      sc_failure := Some ''worker_lost''\<rparr>)"
    by (intro scan_move.fail) auto
  moreover have "r\<lparr>sc_status := Failed, sc_raw := sc_raw r, sc_completed := Some d,
      sc_failure := Some ''worker_lost''\<rparr> =
    r\<lparr>sc_status := Failed, sc_failure := Some ''worker_lost'', sc_completed := Some d\<rparr>"
    by simp
  ultimately show ?thesis by (simp only:)
qed

lemma reap_stale_scans_keeps [intro]: "keeps (scans_from C) (reap_stale_scans refuse d n)"
  unfolding reap_stale_scans_def
  by (intro keeps_intros keeps_scans_commit keeps_scans_context keeps_scans_update reap_move) auto


definition sample_queue :: "scan_row list" where
  "sample_queue = [sample_scan 7 1 2 ''a'', (sample_scan 8 1 2 ''b'')\<lparr>sc_dispatched := Some 4\<rparr>,
     (sample_scan 9 1 2 ''c'')\<lparr>sc_dispatched := Some 3\<rparr>]"

definition sample_state :: "scan_row list \<Rightarrow> unit world" where
  "sample_state = sample_world () \<lparr>g_tenant = Some 1, g_super = False\<rparr>"

lemmas sample_queue_defs = sample_queue_def sample_state_def

subsection \<open>What the operations return\<close>

text \<open>The rows a transition to \<open>st\<close> selects.\<close>

definition transition_selects :: "'r world \<Rightarrow> uuid \<Rightarrow> scan_status \<Rightarrow> scan_row \<Rightarrow> bool" where
  "transition_selects w i st r \<longleftrightarrow> rls_row (guc w) (sc_tenant r) \<and>
     sc_id r = i \<and> sc_status r \<in> set (ALLOWED_FROM st) \<and> (st = Running \<longrightarrow> sc_dispatched r \<noteq> None)"

lemma end_tx_commit_scans:
  "commit refuse w = (Inr u, w') \<Longrightarrow> work w' = work w \<and> committed w' = work w"
  by (simp add: commit_Inr)

lemma transition_scan_success:
  assumes "transition_scan refuse now i to reason raw do_commit w = (Inr b, w')"
  obtains st where "status_of to = Some st" and "ALLOWED_FROM st \<noteq> []"
    and "st = Failed \<Longrightarrow> \<exists>s. reason = Some s \<and> s \<noteq> '''' \<and> length s \<le> 64"
    and "b \<longleftrightarrow> count_where (transition_selects w i st) (scans (work w)) = 1"
    and "scans (work w') = update_where (transition_selects w i st)
           (transition_values now st reason raw) (scans (work w))"
    and "do_commit \<Longrightarrow> committed w' = work w'"
    and "\<not> do_commit \<Longrightarrow> committed w' = committed w \<and> guc w' = guc w"
proof -
  obtain st where st: "status_of to = Some st"
    using assms by (auto simp: transition_scan_def split: option.splits)
  have sel: "(\<lambda>r. rls_row (guc w) (sc_tenant r) \<and> sc_id r = i \<and> sc_status r \<in> set (ALLOWED_FROM st) \<and>
      (st = Running \<longrightarrow> sc_dispatched r \<noteq> None)) = transition_selects w i st"
    by (auto simp: transition_selects_def fun_eq_iff)
  note run = assms [unfolded transition_scan_def st option.case]
  show thesis
  proof (rule that [OF st])
    show "ALLOWED_FROM st \<noteq> []" using run by (auto split: if_splits)
    show "st = Failed \<Longrightarrow> \<exists>s. reason = Some s \<and> s \<noteq> '''' \<and> length s \<le> 64"
      using run by (cases reason) (auto split: if_splits)
    show "b \<longleftrightarrow> count_where (transition_selects w i st) (scans (work w)) = 1"
      and "scans (work w') = update_where (transition_selects w i st)
           (transition_values now st reason raw) (scans (work w))"
      and "do_commit \<Longrightarrow> committed w' = work w'"
      and "\<not> do_commit \<Longrightarrow> committed w' = committed w \<and> guc w' = guc w"
      using run sel
      by (auto simp: bindE_success thenE_def update_scans_run commit_Inr whenE_def split: if_splits)
  qed
qed

lemma transition_selects_open:
  "transition_selects w i st r \<Longrightarrow> sc_status r \<in> {Pending, Running} \<and> sc_id r = i"
  by (cases st) (auto simp: transition_selects_def)

lemma count_where_1_ex: "count_where p xs = 1 \<Longrightarrow> \<exists>x \<in> set xs. p x"
  by (metis count_where_0 zero_neq_one)

text \<open>
  C40: \<open>transition_scan\<close> is a compare-and-set.  With unique ids, it answers \<open>True\<close> exactly when the
  caller's policy shows a row with this id from whose status \<open>SCAN_TRANSITIONS\<close> has an edge to the
  target (and, for \<open>running\<close>, which was dispatched); then this row takes the target status and the
  timestamps, and no other row changes.  Otherwise it answers \<open>False\<close> and the table is unchanged.
\<close>

theorem transition_scan_compare_and_set:
  assumes "transition_scan refuse now i to reason raw do_commit w = (Inr b, w')"
    and "distinct (map sc_id (scans (work w)))"
  shows "\<exists>st. status_of to = Some st \<and>
    (b \<longleftrightarrow> (\<exists>r \<in> set (seen_scans w). sc_id r = i \<and> st \<in> set (SCAN_TRANSITIONS (sc_status r)) \<and>
              (st = Running \<longrightarrow> sc_dispatched r \<noteq> None))) \<and>
    scans (work w') = (if b then map (\<lambda>r. if sc_id r = i
       then transition_values now st reason raw r else r) (scans (work w)) else scans (work w))"
proof -
  obtain st where st: "status_of to = Some st"
    and b: "b \<longleftrightarrow> count_where (transition_selects w i st) (scans (work w)) = 1"
    and upd: "scans (work w') = update_where (transition_selects w i st)
           (transition_values now st reason raw) (scans (work w))"
    using assms(1) by (rule transition_scan_success)
  have one: "count_where (transition_selects w i st) (scans (work w)) = 1 \<longleftrightarrow>
      (\<exists>r \<in> set (scans (work w)). transition_selects w i st r)"
  proof
    assume "\<exists>r \<in> set (scans (work w)). transition_selects w i st r"
    then obtain r where "r \<in> set (scans (work w))" "transition_selects w i st r" by blast
    moreover have "(\<lambda>x. sc_id x = i \<and> transition_selects w i st x) = transition_selects w i st"
      by (auto simp: transition_selects_def)
    ultimately show "count_where (transition_selects w i st) (scans (work w)) = 1"
      using count_where_key_1 [OF assms(2), of r i "transition_selects w i st"]
      by (simp add: transition_selects_def)
  qed (rule count_where_1_ex)
  have sel: "(\<exists>r \<in> set (scans (work w)). transition_selects w i st r) \<longleftrightarrow>
      (\<exists>r \<in> set (seen_scans w). sc_id r = i \<and> st \<in> set (SCAN_TRANSITIONS (sc_status r)) \<and>
              (st = Running \<longrightarrow> sc_dispatched r \<noteq> None))"
    by (auto simp: transition_selects_def seen_scans_def ALLOWED_FROM_iff)
  have "b \<Longrightarrow> x \<in> set (scans (work w)) \<Longrightarrow> transition_selects w i st x \<longleftrightarrow> sc_id x = i" for x
    using b one distinct_map_inj [OF assms(2)] by (metis transition_selects_open)
  moreover have "\<not> b \<Longrightarrow> x \<in> set (scans (work w)) \<Longrightarrow> \<not> transition_selects w i st x" for x
    using b one by blast
  ultimately have "scans (work w') = (if b then map (\<lambda>r. if sc_id r = i
       then transition_values now st reason raw r else r) (scans (work w)) else scans (work w))"
    unfolding upd by (auto simp: update_where_def intro!: map_idI)
  with st b one sel show ?thesis by blast
qed

lemma transition_scan_compare_and_set_witness:
  "\<exists>st. status_of ''running'' = Some st \<and>
     (\<exists>r \<in> set (seen_scans (sample_state sample_queue)). sc_id r = 8 \<and>
        st \<in> set (SCAN_TRANSITIONS (sc_status r)))"
proof -
  let ?m = "transition_scan no_refusal 5 8 ''running'' None None False :: (unit, bool) db_prog"
  have "fst (?m (sample_state sample_queue)) = Inr True" by code_simp
  note run = run_of [OF this]
  have "distinct (map sc_id (scans (work (sample_state sample_queue))))" by code_simp
  from transition_scan_compare_and_set [OF run this] show ?thesis by auto
qed

text \<open>
  The first terminal write wins.  Once a transition has moved a scan to a terminal status, no later
  transition of that scan, by any caller, to any target, changes its row or answers \<open>True\<close>: a worker
  that finishes after a cancellation cannot revive or overwrite the row.
\<close>

theorem terminal_write_wins:
  assumes "transition_scan refuse now i to reason raw c w = (Inr True, w1)"
    and "status_of to = Some st" and "st \<in> set TERMINAL_STATUSES"
    and "distinct (map sc_id (scans (work w)))" and "scans (work w2) = scans (work w1)"
    and "transition_scan refuse' now' i to' reason' raw' c' w2 = (Inr b, w3)"
  shows "\<not> b \<and> scans (work w3) = scans (work w1)"
proof -
  obtain st1 where w1: "status_of to = Some st1"
    "True \<longleftrightarrow> count_where (transition_selects w i st1) (scans (work w)) = 1"
    "scans (work w1) = update_where (transition_selects w i st1)
        (transition_values now st1 reason raw) (scans (work w))"
    using assms(1) by (rule transition_scan_success)
  with assms(2) have [simp]: "st1 = st" by simp
  obtain st2 where b: "b \<longleftrightarrow> count_where (transition_selects w2 i st2) (scans (work w2)) = 1"
    and upd: "scans (work w3) = update_where (transition_selects w2 i st2)
           (transition_values now' st2 reason' raw') (scans (work w2))"
    using assms(6) by (rule transition_scan_success)
  obtain r where r: "r \<in> set (scans (work w))" "transition_selects w i st r"
    using w1(2) count_where_1_ex by auto
  have none: "\<not> transition_selects w2 i st2 x" if x: "x \<in> set (scans (work w2))" for x
  proof
    assume sel: "transition_selects w2 i st2 x"
    from x obtain y where y: "y \<in> set (scans (work w))"
      "x = (if transition_selects w i st y then transition_values now st reason raw y else y)"
      by (auto simp: assms(5) w1(3) update_where_image)
    have "sc_id (transition_values now st reason raw y) = sc_id y"
      "sc_status (transition_values now st reason raw y) = st"
      by (auto simp: transition_values_def Let_def)
    moreover from this y have "sc_id x = sc_id y" by (cases "transition_selects w i st y") simp_all
    ultimately have "y = r" "sc_status x = st"
      using distinct_map_inj [OF assms(4) y(1) r(1)] r sel y(2)
      by (metis transition_selects_open)+
    with sel assms(3) show False
      using transition_selects_open [OF sel] by (auto simp: TERMINAL_STATUSES_def)
  qed
  then have "count_where (transition_selects w2 i st2) (scans (work w2)) = 0"
    by (simp add: count_where_0)
  with b upd none assms(5) show ?thesis by (simp add: update_where_none)
qed


lemma terminal_write_wins_witness:
  "\<exists>w1 w3 :: unit world. transition_scan no_refusal 6 8 ''cancelled'' None None True w1 = (Inr False, w3) \<and>
     scans (work w3) = scans (work w1)"
proof -
  let ?w = "sample_state sample_queue"
  let ?m = "transition_scan no_refusal 5 8 ''failed'' (Some ''x'') None False :: (unit, bool) db_prog"
  let ?k = "transition_scan no_refusal 6 8 ''cancelled'' None None True :: (unit, bool) db_prog"
  have "fst (?m ?w) = Inr True" by code_simp
  note run1 = run_of [OF this]
  have "fst (?k (snd (?m ?w))) = Inr False" by code_simp
  note run2 = run_of [OF this]
  have "distinct (map sc_id (scans (work ?w)))" by code_simp
  from terminal_write_wins [OF run1 _ _ this refl run2, of Failed] run2
  show ?thesis by (auto simp: TERMINAL_STATUSES_def)
qed

subsection \<open>Claiming and reaping\<close>

lemma sort_key_Nil_iff: "sort_key k xs = [] \<longleftrightarrow> xs = []"
  using length_sort [of k xs] by (metis length_0_conv)

lemma oldest_ready_None:
  "oldest_ready L rs = None \<longleftrightarrow> (\<forall>r \<in> set rs. scan_ready r \<longrightarrow> sc_id r \<in> set L)"
proof -
  have "oldest_ready L rs = None \<longleftrightarrow>
      sort_key (\<lambda>r. (the (sc_dispatched r), sc_id r))
        (filter (\<lambda>r. scan_ready r \<and> sc_id r \<notin> set L) rs) = []"
    by (auto simp: oldest_ready_def split: list.split)
  also have "\<dots> \<longleftrightarrow> filter (\<lambda>r. scan_ready r \<and> sc_id r \<notin> set L) rs = []"
    by (rule sort_key_Nil_iff)
  finally show ?thesis by (auto simp: filter_empty_conv)
qed

lemma oldest_ready_Some:
  assumes "oldest_ready L rs = Some r"
  shows "r \<in> set rs" "scan_ready r" "sc_id r \<notin> set L"
    "s \<in> set rs \<Longrightarrow> scan_ready s \<Longrightarrow> sc_id s \<notin> set L \<Longrightarrow>
       (the (sc_dispatched r), sc_id r) \<le> (the (sc_dispatched s), sc_id s)"
proof -
  define k where "k = (\<lambda>r :: scan_row. (the (sc_dispatched r), sc_id r))"
  define xs where "xs = filter (\<lambda>r. scan_ready r \<and> sc_id r \<notin> set L) rs"
  from assms obtain ys where ys: "sort_key k xs = r # ys"
    by (auto simp: oldest_ready_def k_def xs_def split: list.splits)
  then have "r \<in> set (sort_key k xs)" by simp
  then have "r \<in> set xs" by (simp only: set_sort)
  then show "r \<in> set rs" "scan_ready r" "sc_id r \<notin> set L" by (auto simp: xs_def)
  assume "s \<in> set rs" "scan_ready s" "sc_id s \<notin> set L"
  then have "s \<in> set (r # ys)" unfolding ys [symmetric] by (simp add: xs_def)
  moreover have "sorted (map k (r # ys))" unfolding ys [symmetric] by (rule sorted_sort_key)
  ultimately have "k r \<le> k s" by auto
  then show "(the (sc_dispatched r), sc_id r) \<le> (the (sc_dispatched s), sc_id s)"
    by (simp add: k_def)
qed

lemma seen_scans_super [simp]:
  "seen_scans (w\<lparr>guc := \<lparr>g_tenant = t, g_super = True\<rparr>\<rparr>) = scans (work w)"
  by (simp add: seen_scans_def rls_row_def)

definition claimed :: "uuid \<Rightarrow> time \<Rightarrow> scan_row \<Rightarrow> scan_row" where
  "claimed i now r =
    (if sc_id r = i then r\<lparr>sc_status := Running, sc_started := Some now\<rparr> else r)"

lemma claim_next_scan_run:
  assumes "claim_next_scan refuse now locked w = (Inr res, w')"
    and "distinct (map sc_id (scans (work w)))"
  shows "case res of
      None \<Rightarrow> (\<forall>r \<in> set (scans (work w)). scan_ready r \<longrightarrow> sc_id r \<in> set locked) \<and>
        scans (committed w') = scans (work w)
    | Some (i, t) \<Rightarrow> (\<exists>r \<in> set (scans (work w)). sc_id r = i \<and> sc_tenant r = t \<and> scan_ready r \<and>
        i \<notin> set locked \<and>
        (\<forall>s \<in> set (scans (work w)). scan_ready s \<and> sc_id s \<notin> set locked \<longrightarrow>
           (the (sc_dispatched r), i) \<le> (the (sc_dispatched s), sc_id s))) \<and>
        scans (committed w') = map (claimed i now) (scans (work w))"
proof (cases "oldest_ready locked (scans (work w))")
  case None
  with assms(1) have "res = None" "scans (committed w') = scans (work w)"
    by (auto simp: claim_next_scan_def thenE_def bindE_success commit_Inr)
  with None show ?thesis by (simp add: oldest_ready_None)
next
  case (Some r)
  note r = oldest_ready_Some [OF Some]
  from assms(1) Some have res: "res = Some (sc_id r, sc_tenant r)"
    and tbl: "scans (committed w') = update_where (\<lambda>s. sc_id s = sc_id r \<and> scan_ready s)
        (\<lambda>s. s\<lparr>sc_status := Running, sc_started := Some now\<rparr>) (scans (work w))"
    by (auto simp: claim_next_scan_def thenE_def bindE_success commit_Inr update_scans_run rls_row_def)
  have "scan_ready s" if "s \<in> set (scans (work w))" "sc_id s = sc_id r" for s
    using distinct_map_inj [OF assms(2) that(1) r(1) that(2)] r(2) by simp
  then have "scans (committed w') = map (claimed (sc_id r) now) (scans (work w))"
    unfolding tbl by (auto simp: update_where_def claimed_def)
  with res r show ?thesis by auto
qed

text \<open>
  \<open>claim_next_scan\<close> takes the head of the queue.  It claims a pending, dispatched scan no other
  transaction holds, none of the others was dispatched earlier (ties go to the smaller id), the
  committed table has exactly this row moved to \<open>running\<close> with the database clock; and it answers
  \<open>None\<close> exactly when every ready scan is held by another transaction.
\<close>

theorem claim_next_scan_takes_oldest:
  assumes "claim_next_scan refuse now locked w = (Inr res, w')"
    and "distinct (map sc_id (scans (work w)))"
  shows "case res of
      None \<Rightarrow> (\<forall>r \<in> set (scans (work w)). scan_ready r \<longrightarrow> sc_id r \<in> set locked) \<and>
        scans (committed w') = scans (work w)
    | Some (i, t) \<Rightarrow> (\<exists>r \<in> set (scans (work w)). sc_id r = i \<and> sc_tenant r = t \<and> scan_ready r \<and>
        i \<notin> set locked \<and>
        (\<forall>s \<in> set (scans (work w)). scan_ready s \<and> sc_id s \<notin> set locked \<longrightarrow>
           (the (sc_dispatched r), i) \<le> (the (sc_dispatched s), sc_id s))) \<and>
        scans (committed w') = map (claimed i now) (scans (work w))"
  using assms by (rule claim_next_scan_run)

lemma claim_next_scan_takes_oldest_witness:
  "scans (committed (snd (claim_next_scan no_refusal 5 [] (sample_state sample_queue)))) =
     map (claimed 9 5) sample_queue"
proof -
  let ?m = "claim_next_scan no_refusal 5 [] :: (unit, (uuid \<times> uuid) option) db_prog"
  have "fst (?m (sample_state sample_queue)) = Inr (Some (9, 1))" by code_simp
  note run = run_of [OF this]
  have "distinct (map sc_id (scans (work (sample_state sample_queue))))" by code_simp
  from claim_next_scan_takes_oldest [OF run this] show ?thesis
    by (simp add: sample_state_def sample_world_def sample_tables_def)
qed

text \<open>
  Two workers never run the same scan: of two claims one after the other, with any transactions
  of the life cycle in between, the second gets a different scan.
\<close>

theorem claims_distinct:
  assumes "claim_next_scan refuse now locked w = (Inr (Some (i, t)), w1)"
    and "distinct (map sc_id (scans (work w)))"
    and "scans_move (scans (committed w1)) (scans (work w2))"
    and "claim_next_scan refuse' now' locked' w2 = (Inr (Some (j, u)), w3)"
  shows "i \<noteq> j"
proof
  assume ij: "i = j"
  have tbl: "scans (committed w1) = map (claimed i now) (scans (work w))"
    using claim_next_scan_run [OF assms(1,2)] by simp
  then have ids: "map sc_id (scans (committed w1)) = map sc_id (scans (work w))"
    by (simp add: claimed_def)
  have d2: "distinct (map sc_id (scans (work w2)))"
    using scans_move_ids [OF assms(3)] ids assms(2) by simp
  obtain r where r: "r \<in> set (scans (work w2))" "sc_id r = i" "scan_ready r"
    using claim_next_scan_run [OF assms(4) d2] unfolding ij by auto
  obtain s where s: "s \<in> set (scans (committed w1))" "scan_move\<^sup>*\<^sup>* s r"
    using scans_move_back [OF assms(3) r(1)] by blast
  have "sc_id s = i" using r(2) scan_path_key [OF s(2)] by simp
  moreover obtain x where "s = claimed i now x" using s(1) unfolding tbl by auto
  ultimately have "sc_status s = Running" by (cases "sc_id x = i") (simp_all add: claimed_def)
  with s(2) have "sc_status r \<noteq> Pending"
  proof (induction rule: rtranclp_induct)
    case (step y z)
    then show ?case using scan_move_edge [OF step.hyps(2)] by (cases "sc_status y") auto
  qed simp
  with r(3) show False by (simp add: scan_ready_def)
qed

lemma claims_distinct_witness:
  "\<exists>w2 w3 :: unit world. claim_next_scan no_refusal 6 [] w2 = (Inr (Some (8, 1)), w3) \<and> (9 :: uuid) \<noteq> 8"
proof -
  let ?w = "sample_state sample_queue"
  let ?m = "claim_next_scan no_refusal 5 [] :: (unit, (uuid \<times> uuid) option) db_prog"
  let ?k = "claim_next_scan no_refusal 6 [] :: (unit, (uuid \<times> uuid) option) db_prog"
  have "fst (?m ?w) = Inr (Some (9, 1))" by code_simp
  note run1 = run_of [OF this]
  have "fst (?k (snd (?m ?w))) = Inr (Some (8, 1))" by code_simp
  note run2 = run_of [OF this]
  have "distinct (map sc_id (scans (work ?w)))" by code_simp
  moreover have "work (snd (?m ?w)) = committed (snd (?m ?w))" by code_simp
  ultimately have "(9 :: uuid) \<noteq> 8"
    using claims_distinct [OF run1 _ _ run2] by simp
  with run2 show ?thesis by blast
qed

lemma reap_stale_scans_run:
  "reap_stale_scans refuse now n w = (res, w') \<Longrightarrow>
   (n \<le> 0 \<and> w' = w \<and> res = Inl (ValueError ''older_than_seconds must be positive'')) \<or>
   (0 < n \<and> (let stale = (\<lambda>r. sc_status r = Running \<and> sc_started r \<noteq> None \<and>
                              the (sc_started r) \<le> now - seconds n)
     in (\<forall>k. res = Inr k \<longrightarrow> k = count_where stale (scans (work w)) \<and>
          scans (committed w') = map (\<lambda>r. if stale r then r\<lparr>sc_status := Failed,
            sc_failure := Some ''worker_lost'', sc_completed := Some now\<rparr> else r) (scans (work w))) \<and>
        (\<forall>e. res = Inl e \<longrightarrow> committed w' = committed w)))"
proof -
  assume run: "reap_stale_scans refuse now n w = (res, w')"
  show ?thesis
  proof (cases "n \<le> 0")
    case True
    with run show ?thesis by (simp add: reap_stale_scans_def)
  next
    case False
    show ?thesis
    proof (cases res)
      case (Inr k)
      with run False show ?thesis
        by (auto simp: reap_stale_scans_def thenE_def bindE_success commit_Inr update_scans_run
            rls_row_def Let_def update_where_def)
    next
      case (Inl e)
      with run False have "committed w' = committed w"
        by (auto simp: reap_stale_scans_def thenE_def bindE_failure update_scans_run
            dest!: commit_Inl)
      with Inl False show ?thesis by (simp add: Let_def)
    qed
  qed
qed

text \<open>
  \<open>reap_stale_scans\<close> fails exactly the running scans whose claim is older than the limit, with
  reason \<open>worker_lost\<close>, answers their number, leaves every other row as it was, and refuses a limit
  that is not positive before any statement.
\<close>

theorem reap_stale_scans_exact:
  "reap_stale_scans refuse now n w = (res, w') \<Longrightarrow>
   (n \<le> 0 \<and> w' = w \<and> res = Inl (ValueError ''older_than_seconds must be positive'')) \<or>
   (0 < n \<and> (let stale = (\<lambda>r. sc_status r = Running \<and> sc_started r \<noteq> None \<and>
                              the (sc_started r) \<le> now - seconds n)
     in (\<forall>k. res = Inr k \<longrightarrow> k = count_where stale (scans (work w)) \<and>
          scans (committed w') = map (\<lambda>r. if stale r then r\<lparr>sc_status := Failed,
            sc_failure := Some ''worker_lost'', sc_completed := Some now\<rparr> else r) (scans (work w))) \<and>
        (\<forall>e. res = Inl e \<longrightarrow> committed w' = committed w)))"
  by (rule reap_stale_scans_run)

lemma reap_stale_scans_exact_witness:
  "committed (snd (reap_stale_scans no_refusal 5 0 (sample_state sample_queue))) =
     committed (sample_state sample_queue)"
proof -
  let ?m = "reap_stale_scans no_refusal 5 0 :: (unit, nat) db_prog"
  have "fst (?m (sample_state sample_queue)) =
      Inl (ValueError ''older_than_seconds must be positive'')" by code_simp
  from reap_stale_scans_exact [OF run_of [OF this]] show ?thesis by auto
qed

end
