(* ===== verification/Scan_Config.thy ===== *)
theory Scan_Config
  imports Errors Db
begin

text \<open>
  \<open>_validate_scan_config\<close> of \<open>app/modules/scans/service.py\<close>, the gate of every scan configuration.  Both
  arguments are JSON values, because a partial update may carry any of them; the specification
  \<open>config_ok\<close> says which pairs are accepted, and the validator is proved to accept exactly these.
\<close>

definition CONFIG_KEYS :: "(string \<times> string list) list" where
  "CONFIG_KEYS =
    [(''discovery'', [''host_discovery'']), (''vulnerability'', [''checks'']), (''web'', [''paths'']),
     (''full'', [''host_discovery'', ''checks'', ''paths''])]"

definition CHECKS_MESSAGE :: string where
  "CHECKS_MESSAGE = ''config.checks must be a non-empty list of non-empty strings''"

definition PATHS_MESSAGE :: string where
  "PATHS_MESSAGE = ''config.paths must be a non-empty list of paths beginning with '' @ py_repr ''/''"

fun is_check :: "json \<Rightarrow> bool" where
  "is_check (JStr s) = (s \<noteq> '''')"
| "is_check _ = False"

fun is_path :: "json \<Rightarrow> bool" where
  "is_path (JStr s) = starts_with ''/'' s"
| "is_path _ = False"

fun json_repr :: "json \<Rightarrow> string" where
  "json_repr (JStr s) = py_repr s"
| "json_repr _ = ''None''"

definition keys_of :: "json \<Rightarrow> string list option" where
  "keys_of scan_type = (case scan_type of JStr s \<Rightarrow> map_of CONFIG_KEYS s | _ \<Rightarrow> None)"

text \<open>The three blocks of the function: each either extends the normalised dict or raises.\<close>

definition host_discovery_entry :: "string \<Rightarrow> jdict \<Rightarrow> exn + jdict" where
  "host_discovery_entry repr config = (case map_of config ''host_discovery'' of
      None \<Rightarrow> Inl (ScanConfigError (''config.host_discovery is required for scan_type '' @ repr))
    | Some (JBool b) \<Rightarrow> Inr [(''host_discovery'', JBool b)]
    | Some _ \<Rightarrow> Inl (ScanConfigError (''config.host_discovery must be a boolean for scan_type '' @ repr)))"

definition checks_entry :: "string \<Rightarrow> jdict \<Rightarrow> exn + jdict" where
  "checks_entry repr config = (case map_of config ''checks'' of
      None \<Rightarrow> Inl (ScanConfigError (''config.checks is required for scan_type '' @ repr))
    | Some (JArr xs) \<Rightarrow> if xs = [] \<or> \<not> list_all is_check xs
        then Inl (ScanConfigError (CHECKS_MESSAGE @ '' for scan_type '' @ repr))
        else Inr [(''checks'', JArr xs)]
    | Some _ \<Rightarrow> Inl (ScanConfigError (CHECKS_MESSAGE @ '' for scan_type '' @ repr)))"

definition paths_entry :: "string \<Rightarrow> jdict \<Rightarrow> exn + jdict" where
  "paths_entry repr config = (case map_of config ''paths'' of
      None \<Rightarrow> Inl (ScanConfigError (''config.paths is required for scan_type '' @ repr))
    | Some (JArr xs) \<Rightarrow> if xs = [] \<or> \<not> list_all is_path xs
        then Inl (ScanConfigError (PATHS_MESSAGE @ '' for scan_type '' @ repr))
        else Inr [(''paths'', JArr xs)]
    | Some _ \<Rightarrow> Inl (ScanConfigError (PATHS_MESSAGE @ '' for scan_type '' @ repr)))"

definition add_entry :: "bool \<Rightarrow> (jdict \<Rightarrow> exn + jdict) \<Rightarrow> jdict \<Rightarrow> exn + jdict \<Rightarrow> exn + jdict" where
  "add_entry allowed entry config acc = (case acc of
      Inl e \<Rightarrow> Inl e
    | Inr d \<Rightarrow> if \<not> allowed then Inr d
              else (case entry config of Inl e \<Rightarrow> Inl e | Inr d' \<Rightarrow> Inr (d @ d')))"

definition validate_scan_config :: "json \<Rightarrow> json \<Rightarrow> exn + jdict" where
  "validate_scan_config scan_type config = (let repr = json_repr scan_type in
    case keys_of scan_type of
      None \<Rightarrow> Inl (ScanConfigError (''unknown scan_type '' @ repr))
    | Some allowed \<Rightarrow> (case config of
        JObj cfg \<Rightarrow>
          (case filter (\<lambda>k. k \<notin> set allowed) (sort (map fst cfg)) of
             k # _ \<Rightarrow> Inl (ScanConfigError (''config.'' @ k @ '' is not allowed for scan_type '' @ repr))
           | [] \<Rightarrow>
               add_entry (''paths'' \<in> set allowed) (paths_entry repr) cfg
                 (add_entry (''checks'' \<in> set allowed) (checks_entry repr) cfg
                   (add_entry (''host_discovery'' \<in> set allowed) (host_discovery_entry repr) cfg (Inr []))))
      | _ \<Rightarrow> Inl (ScanConfigError (''config must be an object for scan_type '' @ repr))))"

subsection \<open>The contract\<close>

text \<open>Which value a key may have, and which type and configuration go together.\<close>

definition value_ok :: "string \<Rightarrow> json \<Rightarrow> bool" where
  "value_ok k v \<longleftrightarrow>
     (k = ''host_discovery'' \<longrightarrow> (\<exists>b. v = JBool b)) \<and>
     (k = ''checks'' \<longrightarrow> (\<exists>xs. v = JArr xs \<and> xs \<noteq> [] \<and> (\<forall>x \<in> set xs. \<exists>s. x = JStr s \<and> s \<noteq> ''''))) \<and>
     (k = ''paths'' \<longrightarrow> (\<exists>xs. v = JArr xs \<and> xs \<noteq> [] \<and>
        (\<forall>x \<in> set xs. \<exists>s. x = JStr s \<and> take 1 s = ''/'')))"

definition config_ok :: "json \<Rightarrow> json \<Rightarrow> bool" where
  "config_ok scan_type config \<longleftrightarrow> (\<exists>allowed cfg. keys_of scan_type = Some allowed \<and> config = JObj cfg \<and>
     fst ` set cfg = set allowed \<and> (\<forall>k v. map_of cfg k = Some v \<longrightarrow> value_ok k v))"

lemma is_check_iff: "is_check x \<longleftrightarrow> (\<exists>s. x = JStr s \<and> s \<noteq> '''')"
  by (cases x) auto

lemma is_path_iff: "is_path x \<longleftrightarrow> (\<exists>s. x = JStr s \<and> take 1 s = ''/'')"
  by (cases x) (auto simp: starts_with_def)

lemma entry_Inr:
  "host_discovery_entry r c = Inr d \<longleftrightarrow> (\<exists>v. map_of c ''host_discovery'' = Some v \<and>
     value_ok ''host_discovery'' v \<and> d = [(''host_discovery'', v)])"
  "checks_entry r c = Inr d \<longleftrightarrow> (\<exists>v. map_of c ''checks'' = Some v \<and> value_ok ''checks'' v \<and>
     d = [(''checks'', v)])"
  "paths_entry r c = Inr d \<longleftrightarrow> (\<exists>v. map_of c ''paths'' = Some v \<and> value_ok ''paths'' v \<and>
     d = [(''paths'', v)])"
  by (auto simp: host_discovery_entry_def checks_entry_def paths_entry_def value_ok_def list_all_iff
      is_check_iff is_path_iff split: option.splits json.splits if_splits)

lemma add_entry_Inr:
  "add_entry b f c acc = Inr d \<longleftrightarrow> (\<exists>d0. acc = Inr d0 \<and>
     (if b then \<exists>d1. f c = Inr d1 \<and> d = d0 @ d1 else d = d0))"
  by (auto simp: add_entry_def split: sum.splits)

lemma entry_error:
  "host_discovery_entry r c = Inl e \<Longrightarrow> \<exists>m. e = ScanConfigError m"
  "checks_entry r c = Inl e \<Longrightarrow> \<exists>m. e = ScanConfigError m"
  "paths_entry r c = Inl e \<Longrightarrow> \<exists>m. e = ScanConfigError m"
  by (auto simp: host_discovery_entry_def checks_entry_def paths_entry_def
      split: option.splits json.splits if_splits)

lemma keys_of_cases:
  assumes "keys_of t = Some ks"
  obtains "ks = [''host_discovery'']" | "ks = [''checks'']" | "ks = [''paths'']"
    | "ks = [''host_discovery'', ''checks'', ''paths'']"
  using assms by (auto simp: keys_of_def CONFIG_KEYS_def split: json.splits if_splits)

lemma no_foreign_keys:
  "filter (\<lambda>k. k \<notin> set ks) (sort (map fst cfg)) = [] \<longleftrightarrow> fst ` set cfg \<subseteq> set ks"
  by (auto simp: filter_empty_conv)

text \<open>The entries the validator collects are the ones of the configuration, in the order of the keys.\<close>

lemma validate_scan_config_Inr:
  "validate_scan_config t c = Inr d \<longleftrightarrow> (\<exists>ks cfg. keys_of t = Some ks \<and> c = JObj cfg \<and>
     fst ` set cfg \<subseteq> set ks \<and> map fst d = ks \<and>
     (\<forall>k v. (k, v) \<in> set d \<longrightarrow> map_of cfg k = Some v \<and> value_ok k v))"
proof (cases "keys_of t")
  case None
  then show ?thesis by (simp add: validate_scan_config_def Let_def)
next
  case (Some ks)
  show ?thesis
  proof (cases "\<exists>cfg. c = JObj cfg \<and> fst ` set cfg \<subseteq> set ks")
    case False
    then show ?thesis
      using Some by (cases c) (auto simp: validate_scan_config_def Let_def no_foreign_keys split: list.splits)
  next
    case True
    then obtain cfg where cfg: "c = JObj cfg" "fst ` set cfg \<subseteq> set ks" by blast
    then have run: "validate_scan_config t c = add_entry (''paths'' \<in> set ks) (paths_entry (json_repr t)) cfg
        (add_entry (''checks'' \<in> set ks) (checks_entry (json_repr t)) cfg
          (add_entry (''host_discovery'' \<in> set ks) (host_discovery_entry (json_repr t)) cfg (Inr [])))"
      using Some by (simp add: validate_scan_config_def Let_def no_foreign_keys [THEN iffD2])
    have "validate_scan_config t c = Inr d \<longleftrightarrow> map fst d = ks \<and>
        (\<forall>k v. (k, v) \<in> set d \<longrightarrow> map_of cfg k = Some v \<and> value_ok k v)"
      using Some
    proof (cases rule: keys_of_cases)
      case 4
      show ?thesis unfolding run 4
        by (auto simp: add_entry_Inr entry_Inr Cons_eq_map_conv)
    qed (auto simp: run add_entry_Inr entry_Inr map_eq_Cons_conv)
    with Some cfg show ?thesis by auto
  qed
qed

lemma validate_scan_config_Inl:
  "validate_scan_config t c = Inl e \<Longrightarrow> \<exists>m. e = ScanConfigError m"
  by (auto simp: validate_scan_config_def Let_def add_entry_def
      split: option.splits json.splits list.splits sum.splits if_splits dest: entry_error)

lemma keys_distinct: "keys_of t = Some ks \<Longrightarrow> distinct ks"
  by (erule keys_of_cases) simp_all

lemma validated_ok:
  assumes "validate_scan_config t c = Inr d"
  shows "config_ok t c \<and> (\<exists>cfg. c = JObj cfg \<and> dict_eq d cfg) \<and> Some (map fst d) = keys_of t \<and>
      validate_scan_config t (JObj d) = Inr d"
proof -
  from assms obtain ks cfg where ks: "keys_of t = Some ks" "c = JObj cfg" "fst ` set cfg \<subseteq> set ks"
    "map fst d = ks" and vals: "\<And>k v. (k, v) \<in> set d \<Longrightarrow> map_of cfg k = Some v \<and> value_ok k v"
    unfolding validate_scan_config_Inr by blast
  have dist: "distinct (map fst d)" using keys_distinct ks by simp
  have dk: "map_of d k = Some v \<longleftrightarrow> (k, v) \<in> set d" for k v using dist by simp
  have same: "map_of d k = map_of cfg k" for k
  proof (cases "k \<in> set ks")
    case True
    then obtain v where "(k, v) \<in> set d" using ks(4) by force
    with vals dk show ?thesis by simp
  next
    case False
    have "fst ` set d = set ks" unfolding ks(4) [symmetric] by simp
    with False ks(3) have "k \<notin> fst ` set d" "k \<notin> fst ` set cfg" by blast+
    then show ?thesis by (metis map_of_eq_None_iff)
  qed
  have "fst ` set cfg = dom (map_of cfg)" by (simp add: dom_map_of_conv_image_fst)
  also have "\<dots> = dom (map_of d)" by (simp only: same dom_def)
  also have "\<dots> = set ks" using ks(4) by (metis dom_map_of_conv_image_fst set_map)
  finally have dom: "fst ` set cfg = set ks" .
  have "value_ok k v" if "map_of cfg k = Some v" for k v
    using that vals [of k v] dk [of k v] same [of k] by simp
  with dom ks(1,2) have "config_ok t c" unfolding config_ok_def by blast
  moreover have "dict_eq d cfg" using same by (auto simp: dict_eq_map_of)
  moreover have "validate_scan_config t (JObj d) = Inr d"
    unfolding validate_scan_config_Inr
  proof (intro exI conjI allI impI)
    show "fst ` set d \<subseteq> set ks" unfolding ks(4) [symmetric] by simp
  qed (use ks(1,4) vals dk in auto)
  ultimately show ?thesis using ks by auto
qed

lemma validate_scan_config_spec:
  "((\<exists>d. validate_scan_config t c = Inr d) \<longleftrightarrow> config_ok t c) \<and>
   (case validate_scan_config t c of
      Inl e \<Rightarrow> (\<exists>m. e = ScanConfigError m)
    | Inr d \<Rightarrow> (\<exists>cfg. c = JObj cfg \<and> dict_eq d cfg) \<and> Some (map fst d) = keys_of t \<and>
        validate_scan_config t (JObj d) = Inr d)"
proof
  have "\<exists>d. validate_scan_config t c = Inr d" if "config_ok t c"
  proof -
    from that obtain ks cfg where ks: "keys_of t = Some ks" "c = JObj cfg" "fst ` set cfg = set ks"
      "\<And>k v. map_of cfg k = Some v \<Longrightarrow> value_ok k v" unfolding config_ok_def by blast
    let ?d = "map (\<lambda>k. (k, the (map_of cfg k))) ks"
    have "validate_scan_config t c = Inr ?d"
      unfolding validate_scan_config_Inr
    proof (intro exI conjI allI impI)
      show "map_of cfg k = Some v" "value_ok k v" if "(k, v) \<in> set ?d" for k v
      proof -
        from that have "k \<in> fst ` set cfg" "v = the (map_of cfg k)" using ks(3) by auto
        then show "map_of cfg k = Some v" by (metis map_of_eq_None_iff not_None_eq option.sel)
        with ks(4) show "value_ok k v" by blast
      qed
    qed (use ks in \<open>auto simp: comp_def\<close>)
    then show ?thesis by blast
  qed
  with validated_ok show "(\<exists>d. validate_scan_config t c = Inr d) \<longleftrightarrow> config_ok t c" by blast
  show "case validate_scan_config t c of Inl e \<Rightarrow> (\<exists>m. e = ScanConfigError m)
    | Inr d \<Rightarrow> (\<exists>cfg. c = JObj cfg \<and> dict_eq d cfg) \<and> Some (map fst d) = keys_of t \<and>
        validate_scan_config t (JObj d) = Inr d"
    using validated_ok by (auto split: sum.split dest: validate_scan_config_Inl)
qed

text \<open>
  C32: \<open>_validate_scan_config\<close> decides the contract.  It returns exactly for the pairs of a known type
  and an object with exactly the keys of this type and values of the right form, and otherwise raises
  \<open>ScanConfigError\<close>; what it returns is the same dict as its argument, in the public order of keys,
  and validating it again returns it unchanged.
\<close>

theorem scan_config_validation:
  "((\<exists>d. validate_scan_config t c = Inr d) \<longleftrightarrow> config_ok t c) \<and>
   (case validate_scan_config t c of
      Inl e \<Rightarrow> (\<exists>m. e = ScanConfigError m)
    | Inr d \<Rightarrow> (\<exists>cfg. c = JObj cfg \<and> dict_eq d cfg) \<and> Some (map fst d) = keys_of t \<and>
        validate_scan_config t (JObj d) = Inr d)"
  by (rule validate_scan_config_spec)

end
