(* ===== verification/Scan_Service.thy ===== *)
theory Scan_Service
  imports Scan_State Scan_Config Service_Base
begin

text \<open>
  The scan service, \<open>app/modules/scans/service.py\<close>: every function takes the session and the event bus,
  so it is a program on a \<open>world\<close>; \<open>refuse\<close> is the server's answer to a commit, \<open>new_id\<close>, \<open>event_id\<close>
  and \<open>now\<close> are what \<open>uuid4\<close> and the clock return.  The lemmas show that every function changes the
  scans by moves of the life cycle, publishes after the commit only, and stays inside its tenant.
\<close>

definition is_open_name_violation :: "exn \<Rightarrow> bool" where
  "is_open_name_violation exc = violates_constraint exc ''uq_scans_tenant_asset_name_pending''"

definition is_asset_fk_violation :: "exn \<Rightarrow> bool" where
  "is_asset_fk_violation exc = violates_constraint exc ''fk_scans_asset_tenant''"

definition SCAN_EVENTS_STREAM :: string where
  "SCAN_EVENTS_STREAM = ''scan.events''"

subsection \<open>Reading\<close>

definition get_scan :: "uuid \<Rightarrow> uuid option \<Rightarrow> ('r, scan_row option) db_prog" where
  "get_scan scan_id tenant_id =
     bindE (getE (\<lambda>w. filter (\<lambda>r. sc_id r = scan_id \<and> tenant_predicate tenant_id (sc_tenant r)) (seen_scans w)))
       scalar_one_or_none"

definition list_scans ::
  "uuid option \<Rightarrow> nat \<Rightarrow> nat \<Rightarrow> uuid option \<Rightarrow> ('r, scan_row list \<times> nat) db_prog" where
  "list_scans tenant_id limit offset asset_id =
     (let p = (\<lambda>r. tenant_predicate tenant_id (sc_tenant r) \<and>
                   (asset_id \<noteq> None \<longrightarrow> sc_asset r = the asset_id))
      in bindE (getE (\<lambda>w. count_where p (seen_scans w))) (\<lambda>total.
         bindE (getE (\<lambda>w. take limit (drop offset
             (rev (sort_key (\<lambda>r. (sc_created r, sc_id r)) (filter p (seen_scans w)))))))
           (\<lambda>items. retE (items, total))))"

text \<open>\<open>db.refresh(scan)\<close>: the row is read again.\<close>

definition refresh_scan :: "uuid \<Rightarrow> ('r, scan_row) db_prog" where
  "refresh_scan scan_id = bindE (getE (\<lambda>w. filter (\<lambda>r. sc_id r = scan_id) (seen_scans w))) scalar_one"

subsection \<open>Cancelling and dispatching\<close>

definition cancel_scan :: "(tables \<Rightarrow> exn option) \<Rightarrow> time \<Rightarrow> uuid \<Rightarrow> uuid option
   \<Rightarrow> ('r, scan_row option) db_prog" where
  "cancel_scan refuse now scan_id tenant_id =
     bindE (get_scan scan_id tenant_id) (\<lambda>scan. case scan of
       None \<Rightarrow> retE None
     | Some _ \<Rightarrow> bindE (transition_scan refuse now scan_id ''cancelled'' None None False) (\<lambda>ok.
         if \<not> ok then thenE rollback (raiseE ScanNotCancellableError)
         else bindE (refresh_scan scan_id) (\<lambda>r. thenE (commit refuse) (retE (Some r)))))"

text \<open>\<open>date_trunc('day', now() AT TIME ZONE 'UTC') AT TIME ZONE 'UTC'\<close>.\<close>

definition day_start :: "time \<Rightarrow> time" where
  "day_start dbnow = dbnow - dbnow mod seconds 86400"

definition counts_today :: "time \<Rightarrow> uuid \<Rightarrow> scan_row \<Rightarrow> bool" where
  "counts_today dbnow tenant r \<longleftrightarrow> sc_tenant r = tenant \<and>
     (case sc_dispatched r of None \<Rightarrow> False | Some d \<Rightarrow> day_start dbnow \<le> d) \<and>
     \<not> (sc_status r \<in> {Failed, ScanCancelled} \<and> sc_started r = None)"

definition dispatch_scan :: "(tables \<Rightarrow> exn option) \<Rightarrow> time \<Rightarrow> uuid \<Rightarrow> uuid option
   \<Rightarrow> ('r, scan_row option) db_prog" where
  "dispatch_scan refuse dbnow scan_id tenant_id =
     bindE (get_scan scan_id tenant_id) (\<lambda>found. case found of
       None \<Rightarrow> retE None
     | Some scan \<Rightarrow>
         bindE (bindE (getE (\<lambda>w. map t_scans_per_day
                 (filter (\<lambda>t. t_id t = sc_tenant scan) (seen_tenants w)))) scalar_one) (\<lambda>limit.
         bindE (update_scans (\<lambda>r. sc_id r = scan_id \<and> sc_status r = Pending \<and> sc_dispatched r = None)
                  (\<lambda>r. r\<lparr>sc_dispatched := Some dbnow\<rparr>)) (\<lambda>rowcount.
         if rowcount = 0 then thenE rollback (raiseE ScanNotDispatchableError)
         else bindE (getE (\<lambda>w. count_where (counts_today dbnow (sc_tenant scan)) (seen_scans w)))
           (\<lambda>n. if limit < int n then thenE rollback (raiseE ScanQuotaExceededError)
                else bindE (refresh_scan scan_id) (\<lambda>r. thenE (commit refuse) (retE (Some r)))))))"

subsection \<open>Creating\<close>

record scan_create =
  scr_type :: string
  scr_asset :: uuid
  scr_name :: string
  scr_config :: jdict

definition scan_created_event :: "uuid \<Rightarrow> time \<Rightarrow> scan_row \<Rightarrow> event" where
  "scan_created_event event_id now scan = \<lparr>ev_type = ''scan.created'', ev_fields =
     [(''event_id'', PUuid event_id), (''event_type'', PStr ''scan.created''),
      (''tenant_id'', PUuid (sc_tenant scan)), (''timestamp'', PTime now), (''scan_id'', PUuid (sc_id scan)),
      (''asset_id'', PUuid (sc_asset scan)), (''name'', PStr (sc_name scan)), (''type'', PStr (sc_type scan)),
      (''status'', PStr ''pending''), (''config'', PDict (sc_config scan)),
      (''created_at'', PTime (sc_created scan))]\<rparr>"

definition insert_scan :: "scan_row \<Rightarrow> tables \<Rightarrow> tables" where
  "insert_scan r t = t\<lparr>scans := scans t @ [r]\<rparr>"

definition create_scan ::
  "(tables \<Rightarrow> exn option) \<Rightarrow> 'r event_bus \<Rightarrow> time \<Rightarrow> uuid \<Rightarrow> uuid \<Rightarrow> scan_create \<Rightarrow> uuid
   \<Rightarrow> ('r, scan_row) db_prog" where
  "create_scan refuse bus now new_id event_id data tenant_id =
     (case validate_scan_config (JStr (scr_type data)) (JObj (scr_config data)) of
        Inl e \<Rightarrow> raiseE e
      | Inr normalised \<Rightarrow>
          let scan = \<lparr>sc_id = new_id, sc_tenant = tenant_id, sc_asset = scr_asset data, sc_name = scr_name data,
              sc_type = scr_type data, sc_status = Pending, sc_config = Some normalised,
              sc_dispatched = None, sc_started = None, sc_completed = None, sc_failure = None,
              sc_raw = None, sc_created = now\<rparr>
          in thenE (except_integrity (insert_checked (\<lambda>g. rls_row g tenant_id) (insert_scan scan))
                     (\<lambda>exc. if is_open_name_violation exc then raiseE ScanDuplicateError
                            else if is_asset_fk_violation exc then raiseE ScanAssetNotFoundError
                            else raiseE exc))
               (thenE (commit refuse)
                 (thenE (on_redis (publish bus (scan_created_event event_id now scan) (Some SCAN_EVENTS_STREAM)))
                   (retE scan))))"

subsection \<open>Updating\<close>

text \<open>\<open>model_dump(exclude_unset=True)\<close>: an absent field is \<open>None\<close>, an explicit null is \<open>JNull\<close>.\<close>

record scan_update =
  su_name :: "json option"
  su_type :: "json option"
  su_config :: "json option"

definition opt_dict :: "jdict option \<Rightarrow> json" where
  "opt_dict d = (case d of None \<Rightarrow> JNull | Some kvs \<Rightarrow> JObj kvs)"

definition same_dict :: "jdict \<Rightarrow> jdict option \<Rightarrow> bool" where
  "same_dict d c = (case c of None \<Rightarrow> False | Some c \<Rightarrow> dict_eq d c)"

fun json_text :: "json \<Rightarrow> string" where
  "json_text (JStr s) = s"
| "json_text _ = ''''"

definition scan_updated_event :: "uuid \<Rightarrow> time \<Rightarrow> scan_row \<Rightarrow> string list \<Rightarrow> event" where
  "scan_updated_event event_id now scan changed_fields = \<lparr>ev_type = ''scan.updated'', ev_fields =
     [(''event_id'', PUuid event_id), (''event_type'', PStr ''scan.updated''),
      (''tenant_id'', PUuid (sc_tenant scan)), (''timestamp'', PTime now), (''scan_id'', PUuid (sc_id scan)),
      (''changed_fields'', PList changed_fields)]\<rparr>"

text \<open>The phase that applies the accepted values to the row, with the list of changed fields.\<close>

definition apply_scan_update :: "json \<Rightarrow> json \<Rightarrow> jdict \<Rightarrow> scan_row \<Rightarrow> scan_row \<times> string list" where
  "apply_scan_update name type config scan =
     (let (s1, c1) = (if name \<noteq> JStr (sc_name scan) then (scan\<lparr>sc_name := json_text name\<rparr>, [''name''])
                      else (scan, []));
          (s2, c2) = (if type \<noteq> JStr (sc_type scan) then (s1\<lparr>sc_type := json_text type\<rparr>, c1 @ [''type''])
                      else (s1, c1))
      in if \<not> same_dict config (sc_config scan) then (s2\<lparr>sc_config := Some config\<rparr>, c2 @ [''config''])
         else (s2, c2))"

text \<open>The flush of a null name is refused by the \<open>NOT NULL\<close> of the column.\<close>

definition flush_update :: "bool \<Rightarrow> ('r, unit) db_prog" where
  "flush_update null_name w =
     (if null_name then (Inl (IntegrityError ''null value in column name''), end_tx (committed w) w)
      else flush w)"

definition update_scan ::
  "(tables \<Rightarrow> exn option) \<Rightarrow> 'r event_bus \<Rightarrow> time \<Rightarrow> uuid \<Rightarrow> uuid \<Rightarrow> uuid option \<Rightarrow> scan_update
   \<Rightarrow> ('r, scan_row option) db_prog" where
  "update_scan refuse bus now event_id scan_id tenant_id data =
     bindE (get_scan scan_id tenant_id) (\<lambda>found. case found of
       None \<Rightarrow> retE None
     | Some scan \<Rightarrow>
         let candidate_name = (case su_name data of None \<Rightarrow> JStr (sc_name scan) | Some n \<Rightarrow> n);
             candidate_type = (case su_type data of None \<Rightarrow> JStr (sc_type scan) | Some t \<Rightarrow> t);
             candidate_config = (case su_config data of None \<Rightarrow> opt_dict (sc_config scan) | Some c \<Rightarrow> c)
         in (case validate_scan_config candidate_type candidate_config of
               Inl e \<Rightarrow> raiseE e
             | Inr normalised \<Rightarrow>
                 (case apply_scan_update candidate_name candidate_type normalised scan of (scan', changed) \<Rightarrow>
                   thenE (exec (\<lambda>t. t\<lparr>scans := update_where (\<lambda>r. sc_id r = sc_id scan) (\<lambda>_. scan') (scans t)\<rparr>))
                    (thenE (except_integrity (flush_update (candidate_name = JNull))
                             (\<lambda>exc. if is_open_name_violation exc then raiseE ScanDuplicateError else raiseE exc))
                      (thenE (commit refuse)
                        (if changed = [] then retE (Some scan')
                         else thenE (on_redis (publish bus (scan_updated_event event_id now scan' changed)
                                               (Some SCAN_EVENTS_STREAM)))
                                (retE (Some scan'))))))))"

subsection \<open>Deleting\<close>

definition scan_deleted_event :: "uuid \<Rightarrow> time \<Rightarrow> uuid \<Rightarrow> uuid \<Rightarrow> event" where
  "scan_deleted_event event_id now scan_id tenant = \<lparr>ev_type = ''scan.deleted'', ev_fields =
     [(''event_id'', PUuid event_id), (''event_type'', PStr ''scan.deleted''),
      (''tenant_id'', PUuid tenant), (''timestamp'', PTime now), (''scan_id'', PUuid scan_id)]\<rparr>"

definition delete_scan ::
  "(tables \<Rightarrow> exn option) \<Rightarrow> 'r event_bus \<Rightarrow> time \<Rightarrow> uuid \<Rightarrow> uuid \<Rightarrow> uuid option \<Rightarrow> ('r, bool) db_prog" where
  "delete_scan refuse bus now event_id scan_id tenant_id =
     bindE (get_scan scan_id tenant_id) (\<lambda>found. case found of
       None \<Rightarrow> retE False
     | Some scan \<Rightarrow>
         thenE (exec (delete_scans_where (\<lambda>s. sc_id s = sc_id scan)))
           (thenE (commit refuse)
             (thenE (on_redis (publish bus (scan_deleted_event event_id now (sc_id scan) (sc_tenant scan))
                                (Some SCAN_EVENTS_STREAM)))
               (retE True))))"

subsection \<open>Runs of the parts\<close>

lemma get_scan_state: "get_scan i t w = (x, w') \<Longrightarrow> w' = w"
  by (auto simp: get_scan_def dest: scalar_state)

lemma get_scan_Some:
  "get_scan i t w = (Inr (Some r), w') \<Longrightarrow> w' = w \<and> r \<in> set (scans (work w)) \<and> sc_id r = i \<and>
     tenant_predicate t (sc_tenant r) \<and> rls_row (guc w) (sc_tenant r)"
proof -
  assume "get_scan i t w = (Inr (Some r), w')"
  then have "w' = w" and "filter (\<lambda>r. sc_id r = i \<and> tenant_predicate t (sc_tenant r)) (seen_scans w) = [r]"
    by (auto simp: get_scan_def scalar_one_or_none_run)
  then have "r \<in> set (filter (\<lambda>r. sc_id r = i \<and> tenant_predicate t (sc_tenant r)) (seen_scans w))" by simp
  with \<open>w' = w\<close> show ?thesis by (simp add: seen_scans_def)
qed

text \<open>\<open>create_scan\<close> ends in one of three ways.\<close>

lemma create_scan_outcome:
  assumes "create_scan refuse bus now new_id event_id data tenant w = (res, w')"
  obtains (refused) e where "res = Inl e" and "untouched w w'"
    | (created) d scan y where "validate_scan_config (JStr (scr_type data)) (JObj (scr_config data)) = Inr d"
        and "scan = \<lparr>sc_id = new_id, sc_tenant = tenant, sc_asset = scr_asset data, sc_name = scr_name data,
              sc_type = scr_type data, sc_status = Pending, sc_config = Some d, sc_dispatched = None,
              sc_started = None, sc_completed = None, sc_failure = None, sc_raw = None, sc_created = now\<rparr>"
        and "rls_row (guc w) tenant" and "violation (insert_scan scan (work w)) = None"
        and "committed w' = insert_scan scan (work w)"
        and "publish bus (scan_created_event event_id now scan) (Some SCAN_EVENTS_STREAM) (redis w) = (y, redis w')"
        and "res = (case y of Inl e \<Rightarrow> Inl e | Inr _ \<Rightarrow> Inr scan)"
proof (cases "validate_scan_config (JStr (scr_type data)) (JObj (scr_config data))")
  case (Inl e)
  with assms show thesis by (auto simp: create_scan_def intro: refused)
next
  case (Inr d)
  define scan where "scan = \<lparr>sc_id = new_id, sc_tenant = tenant, sc_asset = scr_asset data,
      sc_name = scr_name data, sc_type = scr_type data, sc_status = Pending, sc_config = Some d,
      sc_dispatched = None, sc_started = None, sc_completed = None, sc_failure = None, sc_raw = None,
      sc_created = now\<rparr>"
  let ?ins = "insert_checked (\<lambda>g. rls_row g tenant) (insert_scan scan)"
  let ?h = "\<lambda>exc. if is_open_name_violation exc then raiseE ScanDuplicateError
        else if is_asset_fk_violation exc then raiseE ScanAssetNotFoundError else raiseE exc"
  let ?pub = "publish bus (scan_created_event event_id now scan) (Some SCAN_EVENTS_STREAM)"
  have run: "thenE (except_integrity ?ins ?h) (thenE (commit refuse)
      (thenE (on_redis ?pub) (retE scan))) w = (res, w')"
    using assms Inr by (simp add: create_scan_def scan_def Let_def)
  obtain x w1 where x: "except_integrity ?ins ?h w = (x, w1)" by fastforce
  show thesis
  proof (cases x)
    case (Inl e)
    from x have "untouched w w1"
      by (cases rule: except_integrity_cases)
        (use Inl in \<open>auto dest!: insert_checked_Inl split: if_splits\<close>)
    with run x Inl refused show thesis by (auto simp: thenE_def bindE_def)
  next
    case (Inr u)
    from x have ins: "?ins w = (Inr (), w1)"
      by (cases rule: except_integrity_cases) (use Inr in \<open>auto split: if_splits\<close>)
    from run x Inr have "thenE (commit refuse) (thenE (on_redis ?pub) (retE scan)) w1 = (res, w')"
      by (simp add: thenE_def bindE_def)
    then show thesis
    proof (cases rule: commit_publish)
      case (1 e)
      with ins refused show thesis by (auto simp: insert_checked_Inr untouched_def)
    next
      case (2 y)
      with created [OF \<open>validate_scan_config _ _ = Inr d\<close> scan_def] ins show thesis
        by (auto simp: insert_checked_Inr)
    qed
  qed
qed

lemma apply_scan_update_fields:
  assumes "apply_scan_update n t c r = (r', ch)"
  shows "\<exists>n' t' c'. r' = r\<lparr>sc_name := n', sc_type := t', sc_config := c'\<rparr>"
    and "ch = filter (\<lambda>f. f = ''name'' \<and> n \<noteq> JStr (sc_name r) \<or> f = ''type'' \<and> t \<noteq> JStr (sc_type r) \<or>
           f = ''config'' \<and> \<not> same_dict c (sc_config r)) [''name'', ''type'', ''config'']"
    and "ch = [] \<Longrightarrow> r' = r"
proof -
  have "r' = r\<lparr>sc_name := (if n \<noteq> JStr (sc_name r) then json_text n else sc_name r),
      sc_type := (if t \<noteq> JStr (sc_type r) then json_text t else sc_type r),
      sc_config := (if same_dict c (sc_config r) then sc_config r else Some c)\<rparr>"
    using assms by (auto simp: apply_scan_update_def Let_def split: if_splits)
  then show "\<exists>n' t' c'. r' = r\<lparr>sc_name := n', sc_type := t', sc_config := c'\<rparr>" by blast
qed (use assms in \<open>auto simp: apply_scan_update_def Let_def split: if_splits\<close>)

lemma update_scan_outcome:
  assumes "update_scan refuse bus now event_id i t data w = (res, w')"
  obtains (refused) e where "res = Inl e" and "untouched w w'"
    | (missing) "res = Inr None" and "w' = w"
    | (updated) scan scan' ch name type d where "get_scan i t w = (Inr (Some scan), w)"
        and "name = (case su_name data of None \<Rightarrow> JStr (sc_name scan) | Some n \<Rightarrow> n)"
        and "type = (case su_type data of None \<Rightarrow> JStr (sc_type scan) | Some n \<Rightarrow> n)"
        and "validate_scan_config type (case su_config data of None \<Rightarrow> opt_dict (sc_config scan) | Some c \<Rightarrow> c) =
               Inr d"
        and "name \<noteq> JNull" and "apply_scan_update name type d scan = (scan', ch)"
        and "scans (committed w') = update_where (\<lambda>r. sc_id r = sc_id scan) (\<lambda>_. scan') (scans (work w))"
        and "committed w' = (work w)\<lparr>scans := scans (committed w')\<rparr>"
        and "violation (committed w') = None"
        and "if ch = [] then redis w' = redis w \<and> res = Inr (Some scan')
             else \<exists>y. publish bus (scan_updated_event event_id now scan' ch) (Some SCAN_EVENTS_STREAM) (redis w) =
                    (y, redis w') \<and> res = (case y of Inl e \<Rightarrow> Inl e | Inr _ \<Rightarrow> Inr (Some scan'))"
proof -
  obtain g w0 where g: "get_scan i t w = (g, w0)" by fastforce
  then have [simp]: "w0 = w" by (rule get_scan_state)
  show thesis
  proof (cases "\<exists>scan. g = Inr (Some scan)")
    case False
    with g assms show thesis
      by (cases g) (auto simp: update_scan_def bindE_def intro: refused missing split: option.splits)
  next
    case True
    then obtain scan where scan: "g = Inr (Some scan)" by blast
    define name where "name = (case su_name data of None \<Rightarrow> JStr (sc_name scan) | Some n \<Rightarrow> n)"
    define type where "type = (case su_type data of None \<Rightarrow> JStr (sc_type scan) | Some n \<Rightarrow> n)"
    let ?cfg = "case su_config data of None \<Rightarrow> opt_dict (sc_config scan) | Some c \<Rightarrow> c"
    show thesis
    proof (cases "validate_scan_config type ?cfg")
      case (Inl e)
      with g scan assms show thesis
        by (auto simp: update_scan_def bindE_def Let_def name_def type_def intro: refused)
    next
      case (Inr d)
      obtain scan' ch where ap: "apply_scan_update name type d scan = (scan', ch)" by fastforce
      let ?pub = "publish bus (scan_updated_event event_id now scan' ch) (Some SCAN_EVENTS_STREAM)"
      let ?ex = "\<lambda>t. t\<lparr>scans := update_where (\<lambda>r. sc_id r = sc_id scan) (\<lambda>_. scan') (scans t)\<rparr>"
      let ?h = "\<lambda>exc. if is_open_name_violation exc then raiseE ScanDuplicateError else raiseE exc"
      define w1 where "w1 = w\<lparr>work := ?ex (work w)\<rparr>"
      have run: "thenE (except_integrity (flush_update (name = JNull)) ?h) (thenE (commit refuse)
          (if ch = [] then retE (Some scan') else thenE (on_redis ?pub) (retE (Some scan')))) w1 = (res, w')"
        using assms g scan Inr ap
        by (simp add: update_scan_def bindE_def Let_def name_def type_def thenE_def w1_def)
      obtain x w2 where x: "except_integrity (flush_update (name = JNull)) ?h w1 = (x, w2)" by fastforce
      show thesis
      proof (cases x)
        case (Inl e)
        from x have "untouched w w2"
          by (cases rule: except_integrity_cases)
            (use Inl in \<open>auto simp: flush_update_def flush_cases untouched_def w1_def split: if_splits\<close>)
        with run x Inl refused show thesis by (auto simp: thenE_def bindE_def)
      next
        case (Inr u)
        from x have fl: "name \<noteq> JNull" "w2 = w1" "violation (work w1) = None"
          by (cases rule: except_integrity_cases;
              use Inr in \<open>auto simp: flush_update_def flush_cases split: if_splits\<close>)+
        note up = updated [OF g [unfolded scan, simplified] name_def type_def
            \<open>validate_scan_config _ _ = Inr d\<close> fl(1) ap]
        show thesis
        proof (cases "ch = []")
          case True
          with run x Inr fl have "thenE (commit refuse) (retE (Some scan')) w1 = (res, w')"
            by (simp add: thenE_def bindE_def)
          then show thesis
            by (cases rule: commit_only)
              (use True up refused in \<open>auto simp: w1_def untouched_def\<close>)
        next
          case False
          with run x Inr fl
          have "thenE (commit refuse) (thenE (on_redis ?pub) (retE (Some scan'))) w1 = (res, w')"
            by (simp add: thenE_def bindE_def)
          then show thesis
            by (cases rule: commit_publish)
              (use False up refused in \<open>auto simp: w1_def untouched_def\<close>)
        qed
      qed
    qed
  qed
qed

lemma delete_scan_outcome:
  assumes "delete_scan refuse bus now event_id i t w = (res, w')"
  obtains (refused) e where "res = Inl e" and "untouched w w'"
    | (missing) "res = Inr False" and "w' = w"
    | (deleted) scan y where "get_scan i t w = (Inr (Some scan), w)"
        and "committed w' = delete_scans_where (\<lambda>s. sc_id s = sc_id scan) (work w)"
        and "violation (committed w') = None"
        and "publish bus (scan_deleted_event event_id now (sc_id scan) (sc_tenant scan))
               (Some SCAN_EVENTS_STREAM) (redis w) = (y, redis w')"
        and "res = (case y of Inl e \<Rightarrow> Inl e | Inr _ \<Rightarrow> Inr True)"
proof -
  obtain g w0 where g: "get_scan i t w = (g, w0)" by fastforce
  then have [simp]: "w0 = w" by (rule get_scan_state)
  show thesis
  proof (cases "\<exists>scan. g = Inr (Some scan)")
    case False
    with g assms show thesis
      by (cases g) (auto simp: delete_scan_def bindE_def intro: refused missing split: option.splits)
  next
    case True
    then obtain scan where scan: "g = Inr (Some scan)" by blast
    let ?pub = "publish bus (scan_deleted_event event_id now (sc_id scan) (sc_tenant scan)) (Some SCAN_EVENTS_STREAM)"
    define w1 where "w1 = w\<lparr>work := delete_scans_where (\<lambda>s. sc_id s = sc_id scan) (work w)\<rparr>"
    have "thenE (commit refuse) (thenE (on_redis ?pub) (retE True)) w1 = (res, w')"
      using assms g scan by (simp add: delete_scan_def bindE_def thenE_def w1_def)
    then show thesis
      by (cases rule: commit_publish)
        (use deleted [OF g [unfolded scan, simplified]] refused in \<open>auto simp: w1_def untouched_def\<close>)
  qed
qed

lemma bind_state:
  assumes "bindE m f w = (res, w')" and "\<And>x t. m w = (x, t) \<Longrightarrow> t = w"
  obtains e where "m w = (Inl e, w)" and "res = Inl e" and "w' = w"
    | x where "m w = (Inr x, w)" and "f x w = (res, w')"
  using assms by (cases "m w"; cases "fst (m w)") (fastforce simp: bindE_def)+

lemma count_seen:
  "rls_row g t \<Longrightarrow> count_where (\<lambda>r. sc_tenant r = t \<and> p r) (filter (\<lambda>r. rls_row g (sc_tenant r)) rs) =
     count_where (\<lambda>r. sc_tenant r = t \<and> p r) rs"
  by (induction rs) auto

lemma counts_today_seen:
  "rls_row g t \<Longrightarrow> count_where (counts_today now t) (filter (\<lambda>r. rls_row g (sc_tenant r)) rs) =
     count_where (counts_today now t) rs"
  unfolding counts_today_def by (rule count_seen)

definition dispatchable :: "rls \<Rightarrow> uuid \<Rightarrow> scan_row \<Rightarrow> bool" where
  "dispatchable g i r \<longleftrightarrow> rls_row g (sc_tenant r) \<and> sc_id r = i \<and> sc_status r = Pending \<and> sc_dispatched r = None"

lemma refresh_state: "refresh_scan i w = (x, w') \<Longrightarrow> w' = w"
  by (auto simp: refresh_scan_def dest: scalar_state)

lemma refresh_scan_Inr: "refresh_scan i w = (Inr r, w') \<Longrightarrow> r \<in> set (scans (work w)) \<and> sc_id r = i"
proof -
  assume "refresh_scan i w = (Inr r, w')"
  then have "filter (\<lambda>x. sc_id x = i) (seen_scans w) = [r]" by (auto simp: refresh_scan_def scalar_one_run)
  then have "r \<in> set (filter (\<lambda>x. sc_id x = i) (seen_scans w))" by simp
  then show ?thesis by (auto simp: seen_scans_def)
qed

lemma dispatch_scan_outcome:
  assumes "dispatch_scan refuse now i t w = (res, w')"
  obtains (refused) e where "res = Inl e" and "untouched w w'"
    | (missing) "res = Inr None" and "w' = w"
    | (dispatched) scan limit r where "get_scan i t w = (Inr (Some scan), w)"
        and "filter (\<lambda>x. t_id x = sc_tenant scan) (seen_tenants w) = [limit]"
        and "0 < count_where (dispatchable (guc w) i) (scans (work w))"
        and "committed w' = (work w)\<lparr>scans := update_where (dispatchable (guc w) i)
               (\<lambda>r. r\<lparr>sc_dispatched := Some now\<rparr>) (scans (work w))\<rparr>"
        and "int (count_where (counts_today now (sc_tenant scan)) (scans (committed w'))) \<le> t_scans_per_day limit"
        and "violation (committed w') = None" and "res = Inr (Some r)" and "redis w' = redis w"
        and "r \<in> set (scans (committed w'))" and "sc_id r = i"
proof -
  from assms consider e where "get_scan i t w = (Inl e, w)" "res = Inl e" "w' = w"
    | found where "get_scan i t w = (Inr found, w)" and "(case found of None \<Rightarrow> retE None | Some scan \<Rightarrow>
         bindE (bindE (getE (\<lambda>w. map t_scans_per_day
                 (filter (\<lambda>t. t_id t = sc_tenant scan) (seen_tenants w)))) scalar_one) (\<lambda>limit.
         bindE (update_scans (\<lambda>r. sc_id r = i \<and> sc_status r = Pending \<and> sc_dispatched r = None)
                  (\<lambda>r. r\<lparr>sc_dispatched := Some now\<rparr>)) (\<lambda>rowcount.
         if rowcount = 0 then thenE rollback (raiseE ScanNotDispatchableError)
         else bindE (getE (\<lambda>w. count_where (counts_today now (sc_tenant scan)) (seen_scans w)))
           (\<lambda>n. if limit < int n then thenE rollback (raiseE ScanQuotaExceededError)
                else bindE (refresh_scan i) (\<lambda>r. thenE (commit refuse) (retE (Some r))))))) w = (res, w')"
    unfolding dispatch_scan_def by (rule bind_state) (auto dest: get_scan_state)
  then show thesis
  proof cases
    case (1 e)
    with refused show thesis by simp
  next
    case (2 found)
    show thesis
    proof (cases found)
      case None
      with 2 missing show thesis by simp
    next
      case (Some scan)
      note scan = get_scan_Some [OF 2(1) [unfolded Some]]
      let ?lims = "map t_scans_per_day (filter (\<lambda>x. t_id x = sc_tenant scan) (seen_tenants w))"
      show thesis
      proof (cases "\<exists>l. ?lims = [l]")
        case False
        with 2 Some refused show thesis
          by (auto simp: scalar_one_def bindE_def split: list.splits)
      next
        case True
        then obtain row where row: "filter (\<lambda>x. t_id x = sc_tenant scan) (seen_tenants w) = [row]"
          by (auto simp: map_eq_Cons_conv)
        define w1 where "w1 = w\<lparr>work := (work w)\<lparr>scans := update_where (dispatchable (guc w) i)
               (\<lambda>r. r\<lparr>sc_dispatched := Some now\<rparr>) (scans (work w))\<rparr>\<rparr>"
        let ?n = "count_where (dispatchable (guc w) i) (scans (work w))"
        let ?k = "count_where (counts_today now (sc_tenant scan)) (seen_scans w1)"
        have upd: "update_scans (\<lambda>r. sc_id r = i \<and> sc_status r = Pending \<and> sc_dispatched r = None)
            (\<lambda>r. r\<lparr>sc_dispatched := Some now\<rparr>) w = (Inr ?n, w1)"
          by (simp add: update_scans_def dispatchable_def [abs_def] w1_def Let_def)
        have run: "(if ?n = 0 then thenE rollback (raiseE ScanNotDispatchableError)
            else if t_scans_per_day row < int ?k then thenE rollback (raiseE ScanQuotaExceededError)
            else bindE (refresh_scan i) (\<lambda>r. thenE (commit refuse) (retE (Some r)))) w1 = (res, w')"
          using 2(2) Some row upd by (simp add: scalar_one_def bindE_def split: if_splits)
        show thesis
        proof (cases "?n = 0 \<or> t_scans_per_day row < int ?k")
          case True
          with run refused show thesis
            by (auto simp: thenE_def bindE_def untouched_def w1_def split: if_splits)
        next
          case False
          with run have "bindE (refresh_scan i) (\<lambda>r. thenE (commit refuse) (retE (Some r))) w1 = (res, w')"
            by simp
          then consider e where "res = Inl e" "w' = w1"
            | r where "refresh_scan i w1 = (Inr r, w1)" "thenE (commit refuse) (retE (Some r)) w1 = (res, w')"
            by (rule bind_state) (auto dest: refresh_state)
          then show thesis
          proof cases
            case (1 e)
            with refused show thesis by (simp add: untouched_def w1_def)
          next
            case (2 r)
            have r: "r \<in> set (scans (work w1))" "sc_id r = i" using refresh_scan_Inr [OF 2(1)] by simp_all
            have k: "?k = count_where (counts_today now (sc_tenant scan)) (scans (work w1))"
              using counts_today_seen [of "guc w" "sc_tenant scan" now] scan
              by (simp add: seen_scans_def w1_def)
            from 2(2) show thesis
            proof (cases rule: commit_only)
              case (1 e)
              with refused show thesis by (simp add: untouched_def w1_def)
            next
              case 2
              with False k r dispatched [OF \<open>get_scan i t w = (Inr found, w)\<close> [unfolded Some] row, of r]
              show thesis by (simp add: w1_def)
            qed
          qed
        qed
      qed
    qed
  qed
qed

lemma cancel_scan_outcome:
  assumes "cancel_scan refuse now i t w = (res, w')"
  obtains (refused) e where "res = Inl e" and "untouched w w'"
    | (missing) "res = Inr None" and "w' = w"
    | (cancelled) scan r where "get_scan i t w = (Inr (Some scan), w)"
        and "count_where (transition_selects w i ScanCancelled) (scans (work w)) = 1"
        and "committed w' = (work w)\<lparr>scans := update_where (transition_selects w i ScanCancelled)
               (transition_values now ScanCancelled None None) (scans (work w))\<rparr>"
        and "violation (committed w') = None" and "res = Inr (Some r)" and "redis w' = redis w"
        and "r \<in> set (scans (committed w'))" and "sc_id r = i"
proof -
  define w1 where "w1 = w\<lparr>work := (work w)\<lparr>scans := update_where (transition_selects w i ScanCancelled)
      (transition_values now ScanCancelled None None) (scans (work w))\<rparr>\<rparr>"
  let ?n = "count_where (transition_selects w i ScanCancelled) (scans (work w))"
  have sel: "(\<lambda>r. rls_row (guc w) (sc_tenant r) \<and> sc_id r = i \<and>
      sc_status r \<in> set (ALLOWED_FROM ScanCancelled)) = transition_selects w i ScanCancelled"
    by (auto simp: transition_selects_def fun_eq_iff)
  have tr: "transition_scan refuse now i ''cancelled'' None None False w = (Inr (?n = 1), w1)"
    using sel by (simp add: transition_scan_def bindE_def thenE_def update_scans_def Let_def w1_def)
  from assms consider e where "get_scan i t w = (Inl e, w)" "res = Inl e" "w' = w"
    | found where "get_scan i t w = (Inr found, w)" and "(case found of None \<Rightarrow> retE None
     | Some _ \<Rightarrow> bindE (transition_scan refuse now i ''cancelled'' None None False) (\<lambda>ok.
         if \<not> ok then thenE rollback (raiseE ScanNotCancellableError)
         else bindE (refresh_scan i) (\<lambda>r. thenE (commit refuse) (retE (Some r))))) w = (res, w')"
    unfolding cancel_scan_def by (rule bind_state) (auto dest: get_scan_state)
  then show thesis
  proof cases
    case (1 e)
    with refused show thesis by simp
  next
    case (2 found)
    show thesis
    proof (cases found)
      case None
      with 2 missing show thesis by simp
    next
      case (Some scan)
      with 2 tr have run: "(if ?n \<noteq> 1 then thenE rollback (raiseE ScanNotCancellableError)
          else bindE (refresh_scan i) (\<lambda>r. thenE (commit refuse) (retE (Some r)))) w1 = (res, w')"
        by (simp add: bindE_def)
      show thesis
      proof (cases "?n = 1")
        case False
        with run refused show thesis by (auto simp: thenE_def bindE_def untouched_def w1_def)
      next
        case True
        with run have "bindE (refresh_scan i) (\<lambda>r. thenE (commit refuse) (retE (Some r))) w1 = (res, w')"
          by simp
        then consider e where "res = Inl e" "w' = w1"
          | r where "refresh_scan i w1 = (Inr r, w1)" "thenE (commit refuse) (retE (Some r)) w1 = (res, w')"
          by (rule bind_state) (auto dest: refresh_state)
        then show thesis
        proof cases
          case (1 e)
          with refused show thesis by (simp add: untouched_def w1_def)
        next
          case (2 r)
          note r = refresh_scan_Inr [OF 2(1)]
          from 2(2) show thesis
            by (cases rule: commit_only)
              (use True r refused cancelled [OF \<open>get_scan i t w = (Inr found, w)\<close> [unfolded Some]]
                in \<open>auto simp: untouched_def w1_def\<close>)
        qed
      qed
    qed
  qed
qed

subsection \<open>Properties\<close>

text \<open>
  Creating a scan is all or nothing, and the event follows the commit.  Either nothing is committed
  and Redis is not touched, or exactly one row is added: it belongs to the caller's tenant, is pending
  with no execution data, its configuration is valid for its type, and no constraint is violated.  Only
  in the second case can Redis have changed, and when the call returns the row, the event of this row is
  the last entry of the stream; a failure to publish leaves the row committed.
\<close>

theorem create_scan_commit_then_publish:
  assumes "redis_contract (eb_call bus) view"
    and "create_scan refuse bus now new_id event_id data tenant w = (res, w')"
  shows "(\<exists>e. res = Inl e) \<and> committed w' = committed w \<and> redis w' = redis w \<or>
    (\<exists>scan. committed w' = insert_scan scan (work w) \<and> violation (committed w') = None \<and>
       sc_tenant scan = tenant \<and> sc_status scan = Pending \<and> sc_dispatched scan = None \<and> scan_wf scan \<and>
       config_ok (JStr (sc_type scan)) (opt_dict (sc_config scan)) \<and> rls_row (guc w) tenant \<and>
       (res = Inr scan \<and> (\<exists>es i d. store (view (redis w')) SCAN_EVENTS_STREAM =
             Some (VStream (es @ [(i, payload_of bus (scan_created_event event_id now scan))]), d)) \<or>
        (\<exists>e. res = Inl e)))"
  using assms(2)
proof (cases rule: create_scan_outcome)
  case (refused e)
  then show ?thesis by (simp add: untouched_def)
next
  case (created d scan y)
  have "config_ok (JStr (scr_type data)) (JObj d)"
    using validate_scan_config_spec [of "JStr (scr_type data)" "JObj (scr_config data)"]
      validate_scan_config_spec [of "JStr (scr_type data)" "JObj d"] created(1) by auto
  then have row: "config_ok (JStr (sc_type scan)) (opt_dict (sc_config scan))" "scan_wf scan"
    "sc_tenant scan = tenant" "sc_status scan = Pending" "sc_dispatched scan = None"
    using created(2) by (auto simp: opt_dict_def scan_wf_def)
  show ?thesis
  proof (cases y)
    case (Inl e)
    with created row show ?thesis by (intro disjI2 exI [of _ scan]) auto
  next
    case (Inr i)
    with created redis_contract.publish_appends [OF assms(1), of bus _ _ "redis w" i "redis w'"]
    have "\<exists>es i d. store (view (redis w')) SCAN_EVENTS_STREAM =
        Some (VStream (es @ [(i, payload_of bus (scan_created_event event_id now scan))]), d)" by blast
    with Inr created row show ?thesis by (intro disjI2 exI [of _ scan]) auto
  qed
qed

definition sample_db :: "scan_row list \<Rightarrow> mem_redis world" where
  "sample_db = sample_world (mem_empty []) \<lparr>g_tenant = Some 1, g_super = False\<rparr>"

definition sample_create :: scan_create where
  "sample_create = \<lparr>scr_type = ''discovery'', scr_asset = 2, scr_name = ''n'',
     scr_config = [(''host_discovery'', JBool True)]\<rparr>"

lemma create_scan_commit_then_publish_witness:
  "\<exists>scan w'. create_scan no_refusal sample_bus 0 30 31 sample_create 1 (sample_db []) = (Inr scan, w') \<and>
     sc_tenant scan = 1 \<and> committed w' = insert_scan scan (work (sample_db []))"
proof -
  let ?m = "create_scan no_refusal sample_bus 0 30 31 sample_create 1"
  have c: "redis_contract (eb_call sample_bus) mr_store" by (simp add: sample_bus_def mem_contract)
  have v: "validate_scan_config (JStr ''discovery'') (JObj [(''host_discovery'', JBool True)]) =
      Inr [(''host_discovery'', JBool True)]" by code_simp
  have "\<not> isl (fst (?m (sample_db [])))"
    by (simp add: create_scan_def sample_create_def v insert_checked_def flush_def commit_def on_redis_def
        except_integrity_def publish_def sample_bus_def SCAN_EVENTS_STREAM_def rls_row_def insert_scan_def
        constraint_defs sample_db_def sample_defs eval_simps mem_eval_simps cong: eval_congs)
  then obtain r where "fst (?m (sample_db [])) = Inr r" by (metis Inl_Inr_False isl_def sum.exhaust)
  from create_scan_commit_then_publish [OF c run_of [OF this]] run_of [OF this] show ?thesis by auto
qed

text \<open>The public fields in which two versions of a row differ, in the order of the event.\<close>

definition changed_fields :: "scan_row \<Rightarrow> scan_row \<Rightarrow> string list" where
  "changed_fields old new = filter (\<lambda>f.
     f = ''name'' \<and> sc_name new \<noteq> sc_name old \<or> f = ''type'' \<and> sc_type new \<noteq> sc_type old \<or>
     f = ''config'' \<and> \<not> (case sc_config new of None \<Rightarrow> False | Some c \<Rightarrow> same_dict c (sc_config old)))
       [''name'', ''type'', ''config'']"

lemma same_dict_refl [simp]: "same_dict c (Some c)"
  by (simp add: same_dict_def dict_eq_def)

lemma valid_type_text: "validate_scan_config t c = Inr d \<Longrightarrow> \<exists>s. t = JStr s"
  by (auto simp: validate_scan_config_Inr keys_of_def split: json.splits)

lemma apply_scan_update_changed:
  assumes "apply_scan_update (JStr n) (JStr t) c r = (r', ch)"
  shows "ch = changed_fields r r' \<and> sc_type r' = t \<and>
    (\<exists>c'. sc_config r' = Some c' \<and> dict_eq c c')"
proof -
  let ?c = "if same_dict c (sc_config r) then sc_config r else Some c"
  have r': "r' = r\<lparr>sc_name := n, sc_type := t, sc_config := ?c\<rparr>"
    using assms by (auto simp: apply_scan_update_def Let_def split: if_splits)
  have ch: "ch = (if n \<noteq> sc_name r then [''name''] else []) @ (if t \<noteq> sc_type r then [''type''] else []) @
      (if same_dict c (sc_config r) then [] else [''config''])"
    using assms by (auto simp: apply_scan_update_def Let_def split: if_splits)
  have c: "(case ?c of None \<Rightarrow> False | Some x \<Rightarrow> same_dict x (sc_config r)) \<longleftrightarrow> same_dict c (sc_config r)"
    by (cases "sc_config r") (simp_all add: same_dict_def dict_eq_def)
  have "ch = changed_fields r r'"
    unfolding ch by (simp add: changed_fields_def r' c)
  moreover have "\<exists>c'. ?c = Some c' \<and> dict_eq c c'"
    by (cases "sc_config r") (auto simp: same_dict_def dict_eq_def)
  ultimately show ?thesis by (simp add: r')
qed

lemma config_ok_dict_eq: "config_ok t (JObj c) \<Longrightarrow> dict_eq c c' \<Longrightarrow> config_ok t (JObj c')"
  by (simp add: config_ok_def dict_eq_map_of flip: dom_map_of_conv_image_fst)

text \<open>
  Updating a scan touches only its name, type and configuration, and says so.  An update that
  succeeds changed one row the caller sees, in its tenant, which keeps its identity, status and
  timestamps; the type and the configuration of the new row are a valid pair; an event is published
  exactly when a public field changed, and lists the changed fields in the fixed order.  In all other
  cases nothing is committed and nothing is published, except that a failing publication leaves the
  committed update.
\<close>

theorem update_scan_effect:
  assumes "redis_contract (eb_call bus) view" and "distinct (map sc_id (scans (work w)))"
    and "\<And>n. su_name data = Some n \<Longrightarrow> n = JNull \<or> (\<exists>s. n = JStr s)"
    and "update_scan refuse bus now event_id i t data w = (res, w')"
  shows "(\<exists>e. res = Inl e) \<and> committed w' = committed w \<and> redis w' = redis w \<or>
    res = Inr None \<and> w' = w \<or>
    (\<exists>scan scan' n ty c. scan \<in> set (seen_scans w) \<and> sc_id scan = i \<and> tenant_predicate t (sc_tenant scan) \<and>
       scan' = scan\<lparr>sc_name := n, sc_type := ty, sc_config := c\<rparr> \<and>
       scans (committed w') = map (\<lambda>r. if sc_id r = i then scan' else r) (scans (work w)) \<and>
       config_ok (JStr (sc_type scan')) (opt_dict (sc_config scan')) \<and> violation (committed w') = None \<and>
       (if changed_fields scan scan' = [] then res = Inr (Some scan') \<and> redis w' = redis w
        else (\<exists>e. res = Inl e) \<or> res = Inr (Some scan') \<and>
          (\<exists>es j d. store (view (redis w')) SCAN_EVENTS_STREAM = Some (VStream (es @
             [(j, payload_of bus (scan_updated_event event_id now scan' (changed_fields scan scan')))]), d))))"
  using assms(4)
proof (cases rule: update_scan_outcome)
  case (refused e)
  then show ?thesis by (simp add: untouched_def)
next
  case missing
  then show ?thesis by blast
next
  case (updated scan scan' ch name type d)
  note scan = get_scan_Some [OF updated(1)]
  from updated(2,5) assms(3) obtain n where n: "name = JStr n" by (cases "su_name data") fastforce+
  from valid_type_text [OF updated(4)] obtain ty where ty: "type = JStr ty" by blast
  note ap = apply_scan_update_changed [OF updated(6) [unfolded n ty]]
  have ch: "ch = changed_fields scan scan'" using ap by simp
  obtain c' where c': "sc_config scan' = Some c'" "dict_eq d c'" using ap by blast
  have "config_ok type (JObj d)"
    using updated(4) validate_scan_config_spec [of type "JObj d"]
      validate_scan_config_spec [of type "case su_config data of None \<Rightarrow> opt_dict (sc_config scan) | Some c \<Rightarrow> c"]
    by auto
  then have valid: "config_ok (JStr (sc_type scan')) (opt_dict (sc_config scan'))"
    using ap ty c' config_ok_dict_eq by (simp add: opt_dict_def)
  have rows: "scans (committed w') = map (\<lambda>r. if sc_id r = i then scan' else r) (scans (work w))"
    using updated(7) scan by (simp add: update_where_def)
  obtain n' t' c where scan': "scan' = scan\<lparr>sc_name := n', sc_type := t', sc_config := c\<rparr>"
    using apply_scan_update_fields(1) [OF updated(6)] by blast
  have out: "if ch = [] then res = Inr (Some scan') \<and> redis w' = redis w
        else (\<exists>e. res = Inl e) \<or> res = Inr (Some scan') \<and>
          (\<exists>es j d. store (view (redis w')) SCAN_EVENTS_STREAM = Some (VStream (es @
             [(j, payload_of bus (scan_updated_event event_id now scan' ch))]), d))"
  proof (cases "ch = []")
    case False
    with updated(10) obtain y where
      y: "publish bus (scan_updated_event event_id now scan' ch) (Some SCAN_EVENTS_STREAM) (redis w) = (y, redis w')"
      "res = (case y of Inl e \<Rightarrow> Inl e | Inr _ \<Rightarrow> Inr (Some scan'))" by auto
    with False redis_contract.publish_appends [OF assms(1), of bus _ SCAN_EVENTS_STREAM] show ?thesis
      by (cases y) fastforce+
  qed (use updated(10) in simp)
  have "scan \<in> set (seen_scans w)" using scan by (simp add: seen_scans_def)
  then show ?thesis
    using scan scan' rows valid updated(9) out unfolding ch by blast
qed

lemma update_scan_effect_witness:
  "\<exists>scan' w'. update_scan no_refusal sample_bus 0 31 7 (Some 1)
      \<lparr>su_name = Some (JStr ''b''), su_type = None, su_config = None\<rparr> (sample_db [sample_scan 7 1 2 ''a'']) =
      (Inr (Some scan'), w') \<and>
     scans (committed w') = map (\<lambda>r. if sc_id r = 7 then scan' else r) [sample_scan 7 1 2 ''a'']"
proof -
  let ?d = "\<lparr>su_name = Some (JStr ''b''), su_type = None, su_config = None\<rparr>"
  let ?w = "sample_db [sample_scan 7 1 2 ''a'']"
  let ?m = "update_scan no_refusal sample_bus 0 31 7 (Some 1) ?d"
  have c: "redis_contract (eb_call sample_bus) mr_store" by (simp add: sample_bus_def mem_contract)
  have v: "validate_scan_config (JStr ''web'') (JObj [(''paths'', JArr [JStr ''/''])]) =
      Inr [(''paths'', JArr [JStr ''/''])]" by code_simp
  have "case fst (?m ?w) of Inr (Some r) \<Rightarrow> True | _ \<Rightarrow> False"
    by (simp add: update_scan_def get_scan_def seen_scans_def scalar_one_or_none_def tenant_predicate_def
        opt_dict_def v apply_scan_update_def same_dict_def dict_eq_def flush_update_def flush_def commit_def
        on_redis_def except_integrity_def publish_def sample_bus_def SCAN_EVENTS_STREAM_def rls_row_def
        constraint_defs sample_db_def sample_defs eval_simps mem_eval_simps cong: eval_congs)
  then obtain r where r: "fst (?m ?w) = Inr (Some r)" by (auto split: sum.splits option.splits)
  have d: "distinct (map sc_id (scans (work ?w)))" and
    n: "\<And>n. su_name ?d = Some n \<Longrightarrow> n = JNull \<or> (\<exists>s. n = JStr s)"
    by (simp_all add: sample_db_def sample_defs)
  from update_scan_effect [OF c d n run_of [OF r]] r run_of [OF r] show ?thesis
    by (auto simp: sample_db_def sample_defs split: if_splits)
qed

text \<open>
  C33: The daily quota is never exceeded by a dispatch.  When \<open>dispatch_scan\<close> returns a row, the row was
  pending and not dispatched and is committed as dispatched now, no other row changed, and the scans of
  its tenant that count for the day are at most the tenant's \<open>scans_per_day\<close>.  In all other cases
  nothing is committed.
\<close>

theorem dispatch_scan_quota:
  assumes "dispatch_scan refuse now i t w = (res, w')" and "distinct (map sc_id (scans (work w)))"
    and "distinct (map t_id (tenants (work w)))"
  shows "((\<exists>e. res = Inl e) \<and> committed w' = committed w \<or> res = Inr None \<and> w' = w) \<or>
    (\<exists>scan row. scan \<in> set (seen_scans w) \<and> sc_id scan = i \<and> tenant_predicate t (sc_tenant scan) \<and>
       sc_status scan = Pending \<and> sc_dispatched scan = None \<and>
       res = Inr (Some (scan\<lparr>sc_dispatched := Some now\<rparr>)) \<and>
       scans (committed w') = map (\<lambda>r. if sc_id r = i then r\<lparr>sc_dispatched := Some now\<rparr> else r) (scans (work w)) \<and>
       row \<in> set (tenants (work w)) \<and> t_id row = sc_tenant scan \<and>
       int (count_where (counts_today now (sc_tenant scan)) (scans (committed w'))) \<le> t_scans_per_day row)"
  using assms(1)
proof (cases rule: dispatch_scan_outcome)
  case (refused e)
  then show ?thesis by (simp add: untouched_def)
next
  case missing
  then show ?thesis by blast
next
  case (dispatched scan row r)
  note scan = get_scan_Some [OF dispatched(1)]
  from dispatched(3) obtain x where x: "x \<in> set (scans (work w))" "dispatchable (guc w) i x"
    using count_where_0 [of "dispatchable (guc w) i" "scans (work w)"] by auto
  have [simp]: "x = scan"
    using distinct_map_inj [OF assms(2) x(1)] scan x(2) by (auto simp: dispatchable_def)
  have sel: "dispatchable (guc w) i y \<longleftrightarrow> sc_id y = i" if "y \<in> set (scans (work w))" for y
    using distinct_map_inj [OF assms(2) that x(1)] x(2) by (auto simp: dispatchable_def)
  have rows: "scans (committed w') = map (\<lambda>r. if sc_id r = i then r\<lparr>sc_dispatched := Some now\<rparr> else r)
      (scans (work w))"
    using dispatched(4) sel by (auto simp: update_where_def)
  from dispatched(9,10) rows obtain y where "y \<in> set (scans (work w))" "sc_id y = i"
    "r = y\<lparr>sc_dispatched := Some now\<rparr>" by auto
  with distinct_map_inj [OF assms(2) _ x(1)] scan have r: "r = scan\<lparr>sc_dispatched := Some now\<rparr>" by auto
  from dispatched(2) have "row \<in> set (filter (\<lambda>x. t_id x = sc_tenant scan) (seen_tenants w))" by simp
  then have "row \<in> set (tenants (work w))" "t_id row = sc_tenant scan" by (auto simp: seen_tenants_def)
  with scan x dispatched rows r show ?thesis
    by (intro disjI2 exI [of _ scan] exI [of _ row]) (auto simp: dispatchable_def seen_scans_def)
qed

lemma dispatch_scan_quota_witness:
  "\<exists>w'. dispatch_scan no_refusal 50 7 (Some 1) (sample_state [sample_scan 7 1 2 ''a'']) =
      (Inr (Some ((sample_scan 7 1 2 ''a'')\<lparr>sc_dispatched := Some 50\<rparr>)), w') \<and>
     scans (committed w') = [(sample_scan 7 1 2 ''a'')\<lparr>sc_dispatched := Some 50\<rparr>]"
proof -
  let ?w = "sample_state [sample_scan 7 1 2 ''a'']"
  let ?m = "dispatch_scan no_refusal 50 7 (Some 1)"
  have r: "fst (?m ?w) = Inr (Some ((sample_scan 7 1 2 ''a'')\<lparr>sc_dispatched := Some 50\<rparr>))"
    by (simp add: dispatch_scan_def get_scan_def refresh_scan_def seen_scans_def seen_tenants_def
        scalar_one_or_none_def scalar_one_def tenant_predicate_def update_scans_def Let_def counts_today_def
        day_start_def seconds_def flush_def commit_def rls_row_def constraint_defs sample_state_def
        sample_defs eval_simps cong: eval_congs)
  have "distinct (map sc_id (scans (work ?w)))" "distinct (map t_id (tenants (work ?w)))"
    by (simp_all add: sample_state_def sample_defs)
  from dispatch_scan_quota [OF run_of [OF r] this] run_of [OF r] show ?thesis
    by (auto simp: sample_state_def sample_defs)
qed

end
