(* ===== verification/Scan_Lifecycle.thy ===== *)
theory Scan_Lifecycle
  imports Scan_Service
begin

text \<open>
  The life of the scans table.  A step is one whole transaction of the scan service or of the scan state
  module, run on a session that starts on the committed tables; the requests of users and the claims,
  transitions and reaps of workers interleave at will.  The lemmas lift what the single programs do to
  the reachable tables.
\<close>

datatype scan_tx =
    TxCreate uuid uuid time scan_create uuid
  | TxUpdate uuid time uuid "uuid option" scan_update
  | TxDelete uuid time uuid "uuid option"
  | TxDispatch time uuid "uuid option"
  | TxCancel time uuid "uuid option"
  | TxClaim time "uuid list"
  | TxTransition time uuid string "string option" "string option"
  | TxReap time int

definition ignore :: "('s, 'e, 'a) prog \<Rightarrow> ('s, 'e, unit) prog" where
  "ignore m s = (case m s of (Inl e, t) \<Rightarrow> (Inl e, t) | (Inr _, t) \<Rightarrow> (Inr (), t))"

fun run_tx :: "(tables \<Rightarrow> exn option) \<Rightarrow> 'r event_bus \<Rightarrow> scan_tx \<Rightarrow> ('r, unit) db_prog" where
  "run_tx refuse bus (TxCreate new_id event_id now data tenant) =
     ignore (create_scan refuse bus now new_id event_id data tenant)"
| "run_tx refuse bus (TxUpdate event_id now i t data) = ignore (update_scan refuse bus now event_id i t data)"
| "run_tx refuse bus (TxDelete event_id now i t) = ignore (delete_scan refuse bus now event_id i t)"
| "run_tx refuse bus (TxDispatch now i t) = ignore (dispatch_scan refuse now i t)"
| "run_tx refuse bus (TxCancel now i t) = ignore (cancel_scan refuse now i t)"
| "run_tx refuse bus (TxClaim now locked) = ignore (claim_next_scan refuse now locked)"
| "run_tx refuse bus (TxTransition now i to reason raw) =
     ignore (transition_scan refuse now i to reason raw True)"
| "run_tx refuse bus (TxReap now n) = ignore (reap_stale_scans refuse now n)"

inductive scan_step :: "'r event_bus \<Rightarrow> tables \<Rightarrow> tables \<Rightarrow> bool" for bus :: "'r event_bus" where
  transaction: "run_tx refuse bus tx \<lparr>committed = t, work = t, guc = g, redis = r\<rparr> = (x, w') \<Longrightarrow>
    scan_step bus t (committed w')"

text \<open>A new row, as \<open>create_scan\<close> inserts it.\<close>

definition new_scan :: "scan_row \<Rightarrow> bool" where
  "new_scan r \<longleftrightarrow> sc_status r = Pending \<and> sc_dispatched r = None \<and> sc_started r = None \<and>
     sc_completed r = None \<and> sc_failure r = None \<and> sc_raw r = None"

lemma new_scan_wf: "new_scan r \<Longrightarrow> scan_wf r"
  by (simp add: new_scan_def scan_wf_def)

text \<open>What one transaction does to the table: moves of its rows, one more row, or some rows less.\<close>

inductive scans_change :: "scan_row list \<Rightarrow> scan_row list \<Rightarrow> bool" where
  moved: "scans_move xs ys \<Longrightarrow> scans_change xs ys"
| added: "new_scan r \<Longrightarrow> scans_change xs (xs @ [r])"
| removed: "scans_change xs (filter p xs)"

inductive_cases scans_changeE: "scans_change xs ys"

lemma ignore_run: "ignore m w = (x, w') \<Longrightarrow> \<exists>y. m w = (y, w')"
  by (auto simp: ignore_def split: prod.splits sum.splits)

lemma keeps_ignore: "keeps P m \<Longrightarrow> keeps P (ignore m)"
  by (fastforce simp: keeps_def ignore_def split: prod.splits sum.splits)

lemma delete_scans_where_scans [simp]: "scans (delete_scans_where p t) = filter (\<lambda>s. \<not> p s) (scans t)"
  by (simp add: delete_scans_where_def)

lemma scans_move_untouched: "untouched w w' \<Longrightarrow> scans_move (scans (committed w)) (scans (committed w'))"
  by (simp add: untouched_def)

lemma tx_change:
  assumes "run_tx refuse bus tx w = (x, w')" and "work w = committed w"
    and "distinct (map sc_id (scans (committed w)))"
  shows "scans_change (scans (committed w)) (scans (committed w'))"
proof (cases tx)
  case (TxCreate new_id event_id now data tenant)
  with assms(1) obtain y where "create_scan refuse bus now new_id event_id data tenant w = (y, w')"
    by (auto dest: ignore_run)
  then show ?thesis
  proof (cases rule: create_scan_outcome)
    case (refused e)
    then show ?thesis by (intro moved scans_move_untouched)
  next
    case (created d scan y)
    then have "scans (committed w') = scans (committed w) @ [scan]" "new_scan scan"
      using assms(2) by (simp_all add: insert_scan_def new_scan_def)
    then show ?thesis by (simp add: added)
  qed
next
  case (TxUpdate event_id now i t data)
  with assms(1) obtain y where "update_scan refuse bus now event_id i t data w = (y, w')"
    by (auto dest: ignore_run)
  then show ?thesis
  proof (cases rule: update_scan_outcome)
    case (refused e)
    then show ?thesis by (intro moved scans_move_untouched)
  next
    case missing
    then show ?thesis by (simp add: moved)
  next
    case (updated scan scan' ch name type d)
    note scan = get_scan_Some [OF updated(1)]
    obtain n ty c where new: "scan' = scan\<lparr>sc_name := n, sc_type := ty, sc_config := c\<rparr>"
      using apply_scan_update_fields(1) [OF updated(6)] by blast
    have "scan_move r scan'" if "r \<in> set (scans (work w))" "sc_id r = sc_id scan" for r
      using distinct_map_inj [of sc_id "scans (work w)" r scan] assms(2,3) that scan
      by (simp add: new scan_move.edit)
    then have "scans_move (scans (work w)) (scans (committed w'))"
      unfolding updated(7) by (intro scans_move_update) auto
    with assms(2) show ?thesis by (simp add: moved)
  qed
next
  case (TxDelete event_id now i t)
  with assms(1) obtain y where "delete_scan refuse bus now event_id i t w = (y, w')"
    by (auto dest: ignore_run)
  then show ?thesis
    by (cases rule: delete_scan_outcome)
      (auto simp: assms(2) moved removed intro: scans_move_untouched moved)
next
  case (TxDispatch now i t)
  with assms(1) obtain y where "dispatch_scan refuse now i t w = (y, w')" by (auto dest: ignore_run)
  then show ?thesis
  proof (cases rule: dispatch_scan_outcome)
    case (dispatched scan limit r)
    have "scans_move (scans (work w)) (scans (committed w'))"
      unfolding dispatched(4) by (auto simp: dispatchable_def intro!: scans_move_update scan_move.dispatch)
    with assms(2) show ?thesis by (simp add: moved)
  qed (auto intro: scans_move_untouched moved)
next
  case (TxCancel now i t)
  with assms(1) obtain y where "cancel_scan refuse now i t w = (y, w')" by (auto dest: ignore_run)
  then show ?thesis
  proof (cases rule: cancel_scan_outcome)
    case (cancelled scan r)
    have "scans_move (scans (work w)) (scans (committed w'))"
      unfolding cancelled(3)
      by (auto simp: transition_selects_def intro!: scans_move_update transition_values_move)
    with assms(2) show ?thesis by (simp add: moved)
  qed (auto intro: scans_move_untouched moved)
next
  case (TxClaim now locked)
  have "keeps (scans_from (scans (committed w))) (run_tx refuse bus tx)"
    unfolding TxClaim run_tx.simps by (intro keeps_ignore claim_next_scan_keeps)
  from keepsD [OF this _ assms(1)] assms(2) show ?thesis by (simp add: scans_from_def moved)
next
  case (TxTransition now i to reason raw)
  have "keeps (scans_from (scans (committed w))) (run_tx refuse bus tx)"
    unfolding TxTransition run_tx.simps by (intro keeps_ignore transition_scan_keeps)
  from keepsD [OF this _ assms(1)] assms(2) show ?thesis by (simp add: scans_from_def moved)
next
  case (TxReap now n)
  have "keeps (scans_from (scans (committed w))) (run_tx refuse bus tx)"
    unfolding TxReap run_tx.simps by (intro keeps_ignore reap_stale_scans_keeps)
  from keepsD [OF this _ assms(1)] assms(2) show ?thesis by (simp add: scans_from_def moved)
qed

subsection \<open>Constraints\<close>

definition valid_db :: "'r world \<Rightarrow> bool" where
  "valid_db w \<longleftrightarrow> violation (committed w) = None"

lemma keeps_valid_commit [intro]: "keeps valid_db (commit refuse)"
proof (rule keepsI)
  fix w :: "'r world" assume w: "valid_db w"
  obtain x w' where run: "commit refuse w = (x, w')" by fastforce
  then have "valid_db w'" using w
    by (cases x) (auto simp: commit_Inr valid_db_def dest!: commit_Inl)
  with run show "valid_db (snd (commit refuse w))" by simp
qed

lemma keeps_valid_others [intro]:
  "keeps valid_db rollback" "keeps valid_db (update_scans p f)" "keeps valid_db (set_tenant_context t b)"
  by (auto simp: keeps_def valid_db_def update_scans_def Let_def set_tenant_context_def)

lemma worker_keeps_valid [intro]:
  "keeps valid_db (transition_scan refuse now i to reason raw c)"
  "keeps valid_db (claim_next_scan refuse now locked)" "keeps valid_db (reap_stale_scans refuse now n)"
  unfolding transition_scan_def claim_next_scan_def reap_stale_scans_def
  by (intro keeps_intros keeps_valid_commit keeps_valid_others)+

lemma tx_valid:
  assumes "run_tx refuse bus tx w = (x, w')" and "violation (committed w) = None" and "work w = committed w"
  shows "violation (committed w') = None"
proof -
  have worker: "violation (committed w') = None" if "keeps valid_db (run_tx refuse bus tx)"
    using keepsD [OF that _ assms(1)] assms(2) by (simp add: valid_db_def)
  show ?thesis
  proof (cases tx)
    case (TxCreate new_id event_id now data tenant)
    with assms(1) obtain y where "create_scan refuse bus now new_id event_id data tenant w = (y, w')"
      by (auto dest: ignore_run)
    then show ?thesis
      by (cases rule: create_scan_outcome) (auto simp: untouched_def assms)
  next
    case (TxUpdate event_id now i t data)
    with assms(1) obtain y where "update_scan refuse bus now event_id i t data w = (y, w')"
      by (auto dest: ignore_run)
    then show ?thesis
      by (cases rule: update_scan_outcome) (auto simp: untouched_def assms)
  next
    case (TxDelete event_id now i t)
    with assms(1) obtain y where "delete_scan refuse bus now event_id i t w = (y, w')"
      by (auto dest: ignore_run)
    then show ?thesis
      by (cases rule: delete_scan_outcome) (auto simp: untouched_def assms)
  next
    case (TxDispatch now i t)
    with assms(1) obtain y where "dispatch_scan refuse now i t w = (y, w')" by (auto dest: ignore_run)
    then show ?thesis
      by (cases rule: dispatch_scan_outcome) (auto simp: untouched_def assms)
  next
    case (TxCancel now i t)
    with assms(1) obtain y where "cancel_scan refuse now i t w = (y, w')" by (auto dest: ignore_run)
    then show ?thesis
      by (cases rule: cancel_scan_outcome) (auto simp: untouched_def assms)
  qed (use worker in \<open>auto intro!: keeps_ignore\<close>)
qed

lemma valid_scan_ids: "violation t = None \<Longrightarrow> distinct (map sc_id (scans t))"
  by (simp add: violation_None constraints_def scans_ok_def)

lemma valid_pending_names: "violation t = None \<Longrightarrow> distinct (map (\<lambda>r. (sc_tenant r, sc_asset r, sc_name r))
    (filter (\<lambda>r. sc_status r = Pending) (scans t)))"
  by (simp add: violation_None constraints_def scans_ok_def)

lemma step_change:
  assumes "scan_step bus t t'" and "violation t = None"
  shows "scans_change (scans t) (scans t') \<and> violation t' = None"
  using assms(1)
proof cases
  case (transaction refuse tx g r x w')
  with tx_change [OF transaction(2)] tx_valid [OF transaction(2)] valid_scan_ids [OF assms(2)] assms(2)
  show ?thesis by simp
qed

lemma change_rows:
  assumes "scans_change xs ys" and "r' \<in> set ys"
  shows "new_scan r' \<or> (\<exists>r \<in> set xs. scan_move\<^sup>*\<^sup>* r r')"
  using assms by (cases rule: scans_change.cases) (auto dest: scans_move_back)

lemma change_terminal:
  assumes "scans_change xs ys" and "r \<in> set xs" and "sc_status r \<in> set TERMINAL_STATUSES"
    and "distinct (map sc_id xs)"
  shows "sc_id r \<notin> sc_id ` set ys \<or>
    (\<exists>r' \<in> set ys. sc_id r' = sc_id r \<and> scan_outcome r' = scan_outcome r)"
  using assms(1)
proof cases
  case moved
  from assms(2) moved obtain r' where "r' \<in> set ys" "scan_move\<^sup>*\<^sup>* r r'"
    unfolding scans_move_def by (metis in_set_conv_nth list_all2_conv_all_nth)
  with scan_path_key scan_path_terminal [OF _ assms(3)] show ?thesis by blast
next
  case (added s)
  with assms(2) show ?thesis by auto
next
  case (removed p)
  show ?thesis
  proof (cases "p r")
    case True
    with assms(2) removed show ?thesis by auto
  next
    case False
    with distinct_map_inj [OF assms(4) assms(2)] removed show ?thesis by fastforce
  qed
qed

subsection \<open>Properties\<close>

lemma sample_create_step:
  obtains t where "scan_step sample_bus (sample_tables []) t" and "length (scans t) = 1"
proof -
  let ?w = "\<lparr>committed = sample_tables [], work = sample_tables [], guc = \<lparr>g_tenant = Some 1, g_super = False\<rparr>,
    redis = mem_empty []\<rparr>"
  let ?m = "run_tx no_refusal sample_bus (TxCreate 30 31 0 sample_create 1)"
  have v: "validate_scan_config (JStr ''discovery'') (JObj [(''host_discovery'', JBool True)]) =
      Inr [(''host_discovery'', JBool True)]" by code_simp
  have "length (scans (committed (snd (?m ?w)))) = 1"
    by (simp add: ignore_def create_scan_def sample_create_def v insert_checked_def flush_def commit_def on_redis_def
        except_integrity_def publish_def sample_bus_def SCAN_EVENTS_STREAM_def rls_row_def insert_scan_def
        constraint_defs sample_defs eval_simps mem_eval_simps cong: eval_congs)
  moreover have "scan_step sample_bus (sample_tables []) (committed (snd (?m ?w)))"
    by (rule scan_step.transaction) (rule prod.collapse [symmetric])
  ultimately show thesis by (rule that [rotated])
qed

text \<open>
  C8: Every reachable scans table is well formed.  Whatever transactions users and workers run, in any
  order and with any failures of the commit or of Redis, the ids stay unique, at most one pending scan
  has a given name on an asset, and every row's execution data fit its status: a pending scan has none,
  a running one was dispatched and started, a completed one also ended, a failed one carries a reason of
  at most 64 characters, and a cancelled one has no result.
\<close>

theorem reachable_scans_wf:
  assumes "(scan_step bus)\<^sup>*\<^sup>* t0 t" and "violation t0 = None" and "scans t0 = []"
  shows "violation t = None \<and> distinct (map sc_id (scans t)) \<and>
    distinct (map (\<lambda>r. (sc_tenant r, sc_asset r, sc_name r))
      (filter (\<lambda>r. sc_status r = Pending) (scans t))) \<and> (\<forall>r \<in> set (scans t). scan_wf r)"
proof -
  from assms(1) have "violation t = None \<and> (\<forall>r \<in> set (scans t). scan_wf r)"
  proof (induction rule: rtranclp_induct)
    case base
    with assms show ?case by simp
  next
    case (step t t')
    from step_change [OF step.hyps(2)] step.IH
    have "scans_change (scans t) (scans t')" "violation t' = None" by auto
    with step.IH show ?case
      using change_rows [of "scans t" "scans t'"] new_scan_wf scan_path_wf by blast
  qed
  then show ?thesis using valid_scan_ids valid_pending_names by blast
qed

lemma reachable_scans_wf_witness:
  "\<exists>t. (scan_step sample_bus)\<^sup>*\<^sup>* (sample_tables []) t \<and> length (scans t) = 1 \<and>
     violation t = None \<and> list_all scan_wf (scans t)"
proof -
  obtain t where st: "scan_step sample_bus (sample_tables []) t" and n: "length (scans t) = 1"
    by (rule sample_create_step)
  have v: "violation (sample_tables []) = None" and e: "scans (sample_tables []) = []"
    by (simp_all add: constraint_defs sample_defs)
  from reachable_scans_wf [OF r_into_rtranclp [where r = "scan_step sample_bus", OF st] v e] n
  have "violation t = None" "list_all scan_wf (scans t)" by (simp_all add: list_all_iff)
  with n r_into_rtranclp [where r = "scan_step sample_bus", OF st] show ?thesis by blast
qed

text \<open>
  C9: A finished scan is final, and every row has a history.  In one transaction, each row of the new
  table is a freshly created pending scan or comes from a row of the old table by moves along the
  transition map with its id, tenant, asset and creation time kept; and a row in a terminal status is
  either deleted or keeps its status, its timestamps, its failure reason and its raw output.
\<close>

theorem scan_step_history:
  assumes "scan_step bus t t'" and "violation t = None"
  shows "(\<forall>r' \<in> set (scans t'). new_scan r' \<or> (\<exists>r \<in> set (scans t). scan_move\<^sup>*\<^sup>* r r' \<and> sc_id r' = sc_id r \<and>
      sc_tenant r' = sc_tenant r \<and> sc_asset r' = sc_asset r \<and> sc_created r' = sc_created r)) \<and>
    (\<forall>r \<in> set (scans t). sc_status r \<in> set TERMINAL_STATUSES \<longrightarrow> sc_id r \<notin> sc_id ` set (scans t') \<or>
      (\<exists>r' \<in> set (scans t'). sc_id r' = sc_id r \<and> scan_outcome r' = scan_outcome r))"
proof -
  have ch: "scans_change (scans t) (scans t')" using step_change [OF assms] by simp
  have "new_scan r' \<or> (\<exists>r \<in> set (scans t). scan_move\<^sup>*\<^sup>* r r' \<and> sc_id r' = sc_id r \<and>
      sc_tenant r' = sc_tenant r \<and> sc_asset r' = sc_asset r \<and> sc_created r' = sc_created r)"
    if "r' \<in> set (scans t')" for r'
    using change_rows [OF ch that] scan_path_key by blast
  with change_terminal [OF ch _ _ valid_scan_ids [OF assms(2)]] show ?thesis by blast
qed

lemma scan_step_history_witness:
  "\<exists>t' :: tables. scan_step sample_bus (sample_tables []) t' \<and> length (scans t') = 1 \<and> list_all new_scan (scans t')"
proof -
  obtain t' where st: "scan_step sample_bus (sample_tables []) t'" and n: "length (scans t') = 1"
    by (rule sample_create_step)
  have v: "violation (sample_tables []) = None" by (simp add: constraint_defs sample_defs)
  have "scans (sample_tables []) = []" by (simp add: sample_defs)
  with scan_step_history [OF st v] st n show ?thesis by (auto simp: list_all_iff)
qed

text \<open>The tenant a request of a user is confined to; \<open>None\<close> for a superadmin and for the workers.\<close>

fun tx_tenant :: "scan_tx \<Rightarrow> uuid option" where
  "tx_tenant (TxCreate new_id event_id now data tenant) = Some tenant"
| "tx_tenant (TxUpdate event_id now i t data) = t"
| "tx_tenant (TxDelete event_id now i t) = t"
| "tx_tenant (TxDispatch now i t) = t"
| "tx_tenant (TxCancel now i t) = t"
| "tx_tenant tx = None"

definition scans_outside :: "uuid \<Rightarrow> tables \<Rightarrow> scan_row list" where
  "scans_outside tenant t = filter (\<lambda>r. sc_tenant r \<noteq> tenant) (scans t)"

lemma filter_update_where:
  "(\<And>x. x \<in> set xs \<Longrightarrow> p x \<Longrightarrow> \<not> q x \<and> \<not> q (f x)) \<Longrightarrow> filter q (update_where p f xs) = filter q xs"
  by (induction xs) auto

lemma filter_delete_where:
  "(\<And>x. x \<in> set xs \<Longrightarrow> p x \<Longrightarrow> \<not> q x) \<Longrightarrow> filter q (filter (\<lambda>x. \<not> p x) xs) = filter q xs"
  by (induction xs) auto

text \<open>
  Tenant isolation.  A request with the tenant predicate of a tenant, under any row-level context
  at all, leaves the list of all scans of the other tenants exactly as it was.
\<close>

theorem scan_requests_isolated:
  assumes "run_tx refuse bus tx w = (x, w')" and "work w = committed w"
    and "violation (committed w) = None" and "tx_tenant tx = Some tenant"
  shows "scans_outside tenant (committed w') = scans_outside tenant (committed w)"
proof -
  have same: "s = r" if "s \<in> set (scans (work w))" "r \<in> set (scans (work w))" "sc_id s = sc_id r" for s r
    using distinct_map_inj [OF valid_scan_ids [OF assms(3)]] that assms(2) by simp
  have mine: "sc_tenant s = tenant" if "get_scan i (Some tenant) w = (Inr (Some r), w)"
    "s \<in> set (scans (work w))" "sc_id s = i" for s r i
    using get_scan_Some [OF that(1)] same [OF that(2), of r] that(3) by (simp add: tenant_predicate_def)
  show ?thesis
  proof (cases tx)
    case (TxCreate new_id event_id now data tenant')
    with assms(1) obtain y where "create_scan refuse bus now new_id event_id data tenant' w = (y, w')"
      by (auto dest: ignore_run)
    then show ?thesis
      by (cases rule: create_scan_outcome)
        (use assms(2,4) TxCreate in \<open>auto simp: untouched_def scans_outside_def insert_scan_def\<close>)
  next
    case (TxUpdate event_id now i t data)
    with assms(1,4) obtain y where "update_scan refuse bus now event_id i (Some tenant) data w = (y, w')"
      by (auto dest: ignore_run)
    then show ?thesis
    proof (cases rule: update_scan_outcome)
      case (updated scan scan' ch name type d)
      have "sc_tenant scan' = sc_tenant scan"
        using apply_scan_update_fields(1) [OF updated(6)] by auto
      with updated(1,7) get_scan_Some [OF updated(1)] mine [OF updated(1)] assms(2) show ?thesis
        by (auto simp: scans_outside_def intro!: filter_update_where)
    qed (simp_all add: untouched_def)
  next
    case (TxDelete event_id now i t)
    with assms(1,4) obtain y where "delete_scan refuse bus now event_id i (Some tenant) w = (y, w')"
      by (auto dest: ignore_run)
    then show ?thesis
    proof (cases rule: delete_scan_outcome)
      case (deleted scan y)
      with get_scan_Some [OF deleted(1)] mine [OF deleted(1)] assms(2) show ?thesis
        by (auto simp: scans_outside_def simp del: filter_filter intro!: filter_delete_where)
    qed (simp_all add: untouched_def)
  next
    case (TxDispatch now i t)
    with assms(1,4) obtain y where "dispatch_scan refuse now i (Some tenant) w = (y, w')"
      by (auto dest: ignore_run)
    then show ?thesis
    proof (cases rule: dispatch_scan_outcome)
      case (dispatched scan limit r)
      with mine [OF dispatched(1)] assms(2) show ?thesis
        by (auto simp: scans_outside_def dispatchable_def intro!: filter_update_where)
    qed (simp_all add: untouched_def)
  next
    case (TxCancel now i t)
    with assms(1,4) obtain y where "cancel_scan refuse now i (Some tenant) w = (y, w')"
      by (auto dest: ignore_run)
    then show ?thesis
    proof (cases rule: cancel_scan_outcome)
      case (cancelled scan r)
      with mine [OF cancelled(1)] assms(2) show ?thesis
        by (auto simp: scans_outside_def transition_selects_def
            intro!: filter_update_where)
    qed (simp_all add: untouched_def)
  qed (use assms(4) in simp_all)
qed

lemma scan_requests_isolated_witness:
  "scans_outside 2 (committed (snd (run_tx no_refusal sample_bus (TxDelete 3 4 7 (Some 2))
     (sample_db [sample_scan 7 1 2 ''a''])))) = [sample_scan 7 1 2 ''a'']"
proof -
  let ?m = "run_tx no_refusal sample_bus (TxDelete 3 4 7 (Some 2))"
  let ?w = "sample_db [sample_scan 7 1 2 ''a'']"
  have "?m ?w = (fst (?m ?w), snd (?m ?w))" by simp
  moreover have "work ?w = committed ?w" "violation (committed ?w) = None"
    by (simp_all add: constraint_defs sample_db_def sample_defs)
  ultimately have "scans_outside 2 (committed (snd (?m ?w))) = scans_outside 2 (committed ?w)"
    by (rule scan_requests_isolated) simp
  then show ?thesis by (simp add: scans_outside_def sample_db_def sample_defs)
qed

end
