(* ===== verification/Vulns.thy ===== *)
theory Vulns
  imports Nmap_Report Scan_Service
begin

text \<open>
  The vulnerability service, \<open>app/modules/vulnerabilities/service.py\<close>: the five operations of the API and
  \<open>upsert_findings\<close>, the operation of the scan pipeline.  Scores are tenths in a row and exact decimals in
  a request; \<open>show_float\<close> is \<open>str\<close> of a float and \<open>repr\<close> the text of a composite value of a metadata
  dictionary.  The lemmas show the invariant of the rows and that storing findings is idempotent.
\<close>

definition VALID_SEVERITIES :: "string list" where
  "VALID_SEVERITIES = [''critical'', ''high'', ''medium'', ''low'', ''info'']"

definition VULNERABILITY_EVENTS_STREAM :: string where
  "VULNERABILITY_EVENTS_STREAM = ''vulnerability.events''"

text \<open>\<open>Decimal(...).quantize(Decimal("0.1"), ROUND_HALF_UP)\<close>, also the rounding of the column.\<close>

definition half_up :: "rat \<Rightarrow> int" where
  "half_up x = \<lfloor>10 * x + 1 / 2\<rfloor>"

subsection \<open>The operations of the API\<close>

record vuln_create =
  vc_scan :: uuid
  vc_title :: string
  vc_description :: "string option"
  vc_severity :: string
  vc_cve :: "string option"
  vc_cvss :: "rat option"
  vc_metadata :: "jdict option"

definition vuln_event :: "string \<Rightarrow> uuid \<Rightarrow> time \<Rightarrow> uuid \<Rightarrow> uuid \<Rightarrow> (string \<times> pyval) list \<Rightarrow> event" where
  "vuln_event ty event_id now tenant vuln_id rest = \<lparr>ev_type = ty, ev_fields =
     [(''event_id'', PUuid event_id), (''event_type'', PStr ty), (''tenant_id'', PUuid tenant),
      (''timestamp'', PTime now), (''vulnerability_id'', PUuid vuln_id)] @ rest\<rparr>"

definition opt_text :: "string option \<Rightarrow> pyval" where
  "opt_text s = (case s of None \<Rightarrow> PNone | Some t \<Rightarrow> PStr t)"

definition is_scan_fk_violation :: "exn \<Rightarrow> bool" where
  "is_scan_fk_violation exc = violates_constraint exc ''fk_vulnerabilities_scan_tenant''"

definition insert_vulns :: "vuln_row list \<Rightarrow> tables \<Rightarrow> tables" where
  "insert_vulns rs t = t\<lparr>vulns := vulns t @ rs\<rparr>"

definition create_vulnerability ::
  "(tables \<Rightarrow> exn option) \<Rightarrow> 'r event_bus \<Rightarrow> (rat \<Rightarrow> string) \<Rightarrow> time \<Rightarrow> uuid \<Rightarrow> uuid \<Rightarrow> vuln_create \<Rightarrow> uuid
   \<Rightarrow> ('r, vuln_row) db_prog" where
  "create_vulnerability refuse bus show_float now new_id event_id data tenant_id =
     (let v = \<lparr>v_id = new_id, v_tenant = tenant_id, v_scan = vc_scan data, v_title = vc_title data,
          v_description = vc_description data, v_severity = vc_severity data, v_status = ''open'', v_closed = None,
          v_cve = vc_cve data, v_cvss = map_option half_up (vc_cvss data), v_metadata = vc_metadata data,
          v_created = now\<rparr>
      in thenE (except_integrity (insert_checked (\<lambda>g. rls_row g tenant_id) (insert_vulns [v]))
             (\<lambda>exc. raiseE (if is_scan_fk_violation exc then VulnerabilityScanNotFoundError else exc)))
           (thenE (commit refuse)
             (thenE (on_redis (publish bus (vuln_event ''vulnerability.created'' event_id now tenant_id new_id
                      [(''scan_id'', PUuid (vc_scan data)), (''title'', PStr (vc_title data)),
                       (''severity'', PStr (vc_severity data)), (''status'', PStr ''open''),
                       (''cve_id'', opt_text (vc_cve data)),
                       (''cvss_score'', opt_text (map_option show_float (vc_cvss data))),
                       (''created_at'', PTime now)]) (Some VULNERABILITY_EVENTS_STREAM)))
               (retE v))))"

definition get_vulnerability :: "uuid \<Rightarrow> uuid option \<Rightarrow> ('r, vuln_row option) db_prog" where
  "get_vulnerability vuln_id tenant_id =
     bindE (getE (\<lambda>w. filter (\<lambda>r. v_id r = vuln_id \<and> tenant_predicate tenant_id (v_tenant r)) (seen_vulns w)))
       scalar_one_or_none"

definition list_vulnerabilities ::
  "uuid option \<Rightarrow> nat \<Rightarrow> nat \<Rightarrow> uuid option \<Rightarrow> ('r, vuln_row list \<times> nat) db_prog" where
  "list_vulnerabilities tenant_id limit offset scan_id =
     (let p = (\<lambda>r. tenant_predicate tenant_id (v_tenant r) \<and> (scan_id \<noteq> None \<longrightarrow> v_scan r = the scan_id))
      in bindE (getE (\<lambda>w. count_where p (seen_vulns w))) (\<lambda>total.
         bindE (getE (\<lambda>w. take limit (drop offset
             (rev (sort_key (\<lambda>r. (v_created r, v_id r)) (filter p (seen_vulns w)))))))
           (\<lambda>items. retE (items, total))))"

record vuln_update =
  vu_status :: "string option"
  vu_description :: "string option option"
  vu_cvss :: "rat option option"
  vu_metadata :: "jdict option option"

definition same_metadata :: "jdict option \<Rightarrow> jdict option \<Rightarrow> bool" where
  "same_metadata a b = (case a of None \<Rightarrow> b = None | Some d \<Rightarrow> same_dict d b)"

text \<open>The assignments to the row, the list of changed fields, and whether the row is being closed.\<close>

definition apply_status :: "time \<Rightarrow> string option \<Rightarrow> vuln_row \<Rightarrow> vuln_row \<times> string list \<times> bool" where
  "apply_status now st v = (case st of
       None \<Rightarrow> (v, [], False)
     | Some s \<Rightarrow>
         if s = v_status v then (v, [], False)
         else if s = ''open'' then (v\<lparr>v_closed := None, v_status := s\<rparr>, [''status''], False)
         else if v_status v = ''open'' then (v\<lparr>v_closed := Some now, v_status := s\<rparr>, [''status''], True)
         else (v\<lparr>v_status := s\<rparr>, [''status''], False))"

definition apply_vuln_update :: "time \<Rightarrow> vuln_update \<Rightarrow> vuln_row \<Rightarrow> vuln_row \<times> string list \<times> bool" where
  "apply_vuln_update now data v0 = (case apply_status now (vu_status data) v0 of (v1, c1, closing) \<Rightarrow>
     let (v2, c2) = (case vu_description data of
            Some d \<Rightarrow> if d \<noteq> v_description v1 then (v1\<lparr>v_description := d\<rparr>, c1 @ [''description'']) else (v1, c1)
          | None \<Rightarrow> (v1, c1));
         (v3, c3) = (case vu_cvss data of
            Some score \<Rightarrow> if map_option half_up score \<noteq> v_cvss v2
                           then (v2\<lparr>v_cvss := map_option half_up score\<rparr>, c2 @ [''cvss_score'']) else (v2, c2)
          | None \<Rightarrow> (v2, c2));
         (v4, c4) = (case vu_metadata data of
            Some m \<Rightarrow> if \<not> same_metadata m (v_metadata v3)
                       then (v3\<lparr>v_metadata := m\<rparr>, c3 @ [''vulnerability_metadata'']) else (v3, c3)
          | None \<Rightarrow> (v3, c3))
     in (v4, c4, closing))"

definition update_vulnerability ::
  "(tables \<Rightarrow> exn option) \<Rightarrow> 'r event_bus \<Rightarrow> time \<Rightarrow> uuid \<Rightarrow> uuid \<Rightarrow> uuid option \<Rightarrow> vuln_update
   \<Rightarrow> ('r, vuln_row option) db_prog" where
  "update_vulnerability refuse bus now event_id vuln_id tenant_id data =
     bindE (get_vulnerability vuln_id tenant_id) (\<lambda>found. case found of
       None \<Rightarrow> retE None
     | Some v \<Rightarrow> (case apply_vuln_update now data v of (v', changed, closing) \<Rightarrow>
         thenE (exec (\<lambda>t. t\<lparr>vulns := update_where (\<lambda>r. v_id r = v_id v) (\<lambda>_. v') (vulns t)\<rparr>))
          (thenE flush
            (thenE (whenE closing
                (bindE (bindE (getE (\<lambda>w. filter (\<lambda>r. v_id r = v_id v) (seen_vulns w))) scalar_one) (\<lambda>_. retE ())))
            (thenE (commit refuse)
              (if changed = [] then retE (Some v')
               else thenE (on_redis (publish bus (vuln_event ''vulnerability.updated'' event_id now (v_tenant v')
                        (v_id v') [(''changed_fields'', PList changed)]) (Some VULNERABILITY_EVENTS_STREAM)))
                      (retE (Some v'))))))))"

definition delete_vulnerability ::
  "(tables \<Rightarrow> exn option) \<Rightarrow> 'r event_bus \<Rightarrow> time \<Rightarrow> uuid \<Rightarrow> uuid \<Rightarrow> uuid option \<Rightarrow> ('r, bool) db_prog" where
  "delete_vulnerability refuse bus now event_id vuln_id tenant_id =
     bindE (get_vulnerability vuln_id tenant_id) (\<lambda>found. case found of
       None \<Rightarrow> retE False
     | Some v \<Rightarrow>
         thenE (exec (delete_vulns_where (\<lambda>r. v_id r = v_id v)))
           (thenE (commit refuse)
             (thenE (on_redis (publish bus (vuln_event ''vulnerability.deleted'' event_id now (v_tenant v) (v_id v) [])
                      (Some VULNERABILITY_EVENTS_STREAM)))
               (retE True))))"

subsection \<open>Findings of a scan\<close>

text \<open>\<open>str(value)\<close> of a metadata value.\<close>

definition py_str :: "(json \<Rightarrow> string) \<Rightarrow> json \<Rightarrow> string" where
  "py_str repr j = (case j of JNull \<Rightarrow> ''None'' | JBool b \<Rightarrow> (if b then ''True'' else ''False'')
     | JInt i \<Rightarrow> show_int i | JFloat s \<Rightarrow> s | JStr s \<Rightarrow> s | _ \<Rightarrow> repr j)"

definition meta_field :: "(json \<Rightarrow> string) \<Rightarrow> jdict option \<Rightarrow> string \<Rightarrow> string" where
  "meta_field repr metadata name =
     (case map_of (case metadata of None \<Rightarrow> [] | Some d \<Rightarrow> d) name of
        None \<Rightarrow> '''' | Some JNull \<Rightarrow> '''' | Some j \<Rightarrow> strip (py_str repr j))"

definition finding_identity :: "(json \<Rightarrow> string) \<Rightarrow> jdict option \<Rightarrow> string option \<Rightarrow> string \<Rightarrow> string" where
  "finding_identity repr metadata cve_id title =
     (let parts = [lower (meta_field repr metadata ''script_id''), lower (meta_field repr metadata ''host''),
            meta_field repr metadata ''port'', lower (meta_field repr metadata ''protocol''),
            upper (strip (case cve_id of None \<Rightarrow> '''' | Some c \<Rightarrow> c))]
      in if \<not> list_ex (\<lambda>p. p \<noteq> '''') parts then lower (strip title)
         else parts ! 0 @ ''|'' @ parts ! 1 @ ''|'' @ parts ! 2 @ ''|'' @ parts ! 3 @ ''|'' @ parts ! 4)"

definition row_identity :: "(json \<Rightarrow> string) \<Rightarrow> vuln_row \<Rightarrow> string" where
  "row_identity repr r = finding_identity repr (v_metadata r) (v_cve r) (v_title r)"

definition draft_identity :: "(json \<Rightarrow> string) \<Rightarrow> finding_draft \<Rightarrow> string" where
  "draft_identity repr d = finding_identity repr (Some (fd_metadata d)) (fd_cve d) (fd_title d)"

definition finding_row :: "uuid \<Rightarrow> uuid \<Rightarrow> time \<Rightarrow> uuid \<Rightarrow> finding_draft \<Rightarrow> vuln_row" where
  "finding_row tenant_id scan_id now i d = \<lparr>v_id = i, v_tenant = tenant_id, v_scan = scan_id,
     v_title = fd_title d, v_description = Some (fd_description d), v_severity = fd_severity d,
     v_status = ''open'', v_closed = None, v_cve = fd_cve d, v_cvss = fd_cvss d,
     v_metadata = Some (fd_metadata d), v_created = now\<rparr>"

text \<open>The loop: the rows it adds and the number it skips; \<open>fresh k\<close> is the id of the \<open>k\<close>-th row.\<close>

fun upsert_loop ::
  "(json \<Rightarrow> string) \<Rightarrow> (nat \<Rightarrow> finding_draft \<Rightarrow> vuln_row) \<Rightarrow> string list \<Rightarrow> nat \<Rightarrow> finding_draft list
   \<Rightarrow> vuln_row list \<times> nat" where
  "upsert_loop repr row seen k [] = ([], 0)"
| "upsert_loop repr row seen k (d # ds) =
     (if fd_severity d \<notin> set VALID_SEVERITIES
      then (case upsert_loop repr row seen k ds of (rs, n) \<Rightarrow> (rs, Suc n))
      else if draft_identity repr d \<in> set seen
      then (case upsert_loop repr row seen k ds of (rs, n) \<Rightarrow> (rs, Suc n))
      else (case upsert_loop repr row (draft_identity repr d # seen) (Suc k) ds of (rs, n) \<Rightarrow> (row k d # rs, n)))"

record upsert_result =
  ur_created :: nat
  ur_updated :: nat
  ur_skipped :: nat

definition upsert_findings ::
  "(json \<Rightarrow> string) \<Rightarrow> time \<Rightarrow> (nat \<Rightarrow> uuid) \<Rightarrow> uuid \<Rightarrow> uuid \<Rightarrow> finding_draft list \<Rightarrow> ('r, upsert_result) db_prog" where
  "upsert_findings repr now fresh scan_id tenant_id drafts =
     bindE (getE (\<lambda>w. map (row_identity repr)
        (filter (\<lambda>r. v_scan r = scan_id \<and> v_tenant r = tenant_id) (seen_vulns w)))) (\<lambda>seen.
     (case upsert_loop repr (\<lambda>k. finding_row tenant_id scan_id now (fresh k)) seen 0 drafts of (rows, skipped) \<Rightarrow>
       thenE (if rows = [] then flush else insert_checked (\<lambda>g. rls_row g tenant_id) (insert_vulns rows))
         (retE \<lparr>ur_created = length rows, ur_updated = 0, ur_skipped = skipped\<rparr>)))"

subsection \<open>The loop\<close>

definition row_of_draft :: "(json \<Rightarrow> string) \<Rightarrow> (nat \<Rightarrow> finding_draft \<Rightarrow> vuln_row) \<Rightarrow> bool" where
  "row_of_draft repr row \<longleftrightarrow> (\<forall>k d. row_identity repr (row k d) = draft_identity repr d)"

lemma finding_row_identity: "row_of_draft repr (\<lambda>k. finding_row tenant scan now (fresh k))"
  by (simp add: row_of_draft_def finding_row_def row_identity_def draft_identity_def)

lemma upsert_loop_count: "upsert_loop repr row seen k ds = (rs, n) \<Longrightarrow> length rs + n = length ds"
  by (induction ds arbitrary: seen k rs n) (auto split: if_splits prod.splits)

lemma upsert_loop_rows:
  assumes "row_of_draft repr row"
  shows "upsert_loop repr row seen k ds = (rs, n) \<Longrightarrow>
    distinct (map (row_identity repr) rs) \<and> set (map (row_identity repr) rs) \<inter> set seen = {} \<and>
    (\<forall>r \<in> set rs. \<exists>j. \<exists>d \<in> set ds. r = row j d \<and> fd_severity d \<in> set VALID_SEVERITIES) \<and>
    (\<forall>d \<in> set ds. fd_severity d \<in> set VALID_SEVERITIES \<longrightarrow>
       draft_identity repr d \<in> set seen \<union> set (map (row_identity repr) rs))"
proof (induction ds arbitrary: seen k rs n)
  case (Cons d ds)
  have ident: "row_identity repr (row k d) = draft_identity repr d" using assms by (simp add: row_of_draft_def)
  consider "fd_severity d \<notin> set VALID_SEVERITIES" | "fd_severity d \<in> set VALID_SEVERITIES" "draft_identity repr d \<in> set seen"
    | "fd_severity d \<in> set VALID_SEVERITIES" "draft_identity repr d \<notin> set seen" by blast
  then show ?case
  proof cases
    case 1
    with Cons.prems obtain n' where "upsert_loop repr row seen k ds = (rs, n')" by (auto split: prod.splits)
    from Cons.IH [OF this] 1 show ?thesis by (auto 0 3)
  next
    case 2
    with Cons.prems obtain n' where "upsert_loop repr row seen k ds = (rs, n')" by (auto split: prod.splits)
    from Cons.IH [OF this] 2 show ?thesis by (auto 0 3)
  next
    case 3
    with Cons.prems obtain rs' where "upsert_loop repr row (draft_identity repr d # seen) (Suc k) ds = (rs', n)"
      and rs: "rs = row k d # rs'" by (auto split: prod.splits)
    from Cons.IH [OF this(1)] 3 ident show ?thesis unfolding rs by (auto 0 3)
  qed
qed simp

lemma upsert_loop_none:
  "(\<forall>d \<in> set ds. fd_severity d \<in> set VALID_SEVERITIES \<longrightarrow> draft_identity repr d \<in> set seen) \<Longrightarrow>
     upsert_loop repr row seen k ds = ([], length ds)"
  by (induction ds) auto

lemma violation_vulns_pkey: "violation t = None \<Longrightarrow> distinct (map v_id (vulns t))"
  by (auto simp: violation_None constraints_def vulns_ok_def)

text \<open>A run that returned: what it inserted, and that the rows it saw are there to be seen again.\<close>

lemma upsert_findings_Inr:
  assumes "upsert_findings repr now fresh scan tenant drafts w = (Inr res, w1)"
  obtains rows n where "upsert_loop repr (\<lambda>k. finding_row tenant scan now (fresh k))
      (map (row_identity repr) (filter (\<lambda>r. v_scan r = scan \<and> v_tenant r = tenant) (seen_vulns w))) 0 drafts = (rows, n)"
    and "res = \<lparr>ur_created = length rows, ur_updated = 0, ur_skipped = n\<rparr>"
    and "w1 = w\<lparr>work := insert_vulns rows (work w)\<rparr>" and "violation (work w1) = None"
    and "rows \<noteq> [] \<longrightarrow> rls_row (guc w) tenant"
proof -
  obtain rows n where l: "upsert_loop repr (\<lambda>k. finding_row tenant scan now (fresh k))
      (map (row_identity repr) (filter (\<lambda>r. v_scan r = scan \<and> v_tenant r = tenant) (seen_vulns w))) 0 drafts = (rows, n)"
    by fastforce
  with assms have "res = \<lparr>ur_created = length rows, ur_updated = 0, ur_skipped = n\<rparr> \<and>
      w1 = w\<lparr>work := insert_vulns rows (work w)\<rparr> \<and> violation (work w1) = None \<and>
      (rows \<noteq> [] \<longrightarrow> rls_row (guc w) tenant)"
    by (auto simp: upsert_findings_def thenE_def bindE_success flush_cases insert_checked_Inr insert_vulns_def
        split: if_splits)
  then show thesis by (elim conjE) (rule that [OF l])
qed

subsection \<open>Properties\<close>

text \<open>What a run adds, and what it has stored when it returns.\<close>

lemma upsert_findings_rows:
  assumes "upsert_findings repr now fresh scan tenant drafts w = (Inr res, w1)"
  obtains rows where "w1 = w\<lparr>work := insert_vulns rows (work w)\<rparr>" and "violation (work w1) = None"
    and "ur_created res = length rows" and "ur_created res + ur_skipped res = length drafts" and "ur_updated res = 0"
    and "\<forall>r \<in> set rows. v_scan r = scan \<and> v_tenant r = tenant \<and> v_status r = ''open'' \<and> v_closed r = None \<and>
          v_severity r \<in> set VALID_SEVERITIES"
    and "distinct (map (row_identity repr) rows)"
    and "\<forall>r \<in> set rows. \<forall>q \<in> set (seen_vulns w). v_scan q = scan \<and> v_tenant q = tenant \<longrightarrow>
          row_identity repr q \<noteq> row_identity repr r"
    and "\<forall>d \<in> set drafts. fd_severity d \<in> set VALID_SEVERITIES \<longrightarrow> draft_identity repr d \<in>
          set (map (row_identity repr) (filter (\<lambda>r. v_scan r = scan \<and> v_tenant r = tenant) (seen_vulns w1)))"
proof -
  let ?mine = "filter (\<lambda>r. v_scan r = scan \<and> v_tenant r = tenant)"
  from assms obtain rows n where loop: "upsert_loop repr (\<lambda>k. finding_row tenant scan now (fresh k))
      (map (row_identity repr) (?mine (seen_vulns w))) 0 drafts = (rows, n)"
    and res: "res = \<lparr>ur_created = length rows, ur_updated = 0, ur_skipped = n\<rparr>"
    and w1: "w1 = w\<lparr>work := insert_vulns rows (work w)\<rparr>" and ok: "violation (work w1) = None"
    and rls: "rows \<noteq> [] \<longrightarrow> rls_row (guc w) tenant" by (rule upsert_findings_Inr)
  note rows = upsert_loop_rows [OF finding_row_identity loop]
  have row: "v_scan r = scan \<and> v_tenant r = tenant \<and> v_status r = ''open'' \<and> v_closed r = None \<and>
      v_severity r \<in> set VALID_SEVERITIES" if "r \<in> set rows" for r
    using rows that by (fastforce simp: finding_row_def)
  have "seen_vulns w1 = seen_vulns w @ rows"
    using row rls by (auto simp: seen_vulns_def w1 insert_vulns_def filter_id_conv)
  then have mine: "?mine (seen_vulns w1) = ?mine (seen_vulns w) @ rows"
    using row by (simp add: filter_id_conv)
  show thesis
    by (rule that [OF w1 ok]) (use row upsert_loop_count [OF loop] rows in \<open>auto simp: res mine\<close>)
qed

text \<open>
  C25: Storing the findings of a scan is idempotent.  When it returns, every draft was either inserted or
  skipped; the rows it added are open findings of the scan in the tenant, with a valid severity and with
  identities that are distinct and were not stored for the scan before; every draft with a valid severity
  has its identity stored; and running it again on the same drafts, at any later time, inserts nothing,
  skips them all and changes nothing.
\<close>

theorem upsert_findings_idempotent:
  assumes "upsert_findings repr now fresh scan tenant drafts w = (Inr res, w1)"
  shows "ur_created res + ur_skipped res = length drafts \<and> ur_updated res = 0 \<and>
    (\<exists>rows. work w1 = insert_vulns rows (work w) \<and> length rows = ur_created res \<and>
       committed w1 = committed w \<and> redis w1 = redis w \<and>
       (\<forall>r \<in> set rows. v_scan r = scan \<and> v_tenant r = tenant \<and> v_status r = ''open'' \<and> v_closed r = None \<and>
          v_severity r \<in> set VALID_SEVERITIES) \<and>
       distinct (map (row_identity repr) rows) \<and>
       (\<forall>r \<in> set rows. \<forall>q \<in> set (seen_vulns w). v_scan q = scan \<and> v_tenant q = tenant \<longrightarrow>
          row_identity repr q \<noteq> row_identity repr r)) \<and>
    (\<forall>d \<in> set drafts. fd_severity d \<in> set VALID_SEVERITIES \<longrightarrow>
       (\<exists>r \<in> set (seen_vulns w1). v_scan r = scan \<and> v_tenant r = tenant \<and>
          row_identity repr r = draft_identity repr d)) \<and>
    upsert_findings repr now' fresh' scan tenant drafts w1 =
      (Inr \<lparr>ur_created = 0, ur_updated = 0, ur_skipped = length drafts\<rparr>, w1)"
proof -
  let ?mine = "filter (\<lambda>r. v_scan r = scan \<and> v_tenant r = tenant)"
  from assms obtain rows where w1: "w1 = w\<lparr>work := insert_vulns rows (work w)\<rparr>" "violation (work w1) = None"
    and count: "ur_created res = length rows" "ur_created res + ur_skipped res = length drafts" "ur_updated res = 0"
    and row: "\<forall>r \<in> set rows. v_scan r = scan \<and> v_tenant r = tenant \<and> v_status r = ''open'' \<and> v_closed r = None \<and>
        v_severity r \<in> set VALID_SEVERITIES"
    and new: "distinct (map (row_identity repr) rows)"
      "\<forall>r \<in> set rows. \<forall>q \<in> set (seen_vulns w). v_scan q = scan \<and> v_tenant q = tenant \<longrightarrow>
        row_identity repr q \<noteq> row_identity repr r"
    and stored: "\<forall>d \<in> set drafts. fd_severity d \<in> set VALID_SEVERITIES \<longrightarrow>
        draft_identity repr d \<in> set (map (row_identity repr) (?mine (seen_vulns w1)))"
    by (rule upsert_findings_rows)
  have "upsert_findings repr now' fresh' scan tenant drafts w1 =
      (Inr \<lparr>ur_created = 0, ur_updated = 0, ur_skipped = length drafts\<rparr>, w1)"
    using upsert_loop_none [OF stored] w1(2) by (simp add: upsert_findings_def thenE_def bindE_def flush_ok)
  moreover have "\<exists>r \<in> set (seen_vulns w1). v_scan r = scan \<and> v_tenant r = tenant \<and> row_identity repr r = draft_identity repr d"
    if "d \<in> set drafts" "fd_severity d \<in> set VALID_SEVERITIES" for d
    using stored that by fastforce
  ultimately show ?thesis
    using count row new w1(1) by (intro conjI exI [of _ rows]) auto
qed

definition sample_draft :: "string \<Rightarrow> finding_draft" where
  "sample_draft host = \<lparr>fd_title = ''t'', fd_description = ''d'', fd_severity = ''high'', fd_cve = None,
     fd_cvss = Some 75, fd_metadata = [(''script_id'', JStr ''x''), (''host'', JStr host)]\<rparr>"

lemma upsert_findings_idempotent_witness:
  "\<exists>w1. upsert_findings (\<lambda>_. '''') 0 (\<lambda>k. 70 + k) 7 1 [sample_draft ''a'', sample_draft ''a '', sample_draft ''b'']
      (sample_state [sample_scan 7 1 2 ''n'']) =
      (Inr \<lparr>ur_created = 2, ur_updated = 0, ur_skipped = 1\<rparr>, w1) \<and>
    upsert_findings (\<lambda>_. '''') 9 (\<lambda>k. 90 + k) 7 1 [sample_draft ''a'', sample_draft ''a '', sample_draft ''b''] w1 =
      (Inr \<lparr>ur_created = 0, ur_updated = 0, ur_skipped = 3\<rparr>, w1)"
proof -
  let ?ds = "[sample_draft ''a'', sample_draft ''a '', sample_draft ''b'']"
  let ?w = "sample_state [sample_scan 7 1 2 ''n'']"
  let ?m = "upsert_findings (\<lambda>_. '''') 0 (\<lambda>k. 70 + k) 7 1 ?ds"
  have ids: "draft_identity (\<lambda>_. '''') (sample_draft ''a'') = ''x|a|||''"
    "draft_identity (\<lambda>_. '''') (sample_draft ''a '') = ''x|a|||''"
    "draft_identity (\<lambda>_. '''') (sample_draft ''b'') = ''x|b|||''" by code_simp+
  have sev: "fd_severity (sample_draft h) = ''high''" for h by (simp add: sample_draft_def)
  have "fst (?m ?w) = Inr \<lparr>ur_created = 2, ur_updated = 0, ur_skipped = 1\<rparr>"
    by (simp add: upsert_findings_def ids sev VALID_SEVERITIES_def seen_vulns_def finding_row_def
        insert_checked_def insert_vulns_def flush_def rls_row_def constraint_defs sample_state_def
        sample_defs eval_simps cong: eval_congs)
  from run_of [OF this] have "?m ?w = (Inr \<lparr>ur_created = 2, ur_updated = 0, ur_skipped = 1\<rparr>, snd (?m ?w))" .
  from upsert_findings_idempotent [OF this, of 9 "\<lambda>k. 90 + k"] this show ?thesis
    by (intro exI [of _ "snd (?m ?w)"]) simp
qed

subsection \<open>The life cycle of a vulnerability\<close>

text \<open>A closing time exactly on the closed rows.\<close>

definition vuln_wf :: "vuln_row \<Rightarrow> bool" where
  "vuln_wf v \<longleftrightarrow> v_severity v \<in> set VALID_SEVERITIES \<and>
     v_status v \<in> {''open'', ''fixed'', ''accepted_risk'', ''false_positive''} \<and>
     (v_closed v = None \<longleftrightarrow> v_status v = ''open'')"

definition closed_iff :: "vuln_row \<Rightarrow> bool" where
  "closed_iff v \<longleftrightarrow> (v_closed v = None \<longleftrightarrow> v_status v = ''open'')"

lemma violation_vuln_values:
  "violation t = None \<Longrightarrow> v \<in> set (vulns t) \<Longrightarrow> v_severity v \<in> set VALID_SEVERITIES \<and>
     v_status v \<in> {''open'', ''fixed'', ''accepted_risk'', ''false_positive''}"
  by (auto simp: violation_None constraints_def vulns_ok_def VALID_SEVERITIES_def)

lemma wf_from_closed:
  "violation t = None \<Longrightarrow> list_all closed_iff (vulns t) \<Longrightarrow> list_all vuln_wf (vulns t)"
  using violation_vuln_values by (auto simp: list_all_iff vuln_wf_def closed_iff_def)

lemma apply_status_closed: "closed_iff v \<Longrightarrow> apply_status now st v = (v', c, b) \<Longrightarrow> closed_iff v'"
  by (auto simp: apply_status_def closed_iff_def split: option.splits if_splits)

lemma apply_status_identity:
  "apply_status now st v = (v', c, b) \<Longrightarrow> \<exists>cl s. v' = v\<lparr>v_closed := cl, v_status := s\<rparr>"
  by (cases v) (auto simp: apply_status_def split: option.splits if_splits)

lemma apply_vuln_update_closed:
  assumes "closed_iff v" and "apply_vuln_update now data v = (v', c, b)"
  shows "closed_iff v'"
proof -
  obtain v1 c1 b1 where 1: "apply_status now (vu_status data) v = (v1, c1, b1)" by (cases "apply_status now (vu_status data) v")
  have "\<exists>d s m. v' = v1\<lparr>v_description := d, v_cvss := s, v_metadata := m\<rparr>"
    using assms(2) 1 by (cases v1) (auto simp: apply_vuln_update_def Let_def split: option.splits if_splits prod.splits)
  with apply_status_closed [OF assms(1) 1] show ?thesis by (auto simp: closed_iff_def)
qed

lemma apply_vuln_update_key:
  assumes "apply_vuln_update now data v = (v', c, b)"
  shows "v_id v' = v_id v" "v_tenant v' = v_tenant v"
proof -
  obtain v1 c1 b1 where 1: "apply_status now (vu_status data) v = (v1, c1, b1)" by (cases "apply_status now (vu_status data) v")
  have "\<exists>d s m. v' = v1\<lparr>v_description := d, v_cvss := s, v_metadata := m\<rparr>"
    using assms 1 by (cases v1) (auto simp: apply_vuln_update_def Let_def split: option.splits if_splits prod.splits)
  with apply_status_identity [OF 1] show "v_id v' = v_id v" "v_tenant v' = v_tenant v" by auto
qed

lemma get_vulnerability_state: "get_vulnerability i t w = (x, w') \<Longrightarrow> w' = w"
  by (auto simp: get_vulnerability_def dest: scalar_state)

lemma get_vulnerability_Some:
  "get_vulnerability i t w = (Inr (Some r), w') \<Longrightarrow> r \<in> set (seen_vulns w) \<and> v_id r = i \<and> tenant_predicate t (v_tenant r)"
proof -
  assume "get_vulnerability i t w = (Inr (Some r), w')"
  then have "filter (\<lambda>r. v_id r = i \<and> tenant_predicate t (v_tenant r)) (seen_vulns w) = [r]"
    by (auto simp: get_vulnerability_def scalar_one_or_none_run)
  then have "r \<in> set (filter (\<lambda>r. v_id r = i \<and> tenant_predicate t (v_tenant r)) (seen_vulns w))" by simp
  then show ?thesis by simp
qed

lemma create_vulnerability_commits:
  assumes "create_vulnerability refuse bus sf now new_id event_id data tenant w = (res, w')"
  shows "\<exists>v. closed_iff v \<and> v_tenant v = tenant \<and> commits (insert_vulns [v]) w w' \<and> (\<forall>x. res = Inr x \<longrightarrow> x = v)"
proof -
  define v where "v = \<lparr>v_id = new_id, v_tenant = tenant, v_scan = vc_scan data, v_title = vc_title data,
      v_description = vc_description data, v_severity = vc_severity data, v_status = ''open'', v_closed = None,
      v_cve = vc_cve data, v_cvss = map_option half_up (vc_cvss data), v_metadata = vc_metadata data,
      v_created = now\<rparr>"
  have "closed_iff v" "v_tenant v = tenant" by (simp_all add: closed_iff_def v_def)
  moreover have "commits (insert_vulns [v]) w w' \<and> (\<forall>x. res = Inr x \<longrightarrow> x = v)"
    using assms unfolding create_vulnerability_def Let_def v_def [symmetric]
    by (cases rule: insert_commit_publish) (auto simp: commits_def untouched_def split: sum.splits)
  ultimately show ?thesis by blast
qed

lemma update_vulnerability_commits:
  assumes "update_vulnerability refuse bus now event_id i t data w = (res, w')"
  shows "(committed w' = committed w \<and> (\<forall>x. res = Inr x \<longrightarrow> x = None)) \<or> (\<exists>v v' c b. v \<in> set (seen_vulns w) \<and> v_id v = i \<and>
    tenant_predicate t (v_tenant v) \<and> apply_vuln_update now data v = (v', c, b) \<and>
    commits (\<lambda>t. t\<lparr>vulns := update_where (\<lambda>r. v_id r = i) (\<lambda>_. v') (vulns t)\<rparr>) w w' \<and> (\<forall>x. res = Inr x \<longrightarrow> x = Some v'))"
  using assms unfolding update_vulnerability_def
proof (cases rule: found_cases [consumes 1, case_names state refused missing found])
  case (state x u)
  then show ?case by (rule get_vulnerability_state)
next
  case (found v)
  note v = get_vulnerability_Some [OF found(1)]
  obtain v' c b where ap: "apply_vuln_update now data v = (v', c, b)" by (cases "apply_vuln_update now data v")
  let ?f = "\<lambda>t. t\<lparr>vulns := update_where (\<lambda>r. v_id r = i) (\<lambda>_. v') (vulns t)\<rparr>"
  let ?pub = "publish bus (vuln_event ''vulnerability.updated'' event_id now (v_tenant v')
      (v_id v') [(''changed_fields'', PList c)]) (Some VULNERABILITY_EVENTS_STREAM)"
  define refresh :: "('a, unit) db_prog" where "refresh = whenE b (bindE (bindE (getE (\<lambda>w. filter (\<lambda>r. v_id r = i) (seen_vulns w))) scalar_one) (\<lambda>_. retE ()))"
  have refresh: "refresh u = (x, u') \<Longrightarrow> u' = u" for x u u'
    by (cases b) (auto simp: refresh_def bindE_def dest: scalar_state split: prod.splits sum.splits)
  have com: "commits ?f w w' \<and> (\<forall>x. res = Inr x \<longrightarrow> x = Some v')"
    if "thenE (exec ?f) (thenE flush (thenE refresh (thenE (commit refuse)
      (if c = [] then retE (Some v') else thenE (on_redis ?pub) (retE (Some v')))))) w = (res, w')"
    using that
  proof (cases rule: update_flush)
    case (refused e)
    then show ?thesis by (simp add: commits_def untouched_def)
  next
    case flushed
    let ?w = "w\<lparr>work := ?f (work w)\<rparr>"
    obtain x u where x: "refresh ?w = (x, u)" by fastforce
    with refresh have [simp]: "u = ?w" by blast
    show ?thesis
    proof (cases x)
      case (Inl e)
      with flushed(2) x show ?thesis by (auto simp: thenE_def bindE_def commits_def)
    next
      case (Inr y)
      with flushed(2) x have run: "thenE (commit refuse)
          (if c = [] then retE (Some v') else thenE (on_redis ?pub) (retE (Some v'))) ?w = (res, w')"
        by (simp add: thenE_def bindE_def)
      show ?thesis
      proof (cases "c = []")
        case True
        with run have "thenE (commit refuse) (retE (Some v')) ?w = (res, w')" by simp
        then show ?thesis
          by (cases rule: commit_only) (auto simp: commits_def untouched_def)
      next
        case False
        with run have "thenE (commit refuse) (thenE (on_redis ?pub) (retE (Some v'))) ?w = (res, w')" by simp
        then show ?thesis
          by (cases rule: commit_publish) (auto simp: commits_def untouched_def split: sum.splits)
      qed
    qed
  qed
  from found(2) ap v have "thenE (exec ?f) (thenE flush (thenE refresh (thenE (commit refuse)
      (if c = [] then retE (Some v') else thenE (on_redis ?pub) (retE (Some v')))))) w = (res, w')"
    by (simp add: refresh_def)
  from com [OF this] v ap show ?thesis by blast
qed auto

lemma delete_vulns_where_vulns [simp]: "vulns (delete_vulns_where p t) = filter (\<lambda>v. \<not> p v) (vulns t)"
  by (simp add: delete_vulns_where_def)

lemma delete_vulnerability_commits:
  assumes "delete_vulnerability refuse bus now event_id i t w = (res, w')"
  shows "committed w' = committed w \<or> (\<exists>v \<in> set (seen_vulns w). v_id v = i \<and> tenant_predicate t (v_tenant v) \<and>
    commits (delete_vulns_where (\<lambda>v. v_id v = i)) w w')"
  using assms unfolding delete_vulnerability_def
proof (cases rule: found_cases [consumes 1, case_names state refused missing found])
  case (state x u)
  then show ?case by (rule get_vulnerability_state)
next
  case (found v)
  note v = get_vulnerability_Some [OF found(1)]
  let ?w = "w\<lparr>work := delete_vulns_where (\<lambda>r. v_id r = v_id v) (work w)\<rparr>"
  let ?pub = "publish bus (vuln_event ''vulnerability.deleted'' event_id now (v_tenant v) (v_id v) [])
    (Some VULNERABILITY_EVENTS_STREAM)"
  from found(2) have "thenE (commit refuse) (thenE (on_redis ?pub) (retE True)) ?w = (res, w')"
    by (simp add: thenE_def bindE_def)
  then have "commits (delete_vulns_where (\<lambda>v. v_id v = i)) w w'"
    by (cases rule: commit_publish) (use v in \<open>auto simp: commits_def untouched_def\<close>)
  with v show ?thesis by blast
qed auto

datatype vuln_request =
    PostVuln vuln_create uuid
  | PatchVuln uuid "uuid option" vuln_update
  | RemoveVuln uuid "uuid option"
  | StoreFindings uuid uuid "finding_draft list"

text \<open>One transaction of the service; the scan pipeline commits after it stored the findings.\<close>

fun serve_vuln ::
  "(tables \<Rightarrow> exn option) \<Rightarrow> 'r event_bus \<Rightarrow> (json \<Rightarrow> string) \<Rightarrow> (rat \<Rightarrow> string) \<Rightarrow> time \<Rightarrow> (nat \<Rightarrow> uuid) \<Rightarrow>
   uuid \<Rightarrow> vuln_request \<Rightarrow> ('r, unit) db_prog" where
  "serve_vuln refuse bus repr sf now fresh ev (PostVuln data tenant) =
     thenE (create_vulnerability refuse bus sf now (fresh 0) ev data tenant) (retE ())"
| "serve_vuln refuse bus repr sf now fresh ev (PatchVuln i t data) =
     thenE (update_vulnerability refuse bus now ev i t data) (retE ())"
| "serve_vuln refuse bus repr sf now fresh ev (RemoveVuln i t) =
     thenE (delete_vulnerability refuse bus now ev i t) (retE ())"
| "serve_vuln refuse bus repr sf now fresh ev (StoreFindings scan tenant drafts) =
     thenE (upsert_findings repr now fresh scan tenant drafts) (commit refuse)"

lemma then_ret: "thenE m (retE ()) w = (res, w') \<Longrightarrow> \<exists>x. m w = (x, w')"
  by (auto simp: thenE_def bindE_def split: prod.splits sum.splits)

lemma then_run: "m w = (Inr x, w') \<Longrightarrow> thenE m k w = k w'"
  by (simp add: thenE_def bindE_def)

lemma store_findings_commits:
  assumes "thenE (upsert_findings repr now fresh scan tenant drafts) (commit refuse) w = (res, w')"
  shows "\<exists>rows. list_all closed_iff rows \<and> commits (insert_vulns rows) w w'"
proof -
  obtain x w1 where x: "upsert_findings repr now fresh scan tenant drafts w = (x, w1)" by fastforce
  show ?thesis
  proof (cases x)
    case (Inl e)
    have "committed w1 = committed w"
      using x Inl by (auto simp: upsert_findings_def thenE_def bindE_failure flush_cases
          split: prod.splits if_splits dest: insert_checked_Inl simp: untouched_def)
    with assms x Inl show ?thesis
      by (intro exI [of _ "[]"]) (auto simp: thenE_def bindE_def commits_def)
  next
    case (Inr r)
    from x [unfolded Inr] obtain rows n
      where rows: "upsert_loop repr (\<lambda>k. finding_row tenant scan now (fresh k))
        (map (row_identity repr) (filter (\<lambda>r. v_scan r = scan \<and> v_tenant r = tenant) (seen_vulns w))) 0 drafts = (rows, n)"
      and "r = \<lparr>ur_created = length rows, ur_updated = 0, ur_skipped = n\<rparr>"
      and w1: "w1 = w\<lparr>work := insert_vulns rows (work w)\<rparr>" and "violation (work w1) = None"
      and "rows \<noteq> [] \<longrightarrow> rls_row (guc w) tenant" by (rule upsert_findings_Inr)
    have "list_all closed_iff rows"
      using upsert_loop_rows [OF finding_row_identity rows]
      by (auto simp: list_all_iff closed_iff_def finding_row_def)
    moreover have "commit refuse w1 = (res, w')" using assms x Inr by (simp add: thenE_def bindE_def)
    then have "commits (insert_vulns rows) w w'"
      by (cases res) (auto simp: commits_def commit_Inr w1 dest: commit_Inl)
    ultimately show ?thesis by blast
  qed
qed

lemma commits_wf:
  assumes "commits f w w'" and "list_all closed_iff (vulns (f (work w)))"
  shows "committed w' = committed w \<or> list_all vuln_wf (vulns (committed w'))"
  using assms wf_from_closed [of "committed w'"] unfolding commits_def by auto


definition sample_vuln_db :: "vuln_row list \<Rightarrow> mem_redis world" where
  "sample_vuln_db vs = (let t = (work (sample_db [sample_scan 7 1 2 ''n'']))\<lparr>vulns := vs\<rparr>
     in (sample_db [])\<lparr>committed := t, work := t\<rparr>)"


end
