(* ===== verification/Reports.thy ===== *)
theory Reports
  imports Vulns
begin

text \<open>
  Reports: \<open>app/modules/reports/service.py\<close> with the request schemas of \<open>schemas.py\<close>.  The generation of a
  report is not part of the program: its status and its generation time only change by an explicit patch.
  The lemmas give the outcome of each operation.
\<close>

definition REPORT_EVENTS_STREAM :: string where
  "REPORT_EVENTS_STREAM = ''report.events''"

definition REPORT_TYPES :: "string list" where
  "REPORT_TYPES = [''vulnerability'', ''executive'', ''technical'', ''compliance'']"

definition REPORT_STATUSES :: "string list" where
  "REPORT_STATUSES = [''pending'', ''generating'', ''completed'', ''failed'']"

subsection \<open>Requests\<close>

text \<open>\<open>StringConstraints(strip_whitespace=True, min_length=1, max_length=255)\<close>.\<close>

definition short_text :: "string \<Rightarrow> string option" where
  "short_text s = (let n = strip s in if 1 \<le> length n \<and> length n \<le> 255 then Some n else None)"

record report_create =
  rc_tenant :: uuid
  rc_asset :: uuid
  rc_name :: string
  rc_type :: string
  rc_summary :: "string option"
  rc_metadata :: "jdict option"

definition check_report_create :: "report_create \<Rightarrow> report_create option" where
  "check_report_create d =
     (case short_text (rc_name d) of
        None \<Rightarrow> None
      | Some n \<Rightarrow> if rc_type d \<in> set REPORT_TYPES then Some (d\<lparr>rc_name := n\<rparr>) else None)"

text \<open>The fields a patch set, an explicit null included.\<close>

record report_update =
  ru_name :: "string option option"
  ru_status :: "string option option"
  ru_summary :: "string option option"
  ru_metadata :: "jdict option option"
  ru_generated :: "time option option"

definition check_report_update :: "report_update \<Rightarrow> report_update option" where
  "check_report_update d =
     (let d' = (case ru_name d of
          None \<Rightarrow> Some d
        | Some None \<Rightarrow> None
        | Some (Some n) \<Rightarrow> map_option (\<lambda>m. d\<lparr>ru_name := Some (Some m)\<rparr>) (short_text n))
      in case ru_status d of
          None \<Rightarrow> d'
        | Some None \<Rightarrow> None
        | Some (Some s) \<Rightarrow> if s \<in> set REPORT_STATUSES then d' else None)"

subsection \<open>The service\<close>

definition is_report_asset_fk :: "exn \<Rightarrow> bool" where
  "is_report_asset_fk exc = violates_constraint exc ''fk_reports_asset_tenant''"

definition report_event :: "string \<Rightarrow> uuid \<Rightarrow> time \<Rightarrow> uuid \<Rightarrow> uuid \<Rightarrow> (string \<times> pyval) list \<Rightarrow> event" where
  "report_event ty event_id now tenant report_id rest = \<lparr>ev_type = ty, ev_fields =
     [(''event_id'', PUuid event_id), (''event_type'', PStr ty), (''tenant_id'', PUuid tenant),
      (''timestamp'', PTime now), (''report_id'', PUuid report_id)] @ rest\<rparr>"

definition insert_report :: "report_row \<Rightarrow> tables \<Rightarrow> tables" where
  "insert_report r t = t\<lparr>reports := reports t @ [r]\<rparr>"

definition new_report :: "time \<Rightarrow> uuid \<Rightarrow> report_create \<Rightarrow> uuid \<Rightarrow> report_row" where
  "new_report now new_id data tenant_id = \<lparr>rp_id = new_id, rp_tenant = tenant_id, rp_asset = rc_asset data,
     rp_name = rc_name data, rp_type = rc_type data, rp_status = ''pending'', rp_summary = rc_summary data,
     rp_metadata = rc_metadata data, rp_generated = None, rp_created = now\<rparr>"

definition create_report ::
  "(tables \<Rightarrow> exn option) \<Rightarrow> 'r event_bus \<Rightarrow> time \<Rightarrow> uuid \<Rightarrow> uuid \<Rightarrow> report_create \<Rightarrow> uuid
   \<Rightarrow> ('r, report_row) db_prog" where
  "create_report refuse bus now new_id event_id data tenant_id =
     (let report = new_report now new_id data tenant_id
      in thenE (except_integrity (insert_checked (\<lambda>g. rls_row g tenant_id) (insert_report report))
             (\<lambda>exc. raiseE (if is_report_asset_fk exc then ReportAssetNotFoundError else exc)))
           (thenE (commit refuse)
             (thenE (on_redis (publish bus (report_event ''report.created'' event_id now tenant_id (rp_id report)
                      [(''asset_id'', PUuid (rp_asset report)), (''name'', PStr (rp_name report)),
                       (''report_type'', PStr (rp_type report)), (''status'', PStr (rp_status report)),
                       (''created_at'', PTime (rp_created report))]) (Some REPORT_EVENTS_STREAM)))
               (retE report))))"

definition get_report :: "uuid \<Rightarrow> uuid option \<Rightarrow> ('r, report_row option) db_prog" where
  "get_report report_id tenant_id =
     bindE (getE (\<lambda>w. filter (\<lambda>r. rp_id r = report_id \<and> tenant_predicate tenant_id (rp_tenant r)) (seen_reports w)))
       scalar_one_or_none"

text \<open>A filter that was given restricts both queries.\<close>

definition optional_filter :: "'a option \<Rightarrow> 'a \<Rightarrow> bool" where
  "optional_filter f x \<longleftrightarrow> (case f of None \<Rightarrow> True | Some v \<Rightarrow> x = v)"

definition list_reports ::
  "uuid option \<Rightarrow> nat \<Rightarrow> nat \<Rightarrow> uuid option \<Rightarrow> string option \<Rightarrow> string option \<Rightarrow> ('r, report_row list \<times> nat) db_prog" where
  "list_reports tenant_id limit offset asset_id report_type status =
     (let p = (\<lambda>r. tenant_predicate tenant_id (rp_tenant r) \<and> optional_filter asset_id (rp_asset r) \<and>
             optional_filter report_type (rp_type r) \<and> optional_filter status (rp_status r))
      in bindE (getE (\<lambda>w. count_where p (seen_reports w))) (\<lambda>total.
         bindE (getE (\<lambda>w. take limit (drop offset
             (rev (sort_key (\<lambda>r. (rp_created r, rp_id r)) (filter p (seen_reports w)))))))
           (\<lambda>items. retE (items, total))))"

text \<open>One turn of the loop over the public fields: a value that is set and differs is assigned and recorded.\<close>

fun set_changed :: "string \<Rightarrow> 'a option \<Rightarrow> ('a \<Rightarrow> bool) \<Rightarrow> ('a \<Rightarrow> 'row \<Rightarrow> 'row) \<Rightarrow> 'row \<times> string list \<Rightarrow> 'row \<times> string list" where
  "set_changed field value differs assign (r, changed) = (case value of
       None \<Rightarrow> (r, changed)
     | Some v \<Rightarrow> if differs v then (assign v r, changed @ [field]) else (r, changed))"

definition apply_report_update :: "report_update \<Rightarrow> report_row \<Rightarrow> report_row \<times> string list" where
  "apply_report_update data r =
     set_changed ''generated_at'' (ru_generated data) (\<lambda>g. g \<noteq> rp_generated r) (\<lambda>g x. x\<lparr>rp_generated := g\<rparr>)
     (set_changed ''report_metadata'' (ru_metadata data) (\<lambda>m. \<not> same_metadata m (rp_metadata r)) (\<lambda>m x. x\<lparr>rp_metadata := m\<rparr>)
     (set_changed ''summary'' (ru_summary data) (\<lambda>s. s \<noteq> rp_summary r) (\<lambda>s x. x\<lparr>rp_summary := s\<rparr>)
     (set_changed ''status'' (Option.bind (ru_status data) id) (\<lambda>s. s \<noteq> rp_status r) (\<lambda>s x. x\<lparr>rp_status := s\<rparr>)
     (set_changed ''name'' (Option.bind (ru_name data) id) (\<lambda>n. n \<noteq> rp_name r) (\<lambda>n x. x\<lparr>rp_name := n\<rparr>) (r, [])))))"

definition update_report ::
  "(tables \<Rightarrow> exn option) \<Rightarrow> 'r event_bus \<Rightarrow> time \<Rightarrow> uuid \<Rightarrow> uuid \<Rightarrow> uuid option \<Rightarrow> report_update
   \<Rightarrow> ('r, report_row option) db_prog" where
  "update_report refuse bus now event_id report_id tenant_id data =
     bindE (get_report report_id tenant_id) (\<lambda>found. case found of
       None \<Rightarrow> retE None
     | Some r \<Rightarrow> (case apply_report_update data r of (r', changed) \<Rightarrow>
         thenE (exec (\<lambda>t. t\<lparr>reports := update_where (\<lambda>x. rp_id x = rp_id r) (\<lambda>_. r') (reports t)\<rparr>))
          (thenE flush
            (thenE (commit refuse)
              (if changed = [] then retE (Some r')
               else thenE (on_redis (publish bus (report_event ''report.updated'' event_id now (rp_tenant r')
                        (rp_id r') [(''changed_fields'', PList changed)]) (Some REPORT_EVENTS_STREAM)))
                      (retE (Some r')))))))"

definition delete_report ::
  "(tables \<Rightarrow> exn option) \<Rightarrow> 'r event_bus \<Rightarrow> time \<Rightarrow> uuid \<Rightarrow> uuid \<Rightarrow> uuid option \<Rightarrow> ('r, bool) db_prog" where
  "delete_report refuse bus now event_id report_id tenant_id =
     bindE (get_report report_id tenant_id) (\<lambda>found. case found of
       None \<Rightarrow> retE False
     | Some r \<Rightarrow>
         thenE (exec (\<lambda>t. t\<lparr>reports := filter (\<lambda>x. rp_id x \<noteq> rp_id r) (reports t)\<rparr>))
           (thenE (commit refuse)
             (thenE (on_redis (publish bus (report_event ''report.deleted'' event_id now (rp_tenant r) (rp_id r) [])
                      (Some REPORT_EVENTS_STREAM)))
               (retE True))))"

subsection \<open>Outcomes\<close>

lemma get_report_state: "get_report i t w = (x, w') \<Longrightarrow> w' = w"
  by (auto simp: get_report_def dest: scalar_state)

lemma get_report_Some:
  "get_report i t w = (Inr (Some r), w') \<Longrightarrow> r \<in> set (seen_reports w) \<and> rp_id r = i \<and> tenant_predicate t (rp_tenant r)"
proof -
  assume "get_report i t w = (Inr (Some r), w')"
  then have "filter (\<lambda>r. rp_id r = i \<and> tenant_predicate t (rp_tenant r)) (seen_reports w) = [r]"
    by (auto simp: get_report_def scalar_one_or_none_run)
  then have "r \<in> set (filter (\<lambda>r. rp_id r = i \<and> tenant_predicate t (rp_tenant r)) (seen_reports w))" by simp
  then show ?thesis by simp
qed

lemma create_report_commits:
  assumes "create_report refuse bus now new_id event_id data tenant w = (res, w')"
  shows "commits (insert_report (new_report now new_id data tenant)) w w'"
    and "res = Inr r \<Longrightarrow> r = new_report now new_id data tenant"
  using assms unfolding create_report_def Let_def
  by (cases rule: insert_commit_publish; auto simp: commits_def untouched_def insert_report_def split: sum.splits)+

declare set_changed.simps [simp del]

text \<open>What an update cannot change.\<close>

definition report_key :: "report_row \<Rightarrow> uuid \<times> uuid \<times> uuid \<times> string \<times> time" where
  "report_key r = (rp_id r, rp_tenant r, rp_asset r, rp_type r, rp_created r)"

lemma set_changed_key:
  "(\<And>v x. report_key (assign v x) = report_key x) \<Longrightarrow> report_key (fst (set_changed f v d assign rc)) = report_key (fst rc)"
  by (cases rc) (auto simp: set_changed.simps split: option.split)

lemma report_key_assign [simp]:
  "report_key (r\<lparr>rp_name := n\<rparr>) = report_key r" "report_key (r\<lparr>rp_status := n\<rparr>) = report_key r"
  "report_key (r\<lparr>rp_summary := s\<rparr>) = report_key r" "report_key (r\<lparr>rp_metadata := m\<rparr>) = report_key r"
  "report_key (r\<lparr>rp_generated := g\<rparr>) = report_key r"
  by (simp_all add: report_key_def)

lemma apply_report_update_key:
  assumes "apply_report_update data r = (r', c)"
  shows "report_key r' = report_key r"
proof -
  have "report_key (fst (apply_report_update data r)) = report_key r"
    by (simp add: apply_report_update_def set_changed_key)
  with assms show ?thesis by simp
qed

lemma update_report_commits:
  assumes "update_report refuse bus now event_id i t data w = (res, w')"
  shows "(committed w' = committed w \<and> (\<forall>x. res = Inr x \<longrightarrow> x = None)) \<or>
    (\<exists>r r' c. r \<in> set (seen_reports w) \<and> rp_id r = i \<and>
    tenant_predicate t (rp_tenant r) \<and> apply_report_update data r = (r', c) \<and>
    commits (\<lambda>t. t\<lparr>reports := update_where (\<lambda>x. rp_id x = i) (\<lambda>_. r') (reports t)\<rparr>) w w' \<and> (\<forall>x. res = Inr x \<longrightarrow> x = Some r'))"
  using assms unfolding update_report_def
proof (cases rule: found_cases [consumes 1, case_names state refused missing found])
  case (state x u)
  then show ?case by (rule get_report_state)
next
  case (found r)
  note r = get_report_Some [OF found(1)]
  obtain r' c where ap: "apply_report_update data r = (r', c)" by fastforce
  let ?f = "\<lambda>t. t\<lparr>reports := update_where (\<lambda>x. rp_id x = i) (\<lambda>_. r') (reports t)\<rparr>"
  let ?pub = "publish bus (report_event ''report.updated'' event_id now (rp_tenant r') (rp_id r')
      [(''changed_fields'', PList c)]) (Some REPORT_EVENTS_STREAM)"
  from found(2) ap r have "thenE (exec ?f) (thenE flush (thenE (commit refuse)
      (if c = [] then retE (Some r') else thenE (on_redis ?pub) (retE (Some r'))))) w = (res, w')"
    by simp
  then have "commits (\<lambda>t. t\<lparr>reports := update_where (\<lambda>x. rp_id x = i) (\<lambda>_. r') (reports t)\<rparr>) w w' \<and> (\<forall>x. res = Inr x \<longrightarrow> x = Some r')"
  proof (cases rule: update_flush)
    case (refused e)
    then show ?thesis by (simp add: commits_def untouched_def)
  next
    case flushed
    then show ?thesis
    proof (cases "c = []")
      case True
      with flushed(2) have "thenE (commit refuse) (retE (Some r')) (w\<lparr>work := ?f (work w)\<rparr>) = (res, w')" by simp
      then show ?thesis by (cases rule: commit_only) (auto simp: commits_def untouched_def)
    next
      case False
      with flushed(2) have "thenE (commit refuse) (thenE (on_redis ?pub) (retE (Some r'))) (w\<lparr>work := ?f (work w)\<rparr>) = (res, w')"
        by simp
      then show ?thesis by (cases rule: commit_publish) (auto simp: commits_def untouched_def split: sum.splits)
    qed
  qed
  with r ap show ?thesis by blast
qed auto

lemma delete_report_commits:
  assumes "delete_report refuse bus now event_id i t w = (res, w')"
  shows "committed w' = committed w \<or> (\<exists>r \<in> set (seen_reports w). rp_id r = i \<and> tenant_predicate t (rp_tenant r) \<and>
    commits (\<lambda>t. t\<lparr>reports := filter (\<lambda>r. rp_id r \<noteq> i) (reports t)\<rparr>) w w')"
  using assms unfolding delete_report_def
proof (cases rule: found_cases [consumes 1, case_names state refused missing found])
  case (state x u)
  then show ?case by (rule get_report_state)
next
  case (found r)
  note r = get_report_Some [OF found(1)]
  let ?w = "w\<lparr>work := (work w)\<lparr>reports := filter (\<lambda>x. rp_id x \<noteq> i) (reports (work w))\<rparr>\<rparr>"
  let ?pub = "publish bus (report_event ''report.deleted'' event_id now (rp_tenant r) (rp_id r) []) (Some REPORT_EVENTS_STREAM)"
  from found(2) r have "thenE (commit refuse) (thenE (on_redis ?pub) (retE True)) ?w = (res, w')"
    by (simp add: thenE_def bindE_def)
  then have "commits (\<lambda>t. t\<lparr>reports := filter (\<lambda>r. rp_id r \<noteq> i) (reports t)\<rparr>) w w'"
    by (cases rule: commit_publish) (auto simp: commits_def untouched_def)
  with r show ?thesis by blast
qed auto

end
