(* ===== verification/Routes.thy ===== *)
theory Routes
  imports Scan_Lifecycle Reports Users
begin

text \<open>
  The endpoints of assets, scans, vulnerabilities and reports: \<open>router.py\<close> of the four modules, with the
  request and response schemas of their \<open>schemas.py\<close>, and the exception handlers of \<open>app/main.py\<close>.  An
  endpoint runs for the user \<open>current_user\<close> that \<open>get_current_user\<close> admitted, in the session of
  the request; the JSON types of a body are read strictly.
\<close>

subsection \<open>Responses\<close>

record asset_response =
  ar_id :: uuid
  ar_type :: string
  ar_value :: string
  ar_tenant :: uuid
  ar_created :: time

definition asset_from_orm :: "asset_row \<Rightarrow> asset_response" where
  "asset_from_orm asset = \<lparr>ar_id = a_id asset, ar_type = a_type asset, ar_value = a_value asset,
     ar_tenant = a_tenant asset, ar_created = a_created asset\<rparr>"

record scan_response =
  sr_id :: uuid
  sr_tenant :: uuid
  sr_asset :: uuid
  sr_name :: string
  sr_type :: string
  sr_status :: scan_status
  sr_config :: "jdict option"
  sr_started :: "time option"
  sr_completed :: "time option"
  sr_created :: time

definition scan_from_orm :: "scan_row \<Rightarrow> scan_response" where
  "scan_from_orm scan = \<lparr>sr_id = sc_id scan, sr_tenant = sc_tenant scan, sr_asset = sc_asset scan,
     sr_name = sc_name scan, sr_type = sc_type scan, sr_status = sc_status scan, sr_config = sc_config scan,
     sr_started = sc_started scan, sr_completed = sc_completed scan, sr_created = sc_created scan\<rparr>"

text \<open>\<open>float(cvss_score)\<close> of a column that is kept in tenths.\<close>

record vuln_response =
  vr_id :: uuid
  vr_tenant :: uuid
  vr_scan :: uuid
  vr_title :: string
  vr_description :: "string option"
  vr_severity :: string
  vr_status :: string
  vr_cve :: "string option"
  vr_cvss :: "rat option"
  vr_metadata :: "jdict option"
  vr_created :: time
  vr_closed :: "time option"

definition vuln_from_orm :: "vuln_row \<Rightarrow> vuln_response" where
  "vuln_from_orm v = \<lparr>vr_id = v_id v, vr_tenant = v_tenant v, vr_scan = v_scan v, vr_title = v_title v,
     vr_description = v_description v, vr_severity = v_severity v, vr_status = v_status v, vr_cve = v_cve v,
     vr_cvss = map_option (\<lambda>n. of_int n / 10) (v_cvss v), vr_metadata = v_metadata v,
     vr_created = v_created v, vr_closed = v_closed v\<rparr>"

record report_response =
  pr_id :: uuid
  pr_tenant :: uuid
  pr_asset :: uuid
  pr_name :: string
  pr_type :: string
  pr_status :: string
  pr_summary :: "string option"
  pr_metadata :: "jdict option"
  pr_generated :: "time option"
  pr_created :: time

definition report_from_orm :: "report_row \<Rightarrow> report_response" where
  "report_from_orm r = \<lparr>pr_id = rp_id r, pr_tenant = rp_tenant r, pr_asset = rp_asset r, pr_name = rp_name r,
     pr_type = rp_type r, pr_status = rp_status r, pr_summary = rp_summary r, pr_metadata = rp_metadata r,
     pr_generated = rp_generated r, pr_created = rp_created r\<rparr>"

text \<open>The envelope of a page, and what an endpoint answers.\<close>

record 'a page =
  pg_items :: "'a list"
  pg_total :: nat
  pg_limit :: nat
  pg_offset :: nat

definition page_of :: "('b \<Rightarrow> 'a) \<Rightarrow> nat \<Rightarrow> nat \<Rightarrow> 'b list \<times> nat \<Rightarrow> 'a page" where
  "page_of response limit offset r = (case r of (items, n) \<Rightarrow>
     \<lparr>pg_items = map response items, pg_total = n, pg_limit = limit, pg_offset = offset\<rparr>)"

datatype answer =
    AssetBody asset_response | AssetPage "asset_response page" | AssetCsv "string list"
  | ScanBody scan_response | ScanPage "scan_response page"
  | VulnBody vuln_response | VulnPage "vuln_response page"
  | ReportBody report_response | ReportPage "report_response page"
  | NoContent

subsection \<open>The schemas of the requests\<close>

definition ASSET_TYPES :: "string list" where
  "ASSET_TYPES = [''ip'', ''domain'', ''hostname'', ''web_app'', ''subnet'', ''cloud_resource'']"

definition check_asset_create :: "string \<Rightarrow> string \<Rightarrow> string option" where
  "check_asset_create ty val = (if ty \<in> set ASSET_TYPES then short_text val else None)"

definition check_asset_update :: "asset_update \<Rightarrow> asset_update option" where
  "check_asset_update d =
     (if (case au_type d of Some (Some t) \<Rightarrow> t \<notin> set ASSET_TYPES | _ \<Rightarrow> False) then None
      else case au_value d of
          Some (Some v) \<Rightarrow> map_option (\<lambda>s. d\<lparr>au_value := Some (Some s)\<rparr>) (short_text v)
        | _ \<Rightarrow> Some d)"

text \<open>The strict configuration models of the four scan types; \<open>checks\<close> are stripped.\<close>

definition CONFIG_FIELDS :: "(string \<times> string list) list" where
  "CONFIG_FIELDS =
    [(''discovery'', [''host_discovery'']), (''vulnerability'', [''checks'']), (''web'', [''paths'']),
     (''full'', [''host_discovery'', ''checks'', ''paths''])]"

fun text_item :: "(string \<Rightarrow> string) \<Rightarrow> json \<Rightarrow> json option" where
  "text_item f (JStr s) = Some (JStr (f s))"
| "text_item f _ = None"

fun text_list :: "(string \<Rightarrow> string) \<Rightarrow> json \<Rightarrow> json option" where
  "text_list f (JArr xs) = (if xs = [] then None else map_option JArr (those (map (text_item f) xs)))"
| "text_list f _ = None"

definition config_field :: "string \<Rightarrow> json \<Rightarrow> json option" where
  "config_field k j =
     (if k = ''host_discovery'' then (case j of JBool b \<Rightarrow> Some (JBool b) | _ \<Rightarrow> None)
      else if k = ''checks'' then text_list strip j
      else text_list id j)"

definition check_config :: "string \<Rightarrow> jdict \<Rightarrow> jdict option" where
  "check_config ty d =
     (case map_of CONFIG_FIELDS ty of
        None \<Rightarrow> None
      | Some keys \<Rightarrow>
          if \<not> set (map fst d) \<subseteq> set keys then None
          else those (map (\<lambda>k. Option.bind (map_of d k) (\<lambda>j. map_option (Pair k) (config_field k j))) keys))"

definition check_scan_create :: "scan_create \<Rightarrow> scan_create option" where
  "check_scan_create d =
     Option.bind (short_text (scr_name d)) (\<lambda>n.
     map_option (\<lambda>c. d\<lparr>scr_name := n, scr_config := c\<rparr>) (check_config (scr_type d) (scr_config d)))"

definition check_scan_update :: "scan_update \<Rightarrow> scan_update option" where
  "check_scan_update d =
     (if (case su_type d of None \<Rightarrow> False | Some JNull \<Rightarrow> False
           | Some (JStr t) \<Rightarrow> t \<notin> fst ` set CONFIG_FIELDS | _ \<Rightarrow> True) \<or>
         (case su_config d of None \<Rightarrow> False | Some JNull \<Rightarrow> False | Some (JObj _) \<Rightarrow> False | _ \<Rightarrow> True) then None
      else case su_name d of
          None \<Rightarrow> Some d
        | Some JNull \<Rightarrow> Some d
        | Some (JStr n) \<Rightarrow> map_option (\<lambda>m. d\<lparr>su_name := Some (JStr m)\<rparr>) (short_text n)
        | _ \<Rightarrow> None)"

definition score_in_range :: "rat option \<Rightarrow> bool" where
  "score_in_range s = (case s of None \<Rightarrow> True | Some x \<Rightarrow> 0 \<le> x \<and> x \<le> 10)"

definition check_vuln_create :: "vuln_create \<Rightarrow> vuln_create option" where
  "check_vuln_create d =
     (case short_text (vc_title d) of
        None \<Rightarrow> None
      | Some title \<Rightarrow>
          let cve = map_option strip (vc_cve d) in
          if vc_severity d \<notin> set VALID_SEVERITIES \<or> \<not> score_in_range (vc_cvss d) \<or>
             (case cve of None \<Rightarrow> False | Some c \<Rightarrow> 50 < length c) then None
          else Some (d\<lparr>vc_title := title, vc_cve := cve\<rparr>))"

definition VULN_STATUSES :: "string list" where
  "VULN_STATUSES = [''open'', ''fixed'', ''accepted_risk'', ''false_positive'']"

definition check_vuln_update :: "vuln_update \<Rightarrow> vuln_update option" where
  "check_vuln_update d =
     (if (case vu_status d of None \<Rightarrow> False | Some s \<Rightarrow> s \<notin> set VULN_STATUSES) \<or>
         (case vu_cvss d of None \<Rightarrow> False | Some s \<Rightarrow> \<not> score_in_range s) then None
      else Some d)"

text \<open>\<open>Query(0, ge=0)\<close> and \<open>Query(50, ge=1, le=200)\<close>.\<close>

definition page_limits_ok :: "nat \<Rightarrow> bool" where
  "page_limits_ok limit \<longleftrightarrow> 1 \<le> limit \<and> limit \<le> 200"

definition parsed :: "'a option \<Rightarrow> ('a \<Rightarrow> ('r, 'b) db_prog) \<Rightarrow> ('r, 'b) db_prog" where
  "parsed x k = (case x of None \<Rightarrow> raiseE unprocessable | Some v \<Rightarrow> k v)"

subsection \<open>Helpers of the routers\<close>

definition WRITERS :: "string list" where
  "WRITERS = [''admin'', ''superadmin'']"

definition READERS :: "string list" where
  "READERS = [''admin'', ''analyst'', ''viewer'', ''superadmin'']"

definition allow :: "string list \<Rightarrow> user_row \<Rightarrow> ('r, 'a) db_prog \<Rightarrow> ('r, 'a) db_prog" where
  "allow roles current_user m = thenE (ofE (require_any_role roles current_user)) m"

definition effective_tenant_id :: "uuid \<Rightarrow> user_row \<Rightarrow> exn + uuid" where
  "effective_tenant_id payload_tenant_id current_user =
     (if \<not> u_super current_user \<and> Some payload_tenant_id \<noteq> u_tenant current_user
      then Inl (HTTPException 422 ''tenant_id mismatch'') else Inr payload_tenant_id)"

definition caller_tenant_id :: "user_row \<Rightarrow> uuid option" where
  "caller_tenant_id current_user = (if u_super current_user then None else u_tenant current_user)"

definition or_404 :: "string \<Rightarrow> 'a option \<Rightarrow> ('r, 'a) db_prog" where
  "or_404 detail x = (case x of None \<Rightarrow> raiseE (HTTPException 404 detail) | Some v \<Rightarrow> retE v)"

definition resolve_scan_asset :: "string \<Rightarrow> uuid \<Rightarrow> uuid option \<Rightarrow> ('r, unit) db_prog" where
  "resolve_scan_asset detail asset_id target_tenant_id =
     bindE (bindE (getE (\<lambda>w. filter (\<lambda>a. a_id a = asset_id \<and> tenant_predicate target_tenant_id (a_tenant a))
              (seen_assets w))) scalar_one_or_none)
       (\<lambda>asset. thenE (or_404 detail asset) (retE ()))"

definition resolve_vulnerability_scan :: "uuid \<Rightarrow> uuid option \<Rightarrow> ('r, unit) db_prog" where
  "resolve_vulnerability_scan scan_id target_tenant_id =
     bindE (bindE (getE (\<lambda>w. filter (\<lambda>s. sc_id s = scan_id \<and> tenant_predicate target_tenant_id (sc_tenant s))
              (seen_scans w))) scalar_one_or_none)
       (\<lambda>scan. thenE (or_404 ''vulnerability scan not found'' scan) (retE ()))"

text \<open>\<open>except E as exc: raise HTTPException(code, str(exc))\<close>: the code and the text of what is caught.\<close>

definition http_errors :: "(exn \<Rightarrow> (nat \<times> string) option) \<Rightarrow> ('r, 'a) db_prog \<Rightarrow> ('r, 'a) db_prog" where
  "http_errors caught m = catchE m (\<lambda>e. case caught e of
      None \<Rightarrow> raiseE e | Some (code, detail) \<Rightarrow> raiseE (HTTPException code detail))"

text \<open>What the endpoints are given beside the request: draws of the server and settings.\<close>

record 'r api_env =
  ae_refuse :: "tables \<Rightarrow> exn option"
  ae_bus :: "'r event_bus"
  ae_lib :: asset_lib
  ae_float :: "rat \<Rightarrow> string"
  ae_now :: time
  ae_id :: uuid
  ae_event :: uuid
  ae_enabled :: bool
  ae_bell :: "uuid \<Rightarrow> uuid \<Rightarrow> exn option"
  ae_time :: "time \<Rightarrow> string"
  ae_uuid :: "uuid \<Rightarrow> string"
  ae_updated :: "asset_row \<Rightarrow> time"

subsection \<open>Assets\<close>

definition scope_query :: "user_row \<Rightarrow> asset_row \<Rightarrow> bool" where
  "scope_query current_user a \<longleftrightarrow>
     (if \<not> u_super current_user then u_tenant current_user \<noteq> None \<and> u_tenant current_user = Some (a_tenant a) else True)"

definition asset_errors :: "string \<Rightarrow> exn \<Rightarrow> (nat \<times> string) option" where
  "asset_errors duplicate e = (case e of
      AssetDuplicateError \<Rightarrow> Some (409, duplicate) | ValueError s \<Rightarrow> Some (422, s) | _ \<Rightarrow> None)"

definition duplicate_text :: "asset_lib \<Rightarrow> string \<Rightarrow> string \<Rightarrow> string" where
  "duplicate_text lib ty val = (case validate_asset_value lib ty val of
      Inl e \<Rightarrow> ''''
    | Inr canonical \<Rightarrow> ''asset with type='' @ py_repr ty @ '', value='' @ py_repr canonical @
        '' already exists for this tenant'')"

definition create_asset_route :: "'r api_env \<Rightarrow> user_row \<Rightarrow> uuid \<Rightarrow> string \<Rightarrow> string \<Rightarrow> ('r, answer) db_prog" where
  "create_asset_route env current_user tenant_id ty raw = allow WRITERS current_user
     (parsed (check_asset_create ty raw) (\<lambda>val.
      bindE (if u_super current_user
             then bindE (bindE (getE (\<lambda>w. filter (\<lambda>t. t_id t = tenant_id) (seen_tenants w))) scalar_one_or_none) (\<lambda>tenant.
               case tenant of None \<Rightarrow> raiseE (HTTPException 422 ''tenant not found'') | Some t \<Rightarrow> retE tenant_id)
             else if Some tenant_id \<noteq> u_tenant current_user then raiseE (HTTPException 422 ''tenant_id mismatch'')
             else retE tenant_id) (\<lambda>effective_tenant_id.
      bindE (http_errors (asset_errors (duplicate_text (ae_lib env) ty val))
               (create_asset (ae_refuse env) (ae_bus env) (ae_lib env) (ae_now env) (ae_id env) (ae_event env) ty val
                  effective_tenant_id))
        (\<lambda>asset. retE (AssetBody (asset_from_orm asset))))))"

definition list_assets_route :: "user_row \<Rightarrow> nat \<Rightarrow> nat \<Rightarrow> ('r, answer) db_prog" where
  "list_assets_route current_user offset limit = allow READERS current_user
     (if \<not> page_limits_ok limit then raiseE unprocessable
      else bindE (list_assets (caller_tenant_id current_user) limit offset)
        (\<lambda>r. retE (AssetPage (page_of asset_from_orm limit offset r))))"

definition get_asset_route :: "user_row \<Rightarrow> uuid \<Rightarrow> ('r, answer) db_prog" where
  "get_asset_route current_user asset_id = allow READERS current_user
     (bindE (bindE (getE (\<lambda>w. filter (\<lambda>a. a_id a = asset_id \<and> scope_query current_user a) (seen_assets w)))
        scalar_one_or_none) (\<lambda>asset.
      bindE (or_404 ''asset not found'' asset) (\<lambda>a. retE (AssetBody (asset_from_orm a)))))"

definition update_asset_route :: "'r api_env \<Rightarrow> user_row \<Rightarrow> uuid \<Rightarrow> asset_update \<Rightarrow> ('r, answer) db_prog" where
  "update_asset_route env current_user asset_id payload = allow WRITERS current_user
     (parsed (check_asset_update payload) (\<lambda>data.
      bindE (http_errors (asset_errors ''update would produce a duplicate (tenant_id, type, value)'')
               (update_asset (ae_refuse env) (ae_bus env) (ae_lib env) (ae_now env) (ae_event env) asset_id
                  (caller_tenant_id current_user) data)) (\<lambda>asset.
      bindE (or_404 ''asset not found'' asset) (\<lambda>a. retE (AssetBody (asset_from_orm a))))))"

definition delete_asset_route :: "'r api_env \<Rightarrow> user_row \<Rightarrow> uuid \<Rightarrow> ('r, answer) db_prog" where
  "delete_asset_route env current_user asset_id = allow WRITERS current_user
     (bindE (delete_asset (ae_refuse env) (ae_bus env) (ae_now env) (ae_event env) asset_id (caller_tenant_id current_user))
       (\<lambda>deleted. if \<not> deleted then raiseE (HTTPException 404 ''asset not found'') else retE NoContent))"

text \<open>
  The export.  The writer of \<open>csv\<close> quotes a field that holds a comma, a quote or a line break, doubles its
  quotes, and ends a row with a carriage return and a line feed.  The rows come from a session
  of the generator's own, on the committed tables.
\<close>

definition CSV_COLUMNS :: "string list" where
  "CSV_COLUMNS = [''id'', ''type'', ''value'', ''tenant_id'', ''created_at'', ''updated_at'']"

definition row_to_csv :: "'r api_env \<Rightarrow> asset_row \<Rightarrow> string list" where
  "row_to_csv env a = [ae_uuid env (a_id a), a_type a, a_value a, ae_uuid env (a_tenant a),
     ae_time env (a_created a), ae_time env (ae_updated env a)]"

definition csv_special :: "char \<Rightarrow> bool" where
  "csv_special c \<longleftrightarrow> c \<in> {CHR '','', CHR 0x22, CHR 0x0D, CHR 0x0A}"

definition csv_field :: "string \<Rightarrow> string" where
  "csv_field s = (if list_ex csv_special s
     then CHR 0x22 # concat (map (\<lambda>c. if c = CHR 0x22 then [CHR 0x22, CHR 0x22] else [c]) s) @ [CHR 0x22] else s)"

fun csv_row :: "string list \<Rightarrow> string" where
  "csv_row [] = [CHR 0x0D, CHR 0x0A]"
| "csv_row [f] = csv_field f @ [CHR 0x0D, CHR 0x0A]"
| "csv_row (f # fs) = csv_field f @ CHR '','' # csv_row fs"

definition stream_csv :: "'r api_env \<Rightarrow> user_row \<Rightarrow> ('r, string list) db_prog" where
  "stream_csv env current_user w =
     (case thenE (set_tenant_context (u_tenant current_user) (u_super current_user))
        (getE (\<lambda>v. csv_row CSV_COLUMNS # map (csv_row \<circ> row_to_csv env)
           (rev (sort_key (\<lambda>a. (a_created a, a_id a)) (filter (scope_query current_user) (seen_assets v))))))
        (end_tx (committed w) w) of
      (x, v) \<Rightarrow> (x, w))"

definition export_assets_route :: "'r api_env \<Rightarrow> user_row \<Rightarrow> ('r, answer) db_prog" where
  "export_assets_route env current_user = allow READERS current_user
     (bindE (stream_csv env current_user) (\<lambda>chunks. retE (AssetCsv chunks)))"

subsection \<open>Scans\<close>

definition scan_create_errors :: "scan_create \<Rightarrow> exn \<Rightarrow> (nat \<times> string) option" where
  "scan_create_errors data e = (case e of
      ScanDuplicateError \<Rightarrow> Some (409, ''a pending scan named '' @ py_repr (scr_name data) @ '' already exists for this asset'')
    | ScanAssetNotFoundError \<Rightarrow> Some (404, ''scan asset not found'')
    | ScanConfigError s \<Rightarrow> Some (422, s)
    | _ \<Rightarrow> None)"

definition create_scan_route :: "'r api_env \<Rightarrow> user_row \<Rightarrow> uuid \<Rightarrow> scan_create \<Rightarrow> ('r, answer) db_prog" where
  "create_scan_route env current_user tenant_id payload = allow WRITERS current_user
     (parsed (check_scan_create payload) (\<lambda>data.
      bindE (ofE (effective_tenant_id tenant_id current_user)) (\<lambda>tenant.
      thenE (resolve_scan_asset ''scan asset not found'' (scr_asset data) (Some tenant))
      (bindE (http_errors (scan_create_errors data)
                (create_scan (ae_refuse env) (ae_bus env) (ae_now env) (ae_id env) (ae_event env) data tenant))
        (\<lambda>scan. retE (ScanBody (scan_from_orm scan)))))))"

definition list_scans_route :: "user_row \<Rightarrow> nat \<Rightarrow> nat \<Rightarrow> uuid option \<Rightarrow> ('r, answer) db_prog" where
  "list_scans_route current_user offset limit asset_id = allow READERS current_user
     (if \<not> page_limits_ok limit then raiseE unprocessable
      else thenE (case asset_id of None \<Rightarrow> retE ()
                  | Some i \<Rightarrow> resolve_scan_asset ''scan asset not found'' i (caller_tenant_id current_user))
        (bindE (list_scans (caller_tenant_id current_user) limit offset asset_id)
          (\<lambda>r. retE (ScanPage (page_of scan_from_orm limit offset r)))))"

definition get_scan_route :: "user_row \<Rightarrow> uuid \<Rightarrow> ('r, answer) db_prog" where
  "get_scan_route current_user scan_id = allow READERS current_user
     (bindE (get_scan scan_id (caller_tenant_id current_user)) (\<lambda>scan.
      bindE (or_404 ''scan not found'' scan) (\<lambda>s. retE (ScanBody (scan_from_orm s)))))"

definition scan_update_errors :: "exn \<Rightarrow> (nat \<times> string) option" where
  "scan_update_errors e = (case e of
      ScanDuplicateError \<Rightarrow> Some (409, ''update would produce a second pending scan with the same name for this asset'')
    | ScanConfigError s \<Rightarrow> Some (422, s)
    | _ \<Rightarrow> None)"

definition update_scan_route :: "'r api_env \<Rightarrow> user_row \<Rightarrow> uuid \<Rightarrow> scan_update \<Rightarrow> ('r, answer) db_prog" where
  "update_scan_route env current_user scan_id payload = allow WRITERS current_user
     (parsed (check_scan_update payload) (\<lambda>data.
      bindE (http_errors scan_update_errors
               (update_scan (ae_refuse env) (ae_bus env) (ae_now env) (ae_event env) scan_id
                  (caller_tenant_id current_user) data)) (\<lambda>scan.
      bindE (or_404 ''scan not found'' scan) (\<lambda>s. retE (ScanBody (scan_from_orm s))))))"

definition delete_scan_route :: "'r api_env \<Rightarrow> user_row \<Rightarrow> uuid \<Rightarrow> ('r, answer) db_prog" where
  "delete_scan_route env current_user scan_id = allow WRITERS current_user
     (bindE (delete_scan (ae_refuse env) (ae_bus env) (ae_now env) (ae_event env) scan_id (caller_tenant_id current_user))
       (\<lambda>deleted. if \<not> deleted then raiseE (HTTPException 404 ''scan not found'') else retE NoContent))"

text \<open>The kill switch is a dependency of the route, so it is read before the user.\<close>

definition require_execution_enabled :: "bool \<Rightarrow> exn + unit" where
  "require_execution_enabled enabled =
     (if \<not> enabled then Inl (HTTPException 403 ''scan execution is disabled'') else Inr ())"

definition dispatch_errors :: "exn \<Rightarrow> (nat \<times> string) option" where
  "dispatch_errors e = (case e of
      ScanNotDispatchableError \<Rightarrow> Some (409, ''scan is not dispatchable'')
    | ScanQuotaExceededError \<Rightarrow> Some (429, ''daily scan quota exceeded'')
    | _ \<Rightarrow> None)"

definition run_scan_route :: "'r api_env \<Rightarrow> user_row \<Rightarrow> uuid \<Rightarrow> ('r, answer) db_prog" where
  "run_scan_route env current_user scan_id = thenE (ofE (require_execution_enabled (ae_enabled env)))
     (allow WRITERS current_user
       (bindE (http_errors dispatch_errors
                 (dispatch_scan (ae_refuse env) (ae_now env) scan_id (caller_tenant_id current_user))) (\<lambda>found.
        bindE (or_404 ''scan not found'' found) (\<lambda>scan.
        thenE (case ae_bell env (sc_id scan) (sc_tenant scan) of
                 None \<Rightarrow> retE () | Some e \<Rightarrow> if is_app_exception e then retE () else raiseE e)
          (retE (ScanBody (scan_from_orm scan)))))))"

definition cancel_errors :: "exn \<Rightarrow> (nat \<times> string) option" where
  "cancel_errors e = (case e of ScanNotCancellableError \<Rightarrow> Some (409, ''scan is not cancellable'') | _ \<Rightarrow> None)"

definition cancel_scan_route :: "'r api_env \<Rightarrow> user_row \<Rightarrow> uuid \<Rightarrow> ('r, answer) db_prog" where
  "cancel_scan_route env current_user scan_id = allow WRITERS current_user
     (bindE (http_errors cancel_errors
               (cancel_scan (ae_refuse env) (ae_now env) scan_id (caller_tenant_id current_user))) (\<lambda>found.
      bindE (or_404 ''scan not found'' found) (\<lambda>s. retE (ScanBody (scan_from_orm s)))))"

subsection \<open>Vulnerabilities\<close>

definition vuln_create_errors :: "exn \<Rightarrow> (nat \<times> string) option" where
  "vuln_create_errors e = (case e of
      VulnerabilityScanNotFoundError \<Rightarrow> Some (404, ''vulnerability scan not found'') | _ \<Rightarrow> None)"

definition create_vulnerability_route :: "'r api_env \<Rightarrow> user_row \<Rightarrow> uuid \<Rightarrow> vuln_create \<Rightarrow> ('r, answer) db_prog" where
  "create_vulnerability_route env current_user tenant_id payload = allow WRITERS current_user
     (parsed (check_vuln_create payload) (\<lambda>data.
      bindE (ofE (effective_tenant_id tenant_id current_user)) (\<lambda>tenant.
      thenE (resolve_vulnerability_scan (vc_scan data) (Some tenant))
      (bindE (http_errors vuln_create_errors
                (create_vulnerability (ae_refuse env) (ae_bus env) (ae_float env) (ae_now env) (ae_id env)
                   (ae_event env) data tenant))
        (\<lambda>v. retE (VulnBody (vuln_from_orm v)))))))"

definition list_vulnerabilities_route :: "user_row \<Rightarrow> nat \<Rightarrow> nat \<Rightarrow> uuid option \<Rightarrow> ('r, answer) db_prog" where
  "list_vulnerabilities_route current_user offset limit scan_id = allow READERS current_user
     (if \<not> page_limits_ok limit then raiseE unprocessable
      else thenE (case scan_id of None \<Rightarrow> retE ()
                  | Some i \<Rightarrow> resolve_vulnerability_scan i (caller_tenant_id current_user))
        (bindE (list_vulnerabilities (caller_tenant_id current_user) limit offset scan_id)
          (\<lambda>r. retE (VulnPage (page_of vuln_from_orm limit offset r)))))"

definition get_vulnerability_route :: "user_row \<Rightarrow> uuid \<Rightarrow> ('r, answer) db_prog" where
  "get_vulnerability_route current_user vulnerability_id = allow READERS current_user
     (bindE (get_vulnerability vulnerability_id (caller_tenant_id current_user)) (\<lambda>found.
      bindE (or_404 ''vulnerability not found'' found) (\<lambda>v. retE (VulnBody (vuln_from_orm v)))))"

definition update_vulnerability_route :: "'r api_env \<Rightarrow> user_row \<Rightarrow> uuid \<Rightarrow> vuln_update \<Rightarrow> ('r, answer) db_prog" where
  "update_vulnerability_route env current_user vulnerability_id payload = allow WRITERS current_user
     (parsed (check_vuln_update payload) (\<lambda>data.
      bindE (update_vulnerability (ae_refuse env) (ae_bus env) (ae_now env) (ae_event env) vulnerability_id
               (caller_tenant_id current_user) data) (\<lambda>found.
      bindE (or_404 ''vulnerability not found'' found) (\<lambda>v. retE (VulnBody (vuln_from_orm v))))))"

definition delete_vulnerability_route :: "'r api_env \<Rightarrow> user_row \<Rightarrow> uuid \<Rightarrow> ('r, answer) db_prog" where
  "delete_vulnerability_route env current_user vulnerability_id = allow WRITERS current_user
     (bindE (delete_vulnerability (ae_refuse env) (ae_bus env) (ae_now env) (ae_event env) vulnerability_id
               (caller_tenant_id current_user))
       (\<lambda>deleted. if \<not> deleted then raiseE (HTTPException 404 ''vulnerability not found'') else retE NoContent))"

subsection \<open>Reports\<close>

definition report_create_errors :: "exn \<Rightarrow> (nat \<times> string) option" where
  "report_create_errors e = (case e of
      ReportAssetNotFoundError \<Rightarrow> Some (404, ''report asset not found'') | _ \<Rightarrow> None)"

definition create_report_route :: "'r api_env \<Rightarrow> user_row \<Rightarrow> report_create \<Rightarrow> ('r, answer) db_prog" where
  "create_report_route env current_user payload = allow WRITERS current_user
     (parsed (check_report_create payload) (\<lambda>data.
      bindE (ofE (effective_tenant_id (rc_tenant data) current_user)) (\<lambda>tenant.
      thenE (resolve_scan_asset ''report asset not found'' (rc_asset data) (Some tenant))
      (bindE (http_errors report_create_errors
                (create_report (ae_refuse env) (ae_bus env) (ae_now env) (ae_id env) (ae_event env) data tenant))
        (\<lambda>r. retE (ReportBody (report_from_orm r)))))))"

definition list_reports_route ::
  "user_row \<Rightarrow> nat \<Rightarrow> nat \<Rightarrow> uuid option \<Rightarrow> string option \<Rightarrow> string option \<Rightarrow> ('r, answer) db_prog" where
  "list_reports_route current_user offset limit asset_id report_type report_status = allow READERS current_user
     (if \<not> page_limits_ok limit \<or> (case report_type of None \<Rightarrow> False | Some t \<Rightarrow> t \<notin> set REPORT_TYPES) \<or>
         (case report_status of None \<Rightarrow> False | Some s \<Rightarrow> s \<notin> set REPORT_STATUSES)
      then raiseE unprocessable
      else thenE (case asset_id of None \<Rightarrow> retE ()
                  | Some i \<Rightarrow> resolve_scan_asset ''report asset not found'' i (caller_tenant_id current_user))
        (bindE (list_reports (caller_tenant_id current_user) limit offset asset_id report_type report_status)
          (\<lambda>r. retE (ReportPage (page_of report_from_orm limit offset r)))))"

definition get_report_route :: "user_row \<Rightarrow> uuid \<Rightarrow> ('r, answer) db_prog" where
  "get_report_route current_user report_id = allow READERS current_user
     (bindE (get_report report_id (caller_tenant_id current_user)) (\<lambda>found.
      bindE (or_404 ''report not found'' found) (\<lambda>r. retE (ReportBody (report_from_orm r)))))"

definition update_report_route :: "'r api_env \<Rightarrow> user_row \<Rightarrow> uuid \<Rightarrow> report_update \<Rightarrow> ('r, answer) db_prog" where
  "update_report_route env current_user report_id payload = allow WRITERS current_user
     (parsed (check_report_update payload) (\<lambda>data.
      bindE (update_report (ae_refuse env) (ae_bus env) (ae_now env) (ae_event env) report_id
               (caller_tenant_id current_user) data) (\<lambda>found.
      bindE (or_404 ''report not found'' found) (\<lambda>r. retE (ReportBody (report_from_orm r))))))"

definition delete_report_route :: "'r api_env \<Rightarrow> user_row \<Rightarrow> uuid \<Rightarrow> ('r, answer) db_prog" where
  "delete_report_route env current_user report_id = allow WRITERS current_user
     (bindE (delete_report (ae_refuse env) (ae_bus env) (ae_now env) (ae_event env) report_id (caller_tenant_id current_user))
       (\<lambda>deleted. if \<not> deleted then raiseE (HTTPException 404 ''report not found'') else retE NoContent))"

subsection \<open>The application\<close>

datatype api_request =
    AssetsPost uuid string string | AssetsList nat nat | AssetsExport | AssetsGet uuid
  | AssetsPatch uuid asset_update | AssetsDelete uuid
  | ScansPost uuid scan_create | ScansList nat nat "uuid option" | ScansGet uuid
  | ScansPatch uuid scan_update | ScansDelete uuid | ScansRun uuid | ScansCancel uuid
  | VulnsPost uuid vuln_create | VulnsList nat nat "uuid option" | VulnsGet uuid
  | VulnsPatch uuid vuln_update | VulnsDelete uuid
  | ReportsPost report_create | ReportsList nat nat "uuid option" "string option" "string option"
  | ReportsGet uuid | ReportsPatch uuid report_update | ReportsDelete uuid

fun endpoint :: "'r api_env \<Rightarrow> user_row \<Rightarrow> api_request \<Rightarrow> ('r, answer) db_prog" where
  "endpoint env me (AssetsPost tenant ty val) = create_asset_route env me tenant ty val"
| "endpoint env me (AssetsList offset limit) = list_assets_route me offset limit"
| "endpoint env me AssetsExport = export_assets_route env me"
| "endpoint env me (AssetsGet i) = get_asset_route me i"
| "endpoint env me (AssetsPatch i data) = update_asset_route env me i data"
| "endpoint env me (AssetsDelete i) = delete_asset_route env me i"
| "endpoint env me (ScansPost tenant data) = create_scan_route env me tenant data"
| "endpoint env me (ScansList offset limit a) = list_scans_route me offset limit a"
| "endpoint env me (ScansGet i) = get_scan_route me i"
| "endpoint env me (ScansPatch i data) = update_scan_route env me i data"
| "endpoint env me (ScansDelete i) = delete_scan_route env me i"
| "endpoint env me (ScansRun i) = run_scan_route env me i"
| "endpoint env me (ScansCancel i) = cancel_scan_route env me i"
| "endpoint env me (VulnsPost tenant data) = create_vulnerability_route env me tenant data"
| "endpoint env me (VulnsList offset limit s) = list_vulnerabilities_route me offset limit s"
| "endpoint env me (VulnsGet i) = get_vulnerability_route me i"
| "endpoint env me (VulnsPatch i data) = update_vulnerability_route env me i data"
| "endpoint env me (VulnsDelete i) = delete_vulnerability_route env me i"
| "endpoint env me (ReportsPost data) = create_report_route env me data"
| "endpoint env me (ReportsList offset limit a t s) = list_reports_route me offset limit a t s"
| "endpoint env me (ReportsGet i) = get_report_route me i"
| "endpoint env me (ReportsPatch i data) = update_report_route env me i data"
| "endpoint env me (ReportsDelete i) = delete_report_route env me i"

definition serve_api :: "'r api_env \<Rightarrow> user_row \<Rightarrow> api_request \<Rightarrow> ('r, answer) db_prog" where
  "serve_api env me req = with_session (ae_refuse env) (endpoint env me req)"

text \<open>
  The status the client sees for an exception: the three handlers of the application, the one of
  \<open>HTTPException\<close>, and 500 for what nobody handles, application errors included.
\<close>

definition handled_status :: "exn \<Rightarrow> nat" where
  "handled_status e = (case e of
      HTTPException code _ \<Rightarrow> code
    | ServiceUnavailableError _ \<Rightarrow> 503
    | TemporaryUnavailableError _ \<Rightarrow> 503
    | _ \<Rightarrow> if is_redis_outage e then 503 else 500)"

end
