(* ===== verification/Targets.thy ===== *)
theory Targets
  imports Assets
begin

text \<open>
  The gate between a stored asset and the scanner, \<open>app/modules/scans/targets.py\<close>.  The resolver and
  \<open>urlsplit(...).hostname\<close> are parameters; \<open>te_demo\<close> is \<open>settings.SCAN_DEMO_MODE\<close>.  The lemmas carry
  a verdict on the two boundaries of a small network to every address inside it.
\<close>

datatype resolution = Resolved "string list" | ResolutionTimeout | GaiError | ResolverRaises exn

record target_env =
  te_lib :: asset_lib
  te_hostname :: "string \<Rightarrow> string"
  te_resolve :: "string \<Rightarrow> resolution"
  te_demo :: bool

record scan_target =
  st_type :: string
  st_original :: string
  st_addresses :: "string list"

datatype target_exc = TargetRejected string | TargetRaises exn

text \<open>
  The default resolver: \<open>getaddrinfo\<close> gives the addresses or raises, and
  \<open>list(dict.fromkeys(...))\<close> keeps the first of equal ones.
\<close>

definition resolve_host :: "(string \<Rightarrow> resolution) \<Rightarrow> string \<Rightarrow> resolution" where
  "resolve_host getaddrinfo host = (case getaddrinfo host of
       Resolved addresses \<Rightarrow> Resolved (rev (remdups (rev addresses))) | r \<Rightarrow> r)"

definition DEMO_PRIVATE_NETWORKS :: "net list" where
  "DEMO_PRIVATE_NETWORKS = [Net4 (quad 10 0 0 0) 8, Net4 (quad 172 16 0 0) 12, Net4 (quad 192 168 0 0) 16,
     Net6 (hextets 0xfc00 0 0) 7]"

definition DEMO_TRANSITION_NETWORKS :: "net list" where
  "DEMO_TRANSITION_NETWORKS = [Net6 (hextets 0x2002 0 0) 16, Net6 (hextets 0x64 0xff9b 0) 96,
     Net6 (hextets 0x2001 0 0) 32]"

definition allowed_address :: "bool \<Rightarrow> ip \<Rightarrow> bool" where
  "allowed_address demo address =
     (if \<not> demo then is_global address
      else if is_loopback address \<or> is_link_local address \<or> is_multicast address \<or> is_unspecified address \<or>
              is_reserved address \<or> listed DEMO_TRANSITION_NETWORKS address then False
      else is_global address \<or> listed DEMO_PRIVATE_NETWORKS address)"

definition public_ip :: "target_env \<Rightarrow> string \<Rightarrow> target_exc + string" where
  "public_ip env val = (case ip_address (al_ip (te_lib env)) val of
       None \<Rightarrow> Inl (TargetRejected ''target_invalid'')
     | Some address \<Rightarrow>
         if \<not> allowed_address (te_demo env) address then Inl (TargetRejected ''target_not_global'')
         else Inr (ip_text (al_ip (te_lib env)) address))"

text \<open>\<open>tuple(_public_ip(address) for address in resolved)\<close> stops at the first rejection.\<close>

fun public_ips :: "target_env \<Rightarrow> string list \<Rightarrow> target_exc + string list" where
  "public_ips env [] = Inr []"
| "public_ips env (a # as) = (case public_ip env a of
     Inl e \<Rightarrow> Inl e
   | Inr x \<Rightarrow> (case public_ips env as of Inl e \<Rightarrow> Inl e | Inr xs \<Rightarrow> Inr (x # xs)))"

definition subnet_target :: "target_env \<Rightarrow> string \<Rightarrow> target_exc + string list" where
  "subnet_target env canonical = (case ip_network (al_ip (te_lib env)) canonical of
       None \<Rightarrow> Inl (TargetRaises (ValueError canonical))
     | Some network \<Rightarrow>
         if 256 < num_addresses network then Inl (TargetRejected ''target_too_large'')
         else let allowed = (if te_demo env
                then allowed_address True (network_address network) \<and>
                     allowed_address True (broadcast_address network)
                else net_is_global network)
              in if \<not> allowed then Inl (TargetRejected ''target_not_global'')
                 else Inr [net_text (al_ip (te_lib env)) network])"

definition host_target :: "target_env \<Rightarrow> string \<Rightarrow> target_exc + string list" where
  "host_target env host = (case te_resolve env host of
       ResolutionTimeout \<Rightarrow> Inl (TargetRejected ''target_resolution_timeout'')
     | GaiError \<Rightarrow> Inl (TargetRejected ''target_unresolvable'')
     | ResolverRaises e \<Rightarrow> Inl (TargetRaises e)
     | Resolved resolved \<Rightarrow> if resolved = [] then Inl (TargetRejected ''target_unresolvable'')
                            else public_ips env resolved)"

definition target_addresses :: "target_env \<Rightarrow> string \<Rightarrow> string \<Rightarrow> target_exc + string list" where
  "target_addresses env asset_type canonical =
     (if asset_type = ''ip'' then map_sum id (\<lambda>a. [a]) (public_ip env canonical)
      else if asset_type = ''subnet'' then subnet_target env canonical
      else if asset_type = ''web_app'' then
        (let host = te_hostname env canonical in
         if ip_address (al_ip (te_lib env)) host \<noteq> None then map_sum id (\<lambda>a. [a]) (public_ip env host)
         else host_target env host)
      else host_target env canonical)"

definition resolve_scan_target :: "target_env \<Rightarrow> string \<Rightarrow> string \<Rightarrow> target_exc + scan_target" where
  "resolve_scan_target env asset_type val =
     (if asset_type \<notin> {''ip'', ''subnet'', ''hostname'', ''domain'', ''web_app''}
      then Inl (TargetRejected ''target_unsupported_type'')
      else case validate_asset_value (te_lib env) asset_type val of
        Inl e \<Rightarrow> Inl (TargetRejected ''target_invalid'')
      | Inr canonical \<Rightarrow>
          if starts_with ''-'' canonical then Inl (TargetRejected ''target_invalid'')
          else map_sum id (\<lambda>addresses. \<lparr>st_type = asset_type, st_original = val, st_addresses = addresses\<rparr>)
                 (target_addresses env asset_type canonical))"

subsection \<open>What a target reaches\<close>

text \<open>
  The addresses the scanner sends packets to: the literals of the target, read by the same parser.
\<close>

definition reaches :: "ip_lib \<Rightarrow> scan_target \<Rightarrow> ip \<Rightarrow> bool" where
  "reaches lib t a \<longleftrightarrow> (\<exists>s \<in> set (st_addresses t). ip_address lib s = Some a \<or>
     (ip_address lib s = None \<and> (\<exists>n. ip_network lib s = Some n \<and> in_net a n)))"

text \<open>
  The networks of hosts behind the scanner: this host, loopback, link local with the metadata services
  of clouds, and the private networks; an IPv4-mapped address counts as the IPv4 address.
\<close>

definition internal :: "net list" where
  "internal = [Net4 0 8, Net4 (quad 10 0 0 0) 8, Net4 (quad 100 64 0 0) 10, Net4 (quad 127 0 0 0) 8,
     Net4 (quad 169 254 0 0) 16, Net4 (quad 172 16 0 0) 12, Net4 (quad 192 168 0 0) 16,
     Net6 0 128, Net6 1 128, Net6 (hextets 0xfc00 0 0) 7, Net6 (hextets 0xfe80 0 0) 10]"

fun effective :: "ip \<Rightarrow> ip" where
  "effective (V4 a) = V4 a"
| "effective (V6 a) = (case ipv4_mapped a of Some m \<Rightarrow> V4 m | None \<Rightarrow> V6 a)"

lemmas net_tables = private4_def private4_exceptions_def shared4_def private6_def private6_exceptions_def
  reserved6_def internal_def DEMO_PRIVATE_NETWORKS_def DEMO_TRANSITION_NETWORKS_def
  link_local4_def multicast4_def reserved4_def quad_def hextets_def

lemma global4_not_internal: "is_global4 a \<Longrightarrow> \<not> listed internal (V4 a)"
  by (auto simp: is_global4_def is_private4_def listed_def net_tables)

lemma not_private6_not_internal: "\<not> is_private6 a \<Longrightarrow> \<not> listed internal (V6 a)"
  by (auto simp: is_private6_def listed_def net_tables)

lemma global_not_internal: "is_global a \<Longrightarrow> \<not> listed internal (effective a)"
  by (cases a) (auto simp: global4_not_internal not_private6_not_internal split: option.splits)

subsection \<open>Small networks\<close>

lemma small_prefix: "num_addresses (Net4 b p) \<le> 256 \<Longrightarrow> 24 \<le> p" "num_addresses (Net6 b p) \<le> 256 \<Longrightarrow> 120 \<le> p"
proof -
  have k: "k \<le> 8" if "(2::nat) ^ k \<le> 256" for k
    using power_le_imp_le_exp [of "2::nat" k 8] that by simp
  show "num_addresses (Net4 b p) \<le> 256 \<Longrightarrow> 24 \<le> p" "num_addresses (Net6 b p) \<le> 256 \<Longrightarrow> 120 \<le> p"
    using k [of "32 - p"] k [of "128 - p"] by simp_all
qed

text \<open>Every block of the tables that a small network does not fit into lies in a larger one.\<close>

definition big4 :: "net list" where
  "big4 = filter (\<lambda>n. case n of Net4 _ p \<Rightarrow> p \<le> 24 | _ \<Rightarrow> True) private4"

lemma listed_big4: "listed private4 (V4 x) \<longleftrightarrow> listed big4 (V4 x)"
proof -
  have 1: "in_net (V4 x) (Net4 (quad 192 0 0 170) 31) \<Longrightarrow> in_net (V4 x) (Net4 (quad 192 0 0 0) 24)"
    using div_pow_le [of x 1 "quad 192 0 0 170" 8] by (simp add: quad_def)
  have 2: "in_net (V4 x) (Net4 (quad 255 255 255 255) 32) \<Longrightarrow> in_net (V4 x) (Net4 (quad 240 0 0 0) 4)"
    by (simp add: quad_def)
  define A B where "A = take 6 private4" and "B = take 6 (drop 7 private4)"
  have p4: "private4 = A @ [Net4 (quad 192 0 0 170) 31] @ B @ [Net4 (quad 255 255 255 255) 32]"
    and b4: "big4 = A @ B"
    by (simp_all add: A_def B_def big4_def private4_def)
  have "Net4 (quad 192 0 0 0) 24 \<in> set A" "Net4 (quad 240 0 0 0) 4 \<in> set B"
    by (simp_all add: A_def B_def private4_def)
  with 1 2 have "in_net (V4 x) (Net4 (quad 192 0 0 170) 31) \<longrightarrow> list_ex (in_net (V4 x)) A"
    "in_net (V4 x) (Net4 (quad 255 255 255 255) 32) \<longrightarrow> list_ex (in_net (V4 x)) B"
    unfolding list_ex_iff by blast+
  then show ?thesis
    unfolding listed_def p4 b4 by (simp del: in_net.simps) blast
qed

lemma same_in_net4:
  assumes "24 \<le> p" and "wf_net (Net4 b p)" and "in_net (V4 x) (Net4 b p)"
    and "list_all (\<lambda>c. case c of Net4 _ q \<Rightarrow> q \<le> 24 | _ \<Rightarrow> True) ns"
  shows "listed ns (V4 x) = listed ns (V4 b)" "listed ns (V4 (b + (2 ^ (32 - p) - 1))) = listed ns (V4 b)"
proof -
  have ns: "list_all (\<lambda>c. no_smaller c (Net4 b p)) ns"
    using assms(1,4) by (auto simp: list_all_iff split: net.splits) (metis le_trans net.exhaust no_smaller.simps)
  have "in_net (V4 b) (Net4 b p)" "in_net (V4 (b + (2 ^ (32 - p) - 1))) (Net4 b p)"
    using in_net_boundaries [OF assms(2)] by simp_all
  then show "listed ns (V4 x) = listed ns (V4 b)"
    "listed ns (V4 (b + (2 ^ (32 - p) - 1))) = listed ns (V4 b)"
    using listed_same [OF assms(3) _ ns] listed_same [OF _ _ ns] by blast+
qed

lemma exceptions4: "listed private4_exceptions (V4 x) \<longleftrightarrow> x \<in> {quad 192 0 0 9, quad 192 0 0 10}"
  by (auto simp: listed_def private4_exceptions_def)

lemma global4_block:
  assumes "24 \<le> p" and "wf_net (Net4 b p)" and "in_net (V4 x) (Net4 b p)"
    and "is_global4 b" and "is_global4 (b + (2 ^ (32 - p) - 1))"
  shows "is_global4 x"
proof -
  note same = same_in_net4 [OF assms(1-3)]
  have shared: "\<not> in_net (V4 x) shared4"
    using same(1) [of "[shared4]"] assms(4) by (simp add: listed_def is_global4_def shared4_def)
  have "\<not> is_private4 x"
  proof
    assume x: "is_private4 x"
    have big: "list_all (\<lambda>c. case c of Net4 _ q \<Rightarrow> q \<le> 24 | _ \<Rightarrow> True) big4"
      by (auto simp: big4_def list_all_iff)
    from x have "listed big4 (V4 x)" by (simp add: is_private4_def listed_big4)
    with same [OF big] have "listed private4 (V4 b)" "listed private4 (V4 (b + (2 ^ (32 - p) - 1)))"
      by (simp_all add: listed_big4)
    with assms(4,5) have "b \<in> {quad 192 0 0 9, quad 192 0 0 10}"
      "b + (2 ^ (32 - p) - 1) \<in> {quad 192 0 0 9, quad 192 0 0 10}"
      unfolding is_global4_def is_private4_def exceptions4 by blast+
    moreover have "b \<le> x" "x \<le> b + (2 ^ (32 - p) - 1)"
      using assms(3) in_net_range(1) [OF assms(2)] by blast+
    ultimately have "x \<in> {quad 192 0 0 9, quad 192 0 0 10}" by (auto simp: quad_def)
    with x show False by (simp add: is_private4_def exceptions4)
  qed
  with shared show ?thesis by (simp add: is_global4_def)
qed

text \<open>The verdict on an IPv4 subnet outside the demo mode keeps all of it off the internal networks.\<close>

lemma strict_subnet4:
  assumes "24 \<le> p" and "wf_net (Net4 b p)" and "in_net (V4 x) (Net4 b p)" and "net_is_global (Net4 b p)"
  shows "\<not> listed internal (V4 x)"
proof
  let ?B = "b + (2 ^ (32 - p) - 1)"
  assume "listed internal (V4 x)"
  then obtain c where c: "c \<in> set internal" "in_net (V4 x) c" by (auto simp: listed_def list_ex_iff)
  have "list_all (\<lambda>c. case c of Net4 _ q \<Rightarrow> q \<le> 24 | _ \<Rightarrow> True) [c]"
    using c(1) by (auto simp: internal_def)
  from same_in_net4 [OF assms(1-3) this] c(2)
  have in_c: "in_net (V4 b) c" "in_net (V4 ?B) c" by (simp_all add: listed_def)
  from c have "c = shared4 \<or> c \<in> set private4" by (auto simp: internal_def private4_def shared4_def)
  moreover have "y \<notin> {quad 192 0 0 9, quad 192 0 0 10}" if "in_net (V4 y) c" for y
    using c(1) that by (auto simp: internal_def quad_def)
  then have "\<not> listed private4_exceptions (V4 b)" "\<not> listed private4_exceptions (V4 ?B)"
    using in_c by (simp_all add: exceptions4)
  then have "list_all (\<lambda>e. \<not> in_net (V4 b) e \<and> \<not> in_net (V4 ?B) e) private4_exceptions"
    by (auto simp: listed_def list_ex_iff list_all_iff)
  ultimately show False
    using assms(4) in_c by (auto simp: net_private_def list_ex_iff)
qed

subsection \<open>The demo mode\<close>

lemma allowed4:
  "allowed_address True (V4 x) \<longleftrightarrow>
     \<not> listed [Net4 (quad 127 0 0 0) 8, link_local4, multicast4, reserved4] (V4 x) \<and> x \<noteq> 0 \<and>
     (is_global4 x \<or> listed DEMO_PRIVATE_NETWORKS (V4 x))"
  by (auto simp: allowed_address_def listed_def DEMO_TRANSITION_NETWORKS_def)

lemma demo_subnet4:
  assumes "24 \<le> p" and "wf_net (Net4 b p)" and "in_net (V4 x) (Net4 b p)"
    and "allowed_address True (V4 b)" and "allowed_address True (V4 (b + (2 ^ (32 - p) - 1)))"
  shows "allowed_address True (V4 x)"
proof -
  note same = same_in_net4 [OF assms(1-3)]
  have demo: "list_all (\<lambda>c. case c of Net4 _ q \<Rightarrow> q \<le> 24 | _ \<Rightarrow> True) DEMO_PRIVATE_NETWORKS"
    and bad: "list_all (\<lambda>c. case c of Net4 _ q \<Rightarrow> q \<le> 24 | _ \<Rightarrow> True)
       [Net4 (quad 127 0 0 0) 8, link_local4, multicast4, reserved4]"
    by (simp_all add: net_tables)
  have "x \<noteq> 0"
    using assms(3,4) in_net_range(1) [OF assms(2), of x] by (auto simp: allowed4)
  moreover have "is_global4 x \<or> listed DEMO_PRIVATE_NETWORKS (V4 x)"
    using assms(4,5) same [OF demo] global4_block [OF assms(1-3)] by (auto simp: allowed4)
  ultimately show ?thesis using assms(4) same(1) [OF bad] by (simp add: allowed4)
qed

lemma same_in_net6:
  assumes "120 \<le> p" and "wf_net (Net6 b p)" and "in_net (V6 x) (Net6 b p)"
    and "list_all (\<lambda>c. case c of Net6 _ q \<Rightarrow> q \<le> 120 | _ \<Rightarrow> True) ns"
  shows "listed ns (V6 x) = listed ns (V6 b)" "listed ns (V6 (b + (2 ^ (128 - p) - 1))) = listed ns (V6 b)"
proof -
  have ns: "list_all (\<lambda>c. no_smaller c (Net6 b p)) ns"
    using assms(1,4) by (auto simp: list_all_iff split: net.splits) (metis le_trans net.exhaust no_smaller.simps)
  have "in_net (V6 b) (Net6 b p)" "in_net (V6 (b + (2 ^ (128 - p) - 1))) (Net6 b p)"
    using in_net_boundaries [OF assms(2)] by simp_all
  then show "listed ns (V6 x) = listed ns (V6 b)"
    "listed ns (V6 (b + (2 ^ (128 - p) - 1))) = listed ns (V6 b)"
    using listed_same [OF assms(3) _ ns] listed_same [OF _ _ ns] by blast+
qed

lemma mapped_block: "ipv4_mapped x = None \<longleftrightarrow> \<not> listed [Net6 (65535 * 2 ^ 32) 96] (V6 x)"
  by (simp add: ipv4_mapped_def listed_def)

lemma mapped_all: "list_all (\<lambda>c. case c of Net6 _ q \<Rightarrow> q \<le> 120 | _ \<Rightarrow> True) [Net6 (65535 * 2 ^ 32) 96]"
  by simp

lemma allowed6_mapped:
  "ipv4_mapped x = Some m \<Longrightarrow> allowed_address True (V6 x) \<longleftrightarrow>
     \<not> listed [link_local4, multicast4, reserved4] (V4 m) \<and> m \<noteq> 0 \<and> is_global4 m"
proof -
  assume m: "ipv4_mapped x = Some m"
  then have x: "x div 2 ^ 32 = 65535" by (simp add: ipv4_mapped_def split: if_splits)
  then have "x div 2 ^ 96 = 0" "x div 2 ^ 121 = 0" "x div 2 ^ 112 = 0"
    using div_pow_le [of x 32 "65535 * 2 ^ 32" 96] div_pow_le [of x 32 "65535 * 2 ^ 32" 121]
      div_pow_le [of x 32 "65535 * 2 ^ 32" 112] by simp_all
  moreover from x have "x \<noteq> 1" by auto
  ultimately show ?thesis
    using m x by (auto simp: allowed_address_def listed_def DEMO_TRANSITION_NETWORKS_def DEMO_PRIVATE_NETWORKS_def hextets_def)
qed

lemma allowed6:
  "ipv4_mapped x = None \<Longrightarrow> allowed_address True (V6 x) \<longleftrightarrow> x \<noteq> 1 \<and> x \<noteq> 0 \<and>
     \<not> listed (Net6 (hextets 0xfe80 0 0) 10 # Net6 (hextets 0xff00 0 0) 8 # reserved6 @ DEMO_TRANSITION_NETWORKS) (V6 x) \<and>
     (\<not> is_private6 x \<or> listed DEMO_PRIVATE_NETWORKS (V6 x))"
  by (auto simp: allowed_address_def listed_def)

lemma mapped_Some: "ipv4_mapped x = Some m \<longleftrightarrow> x div 2 ^ 32 = 65535 \<and> m = x mod 2 ^ 32"
  by (auto simp: ipv4_mapped_def)

lemma demo_subnet_mapped:
  assumes "120 \<le> p" and "wf_net (Net6 b p)" and "in_net (V6 x) (Net6 b p)"
    and "ipv4_mapped x = Some m"
    and "allowed_address True (V6 b)" and "allowed_address True (V6 (b + (2 ^ (128 - p) - 1)))"
  shows "allowed_address True (V6 x)"
proof -
  define k where "k = 128 - p"
  define B where "B = b + (2 ^ k - 1)"
  have k: "k \<le> 8" "32 - (p - 96) = k" using assms(1,2) by (auto simp: k_def)
  note same = same_in_net6 [OF assms(1-3) mapped_all]
  have "ipv4_mapped x \<noteq> None" using assms(4) by simp
  then have "ipv4_mapped b \<noteq> None" "ipv4_mapped B \<noteq> None"
    using same unfolding mapped_block B_def k_def by blast+
  then obtain mb mB where m: "ipv4_mapped b = Some mb" "ipv4_mapped B = Some mB" by auto
  have split: "y = 65535 * 2 ^ 32 + n" if "ipv4_mapped y = Some n" for y n
    using that div_mult_mod_eq [of y "2 ^ 32"] by (simp add: mapped_Some)
  have eqs: "x = 65535 * 2 ^ 32 + m" "b = 65535 * 2 ^ 32 + mb" "B = 65535 * 2 ^ 32 + mB"
    using split assms(4) m by blast+
  have "mb < 2 ^ 32" using m(1) by (simp add: mapped_Some)
  moreover have "mb mod 2 ^ k = 0"
  proof -
    have "(2::nat) ^ k dvd 2 ^ 32" using k(1) by (intro le_imp_power_dvd) simp
    moreover have "mb = b mod 2 ^ 32" using m(1) unfolding mapped_Some by blast
    ultimately have "mb mod 2 ^ k = b mod 2 ^ k" by (simp only: mod_mod_cancel)
    with assms(2) show ?thesis by (simp add: k_def)
  qed
  moreover have "p - 96 \<le> 32" using assms(2) unfolding wf_net.simps by linarith
  ultimately have wf: "wf_net (Net4 mb (p - 96))" using k(2) by simp
  have B: "mB = mb + (2 ^ (32 - (p - 96)) - 1)" using eqs(2,3) B_def k(2) by simp
  have "b \<le> x" "x \<le> B"
    using in_net_range(2) [OF assms(2), of x] assms(3) by (simp_all add: B_def k_def)
  then have "in_net (V4 m) (Net4 mb (p - 96))"
    using in_net_range(1) [OF wf, of m] eqs B by simp
  note in4 = this
  have p24: "24 \<le> p - 96" using assms(1) by simp
  have bad: "list_all (\<lambda>c. case c of Net4 _ q \<Rightarrow> q \<le> 24 | _ \<Rightarrow> True) [link_local4, multicast4, reserved4]"
    by (simp add: net_tables)
  note ab = assms(5) [unfolded allowed6_mapped [OF m(1)]]
  note aB = assms(6) [folded k_def B_def, unfolded allowed6_mapped [OF m(2)]]
  have "is_global4 m" using global4_block [OF p24 wf in4] ab aB B by simp
  moreover have "\<not> listed [link_local4, multicast4, reserved4] (V4 m)"
    using same_in_net4(1) [OF p24 wf in4 bad] ab by simp
  moreover have "m \<noteq> 0" using in_net_range(1) [OF wf, of m] in4 ab by auto
  ultimately show ?thesis by (simp add: allowed6_mapped [OF assms(4)])
qed

definition big6 :: "net list" where
  "big6 = filter (\<lambda>n. case n of Net6 _ p \<Rightarrow> p \<le> 120 | _ \<Rightarrow> True) private6"

definition big6_exceptions :: "net list" where
  "big6_exceptions = filter (\<lambda>n. case n of Net6 _ p \<Rightarrow> p \<le> 120 | _ \<Rightarrow> True) private6_exceptions"

lemma tables6:
  "listed private6 (V6 x) \<longleftrightarrow> x = 0 \<or> x = 1 \<or> listed big6 (V6 x)"
  "listed private6_exceptions (V6 x) \<longleftrightarrow>
     x \<in> {hextets 0x2001 1 0 + 1, hextets 0x2001 1 0 + 2} \<or> listed big6_exceptions (V6 x)"
  by (auto simp: listed_def private6_def big6_def private6_exceptions_def big6_exceptions_def)

lemma demo_subnet6:
  assumes "120 \<le> p" and "wf_net (Net6 b p)" and "in_net (V6 x) (Net6 b p)"
    and "allowed_address True (V6 b)" and "allowed_address True (V6 (b + (2 ^ (128 - p) - 1)))"
  shows "allowed_address True (V6 x)"
proof (cases "ipv4_mapped x")
  case (Some m)
  with demo_subnet_mapped [OF assms(1-3)] assms(4,5) show ?thesis by blast
next
  case None
  let ?B = "b + (2 ^ (128 - p) - 1)"
  let ?bad = "Net6 (hextets 0xfe80 0 0) 10 # Net6 (hextets 0xff00 0 0) 8 # reserved6 @ DEMO_TRANSITION_NETWORKS"
  note same = same_in_net6 [OF assms(1-3)]
  have nm: "ipv4_mapped b = None" "ipv4_mapped ?B = None"
    using same [OF mapped_all] None by (simp_all add: mapped_block)
  have tabs: "list_all (\<lambda>c. case c of Net6 _ q \<Rightarrow> q \<le> 120 | _ \<Rightarrow> True) ns"
    if "ns \<in> {?bad, DEMO_PRIVATE_NETWORKS, big6, big6_exceptions}" for ns
    using that by (auto simp: net_tables big6_def big6_exceptions_def)
  note ab = assms(4) [unfolded allowed6 [OF nm(1)]] and aB = assms(5) [unfolded allowed6 [OF nm(2)]]
  have good: "\<not> listed ?bad (V6 x)" using same(1) [of ?bad] tabs ab by blast
  then have "x div 2 ^ 120 \<noteq> 0" by (simp add: listed_def reserved6_def)
  then have "x \<noteq> 0" "x \<noteq> 1" by auto
  moreover have "\<not> is_private6 x \<or> listed DEMO_PRIVATE_NETWORKS (V6 x)"
  proof (rule ccontr)
    assume "\<not> ?thesis"
    then have x: "is_private6 x" "\<not> listed DEMO_PRIVATE_NETWORKS (V6 x)" by blast+
    have "\<not> listed DEMO_PRIVATE_NETWORKS (V6 b)" "\<not> listed DEMO_PRIVATE_NETWORKS (V6 ?B)"
      using same [of DEMO_PRIVATE_NETWORKS] tabs x(2) by blast+
    with ab aB have "\<not> is_private6 b" "\<not> is_private6 ?B" by blast+
    moreover have "listed big6 (V6 x)"
      using x(1) \<open>x \<noteq> 0\<close> \<open>x \<noteq> 1\<close> unfolding is_private6_def tables6 by blast
    then have "listed big6 (V6 b)" "listed big6 (V6 ?B)" using same [of big6] tabs by blast+
    moreover have "\<not> listed big6_exceptions (V6 x)" using x(1) unfolding is_private6_def tables6 by blast
    then have "\<not> listed big6_exceptions (V6 b)" "\<not> listed big6_exceptions (V6 ?B)"
      using same [of big6_exceptions] tabs by blast+
    ultimately have "b \<in> {hextets 0x2001 1 0 + 1, hextets 0x2001 1 0 + 2}"
      "?B \<in> {hextets 0x2001 1 0 + 1, hextets 0x2001 1 0 + 2}"
      unfolding is_private6_def tables6 by blast+
    moreover have "b \<le> x" "x \<le> ?B" using in_net_range(2) [OF assms(2), of x] assms(3) by blast+
    ultimately have "x \<in> {hextets 0x2001 1 0 + 1, hextets 0x2001 1 0 + 2}" by auto
    with x(1) show False unfolding is_private6_def tables6 by blast
  qed
  ultimately show ?thesis using good by (simp add: allowed6 [OF None])
qed

lemma demo_subnet:
  assumes "num_addresses n \<le> 256" and "wf_net n" and "in_net a n"
    and "allowed_address True (network_address n)" and "allowed_address True (broadcast_address n)"
  shows "allowed_address True a"
proof (cases n)
  case (Net4 b p)
  with assms(3) obtain x where "a = V4 x" by (cases a) auto
  with demo_subnet4 [of p b x] small_prefix(1) [of b p] assms Net4 show ?thesis by simp
next
  case (Net6 b p)
  with assms(3) obtain x where "a = V6 x" by (cases a) auto
  with demo_subnet6 [of p b x] small_prefix(2) [of b p] assms Net6 show ?thesis by simp
qed

subsection \<open>Properties\<close>

lemma public_ip_Inr:
  "public_ip env v = Inr s \<longleftrightarrow> (\<exists>a. ip_address (al_ip (te_lib env)) v = Some a \<and>
     allowed_address (te_demo env) a \<and> s = ip_text (al_ip (te_lib env)) a)"
  by (auto simp: public_ip_def split: option.splits)

lemma public_ips_Inr:
  "public_ips env vs = Inr ss \<Longrightarrow> length ss = length vs \<and>
     (\<forall>s \<in> set ss. \<exists>v. public_ip env v = Inr s)"
  by (induction vs arbitrary: ss) (auto split: sum.splits)

lemma host_target_Inr:
  "host_target env h = Inr ss \<Longrightarrow> ss \<noteq> [] \<and> (\<forall>s \<in> set ss. \<exists>v. public_ip env v = Inr s)"
  by (auto simp: host_target_def split: resolution.splits if_splits dest: public_ips_Inr)

lemma resolve_outcome:
  assumes "resolve_scan_target env ty v = Inr t"
  shows "st_type t = ty \<and> st_original t = v \<and> st_addresses t \<noteq> [] \<and>
    (if ty = ''subnet''
     then \<exists>c n. ip_network (al_ip (te_lib env)) c = Some n \<and> num_addresses n \<le> 256 \<and>
       st_addresses t = [net_text (al_ip (te_lib env)) n] \<and>
       (if te_demo env then allowed_address True (network_address n) \<and> allowed_address True (broadcast_address n)
        else net_is_global n)
     else \<forall>s \<in> set (st_addresses t). \<exists>v. public_ip env v = Inr s)"
proof -
  obtain c as where t: "t = \<lparr>st_type = ty, st_original = v, st_addresses = as\<rparr>"
    and as: "target_addresses env ty c = Inr as"
    using assms by (auto simp: resolve_scan_target_def map_sum_Inr simp del: insert_iff split: if_split_asm sum.splits)
  have ok: "as \<noteq> [] \<and> (\<forall>s \<in> set as. \<exists>v. public_ip env v = Inr s)" if "ty \<noteq> ''subnet''"
    using as that by (auto simp: target_addresses_def Let_def map_sum_Inr split: if_splits dest: host_target_Inr)
  show ?thesis
  proof (cases "ty = ''subnet''")
    case True
    with as have "subnet_target env c = Inr as" by (simp add: target_addresses_def)
    then obtain n where n: "ip_network (al_ip (te_lib env)) c = Some n" "\<not> 256 < num_addresses n"
      "as = [net_text (al_ip (te_lib env)) n]"
      "if te_demo env then allowed_address True (network_address n) \<and> allowed_address True (broadcast_address n)
        else net_is_global n"
      by (auto simp: subnet_target_def Let_def split: option.splits if_splits)
    then have "\<exists>c n. ip_network (al_ip (te_lib env)) c = Some n \<and> num_addresses n \<le> 256 \<and>
       st_addresses t = [net_text (al_ip (te_lib env)) n] \<and>
       (if te_demo env then allowed_address True (network_address n) \<and> allowed_address True (broadcast_address n)
        else net_is_global n)"
      by (intro exI [of _ c] exI [of _ n]) (auto simp: t)
    with True t n(3) show ?thesis by simp
  next
    case False
    with ok t show ?thesis by simp
  qed
qed

text \<open>
  The documented behaviour of the parsers the target gate relies on: the text of an address is no
  network, the text of a network of one address reads as that address, and a network they give has its
  host bits cleared.
\<close>

definition ip_lib_ok :: "ip_lib \<Rightarrow> bool" where
  "ip_lib_ok lib \<longleftrightarrow> (\<forall>s n. ip_network lib s = Some n \<longrightarrow> wf_net n \<and>
     (\<forall>a. ip_address lib (net_text lib n) = Some a \<longrightarrow> in_net a n))"


definition sample_env :: "bool \<Rightarrow> target_env" where
  "sample_env demo = \<lparr>te_lib = sample_lib, te_hostname = (\<lambda>u. ''x.io''),
     te_resolve = resolve_host (\<lambda>h. Resolved [''8.8.8.8'', ''8.8.8.8'']), te_demo = demo\<rparr>"

lemma sample_ips_ok: "ip_lib_ok sample_ips"
  by (auto simp: ip_lib_ok_def sample_ips_def map_of_Cons_code split: if_splits)

lemma sample_subnet:
  "resolve_scan_target (sample_env False) ''subnet'' ''8.8.8.7/24'' =
     Inr \<lparr>st_type = ''subnet'', st_original = ''8.8.8.7/24'', st_addresses = [''8.8.8.0/24'']\<rparr>"
  by (simp add: resolve_scan_target_def target_addresses_def subnet_target_def validate_asset_value_def
      sample_env_def sample_lib_def sample_ips_def starts_with_def net_private_def net_tables)


lemma card_net:
  assumes "wf_net n"
  shows "finite {a. in_net a n} \<and> card {a. in_net a n} = num_addresses n"
proof (cases n)
  case (Net4 b p)
  note range = in_net_range(1) [OF assms [unfolded Net4]]
  have "{a. in_net a n} = V4 ` {b..b + (2 ^ (32 - p) - 1)}"
  proof (rule set_eqI)
    fix a show "a \<in> {a. in_net a n} \<longleftrightarrow> a \<in> V4 ` {b..b + (2 ^ (32 - p) - 1)}"
    proof (cases a)
      case (V4 x)
      have "in_net (V4 x) n \<longleftrightarrow> x \<in> {b..b + (2 ^ (32 - p) - 1)}"
        unfolding Net4 range by (simp only: atLeastAtMost_iff)
      then show ?thesis unfolding V4 by blast
    qed (auto simp: Net4)
  qed
  then show ?thesis using Net4 by (simp add: card_image inj_on_def)
next
  case (Net6 b p)
  note range = in_net_range(2) [OF assms [unfolded Net6]]
  have "{a. in_net a n} = V6 ` {b..b + (2 ^ (128 - p) - 1)}"
  proof (rule set_eqI)
    fix a show "a \<in> {a. in_net a n} \<longleftrightarrow> a \<in> V6 ` {b..b + (2 ^ (128 - p) - 1)}"
    proof (cases a)
      case (V6 x)
      have "in_net (V6 x) n \<longleftrightarrow> x \<in> {b..b + (2 ^ (128 - p) - 1)}"
        unfolding Net6 range by (simp only: atLeastAtMost_iff)
      then show ?thesis unfolding V6 by blast
    qed (auto simp: Net6)
  qed
  then show ?thesis using Net6 by (simp add: card_image inj_on_def)
qed

text \<open>
  A scan is bounded by its target.  A target that passes the gate reaches finitely many addresses:
  at most 256 for a subnet, and at most one for each resolved address otherwise.
\<close>

theorem target_size_bounded:
  assumes "canonical_texts (te_lib env)" and "ip_lib_ok (al_ip (te_lib env))"
    and "resolve_scan_target env ty v = Inr t"
  shows "finite {a. reaches (al_ip (te_lib env)) t a} \<and>
    card {a. reaches (al_ip (te_lib env)) t a} \<le> (if ty = ''subnet'' then 256 else length (st_addresses t))"
proof -
  let ?lib = "al_ip (te_lib env)"
  note out = resolve_outcome [OF assms(3)]
  show ?thesis
  proof (cases "ty = ''subnet''")
    case True
    with out obtain c n where n: "ip_network ?lib c = Some n" "num_addresses n \<le> 256"
      "st_addresses t = [net_text ?lib n]" by auto
    then have wf: "wf_net n" and net: "ip_network ?lib (net_text ?lib n) = Some n"
      using assms(1,2) by (auto simp: ip_lib_ok_def canonical_texts_def)
    have "{a. reaches ?lib t a} \<subseteq> {a. in_net a n}"
      using net n(1,3) assms(2) by (auto simp: reaches_def ip_lib_ok_def)
    with card_net [OF wf] n(2) have "finite {a. reaches ?lib t a}" "card {a. reaches ?lib t a} \<le> num_addresses n"
      by (auto intro: finite_subset card_mono [THEN le_trans])
    with True n(2) show ?thesis by simp
  next
    case False
    let ?R = "{a. reaches ?lib t a}" and ?I = "(\<lambda>s. the (ip_address ?lib s)) ` set (st_addresses t)"
    have sub: "?R \<subseteq> ?I"
    proof
      fix a assume "a \<in> {a. reaches ?lib t a}"
      then obtain s where s: "s \<in> set (st_addresses t)"
        "ip_address ?lib s = Some a \<or> ip_address ?lib s = None" by (auto simp: reaches_def)
      with out False obtain v where "public_ip env v = Inr s" by auto
      then have "ip_address ?lib s \<noteq> None"
        using assms(1) by (auto simp: public_ip_Inr canonical_texts_def)
      with s show "a \<in> (\<lambda>s. the (ip_address ?lib s)) ` set (st_addresses t)" by force
    qed
    have fin: "finite ?I" by simp
    have "card ?I \<le> length (st_addresses t)" by (rule le_trans [OF card_image_le card_length]) simp
    with card_mono [OF fin sub] have "card ?R \<le> length (st_addresses t)" by (rule le_trans)
    moreover have "finite ?R" using sub fin by (rule finite_subset)
    ultimately show ?thesis using False by simp
  qed
qed

lemma target_size_bounded_witness:
  "\<exists>t. resolve_scan_target (sample_env False) ''subnet'' ''8.8.8.7/24'' = Inr t \<and>
     card {a. reaches sample_ips t a} \<le> 256"
proof -
  have lib: "canonical_texts (te_lib (sample_env False))" "ip_lib_ok (al_ip (te_lib (sample_env False)))"
    using sample_lib_texts sample_ips_ok by (simp_all add: sample_env_def sample_lib_def)
  from target_size_bounded [OF lib sample_subnet] sample_subnet show ?thesis
    by (simp add: sample_env_def sample_lib_def)
qed

text \<open>
  Why IPv6 subnets are left out of the first property outside the demo mode: \<open>is_global\<close> of a network
  only looks for a block that holds both boundaries, so \<open>::/120\<close> passes although it holds the loopback
  address.
\<close>

lemma strict_subnet_reaches_loopback:
  "resolve_scan_target (sample_env False) ''subnet'' ''::/120'' =
     Inr \<lparr>st_type = ''subnet'', st_original = ''::/120'', st_addresses = [''::/120'']\<rparr> \<and>
   in_net (V6 1) (Net6 0 120) \<and> is_loopback (V6 1) \<and> \<not> is_global (V6 1)"
  by (simp add: resolve_scan_target_def target_addresses_def subnet_target_def validate_asset_value_def
      sample_env_def sample_lib_def sample_ips_def starts_with_def net_private_def net_tables ipv4_mapped_def
      is_private6_def listed_def)

end
