(* ===== verification/Nmap_Command.thy ===== *)
theory Nmap_Command
  imports Targets "HOL-Library.Multiset"
begin

text \<open>
  \<open>app/modules/scans/nmap/command.py\<close>: the fixed profiles and the argument vector of a scan.  The lemmas
  show that nothing a user supplies can become an option, and that every target the gate lets through
  is turned into one command per address family.
\<close>

definition NMAP_PROFILE :: "string list" where
  "NMAP_PROFILE = [''--privileged'', ''--host-timeout'', ''55m'', ''--script-timeout'', ''5m'', ''-sS'', ''-sU'',
     ''--top-ports'', ''1000'', ''-sV'', ''-O'', ''--script=vuln'', ''-oX'', ''-'']"

definition NMAP_DEMO_PROFILE :: "string list" where
  "NMAP_DEMO_PROFILE = [''--privileged'', ''--host-timeout'', ''5m'', ''--script-timeout'', ''60s'', ''-sS'', ''-sU'',
     ''-p'', ''T:21,22,80,3306,U:53,161'', ''-sV'', ''-O'', ''--script=vuln'', ''-oX'', ''-'']"

definition REQUIRED_SCAN_TYPES :: "string list" where
  "REQUIRED_SCAN_TYPES = [''syn'', ''udp'']"

definition family :: "ip_lib \<Rightarrow> string \<Rightarrow> nat option" where
  "family lib address = map_option version (ip_network lib address)"

text \<open>The dict of groups has the keys 4 and 6, in this order.\<close>

definition split_by_family :: "ip_lib \<Rightarrow> scan_target \<Rightarrow> exn + scan_target list" where
  "split_by_family lib target =
     (if list_all (\<lambda>a. family lib a \<noteq> None) (st_addresses target)
      then Inr (map (\<lambda>addresses. target\<lparr>st_addresses := addresses\<rparr>)
             (filter (\<lambda>addresses. addresses \<noteq> [])
               [filter (\<lambda>a. family lib a = Some 4) (st_addresses target),
                filter (\<lambda>a. family lib a = Some 6) (st_addresses target)]))
      else Inl (ValueError ''ip_network''))"

fun check_addresses :: "ip_lib \<Rightarrow> string list \<Rightarrow> exn option" where
  "check_addresses lib [] = None"
| "check_addresses lib (a # as) =
     (if starts_with ''-'' a \<or> CHR 0x00 \<in> set a \<or> list_ex is_space a then Some (ValueError ''invalid scan address'')
      else if ip_address lib a = None \<and> ip_network lib a = None
      then Some (ValueError ''scan address must be an IP or network literal'')
      else check_addresses lib as)"

definition build_nmap_command :: "bool \<Rightarrow> ip_lib \<Rightarrow> string \<Rightarrow> scan_target \<Rightarrow> exn + string list" where
  "build_nmap_command demo lib nmap_path target =
     (if nmap_path = [] \<or> CHR 0x00 \<in> set nmap_path then Inl (ValueError ''invalid Nmap binary path'')
      else if st_addresses target = [] then Inl (ValueError ''scan target requires at least one address'')
      else case check_addresses lib (st_addresses target) of
        Some e \<Rightarrow> Inl e
      | None \<Rightarrow> (case split_by_family lib target of
          Inl e \<Rightarrow> Inl e
        | Inr families \<Rightarrow>
            if 1 < length families then Inl (ValueError ''scan target mixes address families'')
            else Inr ([nmap_path] @ (if demo then NMAP_DEMO_PROFILE else NMAP_PROFILE) @
                   (if family lib (hd (st_addresses target)) = Some 6 then [''-6''] else []) @
                   [''--''] @ st_addresses target)))"

subsection \<open>Argument vectors\<close>

text \<open>A literal the scanner cannot take for an option.\<close>

definition plain_literal :: "ip_lib \<Rightarrow> string \<Rightarrow> bool" where
  "plain_literal lib a \<longleftrightarrow> \<not> starts_with ''-'' a \<and> CHR 0x00 \<notin> set a \<and> \<not> list_ex is_space a \<and>
     (ip_address lib a \<noteq> None \<or> ip_network lib a \<noteq> None)"

lemma check_addresses_None: "check_addresses lib as = None \<longleftrightarrow> list_all (plain_literal lib) as"
  by (induction as) (auto simp: plain_literal_def)

lemma family_cases: "family lib a \<noteq> None \<longleftrightarrow> family lib a = Some 4 \<or> family lib a = Some 6"
proof -
  have "version n = 4 \<or> version n = 6" for n by (cases n) auto
  then show ?thesis by (auto simp: family_def)
qed

lemma family_not4: "family lib a \<noteq> None \<Longrightarrow> family lib a = Some 6 \<longleftrightarrow> family lib a \<noteq> Some 4"
  using family_cases [of lib a] by auto

lemma mset_split: "mset (filter P xs @ filter (\<lambda>x. \<not> P x) xs) = mset xs"
  by (induction xs) auto

lemma while_split:
  "\<forall>x \<in> set xs. P x \<Longrightarrow> \<not> P y \<Longrightarrow> takeWhile P (xs @ y # ys) = xs \<and> dropWhile P (xs @ y # ys) = y # ys"
  by (induction xs) auto

lemma split_singleton:
  assumes "split_by_family lib t = Inr fs" and "length fs \<le> 1"
  shows "\<exists>f. list_all (\<lambda>a. family lib a = Some f) (st_addresses t)"
proof -
  let ?F = "\<lambda>v. filter (\<lambda>a. family lib a = Some v) (st_addresses t)"
  from assms(1) have all: "list_all (\<lambda>a. family lib a \<noteq> None) (st_addresses t)"
    and "length fs = length (filter (\<lambda>as. as \<noteq> []) [?F 4, ?F 6])"
    by (auto simp: split_by_family_def split: if_splits)
  with assms(2) have "?F 4 = [] \<or> ?F 6 = []" by (auto split: if_splits)
  with all have "list_all (\<lambda>a. family lib a = Some 6) (st_addresses t) \<or>
      list_all (\<lambda>a. family lib a = Some 4) (st_addresses t)"
    unfolding list_all_iff filter_empty_conv family_cases by blast
  then show ?thesis by blast
qed

lemma build_Inr:
  assumes "build_nmap_command demo lib path t = Inr argv"
  shows "st_addresses t \<noteq> [] \<and> list_all (plain_literal lib) (st_addresses t) \<and>
    (\<exists>f. list_all (\<lambda>a. family lib a = Some f) (st_addresses t) \<and>
      argv = path # (if demo then NMAP_DEMO_PROFILE else NMAP_PROFILE) @
        (if f = 6 then [''-6''] else []) @ ''--'' # st_addresses t)"
proof -
  from assms obtain fs where ne: "st_addresses t \<noteq> []" and chk: "check_addresses lib (st_addresses t) = None"
    and fs: "split_by_family lib t = Inr fs" "length fs \<le> 1"
    and argv: "argv = path # (if demo then NMAP_DEMO_PROFILE else NMAP_PROFILE) @
        (if family lib (hd (st_addresses t)) = Some 6 then [''-6''] else []) @ ''--'' # st_addresses t"
    by (auto simp: build_nmap_command_def split: if_splits option.splits sum.splits)
  from split_singleton [OF fs] obtain f where f: "list_all (\<lambda>a. family lib a = Some f) (st_addresses t)" by blast
  with ne have "family lib (hd (st_addresses t)) = Some f" by (simp add: list_all_iff)
  with f ne chk argv show ?thesis by (auto simp: check_addresses_None)
qed

text \<open>
  What a target's literals look like, as the parsers document it: they print without blanks, NUL or a
  leading dash, and read back as networks (an address as the network of this one address).
\<close>

definition clean_texts :: "ip_lib \<Rightarrow> bool" where
  "clean_texts lib \<longleftrightarrow>
     (\<forall>s a. ip_address lib s = Some a \<longrightarrow> plain_literal lib (ip_text lib a) \<and> family lib (ip_text lib a) \<noteq> None) \<and>
     (\<forall>s n. ip_network lib s = Some n \<longrightarrow> plain_literal lib (net_text lib n) \<and> family lib (net_text lib n) \<noteq> None)"

lemma resolved_literals:
  assumes "clean_texts (al_ip (te_lib env))" and "resolve_scan_target env ty v = Inr t"
    and "s \<in> set (st_addresses t)"
  shows "plain_literal (al_ip (te_lib env)) s \<and> family (al_ip (te_lib env)) s \<noteq> None"
  using resolve_outcome [OF assms(2)] assms(1,3)
  by (auto simp: clean_texts_def public_ip_Inr split: if_splits)

lemma split_build:
  assumes "list_all (plain_literal lib) (st_addresses t)" and "split_by_family lib t = Inr fs" and "f \<in> set fs"
    and "path \<noteq> []" and "CHR 0x00 \<notin> set path"
  shows "\<exists>argv. build_nmap_command demo lib path f = Inr argv"
proof -
  from assms(2,3) obtain k where f: "f = t\<lparr>st_addresses := filter (\<lambda>a. family lib a = Some k) (st_addresses t)\<rparr>"
    "st_addresses f \<noteq> []" "k \<in> {4, 6}"
    by (auto simp: split_by_family_def split: if_splits)
  then have same: "list_all (\<lambda>a. family lib a = Some k) (st_addresses f)" by (simp add: list_all_iff)
  have chk: "check_addresses lib (st_addresses f) = None"
    using assms(1) f by (auto simp: check_addresses_None list_all_iff)
  have "filter (\<lambda>a. family lib a = Some j) (st_addresses f) = []" if "j \<noteq> k" for j
    using same that by (auto simp: filter_empty_conv list_all_iff)
  with f(3) have "length (filter (\<lambda>as. as \<noteq> []) [filter (\<lambda>a. family lib a = Some 4) (st_addresses f),
      filter (\<lambda>a. family lib a = Some 6) (st_addresses f)]) \<le> 1" by (cases "k = 4") auto
  moreover have "list_all (\<lambda>a. family lib a \<noteq> None) (st_addresses f)"
    using same by (auto simp: list_all_iff)
  ultimately obtain gs where "split_by_family lib f = Inr gs" "length gs \<le> 1"
    by (simp add: split_by_family_def)
  with chk assms(4,5) f(2) show ?thesis by (auto simp: build_nmap_command_def)
qed

subsection \<open>Properties\<close>

text \<open>
  C18: No argument injection.  The arguments before the separator \<open>--\<close> are the binary, one of the two
  constant profiles and at most \<open>-6\<close>, whatever the target is; behind the separator are exactly the
  target's addresses, each one a literal the parsers read, of one address family, without blanks, NUL
  or a leading dash.
\<close>

theorem argv_injection_free:
  assumes "build_nmap_command demo lib path t = Inr argv" and "path \<noteq> ''--''"
  shows "takeWhile (\<lambda>x. x \<noteq> ''--'') argv \<in>
      {path # (if demo then NMAP_DEMO_PROFILE else NMAP_PROFILE) @ six | six. six \<in> {[], [''-6'']}} \<and>
    dropWhile (\<lambda>x. x \<noteq> ''--'') argv = ''--'' # st_addresses t \<and> st_addresses t \<noteq> [] \<and>
    list_all (plain_literal lib) (st_addresses t) \<and>
    (\<exists>f. list_all (\<lambda>a. family lib a = Some f) (st_addresses t))"
proof -
  let ?profile = "if demo then NMAP_DEMO_PROFILE else NMAP_PROFILE"
  from build_Inr [OF assms(1)] obtain f where
    argv: "argv = (path # ?profile @ (if f = 6 then [''-6''] else [])) @ ''--'' # st_addresses t"
    and rest: "st_addresses t \<noteq> []" "list_all (plain_literal lib) (st_addresses t)"
      "list_all (\<lambda>a. family lib a = Some f) (st_addresses t)" by auto
  define pre where "pre = path # ?profile @ (if f = 6 then [''-6''] else [])"
  have "\<forall>x \<in> set pre. x \<noteq> ''--''"
    using assms(2) by (auto simp: pre_def NMAP_DEMO_PROFILE_def NMAP_PROFILE_def)
  from while_split [OF this] have "takeWhile (\<lambda>x. x \<noteq> ''--'') argv = pre"
    "dropWhile (\<lambda>x. x \<noteq> ''--'') argv = ''--'' # st_addresses t" by (simp_all add: argv pre_def)
  moreover have "pre \<in> {path # ?profile @ six | six. six \<in> {[], [''-6'']}}" by (auto simp: pre_def)
  ultimately show ?thesis using rest by auto
qed

definition sample_target :: scan_target where
  "sample_target = \<lparr>st_type = ''subnet'', st_original = ''8.8.8.7/24'', st_addresses = [''8.8.8.0/24'']\<rparr>"

lemma argv_injection_free_witness:
  "\<exists>argv. build_nmap_command False sample_ips ''nmap'' sample_target = Inr argv \<and>
     dropWhile (\<lambda>x. x \<noteq> ''--'') argv = [''--'', ''8.8.8.0/24'']"
proof -
  have "build_nmap_command False sample_ips ''nmap'' sample_target =
      Inr (''nmap'' # NMAP_PROFILE @ [''--'', ''8.8.8.0/24''])"
    by (simp add: build_nmap_command_def split_by_family_def family_def sample_target_def sample_ips_def
        starts_with_def is_space_def)
  with argv_injection_free [OF this] show ?thesis by (simp add: sample_target_def)
qed

text \<open>
  Every target the gate accepts can be scanned.  Given parsers with the documented texts, the target
  is split into one or two parts, each of one family, which together hold exactly its addresses, and a
  command is built for each part: no \<open>ValueError\<close> can leave the scan node here.
\<close>

theorem accepted_target_builds:
  assumes "clean_texts (al_ip (te_lib env))" and "resolve_scan_target env ty v = Inr t"
    and "path \<noteq> []" and "CHR 0x00 \<notin> set path"
  shows "\<exists>fs. split_by_family (al_ip (te_lib env)) t = Inr fs \<and> fs \<noteq> [] \<and>
    mset (concat (map st_addresses fs)) = mset (st_addresses t) \<and>
    (\<forall>f \<in> set fs. \<exists>argv. build_nmap_command demo (al_ip (te_lib env)) path f = Inr argv)"
proof -
  let ?lib = "al_ip (te_lib env)"
  note lits = resolved_literals [OF assms(1,2)]
  then have plain: "list_all (plain_literal ?lib) (st_addresses t)"
    and fam: "list_all (\<lambda>a. family ?lib a \<noteq> None) (st_addresses t)" by (auto simp: list_all_iff)
  then obtain fs where fs: "split_by_family ?lib t = Inr fs" by (simp add: split_by_family_def)
  have "concat (map st_addresses fs) = filter (\<lambda>a. family ?lib a = Some 4) (st_addresses t) @
      filter (\<lambda>a. family ?lib a = Some 6) (st_addresses t)"
    using fs fam by (auto simp: split_by_family_def)
  moreover have "filter (\<lambda>a. family ?lib a = Some 6) (st_addresses t) =
      filter (\<lambda>a. \<not> family ?lib a = Some 4) (st_addresses t)"
    using fam family_not4 [of ?lib] by (intro filter_cong refl) (simp add: list_all_iff)
  ultimately have "mset (concat (map st_addresses fs)) = mset (st_addresses t)"
    by (simp only: mset_split)
  moreover from this have "fs \<noteq> []" using resolve_outcome [OF assms(2)] by auto
  ultimately show ?thesis using fs split_build [OF plain fs _ assms(3,4)] by blast
qed

lemma map_of_all: "list_all (\<lambda>(k, v). P v) xs \<Longrightarrow> \<forall>k v. map_of xs k = Some v \<longrightarrow> P v"
  by (auto simp: list_all_iff dest: map_of_SomeD)

lemma sample_clean: "clean_texts sample_ips"
  unfolding clean_texts_def sample_ips_def ip_lib.simps
  by (intro conjI map_of_all) (simp_all add: plain_literal_def family_def starts_with_def is_space_def)

lemma accepted_target_builds_witness:
  "\<exists>fs. split_by_family sample_ips sample_target = Inr fs \<and>
     (\<exists>f \<in> set fs. \<exists>argv. build_nmap_command False sample_ips ''nmap'' f = Inr argv)"
proof -
  have lib: "al_ip (te_lib (sample_env False)) = sample_ips" by (simp add: sample_env_def sample_lib_def)
  have "resolve_scan_target (sample_env False) ''subnet'' ''8.8.8.7/24'' = Inr sample_target"
    by (simp add: sample_subnet sample_target_def)
  from accepted_target_builds [of "sample_env False", unfolded lib, OF sample_clean this, of "''nmap''" False]
  obtain fs where "split_by_family sample_ips sample_target = Inr fs" "fs \<noteq> []"
    "\<forall>f \<in> set fs. \<exists>argv. build_nmap_command False sample_ips ''nmap'' f = Inr argv" by auto
  then show ?thesis by (cases fs) auto
qed

end
