(* ===== verification/Nmap_Runner.thy ===== *)
theory Nmap_Runner
  imports Prelude Complex_Main
begin

text \<open>
  \<open>app/modules/scans/nmap/runner.py\<close>: the two readers of the pipes as loops over a stream, and
  \<open>run_nmap\<close> over an operating system that answers \<open>which\<close> and the creation of the process.  The signals
  of the clean-up are not modelled.  The lemmas show that the readers end, that they depend on the bytes
  only and not on how the pipe hands them out, and that a result is bounded.
\<close>

type_synonym bytes = "nat list"

text \<open>\<open>NmapRunError\<close> with its reason and detail.\<close>

datatype run_error = NmapRunError string "string option" | BadLimits

subsection \<open>Streams\<close>

text \<open>
  A stream is the list of the chunks the pipe will hand out; none is empty.  \<open>await stream.read(n)\<close> with
  \<open>0 < n\<close> takes at most \<open>n\<close> bytes of the next chunk, and nothing at the end of the stream.
\<close>

type_synonym stream = "bytes list"

fun stream_read :: "nat \<Rightarrow> stream \<Rightarrow> bytes \<times> stream" where
  "stream_read n [] = ([], [])"
| "stream_read n (c # cs) = (if length c \<le> n then (c, cs) else (take n c, drop n c # cs))"

definition stream_ok :: "stream \<Rightarrow> bool" where
  "stream_ok s \<longleftrightarrow> [] \<notin> set s"

lemma stream_read_data:
  "stream_read n s = (c, s') \<Longrightarrow> concat s = c @ concat s' \<and> length c \<le> max n 0"
  by (cases s) (auto split: if_splits)

lemma stream_read_shrinks:
  "stream_read n s = (c, s') \<Longrightarrow> c \<noteq> [] \<Longrightarrow> length (concat s') < length (concat s)"
  using stream_read_data [of n s c s'] by simp

lemma stream_read_ok: "stream_read n s = (c, s') \<Longrightarrow> stream_ok s \<Longrightarrow> 0 < n \<Longrightarrow> stream_ok s'"
  by (cases s) (auto simp: stream_ok_def split: if_splits)

lemma stream_read_end: "stream_read n s = ([], s') \<Longrightarrow> stream_ok s \<Longrightarrow> 0 < n \<Longrightarrow> s = []"
  by (cases s) (auto simp: stream_ok_def split: if_splits)

subsection \<open>The readers\<close>

text \<open>\<open>_stdout\<close>, its local variable \<open>output\<close> as an argument.\<close>

function stdout_loop :: "nat \<Rightarrow> bytes \<Rightarrow> stream \<Rightarrow> run_error + bytes" where
  "stdout_loop cap out s =
     (case stream_read (min 65536 (cap - length out + 1)) s of (chunk, s') \<Rightarrow>
        if chunk = [] then Inr out
        else if cap < length out + length chunk then Inl (NmapRunError ''output_too_large'' None)
        else stdout_loop cap (out @ chunk) s')"
  by pat_completeness auto

termination
  by (relation "measure (\<lambda>(cap, out, s). length (concat s))") (auto dest!: stream_read_shrinks [OF sym])

definition read_stdout :: "nat \<Rightarrow> stream \<Rightarrow> run_error + bytes" where
  "read_stdout cap s = stdout_loop cap [] s"

text \<open>\<open>_stderr\<close>: the last 4096 bytes.\<close>

definition last_bytes :: "nat \<Rightarrow> bytes \<Rightarrow> bytes" where
  "last_bytes n b = drop (length b - n) b"

function stderr_loop :: "bytes \<Rightarrow> stream \<Rightarrow> bytes" where
  "stderr_loop tail s =
     (case stream_read 65536 s of (chunk, s') \<Rightarrow>
        if chunk = [] then tail else stderr_loop (last_bytes 4096 (tail @ chunk)) s')"
  by pat_completeness auto

termination
  by (relation "measure (\<lambda>(tail, s). length (concat s))") (auto dest!: stream_read_shrinks [OF sym])

definition read_stderr :: "stream \<Rightarrow> bytes" where
  "read_stderr s = stderr_loop [] s"

function discard_stream :: "stream \<Rightarrow> unit" where
  "discard_stream s = (case stream_read 65536 s of (chunk, s') \<Rightarrow> if chunk = [] then () else discard_stream s')"
  by pat_completeness auto

termination
  by (relation "measure (\<lambda>s. length (concat s))") (auto dest!: stream_read_shrinks [OF sym])

declare stdout_loop.simps [simp del] stderr_loop.simps [simp del] discard_stream.simps [simp del]

subsection \<open>Running the scanner\<close>

text \<open>
  What the operating system does: the paths it finds, and for a command line whether the process starts,
  runs longer than the deadline, or what it writes and returns.  \<open>decode\<close> is
  \<open>bytes.decode(errors="replace")\<close>.
\<close>

datatype process =
    NoPermission
  | NoFile
  | TooSlow
  | Ran stream stream int

record os =
  os_which :: "string \<Rightarrow> string option"
  os_spawn :: "string list \<Rightarrow> process"
  os_decode :: "bytes \<Rightarrow> string"

record run_result =
  rr_stdout :: bytes
  rr_stderr_tail :: string
  rr_returncode :: int

definition SUPERVISOR_EXITS :: "int \<Rightarrow> string option" where
  "SUPERVISOR_EXITS = map_of [(126, ''nmap_not_permitted''), (124, ''timeout'')]"

definition supervised :: "string \<Rightarrow> string \<Rightarrow> int \<Rightarrow> string list \<Rightarrow> string list" where
  "supervised setpriv supervisor n command =
     [setpriv, ''--pdeathsig'', ''TERM'', supervisor, ''--kill-after=5'', show_int n] @ command"

definition run_command :: "os \<Rightarrow> string list \<Rightarrow> int option \<Rightarrow> run_error + string list" where
  "run_command os argv supervise_seconds = (case os_which os (hd argv) of
       None \<Rightarrow> Inl (NmapRunError ''nmap_not_found'' None)
     | Some resolved \<Rightarrow> (case supervise_seconds of
         None \<Rightarrow> Inr (resolved # tl argv)
       | Some n \<Rightarrow> (case (os_which os ''setpriv'', os_which os ''timeout'') of
           (Some setpriv, Some supervisor) \<Rightarrow> Inr (supervised setpriv supervisor n (resolved # tl argv))
         | _ \<Rightarrow> Inl (NmapRunError ''nmap_supervisor_missing'' None))))"

text \<open>A float argument is \<open>None\<close> when it is not finite.\<close>

definition limits_ok :: "string list \<Rightarrow> rat option \<Rightarrow> int \<Rightarrow> rat option \<Rightarrow> int option \<Rightarrow> bool" where
  "limits_ok argv timeout max_output_bytes grace_period supervise_seconds \<longleftrightarrow>
     argv \<noteq> [] \<and> (case timeout of None \<Rightarrow> False | Some t \<Rightarrow> 0 < t) \<and> 0 < max_output_bytes \<and>
     (case grace_period of None \<Rightarrow> False | Some t \<Rightarrow> 0 < t) \<and>
     (case supervise_seconds of None \<Rightarrow> True | Some n \<Rightarrow> 0 < n)"

definition run_nmap ::
  "os \<Rightarrow> string list \<Rightarrow> rat option \<Rightarrow> int \<Rightarrow> rat option \<Rightarrow> int option \<Rightarrow> run_error + run_result" where
  "run_nmap os argv timeout max_output_bytes grace_period supervise_seconds =
     (if \<not> limits_ok argv timeout max_output_bytes grace_period supervise_seconds then Inl BadLimits
      else case run_command os argv supervise_seconds of
        Inl e \<Rightarrow> Inl e
      | Inr command \<Rightarrow> (case os_spawn os command of
          NoPermission \<Rightarrow> Inl (NmapRunError ''nmap_not_permitted'' None)
        | NoFile \<Rightarrow> Inl (NmapRunError ''nmap_not_found'' None)
        | TooSlow \<Rightarrow> Inl (NmapRunError ''timeout'' None)
        | Ran out err returncode \<Rightarrow>
            (case read_stdout (nat max_output_bytes) out of
               Inl e \<Rightarrow> Inl e
             | Inr stdout \<Rightarrow>
                 let tail = os_decode os (read_stderr err)
                 in if supervise_seconds \<noteq> None \<and> SUPERVISOR_EXITS returncode \<noteq> None
                    then Inl (NmapRunError (the (SUPERVISOR_EXITS returncode)) (Some tail))
                    else if returncode \<noteq> 0 then Inl (NmapRunError ''nonzero_exit'' (Some tail))
                    else Inr \<lparr>rr_stdout = stdout, rr_stderr_tail = tail, rr_returncode = returncode\<rparr>)))"

subsection \<open>What the readers compute\<close>

lemma stdout_loop_eq:
  "stream_ok s \<Longrightarrow> length out \<le> cap \<Longrightarrow> stdout_loop cap out s =
     (if length (out @ concat s) \<le> cap then Inr (out @ concat s)
      else Inl (NmapRunError ''output_too_large'' None))"
proof (induction cap out s rule: stdout_loop.induct)
  case (1 cap out s)
  obtain c s' where r: "stream_read (min 65536 (cap - length out + 1)) s = (c, s')" by fastforce
  note data = stream_read_data [OF r]
  show ?case
  proof (cases "c = []")
    case True
    with stream_read_end [of _ s s'] r 1(2) have "s = []" by simp
    with 1(3) r True show ?thesis by (subst stdout_loop.simps) simp
  next
    case False
    show ?thesis
    proof (cases "cap < length out + length c")
      case True
      with r False data show ?thesis by (subst stdout_loop.simps) auto
    next
      case fits: False
      have "stdout_loop cap (out @ c) s' =
          (if length ((out @ c) @ concat s') \<le> cap then Inr ((out @ c) @ concat s')
           else Inl (NmapRunError ''output_too_large'' None))"
        using 1(1) [OF r [symmetric] False fits] stream_read_ok [OF r 1(2)] fits by simp
      with r False fits data show ?thesis by (subst stdout_loop.simps) auto
    qed
  qed
qed

lemma read_stdout_eq:
  "stream_ok s \<Longrightarrow> read_stdout cap s =
     (if length (concat s) \<le> cap then Inr (concat s) else Inl (NmapRunError ''output_too_large'' None))"
  by (simp add: read_stdout_def stdout_loop_eq)

lemma last_bytes_append: "last_bytes n (last_bytes n b @ c) = last_bytes n (b @ c)"
  by (cases "length b \<le> n") (auto simp: last_bytes_def add.commute)

lemma stderr_loop_eq:
  "stream_ok s \<Longrightarrow> length tail \<le> 4096 \<Longrightarrow> stderr_loop tail s = last_bytes 4096 (tail @ concat s)"
proof (induction tail s rule: stderr_loop.induct)
  case (1 tail s)
  obtain c s' where r: "stream_read 65536 s = (c, s')" by fastforce
  note data = stream_read_data [OF r]
  show ?case
  proof (cases "c = []")
    case True
    with stream_read_end [of _ s s'] r 1(2) have "s = []" by simp
    with 1(3) r True show ?thesis by (subst stderr_loop.simps) (simp add: last_bytes_def)
  next
    case False
    have "stderr_loop (last_bytes 4096 (tail @ c)) s' = last_bytes 4096 (last_bytes 4096 (tail @ c) @ concat s')"
      using 1(1) [OF r [symmetric] False] stream_read_ok [OF r 1(2)] by (simp add: last_bytes_def)
    with r False data show ?thesis by (subst stderr_loop.simps) (simp add: last_bytes_append)
  qed
qed

lemma read_stderr_eq: "stream_ok s \<Longrightarrow> read_stderr s = last_bytes 4096 (concat s)"
  by (simp add: read_stderr_def stderr_loop_eq)

subsection \<open>Properties\<close>

text \<open>
  C34: The readers return what the bytes determine, however the pipe cuts them up: the standard output is
  returned whole when it has at most \<open>cap\<close> bytes and refused as too large otherwise, and the tail is the
  last 4096 bytes of the standard error.  (Both loops end on every stream: they are total functions.)
\<close>

theorem readers_chunk_independent:
  assumes "stream_ok s" and "stream_ok t" and "concat s = concat t"
  shows "read_stdout cap s = read_stdout cap t \<and> read_stderr s = read_stderr t \<and>
    read_stdout cap s = (if length (concat s) \<le> cap then Inr (concat s)
                         else Inl (NmapRunError ''output_too_large'' None)) \<and>
    read_stderr s = last_bytes 4096 (concat s)"
  using assms by (simp add: read_stdout_eq read_stderr_eq)

lemma readers_chunk_independent_witness:
  "read_stdout 3 [[7, 8], [9]] = read_stdout 3 [[7], [8, 9]] \<and> read_stderr [[7, 8], [9]] = last_bytes 4096 [7, 8, 9]"
proof -
  have "stream_ok [[7, 8], [9]]" "stream_ok [[7], [8, 9]]" "concat [[7, 8], [9]] = concat [[7], [8, 9 :: nat]]"
    by (simp_all add: stream_ok_def)
  note all = readers_chunk_independent [OF this, of 3]
  have "concat [[7, 8], [9]] = [7, 8, 9 :: nat]" by simp
  with all show ?thesis by metis
qed

definition run_reasons :: "string list" where
  "run_reasons = [''nmap_not_found'', ''nmap_supervisor_missing'', ''nmap_not_permitted'', ''timeout'',
     ''output_too_large'', ''nonzero_exit'']"


definition sample_os :: os where
  "sample_os = \<lparr>os_which = (\<lambda>p. Some (''/usr/bin/'' @ p)), os_spawn = (\<lambda>c. Ran [[60], [62]] [[33]] 0),
     os_decode = map (\<lambda>n. if n = 33 then CHR ''!'' else CHR ''?'')\<rparr>"


end
