(* ===== verification/Scan_Graph.thy ===== *)
theory Scan_Graph
  imports Nmap_Command Nmap_Runner Vulns
begin

text \<open>
  The scan pipeline, \<open>app/agents/scan_graph.py\<close>, \<open>state.py\<close> and \<open>runner.py\<close>: the four nodes, the graph
  that stops at the first node that sets \<open>error\<close>, and the wrapper that turns a failure into state.  LangGraph
  only runs the nodes along the edges and merges what they return.  The program that runs the scanner is
  a parameter, \<open>ge_run\<close>: it takes its time, so it may change the world as other sessions do meanwhile.
  The specification is a graph without the third node: it stores every finding of every document.  The lemmas
  show that the graph refines it and that every reason it ends with can be stored.
\<close>

text \<open>\<open>ScanState\<close> with the keys the nodes use.\<close>

record scan_state =
  ss_asset :: "string \<times> string"
  ss_documents :: "string list"
  ss_raw :: "string option"
  ss_findings :: "finding_draft list"
  ss_skipped :: nat
  ss_error :: "string option"
  ss_completed :: bool

text \<open>\<open>ge_supervise\<close> is \<open>settings.NMAP_PROCESS_SUPERVISION\<close>; \<open>ge_run\<close> gets the arguments of \<open>run\<close>.\<close>

record 'r graph_env =
  ge_target :: target_env
  ge_path :: string
  ge_timeout :: rat
  ge_max_bytes :: int
  ge_supervise :: bool
  ge_run :: "string list \<Rightarrow> rat \<Rightarrow> int \<Rightarrow> int option \<Rightarrow> ('r, run_error + run_result) db_prog"
  ge_decode :: "bytes \<Rightarrow> string"
  ge_reader :: "string \<Rightarrow> reading"
  ge_float :: "string \<Rightarrow> rat"
  ge_repr :: "json \<Rightarrow> string"
  ge_now :: time
  ge_fresh :: "nat \<Rightarrow> uuid"

definition NMAP_TIMEOUT_SECONDS :: rat where
  "NMAP_TIMEOUT_SECONDS = 3600"

definition NMAP_MAX_OUTPUT_BYTES :: int where
  "NMAP_MAX_OUTPUT_BYTES = 10 * 1024 * 1024"

subsection \<open>The nodes\<close>

definition ge_ips :: "'r graph_env \<Rightarrow> ip_lib" where
  "ge_ips env = al_ip (te_lib (ge_target env))"

definition int_of_float :: "rat \<Rightarrow> int" where
  "int_of_float x = (if 0 \<le> x then \<lfloor>x\<rfloor> else \<lceil>x\<rceil>)"

text \<open>The loop over the families: the documents, or the reason of the first run that failed.\<close>

fun scan_families :: "'r graph_env \<Rightarrow> scan_target list \<Rightarrow> string list \<Rightarrow> ('r, string + string list) db_prog" where
  "scan_families env [] documents = retE (Inr documents)"
| "scan_families env (t # ts) documents =
     bindE (ofE (build_nmap_command (te_demo (ge_target env)) (ge_ips env) (ge_path env) t)) (\<lambda>argv.
     bindE (ge_run env argv (ge_timeout env) (ge_max_bytes env)
             (if ge_supervise env then Some (int_of_float (ge_timeout env)) else None)) (\<lambda>r. case r of
         Inl (NmapRunError reason detail) \<Rightarrow> retE (Inl reason)
       | Inl BadLimits \<Rightarrow> raiseE (ValueError ''argv and positive finite resource limits are required'')
       | Inr result \<Rightarrow> scan_families env ts (documents @ [ge_decode env (rr_stdout result)])))"

text \<open>\<open>"\\n".join(documents)\<close>.\<close>

fun join_lines :: "string list \<Rightarrow> string" where
  "join_lines [] = ''''"
| "join_lines [d] = d"
| "join_lines (d # ds) = d @ CHR 0x0A # join_lines ds"

definition scan_node :: "'r graph_env \<Rightarrow> scan_state \<Rightarrow> ('r, scan_state) db_prog" where
  "scan_node env s = (case resolve_scan_target (ge_target env) (fst (ss_asset s)) (snd (ss_asset s)) of
       Inl (TargetRejected reason) \<Rightarrow> retE (s\<lparr>ss_error := Some reason\<rparr>)
     | Inl (TargetRaises e) \<Rightarrow> raiseE e
     | Inr target \<Rightarrow>
         bindE (ofE (split_by_family (ge_ips env) target)) (\<lambda>families.
         bindE (scan_families env families []) (\<lambda>r. case r of
             Inl reason \<Rightarrow> retE (s\<lparr>ss_error := Some reason\<rparr>)
           | Inr documents \<Rightarrow> retE (s\<lparr>ss_documents := documents, ss_raw := Some (join_lines documents)\<rparr>))))"

fun parse_documents :: "'r graph_env \<Rightarrow> string list \<Rightarrow> finding_draft list \<Rightarrow> string + finding_draft list" where
  "parse_documents env [] drafts = Inr drafts"
| "parse_documents env (d # ds) drafts = (case parse_nmap_xml (ge_reader env) d of
       Inl reason \<Rightarrow> Inl reason
     | Inr report \<Rightarrow> (case verify_scan_types REQUIRED_SCAN_TYPES report of
         Inl reason \<Rightarrow> Inl reason
       | Inr _ \<Rightarrow> parse_documents env ds (drafts @ extract_findings (ge_float env) report)))"

definition parse_node :: "'r graph_env \<Rightarrow> scan_state \<Rightarrow> scan_state" where
  "parse_node env s = (case parse_documents env (ss_documents s) [] of
       Inl reason \<Rightarrow> s\<lparr>ss_error := Some reason\<rparr>
     | Inr drafts \<Rightarrow> s\<lparr>ss_findings := drafts\<rparr>)"

fun dedup :: "(json \<Rightarrow> string) \<Rightarrow> string list \<Rightarrow> finding_draft list \<Rightarrow> finding_draft list \<times> nat" where
  "dedup repr seen [] = ([], 0)"
| "dedup repr seen (d # ds) =
     (if draft_identity repr d \<in> set seen
      then (case dedup repr seen ds of (kept, n) \<Rightarrow> (kept, Suc n))
      else (case dedup repr (draft_identity repr d # seen) ds of (kept, n) \<Rightarrow> (d # kept, n)))"

definition dedup_node :: "'r graph_env \<Rightarrow> scan_state \<Rightarrow> scan_state" where
  "dedup_node env s = (case dedup (ge_repr env) [] (ss_findings s) of
     (kept, skipped) \<Rightarrow> s\<lparr>ss_findings := kept, ss_skipped := skipped\<rparr>)"

definition persist_node :: "'r graph_env \<Rightarrow> uuid \<Rightarrow> uuid \<Rightarrow> scan_state \<Rightarrow> ('r, scan_state) db_prog" where
  "persist_node env scan_id tenant_id s =
     thenE (set_tenant_context (Some tenant_id) False)
       (bindE (upsert_findings (ge_repr env) (ge_now env) (ge_fresh env) scan_id tenant_id (ss_findings s))
         (\<lambda>result. retE (s\<lparr>ss_completed := True\<rparr>)))"

subsection \<open>The graph\<close>

text \<open>\<open>state.get("error")\<close> as a condition.\<close>

definition has_error :: "scan_state \<Rightarrow> bool" where
  "has_error s \<longleftrightarrow> ss_error s \<notin> {None, Some ''''}"

definition next_step :: "(scan_state \<Rightarrow> ('r, scan_state) db_prog) \<Rightarrow> scan_state \<Rightarrow> ('r, scan_state) db_prog" where
  "next_step following s = (if has_error s then retE s else following s)"

definition scan_graph :: "'r graph_env \<Rightarrow> uuid \<Rightarrow> uuid \<Rightarrow> scan_state \<Rightarrow> ('r, scan_state) db_prog" where
  "scan_graph env scan_id tenant_id s =
     bindE (scan_node env s) (next_step (\<lambda>s.
     bindE (retE (parse_node env s)) (next_step (\<lambda>s.
     bindE (retE (dedup_node env s)) (next_step (\<lambda>s.
     persist_node env scan_id tenant_id s))))))"

definition run_agent_safely ::
  "(scan_state \<Rightarrow> ('r, scan_state) db_prog) \<Rightarrow> scan_state \<Rightarrow> ('r, scan_state) db_prog" where
  "run_agent_safely graph initial = catchE (graph initial)
     (\<lambda>e. if is_app_exception e then retE (initial\<lparr>ss_error := Some ''internal_error'', ss_completed := False\<rparr>)
          else raiseE e)"

definition initial_state :: "string \<times> string \<Rightarrow> scan_state" where
  "initial_state asset = \<lparr>ss_asset = asset, ss_documents = [], ss_raw = None, ss_findings = [], ss_skipped = 0,
     ss_error = None, ss_completed = False\<rparr>"

subsection \<open>The repeats of one run\<close>

lemma dedup_upsert:
  assumes "\<forall>d \<in> set ds. fd_severity d \<in> set VALID_SEVERITIES" and "set seen \<subseteq> set stored"
    and "dedup repr seen ds = (kept, skipped)"
  shows "fst (upsert_loop repr row stored k kept) = fst (upsert_loop repr row stored k ds) \<and>
    snd (upsert_loop repr row stored k kept) + skipped = snd (upsert_loop repr row stored k ds)"
  using assms
proof (induction ds arbitrary: seen stored k kept skipped)
  case (Cons d ds)
  show ?case
  proof (cases "draft_identity repr d \<in> set seen")
    case True
    with Cons.prems obtain n where n: "dedup repr seen ds = (kept, n)" "skipped = Suc n"
      by (auto split: prod.splits)
    from Cons.IH [OF _ Cons.prems(2) n(1), of k] True Cons.prems n(2) show ?thesis
      by (auto split: prod.splits)
  next
    case False
    with Cons.prems obtain kept' where n: "dedup repr (draft_identity repr d # seen) ds = (kept', skipped)"
      and kept: "kept = d # kept'" by (auto split: prod.splits)
    have new: "set (draft_identity repr d # seen) \<subseteq> set (if draft_identity repr d \<in> set stored then stored
        else draft_identity repr d # stored)" using Cons.prems(2) by auto
    from Cons.IH [OF _ new n, of "if draft_identity repr d \<in> set stored then k else Suc k"] Cons.prems(1)
    show ?thesis unfolding kept by (auto split: prod.splits if_splits)
  qed
qed simp

lemma dedup_empty: "dedup repr seen ds = (kept, n) \<Longrightarrow> length kept + n = length ds"
  by (induction ds arbitrary: seen kept n) (auto split: prod.splits if_splits)

lemma extracted_severities: "d \<in> set (extract_findings fl report) \<Longrightarrow> fd_severity d \<in> set VALID_SEVERITIES"
  using extracted_severity by (fastforce simp: VALID_SEVERITIES_def)

lemma parsed_severities:
  "parse_documents env docs drafts = Inr ds \<Longrightarrow> \<forall>d \<in> set drafts. fd_severity d \<in> set VALID_SEVERITIES \<Longrightarrow>
     \<forall>d \<in> set ds. fd_severity d \<in> set VALID_SEVERITIES"
  by (induction env docs drafts rule: parse_documents.induct)
    (auto split: sum.splits dest: extracted_severities)

subsection \<open>The specification\<close>

text \<open>What the scan found, or why it failed: no state, no repeats dropped.\<close>

definition scan_findings :: "'r graph_env \<Rightarrow> string \<times> string \<Rightarrow> ('r, string + (string \<times> finding_draft list)) db_prog" where
  "scan_findings env asset = (case resolve_scan_target (ge_target env) (fst asset) (snd asset) of
       Inl (TargetRejected reason) \<Rightarrow> retE (Inl reason)
     | Inl (TargetRaises e) \<Rightarrow> raiseE e
     | Inr target \<Rightarrow>
         bindE (ofE (split_by_family (ge_ips env) target)) (\<lambda>families.
         bindE (scan_families env families []) (\<lambda>r. case r of
             Inl reason \<Rightarrow> retE (Inl reason)
           | Inr documents \<Rightarrow> (case parse_documents env documents [] of
               Inl reason \<Rightarrow> retE (Inl reason)
             | Inr drafts \<Rightarrow> retE (Inr (join_lines documents, drafts))))))"

text \<open>A scan fails with a reason or stores all it found.\<close>

definition scan_spec ::
  "'r graph_env \<Rightarrow> uuid \<Rightarrow> uuid \<Rightarrow> string \<times> string \<Rightarrow> ('r, string + string) db_prog" where
  "scan_spec env scan_id tenant_id asset =
     bindE (scan_findings env asset) (\<lambda>r. case r of
         Inl reason \<Rightarrow> retE (Inl reason)
       | Inr (raw, drafts) \<Rightarrow> thenE (set_tenant_context (Some tenant_id) False)
           (bindE (upsert_findings (ge_repr env) (ge_now env) (ge_fresh env) scan_id tenant_id drafts)
             (\<lambda>result. retE (Inr raw))))"

text \<open>What the executor reads out of a final state.\<close>

definition scan_result :: "scan_state \<Rightarrow> string + string" where
  "scan_result s = (if has_error s then Inl (the (ss_error s))
     else Inr (case ss_raw s of None \<Rightarrow> '''' | Some raw \<Rightarrow> raw))"

definition mapE :: "('a \<Rightarrow> 'b) \<Rightarrow> ('s, 'e, 'a) prog \<Rightarrow> ('s, 'e, 'b) prog" where
  "mapE f m = bindE m (\<lambda>x. retE (f x))"

text \<open>A reason \<open>transition_scan\<close> accepts.\<close>

definition storable :: "string \<Rightarrow> bool" where
  "storable reason \<longleftrightarrow> reason \<noteq> '''' \<and> length reason \<le> 64"

text \<open>\<open>run_nmap\<close> gives a reason whenever it fails, see \<open>run_nmap_bounded\<close>.\<close>

definition gives_reasons :: "'r graph_env \<Rightarrow> bool" where
  "gives_reasons env \<longleftrightarrow> (\<forall>argv t m s w reason detail w'.
     ge_run env argv t m s w = (Inr (Inl (NmapRunError reason detail)), w') \<longrightarrow> storable reason)"

subsection \<open>Reasons\<close>

definition target_reasons :: "string list" where
  "target_reasons = [''target_invalid'', ''target_not_global'', ''target_too_large'', ''target_resolution_timeout'',
     ''target_unresolvable'', ''target_unsupported_type'']"

lemma target_reasons_in [simp]:
  "''target_invalid'' \<in> set target_reasons" "''target_not_global'' \<in> set target_reasons"
  "''target_too_large'' \<in> set target_reasons" "''target_resolution_timeout'' \<in> set target_reasons"
  "''target_unresolvable'' \<in> set target_reasons" "''target_unsupported_type'' \<in> set target_reasons"
  unfolding target_reasons_def by (intro list.set_intros)+

lemma storable_codes: "list_all storable target_reasons" "list_all storable parse_reasons" "storable ''internal_error''"
  by code_simp+

lemma public_ip_reason: "public_ip env a = Inl (TargetRejected r) \<Longrightarrow> r \<in> set target_reasons"
  by (auto simp: public_ip_def split: option.splits if_splits)

lemma public_ips_reason: "public_ips env as = Inl (TargetRejected r) \<Longrightarrow> r \<in> set target_reasons"
  by (induction as) (auto split: sum.splits dest: public_ip_reason)

lemma host_target_reason: "host_target env h = Inl (TargetRejected r) \<Longrightarrow> r \<in> set target_reasons"
  by (auto simp: host_target_def split: resolution.splits if_splits dest: public_ips_reason)

lemma subnet_target_reason: "subnet_target env h = Inl (TargetRejected r) \<Longrightarrow> r \<in> set target_reasons"
  by (auto simp: subnet_target_def Let_def split: option.splits if_split_asm)

lemma target_addresses_reason: "target_addresses env ty c = Inl (TargetRejected r) \<Longrightarrow> r \<in> set target_reasons"
  by (auto simp: target_addresses_def Let_def map_sum_Inl split: if_split_asm
      dest: host_target_reason public_ip_reason subnet_target_reason)

lemma target_reason: "resolve_scan_target env ty v = Inl (TargetRejected r) \<Longrightarrow> storable r"
proof -
  assume "resolve_scan_target env ty v = Inl (TargetRejected r)"
  then have "r \<in> set target_reasons"
    by (auto simp: resolve_scan_target_def map_sum_Inl split: if_split_asm sum.split_asm dest: target_addresses_reason)
  with storable_codes(1) show ?thesis by (simp add: list_all_iff)
qed

lemma document_reason: "parse_documents env ds drafts = Inl r \<Longrightarrow> storable r"
proof (induction env ds drafts rule: parse_documents.induct)
  case (2 env d ds drafts)
  show ?case
  proof (cases "parse_nmap_xml (ge_reader env) d")
    case (Inl x)
    with 2(2) parse_Inl [OF Inl] storable_codes(2) show ?thesis by (simp add: list_all_iff)
  next
    case (Inr rep)
    with 2 storable_codes(2) show ?thesis
      by (auto simp: verify_scan_types_def list_all_iff split: if_split_asm)
  qed
qed simp

lemma gives_reasonsD:
  "gives_reasons env \<Longrightarrow> ge_run env argv t m s w = (Inr (Inl (NmapRunError reason detail)), w') \<Longrightarrow> storable reason"
  unfolding gives_reasons_def by blast

lemma families_reason:
  "gives_reasons env \<Longrightarrow> scan_families env ts docs w = (Inr (Inl r), w') \<Longrightarrow> storable r"
proof (induction env ts docs arbitrary: w rule: scan_families.induct)
  case (2 env t ts docs)
  let ?secs = "if ge_supervise env then Some (int_of_float (ge_timeout env)) else None"
  from 2(3) obtain argv u x v where argv: "ofE (build_nmap_command (te_demo (ge_target env)) (ge_ips env) (ge_path env) t) w = (Inr argv, u)"
    and x: "ge_run env argv (ge_timeout env) (ge_max_bytes env) ?secs u = (Inr x, v)"
    and rest: "(case x of Inl (NmapRunError reason detail) \<Rightarrow> retE (Inl reason)
       | Inl BadLimits \<Rightarrow> raiseE (ValueError ''argv and positive finite resource limits are required'')
       | Inr result \<Rightarrow> scan_families env ts (docs @ [ge_decode env (rr_stdout result)])) v = (Inr (Inl r), w')"
    by (simp add: bindE_success) blast
  show ?case
  proof (cases x)
    case (Inl e)
    with rest x gives_reasonsD [OF 2(2)] show ?thesis by (cases e) auto
  next
    case (Inr result)
    with rest 2 show ?thesis by auto
  qed
qed simp

subsection \<open>Properties\<close>

lemma bindE_retE [simp]: "bindE (retE x) f = f x"
  by (rule ext) simp

lemma initial_state_simps [simp]:
  "ss_asset (initial_state asset) = asset" "ss_documents (initial_state asset) = []"
  "ss_raw (initial_state asset) = None" "ss_error (initial_state asset) = None"
  "ss_completed (initial_state asset) = False"
  by (simp_all add: initial_state_def)

lemma upsert_findings_dedup:
  assumes "dedup repr [] ds = (kept, skipped)" and "\<forall>d \<in> set ds. fd_severity d \<in> set VALID_SEVERITIES"
  shows "bindE (upsert_findings repr now fresh scan tenant kept) (\<lambda>_. k) w =
    bindE (upsert_findings repr now fresh scan tenant ds) (\<lambda>_. k) w"
proof -
  let ?seen = "map (row_identity repr) (filter (\<lambda>r. v_scan r = scan \<and> v_tenant r = tenant) (seen_vulns w))"
  let ?loop = "upsert_loop repr (\<lambda>k. finding_row tenant scan now (fresh k)) ?seen 0"
  obtain rows n where 1: "?loop kept = (rows, n)" by fastforce
  with dedup_upsert [OF assms(2) _ assms(1), of ?seen "\<lambda>k. finding_row tenant scan now (fresh k)" 0]
  have 2: "?loop ds = (rows, n + skipped)" by (cases "?loop ds") simp
  show ?thesis
    using 1 2 by (simp add: upsert_findings_def bindE_assoc) (simp add: thenE_def bindE_assoc)
qed

definition collect :: "'r graph_env \<Rightarrow> scan_target \<Rightarrow> ('r, string + string list) db_prog" where
  "collect env target = bindE (ofE (split_by_family (ge_ips env) target)) (\<lambda>families. scan_families env families [])"

lemma collect_reason: "gives_reasons env \<Longrightarrow> collect env target w = (Inr (Inl r), w') \<Longrightarrow> storable r"
  by (auto simp: collect_def bindE_success dest: families_reason)

lemma has_error_storable [simp]: "ss_error s = Some r \<Longrightarrow> storable r \<Longrightarrow> has_error s"
  by (simp add: has_error_def storable_def)

lemma has_error_none [simp]: "ss_error s = None \<Longrightarrow> \<not> has_error s"
  by (simp add: has_error_def)

lemma scan_graph_spec:
  assumes "gives_reasons env"
  shows "mapE scan_result (scan_graph env scan_id tenant_id (initial_state asset)) w =
    scan_spec env scan_id tenant_id asset w"
proof (cases "resolve_scan_target (ge_target env) (fst asset) (snd asset)")
  case (Inl e)
  then show ?thesis
    by (cases e) (simp_all add: mapE_def scan_graph_def scan_node_def scan_spec_def scan_findings_def
        next_step_def scan_result_def bindE_def target_reason)
next
  case target: (Inr target)
  obtain r w1 where r: "collect env target w = (r, w1)" by fastforce
  have node: "scan_node env (initial_state asset) w = bindE (collect env target) (\<lambda>r. case r of
      Inl reason \<Rightarrow> retE ((initial_state asset)\<lparr>ss_error := Some reason\<rparr>)
    | Inr documents \<Rightarrow> retE ((initial_state asset)\<lparr>ss_documents := documents, ss_raw := Some (join_lines documents)\<rparr>)) w"
    using target by (simp add: scan_node_def collect_def bindE_assoc)
  have spec: "scan_findings env asset w = bindE (collect env target) (\<lambda>r. case r of
      Inl reason \<Rightarrow> retE (Inl reason)
    | Inr documents \<Rightarrow> (case parse_documents env documents [] of
        Inl reason \<Rightarrow> retE (Inl reason)
      | Inr drafts \<Rightarrow> retE (Inr (join_lines documents, drafts)))) w"
    using target by (simp add: scan_findings_def collect_def bindE_assoc)
  show ?thesis
  proof (cases r)
    case (Inl e)
    with r node spec show ?thesis by (simp add: mapE_def scan_graph_def scan_spec_def bindE_def)
  next
    case (Inr x)
    show ?thesis
    proof (cases x)
      case (Inl reason)
      with r Inr collect_reason [OF assms] have "storable reason" by blast
      with Inl Inr r node spec show ?thesis
        by (simp add: mapE_def scan_graph_def scan_spec_def next_step_def scan_result_def bindE_def)
    next
      case docs: (Inr documents)
      show ?thesis
      proof (cases "parse_documents env documents []")
        case (Inl reason)
        with document_reason have "storable reason" by blast
        with Inl docs Inr r node spec show ?thesis
          by (simp add: mapE_def scan_graph_def scan_spec_def next_step_def scan_result_def bindE_def parse_node_def)
      next
        case drafts: (Inr drafts)
        have sev: "\<forall>d \<in> set drafts. fd_severity d \<in> set VALID_SEVERITIES"
          using parsed_severities [OF drafts] by simp
        obtain kept n where kept: "dedup (ge_repr env) [] drafts = (kept, n)" by fastforce
        note same = upsert_findings_dedup [OF kept sev, where now = "ge_now env" and fresh = "ge_fresh env"
            and scan = scan_id and tenant = tenant_id and k = "retE (Inr (join_lines documents))"]
        let ?s = "(initial_state asset)\<lparr>ss_documents := documents, ss_raw := Some (join_lines documents)\<rparr>"
        have 1: "scan_node env (initial_state asset) w = (Inr ?s, w1)"
          and 2: "scan_findings env asset w = (Inr (Inr (join_lines documents, drafts)), w1)"
          using drafts docs Inr r node spec by (simp_all add: bindE_def)
        note runs = bindE_Inr [of "scan_node env (initial_state asset)" w, OF 1]
          bindE_Inr [of "scan_findings env asset" w, OF 2]
        from drafts kept same show ?thesis
          unfolding mapE_def scan_graph_def scan_spec_def bindE_assoc runs
          by (simp add: next_step_def parse_node_def dedup_node_def persist_node_def scan_result_def bindE_assoc thenE_def)
            (simp add: bindE_def retE_def [abs_def])
      qed
    qed
  qed
qed

text \<open>
  C10: The pipeline refines its specification.  From a fresh state and any world, the graph of four nodes
  raises the exception the specification raises, ends with the reason the specification fails with, or
  stores exactly the rows the specification stores and hands on the same raw output, and leaves the same
  world: dropping the repeats of a run before they reach the database is invisible, and a node that sets
  \<open>error\<close> ends the graph before anything is stored.
\<close>

theorem scan_graph_refines_spec:
  assumes "gives_reasons env"
  shows "mapE scan_result (scan_graph env scan_id tenant_id (initial_state asset)) w =
    scan_spec env scan_id tenant_id asset w"
  using assms by (rule scan_graph_spec)

text \<open>What a run of the specification gives.\<close>

lemma scan_findings_reason:
  assumes "gives_reasons env" and "scan_findings env asset w = (Inr (Inl reason), w')"
  shows "storable reason"
proof (cases "resolve_scan_target (ge_target env) (fst asset) (snd asset)")
  case (Inl e)
  with assms(2) show ?thesis by (cases e) (auto simp: scan_findings_def target_reason)
next
  case (Inr target)
  with assms(2) have "bindE (collect env target) (\<lambda>r. case r of
      Inl reason \<Rightarrow> retE (Inl reason)
    | Inr documents \<Rightarrow> (case parse_documents env documents [] of
        Inl reason \<Rightarrow> retE (Inl reason)
      | Inr drafts \<Rightarrow> retE (Inr (join_lines documents, drafts)))) w = (Inr (Inl reason), w')"
    by (simp add: scan_findings_def collect_def bindE_assoc)
  then obtain x u where x: "collect env target w = (Inr x, u)"
    and rest: "(case x of Inl reason \<Rightarrow> retE (Inl reason)
    | Inr documents \<Rightarrow> (case parse_documents env documents [] of
        Inl reason \<Rightarrow> retE (Inl reason)
      | Inr drafts \<Rightarrow> retE (Inr (join_lines documents, drafts)))) u = (Inr (Inl reason) :: exn + _, w')"
    by (rule bindE_InrE)
  show ?thesis
  proof (cases x)
    case (Inl r)
    with x rest collect_reason [OF assms(1)] show ?thesis by auto
  next
    case (Inr documents)
    with rest show ?thesis
      by (cases "parse_documents env documents []") (auto dest: document_reason)
  qed
qed

lemma scan_spec_reason:
  assumes "gives_reasons env" and "scan_spec env i tenant asset w = (Inr (Inl reason), w')"
  shows "storable reason"
proof -
  from assms(2) obtain r u where r: "scan_findings env asset w = (Inr r, u)"
    and rest: "(case r of Inl reason \<Rightarrow> retE (Inl reason)
       | Inr (raw, drafts) \<Rightarrow> thenE (set_tenant_context (Some tenant) False)
           (bindE (upsert_findings (ge_repr env) (ge_now env) (ge_fresh env) i tenant drafts)
             (\<lambda>result. retE (Inr raw)))) u = (Inr (Inl reason), w')"
    by (auto simp: scan_spec_def bindE_success)
  show ?thesis
  proof (cases r)
    case (Inl q)
    with r rest scan_findings_reason [OF assms(1)] show ?thesis by auto
  next
    case (Inr p)
    with rest show ?thesis by (cases p) (auto simp: thenE_def bindE_success)
  qed
qed

lemma scan_spec_stored:
  assumes "scan_spec env i tenant asset w = (Inr (Inr raw), w')"
  shows "violation (work w') = None \<and> guc w' = \<lparr>g_tenant = Some tenant, g_super = False\<rparr>"
proof -
  from assms obtain r u where r: "scan_findings env asset w = (Inr r, u)"
    and rest: "(case r of Inl reason \<Rightarrow> retE (Inl reason)
       | Inr (raw, drafts) \<Rightarrow> thenE (set_tenant_context (Some tenant) False)
           (bindE (upsert_findings (ge_repr env) (ge_now env) (ge_fresh env) i tenant drafts)
             (\<lambda>result. retE (Inr raw)))) u = (Inr (Inr raw), w')"
    by (auto simp: scan_spec_def bindE_success)
  then obtain raw' drafts where "r = Inr (raw', drafts)" by (cases r) auto
  with rest obtain res where "upsert_findings (ge_repr env) (ge_now env) (ge_fresh env) i tenant drafts
      (u\<lparr>guc := \<lparr>g_tenant = Some tenant, g_super = False\<rparr>\<rparr>) = (Inr res, w')"
    by (auto simp: thenE_def bindE_success)
  then show ?thesis by (rule upsert_findings_Inr) auto
qed

definition sample_report :: xml where
  "sample_report = Elem ''nmaprun'' [] [Elem ''scaninfo'' [(''type'', ''syn'')] [], Elem ''scaninfo'' [(''type'', ''udp'')] [],
     Elem ''host'' [] [Elem ''address'' [(''addr'', ''8.8.8.8'')] [],
       Elem ''hostscript'' [] [Elem ''script'' [(''id'', ''x''), (''output'', ''VULNERABLE'')] [],
                               Elem ''script'' [(''id'', ''X ''), (''output'', ''VULNERABLE'')] []]],
     Elem ''runstats'' [] [Elem ''finished'' [] []]]"

definition sample_graph :: "'r graph_env" where
  "sample_graph = \<lparr>ge_target = sample_env False, ge_path = ''nmap'', ge_timeout = 3600, ge_max_bytes = 9, ge_supervise = True,
     ge_run = (\<lambda>argv t m s. retE (if argv = [] then Inl (NmapRunError ''nmap_not_found'' None)
       else Inr \<lparr>rr_stdout = [60], rr_stderr_tail = '''', rr_returncode = 0\<rparr>)),
     ge_decode = (\<lambda>b. ''doc''), ge_reader = (\<lambda>d. Root sample_report), ge_float = (\<lambda>s. 0), ge_repr = (\<lambda>j. ''''),
     ge_now = 5, ge_fresh = (\<lambda>k. 70 + k)\<rparr>"

lemma sample_graph_reasons: "gives_reasons sample_graph"
  by (auto simp: gives_reasons_def sample_graph_def storable_def split: if_splits)

lemma sample_documents:
  "parse_documents sample_graph [''doc''] [] =
     Inr (map (\<lambda>i. \<lparr>fd_title = i @ '' on 8.8.8.8'', fd_description = ''VULNERABLE'', fd_severity = ''medium'', fd_cve = None,
       fd_cvss = None, fd_metadata = [(''source'', JStr ''nmap''), (''script_id'', JStr i), (''host'', JStr ''8.8.8.8''),
         (''port'', JNull), (''protocol'', JNull), (''severity_source'', JStr ''default'')]\<rparr>) [''x'', ''X ''])"
proof -
  have p: "parse_nmap_xml (\<lambda>d. Root sample_report) ''doc'' = Inr \<lparr>nr_scan_types = [''syn'', ''udp''], nr_hosts = [
      \<lparr>nh_addresses = [''8.8.8.8''], nh_hostnames = [], nh_status = None, nh_os = [], nh_ports = [],
       nh_scripts = [\<lparr>sf_id = Some ''x'', sf_output = Some ''VULNERABLE''\<rparr>, \<lparr>sf_id = Some ''X '', sf_output = Some ''VULNERABLE''\<rparr>]\<rparr>]\<rparr>"
    by code_simp
  let ?s = "''VULNERABLE''"
  have "re_sub not_vulnerable_at None ?s = ?s" "re_search vulnerable_at None ?s = Some 10"
    "re_sub vector_at None ?s = ?s" "re_search score_at None ?s = None" "re_search cve_at None ?s = None"
    by code_simp+
  with p show ?thesis
    by (simp add: sample_graph_def verify_scan_types_def REQUIRED_SCAN_TYPES_def extract_findings_def script_draft_def
        List.map_filter_simps Let_def severity_from_cvss_def show_opt_def opt_str_def)
qed

lemma scan_graph_refines_spec_witness:
  "\<exists>w'. mapE scan_result (scan_graph sample_graph 7 1 (initial_state (''subnet'', ''8.8.8.7/24'')))
      (sample_state [sample_scan 7 1 2 ''n'']) = (Inr (Inr ''doc''), w') \<and> map v_id (vulns (work w')) = [70]"
proof -
  let ?w = "sample_state [sample_scan 7 1 2 ''n'']"
  let ?m = "scan_spec sample_graph 7 1 (''subnet'', ''8.8.8.7/24'')"
  have t: "resolve_scan_target (ge_target sample_graph) ''subnet'' ''8.8.8.7/24'' = Inr sample_target"
    by (simp add: sample_graph_def sample_subnet sample_target_def)
  have f: "split_by_family (ge_ips sample_graph) sample_target = Inr [sample_target]"
    by (simp add: ge_ips_def sample_graph_def sample_env_def sample_lib_def split_by_family_def family_def
        sample_target_def sample_ips_def)
  have "build_nmap_command False sample_ips ''nmap'' sample_target = Inr (''nmap'' # NMAP_PROFILE @ [''--'', ''8.8.8.0/24''])"
    by (simp add: build_nmap_command_def split_by_family_def family_def sample_target_def sample_ips_def
        starts_with_def is_space_def)
  then have s: "scan_families sample_graph [sample_target] [] = retE (Inr [''doc''])"
    by (intro ext) (simp add: ge_ips_def sample_graph_def sample_env_def sample_lib_def ofE_def)
  have c: "char_of (120 :: nat) = CHR ''x''" by code_simp
  have ids: "finding_identity (\<lambda>j. '''') (Some [(''source'', JStr ''nmap''), (''script_id'', JStr i), (''host'', JStr ''8.8.8.8''),
         (''port'', JNull), (''protocol'', JNull), (''severity_source'', JStr ''default'')]) None ti = ''x|8.8.8.8|||''"
    if "i \<in> {''x'', ''X ''}" for i ti
    using that by (auto simp: finding_identity_def meta_field_def py_str_def lower_def lower_char_def upper_def strip_def
        rstrip_def lstrip_def is_space_def Let_def c)
  have sel: "ge_now sample_graph = 5" "ge_fresh sample_graph = (\<lambda>k. 70 + k)" "ge_repr sample_graph = (\<lambda>j. '''')"
    by (simp_all add: sample_graph_def)
  have "?m ?w = (Inr (Inr ''doc''), snd (?m ?w)) \<and> map v_id (vulns (work (snd (?m ?w)))) = [70]"
    by (simp add: scan_spec_def scan_findings_def t f s ofE_def sample_documents upsert_findings_def draft_identity_def
        VALID_SEVERITIES_def seen_vulns_def finding_row_def ids
        insert_checked_def insert_vulns_def flush_def rls_row_def constraint_defs sample_state_def sel
        sample_defs eval_simps del: scan_families.simps parse_documents.simps cong: eval_congs)
  with scan_graph_refines_spec [OF sample_graph_reasons, of 7 1 "(''subnet'', ''8.8.8.7/24'')" ?w] show ?thesis by metis
qed

end
