(* ===== verification/Executor.thy ===== *)
theory Executor
  imports Scan_Graph Scan_Lifecycle
begin

text \<open>
  The entry point of the worker, \<open>app/modules/scans/executor.py\<close>: the scan state machine around the graph,
  with its rollbacks, its single commit and the shielded transitions.  A cancellation of the task is an
  input: at every \<open>await\<close> it may arrive before the statement took effect or after, and it may arrive during
  a shielded cleanup, which then finishes first.  The lemmas show that a scan the executor owns is never
  left running.
\<close>

subsection \<open>Cancellation\<close>

datatype interrupt = Quiet | Before | After

datatype await_point =
    AwaitContext | AwaitLoad | AwaitClaimContext | AwaitClaim | AwaitGraphContext | AwaitGraph
  | AwaitComplete | AwaitRollback | AwaitCommit

datatype cleanup_point = CleanupMissing | CleanupError | CleanupInternal | CleanupCancel

fun awaited :: "interrupt \<Rightarrow> ('r, 'a) db_prog \<Rightarrow> ('r, 'a) db_prog" where
  "awaited Quiet m = m"
| "awaited Before m = raiseE Cancelled"
| "awaited After m = thenE m (raiseE Cancelled)"

text \<open>\<open>_shielded\<close>: the result, or the exception, of the cleanup; then the cancellation that arrived meanwhile.\<close>

definition shielded :: "bool \<Rightarrow> ('r, 'a) db_prog \<Rightarrow> ('r, 'a) db_prog" where
  "shielded cancelled cleanup = bindE cleanup (\<lambda>result. if cancelled then raiseE Cancelled else retE result)"

subsection \<open>The executor\<close>

record 'r exec_env =
  xe_refuse :: "tables \<Rightarrow> exn option"
  xe_graph :: "'r graph_env"
  xe_await :: "await_point \<Rightarrow> interrupt"
  xe_late :: "cleanup_point \<Rightarrow> bool"
  xe_now :: "string \<Rightarrow> time"

definition db_phase :: "uuid \<Rightarrow> ('r, unit) db_prog" where
  "db_phase tenant_id = set_tenant_context (Some tenant_id) False"

text \<open>The join of the two tables; \<open>one_or_none\<close> raises on several rows.\<close>

definition load_scan :: "uuid \<Rightarrow> uuid \<Rightarrow> ('r, (string \<times> string) option) db_prog" where
  "load_scan scan_id tenant_id =
     bindE (getE (\<lambda>w. concat (map (\<lambda>s. map (\<lambda>a. (a_type a, a_value a))
         (filter (\<lambda>a. sc_asset s = a_id a \<and> sc_tenant s = a_tenant a) (seen_assets w)))
       (filter (\<lambda>s. sc_id s = scan_id \<and> sc_tenant s = tenant_id) (seen_scans w)))))
     scalar_one_or_none"

definition exec_fail :: "'r exec_env \<Rightarrow> uuid \<Rightarrow> uuid \<Rightarrow> string \<Rightarrow> ('r, string) db_prog" where
  "exec_fail env scan_id tenant_id reason =
     thenE rollback (thenE (db_phase tenant_id)
       (bindE (transition_scan (xe_refuse env) (xe_now env ''failed'') scan_id ''failed'' (Some reason) None True)
         (\<lambda>ok. retE (if ok then ''failed'' else ''cancelled''))))"

definition exec_cancel :: "'r exec_env \<Rightarrow> uuid \<Rightarrow> uuid \<Rightarrow> ('r, unit) db_prog" where
  "exec_cancel env scan_id tenant_id =
     thenE rollback (thenE (db_phase tenant_id)
       (bindE (transition_scan (xe_refuse env) (xe_now env ''cancelled'') scan_id ''cancelled'' None None True)
         (\<lambda>ok. retE ())))"

text \<open>The two handlers, for the value the variable \<open>claimed\<close> has (\<open>own\<close>).\<close>

definition guarded :: "'r exec_env \<Rightarrow> uuid \<Rightarrow> uuid \<Rightarrow> bool \<Rightarrow> ('r, string) db_prog \<Rightarrow> ('r, string) db_prog" where
  "guarded env scan_id tenant_id own body = catchE body (\<lambda>e.
     if \<not> is_app_exception e
     then thenE (whenE own (shielded (xe_late env CleanupCancel) (exec_cancel env scan_id tenant_id))) (raiseE e)
     else if \<not> own then raiseE e
     else shielded (xe_late env CleanupInternal) (exec_fail env scan_id tenant_id ''internal_error''))"

text \<open>From the second \<open>_db_phase\<close> on, when the scan is claimed.\<close>

definition run_claimed :: "'r exec_env \<Rightarrow> uuid \<Rightarrow> uuid \<Rightarrow> string \<times> string \<Rightarrow> ('r, string) db_prog" where
  "run_claimed env scan_id tenant_id asset =
     thenE (awaited (xe_await env AwaitGraphContext) (db_phase tenant_id))
       (bindE (awaited (xe_await env AwaitGraph)
                (run_agent_safely (scan_graph (xe_graph env) scan_id tenant_id) (initial_state asset))) (\<lambda>state.
          if has_error state
          then shielded (xe_late env CleanupError) (exec_fail env scan_id tenant_id (the (ss_error state)))
          else bindE (awaited (xe_await env AwaitComplete)
                 (transition_scan (xe_refuse env) (xe_now env ''completed'') scan_id ''completed'' None
                   (Some (case ss_raw state of None \<Rightarrow> '''' | Some raw \<Rightarrow> raw)) False)) (\<lambda>ok.
               if \<not> ok then thenE (awaited (xe_await env AwaitRollback) rollback) (retE ''cancelled'')
               else thenE (awaited (xe_await env AwaitCommit) (commit (xe_refuse env))) (retE ''completed''))))"

definition execute_scan :: "'r exec_env \<Rightarrow> uuid \<Rightarrow> uuid \<Rightarrow> bool \<Rightarrow> ('r, string) db_prog" where
  "execute_scan env scan_id tenant_id own =
     guarded env scan_id tenant_id own
       (thenE (awaited (xe_await env AwaitContext) (db_phase tenant_id))
         (bindE (awaited (xe_await env AwaitLoad) (load_scan scan_id tenant_id)) (\<lambda>asset. case asset of
            None \<Rightarrow> if own
              then shielded (xe_late env CleanupMissing) (exec_fail env scan_id tenant_id ''asset_missing'')
              else retE ''skipped''
          | Some asset \<Rightarrow>
              if own then run_claimed env scan_id tenant_id asset
              else thenE (awaited (xe_await env AwaitClaimContext) (db_phase tenant_id))
                (bindE (awaited (xe_await env AwaitClaim)
                    (transition_scan (xe_refuse env) (xe_now env ''running'') scan_id ''running'' None None True)) (\<lambda>ok.
                  if \<not> ok then retE ''skipped''
                  else guarded env scan_id tenant_id True (run_claimed env scan_id tenant_id asset))))))"

subsection \<open>Transitions keep the constraints\<close>

lemma pending_update_where:
  "(\<And>r. sc_status (f r) \<noteq> Pending) \<Longrightarrow> filter (\<lambda>r. sc_status r = Pending) (update_where p f xs) =
     filter (\<lambda>r. \<not> p r) (filter (\<lambda>r. sc_status r = Pending) xs)"
  by (induction xs) auto

lemma transition_values_fields [simp]:
  "sc_status (transition_values now st reason raw r) = st"
  "sc_asset (transition_values now st reason raw r) = sc_asset r"
  "sc_name (transition_values now st reason raw r) = sc_name r"
  "sc_type (transition_values now st reason raw r) = sc_type r"
  by (simp_all add: transition_values_def Let_def)

lemma update_keeps_constraints:
  assumes "violation t = None"
    and "\<And>r. sc_id (f r) = sc_id r \<and> sc_tenant (f r) = sc_tenant r \<and> sc_asset (f r) = sc_asset r \<and>
      sc_name (f r) = sc_name r \<and> sc_type (f r) = sc_type r \<and> sc_status (f r) \<noteq> Pending"
  shows "violation (t\<lparr>scans := update_where p f (scans t)\<rparr>) = None"
proof -
  let ?ss = "update_where p f (scans t)"
  have "filter (\<lambda>r. sc_status r = Pending) ?ss = filter (\<lambda>r. \<not> p r) (filter (\<lambda>r. sc_status r = Pending) (scans t))"
    by (rule pending_update_where) (simp add: assms(2))
  then have names: "distinct (map (\<lambda>r. (sc_tenant r, sc_asset r, sc_name r)) (filter (\<lambda>r. sc_status r = Pending) ?ss))"
    using distinct_map_filter_key [OF valid_pending_names [OF assms(1)], of "\<lambda>r. \<not> p r"] by (simp only:)
  have ids: "map sc_id ?ss = map sc_id (scans t)" by (simp add: map_update_where assms(2))
  have keys: "(\<lambda>s. (sc_id s, sc_tenant s)) ` set ?ss = (\<lambda>s. (sc_id s, sc_tenant s)) ` set (scans t)"
    using arg_cong [where f = set, OF map_update_where [of "\<lambda>s. (sc_id s, sc_tenant s)" f p "scans t"]] assms(2) by simp
  have cols: "map (\<lambda>r. (sc_type r, sc_tenant r, sc_asset r)) ?ss = map (\<lambda>r. (sc_type r, sc_tenant r, sc_asset r)) (scans t)"
    by (simp add: map_update_where assms(2))
  have rows: "(\<forall>r \<in> set ?ss. P (sc_type r) (sc_tenant r) (sc_asset r)) \<longleftrightarrow>
      (\<forall>r \<in> set (scans t). P (sc_type r) (sc_tenant r) (sc_asset r))" for P
    using arg_cong [where f = "list_all (\<lambda>(ty, te, a). P ty te a)", OF cols] by (simp add: list_all_iff)
  have "satisfied scans_ok (t\<lparr>scans := ?ss\<rparr>) = satisfied scans_ok t"
    using names ids valid_pending_names [OF assms(1)] rows [of "\<lambda>ty te a. ty \<in> {''discovery'', ''vulnerability'', ''web'', ''full''}"]
      rows [of "\<lambda>ty te a. te \<in> t_id ` set (tenants t)"]
      rows [of "\<lambda>ty te a. (a, te) \<in> (\<lambda>a. (a_id a, a_tenant a)) ` set (assets t)"]
    unfolding satisfied_def scans_ok_def by simp
  with assms(1) satisfied_vulns_keys [OF keys] show ?thesis by (simp add: violation_satisfied satisfied_constraints)
qed

lemma transition_keeps_constraints:
  "violation t = None \<Longrightarrow> st \<noteq> Pending \<Longrightarrow>
     violation (t\<lparr>scans := update_where p (transition_values now st reason raw) (scans t)\<rparr>) = None"
  by (rule update_keeps_constraints) simp_all

subsection \<open>What every run keeps\<close>

text \<open>
  The committed tables of a claimed scan: they satisfy the constraints, and the row, if there still is one,
  is one of the tenant and has been started.
\<close>

definition held :: "uuid \<Rightarrow> uuid \<Rightarrow> tables \<Rightarrow> bool" where
  "held i tenant t \<longleftrightarrow> violation t = None \<and>
     (\<forall>r \<in> set (scans t). sc_id r = i \<longrightarrow> sc_tenant r = tenant \<and> sc_status r \<noteq> Pending)"

text \<open>Other sessions may commit anything that keeps this while the session waits.\<close>

definition idle :: "uuid \<Rightarrow> uuid \<Rightarrow> 'r world \<Rightarrow> bool" where
  "idle i tenant w \<longleftrightarrow> held i tenant (committed w) \<and> scans (work w) = scans (committed w)"

text \<open>No row of the scan is left without an outcome.\<close>

definition finished :: "uuid \<Rightarrow> tables \<Rightarrow> bool" where
  "finished i t \<longleftrightarrow> (\<forall>r \<in> set (scans t). sc_id r = i \<longrightarrow> sc_status r \<in> set TERMINAL_STATUSES)"

definition all_in :: "scan_status \<Rightarrow> uuid \<Rightarrow> tables \<Rightarrow> bool" where
  "all_in st i t \<longleftrightarrow> (\<exists>r \<in> set (scans t). sc_id r = i) \<and> (\<forall>r \<in> set (scans t). sc_id r = i \<longrightarrow> sc_status r = st)"

definition tenant_rls :: "uuid \<Rightarrow> rls" where
  "tenant_rls tenant = \<lparr>g_tenant = Some tenant, g_super = False\<rparr>"

lemma db_phase_run [simp]: "db_phase tenant w = (Inr (), w\<lparr>guc := tenant_rls tenant\<rparr>)"
  by (simp add: db_phase_def tenant_rls_def)

lemma tenant_rls_row [simp]: "rls_row (tenant_rls tenant) t \<longleftrightarrow> t = tenant"
  by (auto simp: rls_row_def tenant_rls_def)

definition movable :: "scan_status \<Rightarrow> uuid \<Rightarrow> uuid \<Rightarrow> scan_row \<Rightarrow> bool" where
  "movable st i tenant r \<longleftrightarrow> sc_tenant r = tenant \<and> sc_id r = i \<and> sc_status r \<in> set (ALLOWED_FROM st)"

text \<open>A transition to a terminal status, run under the context of the tenant on tables that hold the scan.\<close>

definition move_to :: "time \<Rightarrow> scan_status \<Rightarrow> string option \<Rightarrow> string option \<Rightarrow> uuid \<Rightarrow> uuid \<Rightarrow> tables \<Rightarrow> tables" where
  "move_to now st reason raw i tenant t = t\<lparr>scans := update_where (movable st i tenant)
     (transition_values now st reason raw) (scans t)\<rparr>"

lemma move_to_valid: "violation t = None \<Longrightarrow> st \<noteq> Pending \<Longrightarrow> violation (move_to now st reason raw i tenant t) = None"
  unfolding move_to_def by (rule transition_keeps_constraints)

lemma move_to_row:
  assumes "r \<in> set (scans (move_to now st reason raw i tenant t))"
  obtains (same) "r \<in> set (scans t)" "\<not> movable st i tenant r"
    | (moved) q where "q \<in> set (scans t)" "sc_id r = sc_id q" "sc_tenant r = sc_tenant q" "sc_status r = st"
  using assms unfolding move_to_def by (auto simp: update_where_image movable_def split: if_split_asm)

lemma move_to_held:
  assumes "held i tenant t" and "st \<noteq> Pending"
  shows "held i tenant (move_to now st reason raw i tenant t)"
proof -
  have "sc_tenant r = tenant \<and> sc_status r \<noteq> Pending"
    if "r \<in> set (scans (move_to now st reason raw i tenant t))" "sc_id r = i" for r
    using that(1) by (cases rule: move_to_row) (use assms that(2) in \<open>auto simp: held_def\<close>)
  with assms move_to_valid show ?thesis by (simp add: held_def)
qed

lemma move_to_finished:
  assumes "held i tenant t" and "st \<in> set TERMINAL_STATUSES"
  shows "finished i (move_to now st reason raw i tenant t)"
proof -
  have allowed: "Running \<in> set (ALLOWED_FROM st)" using assms(2) by (auto simp: TERMINAL_STATUSES_def)
  have "sc_status r \<in> set TERMINAL_STATUSES"
    if "r \<in> set (scans (move_to now st reason raw i tenant t))" "sc_id r = i" for r
    using that(1)
  proof (cases rule: move_to_row)
    case same
    with assms(1) that(2) allowed have "sc_status r \<noteq> Running" "sc_status r \<noteq> Pending" by (auto simp: held_def movable_def)
    then show ?thesis by (cases "sc_status r") (simp_all add: TERMINAL_STATUSES_def)
  next
    case (moved q)
    with assms(2) show ?thesis by simp
  qed
  then show ?thesis by (simp add: finished_def)
qed

lemma transition_run:
  assumes "status_of to = Some st" and "st \<in> set TERMINAL_STATUSES"
    and "if st = Failed then \<exists>r. reason = Some r \<and> storable r else reason = None"
    and "raw \<noteq> None \<longrightarrow> st \<noteq> ScanCancelled" and "guc w = tenant_rls tenant"
  shows "transition_scan refuse now i to reason raw c w =
    thenE (whenE c (commit refuse)) (retE (count_where (movable st i tenant) (scans (work w)) = 1))
      (w\<lparr>work := move_to now st reason raw i tenant (work w)\<rparr>)"
proof -
  have st: "ALLOWED_FROM st \<noteq> []" "st \<noteq> Running" "raw \<noteq> None \<Longrightarrow> st \<in> {Completed, Failed}"
    using assms(2,4) by (auto simp: TERMINAL_STATUSES_def)
  have sel: "(\<lambda>r. rls_row (guc w) (sc_tenant r) \<and> sc_id r = i \<and> sc_status r \<in> set (ALLOWED_FROM st) \<and>
      (st = Running \<longrightarrow> sc_dispatched r \<noteq> None)) = movable st i tenant"
    using st(2) assms(5) by (auto simp: movable_def fun_eq_iff)
  have upd: "update_scans (\<lambda>r. sc_id r = i \<and> sc_status r \<in> set (ALLOWED_FROM st) \<and>
      (st = Running \<longrightarrow> sc_dispatched r \<noteq> None)) (transition_values now st reason raw) w =
    (Inr (count_where (movable st i tenant) (scans (work w))), w\<lparr>work := move_to now st reason raw i tenant (work w)\<rparr>)"
    unfolding update_scans_def Let_def sel by (simp add: move_to_def)
  then have bind: "bindE (update_scans (\<lambda>r. sc_id r = i \<and> sc_status r \<in> set (ALLOWED_FROM st) \<and>
      (st = Running \<longrightarrow> sc_dispatched r \<noteq> None)) (transition_values now st reason raw)) k w =
    k (count_where (movable st i tenant) (scans (work w))) (w\<lparr>work := move_to now st reason raw i tenant (work w)\<rparr>)" for k
    by (simp only: bindE_def prod.case sum.case)
  have guards: "(ALLOWED_FROM st = []) = False" "(st = Failed \<and> (reason = None \<or> reason = Some '''')) = False"
    "(st \<noteq> Failed \<and> reason \<noteq> None) = False" "(reason \<noteq> None \<and> 64 < length (the reason)) = False"
    "(raw \<noteq> None \<and> st \<notin> {Completed, Failed}) = False"
    using st(1,3) assms(3) by (cases raw; auto simp: storable_def split: if_split_asm)+
  show ?thesis unfolding transition_scan_def assms(1) option.case guards if_False bind ..
qed

lemma movable_count:
  "held i tenant t \<Longrightarrow> r \<in> set (scans t) \<Longrightarrow> movable st i tenant r \<Longrightarrow> count_where (movable st i tenant) (scans t) = 1"
proof -
  assume h: "held i tenant t" and r: "r \<in> set (scans t)" "movable st i tenant r"
  have "distinct (map sc_id (scans t))" using h by (simp add: held_def valid_scan_ids)
  then have "count_where (\<lambda>r. sc_id r = i \<and> movable st i tenant r) (scans t) = 1"
    by (rule count_where_key_1) (use r in \<open>auto simp: movable_def\<close>)
  moreover have "(\<lambda>r. sc_id r = i \<and> movable st i tenant r) = movable st i tenant" by (auto simp: movable_def)
  ultimately show ?thesis by simp
qed

lemma movable_running: "held i tenant t \<Longrightarrow> r \<in> set (scans t) \<Longrightarrow> sc_id r = i \<Longrightarrow> st \<in> set TERMINAL_STATUSES \<Longrightarrow>
    movable st i tenant r \<or> sc_status r \<in> set TERMINAL_STATUSES"
  by (cases "sc_status r") (auto simp: held_def movable_def TERMINAL_STATUSES_def)

lemma not_movable_finished:
  "held i tenant t \<Longrightarrow> st \<in> set TERMINAL_STATUSES \<Longrightarrow> count_where (movable st i tenant) (scans t) \<noteq> 1 \<Longrightarrow> finished i t"
  unfolding finished_def using movable_count movable_running by blast

lemma move_to_all:
  assumes "held i tenant t" and "count_where (movable st i tenant) (scans t) = 1"
  shows "all_in st i (move_to now st reason raw i tenant t)"
proof -
  have "\<exists>q \<in> set (scans t). movable st i tenant q"
    using assms(2) count_where_0 [of "movable st i tenant" "scans t"] by auto
  then obtain q where q: "q \<in> set (scans t)" "movable st i tenant q" by (rule bexE)
  have only: "r = q" if "r \<in> set (scans t)" "sc_id r = i" for r
    using distinct_map_inj [of sc_id "scans t" r q] that q assms(1) by (simp add: held_def valid_scan_ids movable_def)
  have "transition_values now st reason raw q \<in> set (scans (move_to now st reason raw i tenant t))"
    using q by (auto simp: move_to_def update_where_image)
  moreover have "sc_status r = st" if r: "r \<in> set (scans (move_to now st reason raw i tenant t))" "sc_id r = i" for r
    using r(1) by (cases rule: move_to_row) (use only q r(2) in auto)
  moreover have "sc_id q = i" using q by (simp add: movable_def)
  ultimately show ?thesis unfolding all_in_def by (auto intro!: bexI [of _ "transition_values now st reason raw q"])
qed

definition never :: "(tables \<Rightarrow> exn option) \<Rightarrow> bool" where
  "never refuse \<longleftrightarrow> (\<forall>t. refuse t = None)"

text \<open>Both handlers, and the failures, end the scan.\<close>

lemma exec_fail_run:
  assumes "held i tenant (committed w)" and "never (xe_refuse env)" and "storable reason"
  shows "exec_fail env i tenant reason w =
    (Inr (if count_where (movable Failed i tenant) (scans (committed w)) = 1 then ''failed'' else ''cancelled''),
     end_tx (move_to (xe_now env ''failed'') Failed (Some reason) None i tenant (committed w)) w)"
proof -
  let ?t = "move_to (xe_now env ''failed'') Failed (Some reason) None i tenant (committed w)"
  have st: "Failed \<in> set TERMINAL_STATUSES" "status_of ''failed'' = Some Failed" by (simp_all add: TERMINAL_STATUSES_def)
  have v: "violation ?t = None" using assms(1) by (intro move_to_valid) (auto simp: held_def)
  with assms st show ?thesis unfolding exec_fail_def
    by (simp add: thenE_def bindE_def transition_run commit_def flush_def never_def)
qed

lemma exec_fail_ends:
  assumes "held i tenant (committed w)" and "never (xe_refuse env)" and "storable reason"
    and "exec_fail env i tenant reason w = (x, w')"
  shows "held i tenant (committed w') \<and> finished i (committed w') \<and>
    (x = Inr ''failed'' \<and> all_in Failed i (committed w') \<or> x = Inr ''cancelled'')"
proof -
  have st: "Failed \<in> set TERMINAL_STATUSES" by (simp add: TERMINAL_STATUSES_def)
  from assms(4) show ?thesis unfolding exec_fail_run [OF assms(1-3)]
    using move_to_held [OF assms(1)] move_to_finished [OF assms(1) st] move_to_all [OF assms(1)]
    by (auto split: if_split_asm)
qed

lemma exec_cancel_run:
  assumes "held i tenant (committed w)" and "never (xe_refuse env)"
  shows "exec_cancel env i tenant w =
    (Inr (), end_tx (move_to (xe_now env ''cancelled'') ScanCancelled None None i tenant (committed w)) w)"
proof -
  let ?t = "move_to (xe_now env ''cancelled'') ScanCancelled None None i tenant (committed w)"
  have st: "ScanCancelled \<in> set TERMINAL_STATUSES" "status_of ''cancelled'' = Some ScanCancelled"
    by (simp_all add: TERMINAL_STATUSES_def)
  have v: "violation ?t = None" using assms(1) by (intro move_to_valid) (auto simp: held_def)
  with assms st show ?thesis unfolding exec_cancel_def
    by (simp add: thenE_def bindE_def transition_run commit_def flush_def never_def)
qed

lemma exec_cancel_ends:
  assumes "held i tenant (committed w)" and "never (xe_refuse env)" and "exec_cancel env i tenant w = (x, w')"
  shows "x = Inr () \<and> held i tenant (committed w') \<and> finished i (committed w')"
proof -
  have st: "ScanCancelled \<in> set TERMINAL_STATUSES" by (simp add: TERMINAL_STATUSES_def)
  from assms(3) show ?thesis unfolding exec_cancel_run [OF assms(1,2)]
    using move_to_held [OF assms(1)] move_to_finished [OF assms(1) st] by auto
qed

text \<open>The outcomes a claimed run may have: all of them end the scan, except an exception the handlers take.\<close>

definition outcome :: "uuid \<Rightarrow> exn + string \<Rightarrow> tables \<Rightarrow> bool" where
  "outcome i x t \<longleftrightarrow> (case x of Inl e \<Rightarrow> True | Inr s \<Rightarrow> finished i t \<and>
     (s = ''completed'' \<and> all_in Completed i t \<or> s = ''failed'' \<and> all_in Failed i t \<or> s = ''cancelled''))"

lemma shielded_ends:
  assumes "shielded b m w = (x, w')"
  obtains y where "m w = (y, w')" and "x = y \<or> x = Inl Cancelled"
  using assms by (auto simp: shielded_def bindE_def split: prod.splits sum.splits if_splits)

lemma guarded_ends:
  assumes "\<And>x w'. body w = (x, w') \<Longrightarrow> held i tenant (committed w') \<and> outcome i x (committed w')"
    and "never (xe_refuse env)" and "guarded env i tenant True body w = (x, w')"
  shows "held i tenant (committed w') \<and> finished i (committed w') \<and> outcome i x (committed w') \<and>
    (\<forall>e. x = Inl e \<longrightarrow> \<not> is_app_exception e)"
proof -
  obtain y w1 where y: "body w = (y, w1)" by fastforce
  note b = assms(1) [OF y]
  show ?thesis
  proof (cases y)
    case (Inr s)
    with y b assms(3) show ?thesis by (auto simp: guarded_def catchE_def outcome_def)
  next
    case (Inl e)
    show ?thesis
    proof (cases "is_app_exception e")
      case True
      with y Inl assms(3) have "shielded (xe_late env CleanupInternal) (exec_fail env i tenant ''internal_error'') w1 = (x, w')"
        by (simp add: guarded_def catchE_def)
      then obtain z where z: "exec_fail env i tenant ''internal_error'' w1 = (z, w')" "x = z \<or> x = Inl Cancelled"
        by (rule shielded_ends)
      from exec_fail_ends [OF _ assms(2) storable_codes(3) z(1)] b z(2) show ?thesis by (auto simp: outcome_def)
    next
      case False
      let ?m = "shielded (xe_late env CleanupCancel) (exec_cancel env i tenant)"
      from False y Inl assms(3) have run: "thenE ?m (raiseE e) w1 = (x, w')"
        by (simp add: guarded_def catchE_def)
      obtain q w2 where q: "?m w1 = (q, w2)" by fastforce
      then obtain z where z: "exec_cancel env i tenant w1 = (z, w2)" "q = z \<or> q = Inl Cancelled" by (rule shielded_ends)
      from exec_cancel_ends [OF _ assms(2) z(1)] b have c: "z = Inr ()" "held i tenant (committed w2)" "finished i (committed w2)"
        by auto
      from run q z(2) c(1) have "w' = w2" "x = Inl e \<or> x = Inl Cancelled"
        by (auto simp: thenE_def bindE_def)
      with c False show ?thesis by (auto simp: outcome_def)
    qed
  qed
qed

lemma awaited_cases:
  assumes "awaited n m w = (x, w')"
  obtains (quiet) "m w = (x, w')" | (before) "x = Inl Cancelled" "w' = w"
    | (after) y where "m w = (Inr y, w')" "x = Inl Cancelled"
  using assms by (cases n) (auto simp: thenE_def bindE_def split: prod.splits sum.splits)

subsection \<open>The graph inside the executor\<close>

lemma keeps_idle_context [intro]: "keeps (idle i tenant) (set_tenant_context t b)"
  by (auto simp: keeps_def set_tenant_context_def idle_def)

lemma keeps_idle_flush [intro]: "keeps (idle i tenant) flush"
  by (auto simp: keeps_def flush_def idle_def split: option.splits)

lemma keeps_idle_insert [intro]: "keeps (idle i tenant) (insert_checked p (insert_vulns rows))"
  by (auto simp: keeps_def insert_checked_def flush_def idle_def insert_vulns_def split: option.split)

lemma keeps_idle_upsert [intro]: "keeps (idle i tenant) (upsert_findings repr now fresh scan t drafts)"
  unfolding upsert_findings_def
  by (intro keeps_prod keeps_intros keeps_idle_flush keeps_idle_insert)

lemma keeps_ofE [intro]: "keeps P (ofE x)"
  by (cases x) (auto simp: ofE_def)

lemma keeps_idle_families:
  assumes "\<And>argv t m s. keeps (idle i tenant) (ge_run env argv t m s)"
  shows "keeps (idle i tenant) (scan_families env ts docs)"
  using assms
proof (induction env ts docs rule: scan_families.induct)
  case (2 env t ts docs)
  have "keeps (idle i tenant) (case r of
         Inl (NmapRunError reason detail) \<Rightarrow> retE (Inl reason)
       | Inl BadLimits \<Rightarrow> raiseE (ValueError ''argv and positive finite resource limits are required'')
       | Inr result \<Rightarrow> scan_families env ts (docs @ [ge_decode env (rr_stdout result)]))" for r :: "run_error + run_result"
    using 2 by (cases r) (auto split: run_error.split)
  with 2(2) show ?case unfolding scan_families.simps by (intro keeps_bind keeps_ofE)
qed simp

lemma keeps_idle_findings:
  assumes "\<And>argv t m s. keeps (idle i tenant) (ge_run env argv t m s)"
  shows "keeps (idle i tenant) (scan_findings env asset)"
  unfolding scan_findings_def using keeps_idle_families [OF assms]
  by (auto split: sum.split target_exc.split intro!: keeps_bind)

lemma keeps_idle_spec:
  assumes "\<And>argv t m s. keeps (idle i tenant) (ge_run env argv t m s)"
  shows "keeps (idle i tenant) (scan_spec env scan t asset)"
  unfolding scan_spec_def using keeps_idle_findings [OF assms]
  by (intro keeps_bind keeps_sum keeps_prod keeps_then keeps_idle_context keeps_idle_upsert keeps_ret)

lemma agent_ends:
  assumes "\<And>argv t m s. keeps (idle i tenant) (ge_run env argv t m s)" and "gives_reasons env" and "idle i tenant w"
    and "run_agent_safely (scan_graph env i tenant) (initial_state asset) w = (x, w')"
  shows "idle i tenant w' \<and> (\<forall>s. x = Inr s \<longrightarrow> (if has_error s then storable (the (ss_error s))
    else violation (work w') = None \<and> guc w' = tenant_rls tenant))"
proof -
  obtain y w1 where y: "scan_graph env i tenant (initial_state asset) w = (y, w1)" by fastforce
  then have "mapE scan_result (scan_graph env i tenant (initial_state asset)) w = (map_sum id scan_result y, w1)"
    by (cases y) (simp_all add: mapE_def bindE_def)
  then have spec: "scan_spec env i tenant asset w = (map_sum id scan_result y, w1)"
    by (simp add: scan_graph_spec [OF assms(2)])
  have idle: "idle i tenant w1" by (rule keepsD [OF keeps_idle_spec [OF assms(1)] assms(3) spec])
  show ?thesis
  proof (cases y)
    case (Inl e)
    with y assms(4) idle storable_codes(3) show ?thesis
      by (cases "is_app_exception e") (auto simp: run_agent_safely_def catchE_def)
  next
    case (Inr s)
    with y assms(4) have [simp]: "x = Inr s" "w' = w1" by (simp_all add: run_agent_safely_def catchE_def)
    show ?thesis
    proof (cases "has_error s")
      case True
      with spec Inr scan_spec_reason [OF assms(2)] idle show ?thesis by (auto simp: scan_result_def)
    next
      case False
      with spec Inr obtain raw where "scan_spec env i tenant asset w = (Inr (Inr raw), w1)" by (simp add: scan_result_def)
      from scan_spec_stored [OF this] False idle show ?thesis by (simp add: tenant_rls_def)
    qed
  qed
qed

subsection \<open>The executor ends the scan\<close>

lemma bind_awaited_cases:
  assumes "bindE (awaited n m) k w = (x, w')"
  obtains (stopped) "x = Inl Cancelled" "w' = w \<or> (\<exists>y. m w = (Inr y, w'))"
    | (raised) e where "x = Inl e" "m w = (Inl e, w')"
    | (continued) y u where "m w = (Inr y, u)" "k y u = (x, w')"
  using assms by (cases n) (auto simp: thenE_def bindE_def split: prod.splits sum.splits)

lemma idle_held: "idle i tenant w \<Longrightarrow> held i tenant (committed w)"
  by (simp add: idle_def)

lemma outcome_Inl [simp]: "outcome i (Inl e) t"
  by (simp add: outcome_def)

lemma shielded_fail_ends:
  assumes "held i tenant (committed w)" and "never (xe_refuse env)" and "storable reason"
    and "shielded b (exec_fail env i tenant reason) w = (x, w')"
  shows "held i tenant (committed w') \<and> outcome i x (committed w')"
proof -
  from assms(4) obtain z where "exec_fail env i tenant reason w = (z, w')" "x = z \<or> x = Inl Cancelled"
    by (rule shielded_ends)
  with exec_fail_ends [OF assms(1-3)] show ?thesis by (auto simp: outcome_def)
qed

lemma complete_ends:
  assumes "idle i tenant w" and "never (xe_refuse env)" and "violation (work w) = None" and "guc w = tenant_rls tenant"
    and "bindE (awaited (xe_await env AwaitComplete)
           (transition_scan (xe_refuse env) now i ''completed'' None (Some raw) False)) (\<lambda>ok.
         if \<not> ok then thenE (awaited (xe_await env AwaitRollback) rollback) (retE ''cancelled'')
         else thenE (awaited (xe_await env AwaitCommit) (commit (xe_refuse env))) (retE ''completed'')) w = (x, w')"
  shows "held i tenant (committed w') \<and> outcome i x (committed w')"
proof -
  let ?t = "move_to now Completed None (Some raw) i tenant (work w)"
  let ?ok = "count_where (movable Completed i tenant) (scans (work w)) = 1"
  have st: "Completed \<in> set TERMINAL_STATUSES" "status_of ''completed'' = Some Completed" by (simp_all add: TERMINAL_STATUSES_def)
  have held: "held i tenant (committed w)" "held i tenant (work w)" using assms(1,3) by (simp_all add: idle_def held_def)
  have run: "transition_scan (xe_refuse env) now i ''completed'' None (Some raw) False w = (Inr ?ok, w\<lparr>work := ?t\<rparr>)"
    using st assms(4) by (simp add: transition_run)
  from assms(5) show ?thesis
  proof (cases rule: bind_awaited_cases)
    case stopped
    with run held show ?thesis by auto
  next
    case (raised e)
    with run show ?thesis by simp
  next
    case (continued ok u)
    with run have u: "ok = ?ok" "u = w\<lparr>work := ?t\<rparr>" by auto
    show ?thesis
    proof (cases ok)
      case False
      with u not_movable_finished [OF held(2) st(1)] assms(1) have fin: "finished i (committed w)"
        by (simp add: finished_def idle_def)
      from False continued(2) have "bindE (awaited (xe_await env AwaitRollback) rollback) (\<lambda>_. retE ''cancelled'') u = (x, w')"
        by (simp add: thenE_def)
      then show ?thesis
        by (cases rule: bind_awaited_cases) (use u held fin in \<open>auto simp: outcome_def\<close>)
    next
      case True
      have c: "commit (xe_refuse env) u = (Inr (), end_tx ?t u)"
        using assms(2) move_to_valid [OF assms(3)] by (simp add: u(2) commit_def thenE_def bindE_def flush_def never_def)
      from True continued(2) have "bindE (awaited (xe_await env AwaitCommit) (commit (xe_refuse env))) (\<lambda>_. retE ''completed'') u = (x, w')"
        by (simp add: thenE_def)
      then show ?thesis
        by (cases rule: bind_awaited_cases)
          (use c u True held move_to_held [OF held(2)] move_to_finished [OF held(2) st(1)] move_to_all [OF held(2)] in
            \<open>auto simp: outcome_def\<close>)
    qed
  qed
qed

lemma run_claimed_ends:
  assumes "\<And>argv t m s. keeps (idle i tenant) (ge_run (xe_graph env) argv t m s)" and "gives_reasons (xe_graph env)"
    and "never (xe_refuse env)" and "idle i tenant w" and "run_claimed env i tenant asset w = (x, w')"
  shows "held i tenant (committed w') \<and> outcome i x (committed w')"
proof -
  from assms(5) show ?thesis unfolding run_claimed_def thenE_def [of "awaited (xe_await env AwaitGraphContext) _"]
  proof (cases rule: bind_awaited_cases)
    case stopped
    with assms(4) show ?thesis by (auto simp: idle_held)
  next
    case (raised e)
    then show ?thesis by simp
  next
    case (continued y u)
    then have u: "idle i tenant u" using assms(4) by (auto simp: idle_def)
    from continued(2) show ?thesis
    proof (cases rule: bind_awaited_cases)
      case stopped
      then show ?thesis using u agent_ends [OF assms(1,2) u, where asset = asset] by (auto dest: idle_held)
    next
      case (raised e)
      with agent_ends [OF assms(1,2) u, where asset = asset] show ?thesis by (auto dest: idle_held)
    next
      case (continued state v)
      note agent = agent_ends [OF assms(1,2) u continued(1)]
      show ?thesis
      proof (cases "has_error state")
        case True
        with agent continued(2) show ?thesis
          using shielded_fail_ends [OF idle_held assms(3)] by auto
      next
        case False
        with agent have v: "idle i tenant v" "violation (work v) = None" "guc v = tenant_rls tenant" by auto
        from False continued(2) show ?thesis by (intro complete_ends [OF v(1) assms(3) v(2,3)]) (simp only: if_False)
      qed
    qed
  qed
qed

lemma load_scan_state: "load_scan i tenant w = (x, w') \<Longrightarrow> w' = w"
  by (auto simp: load_scan_def bindE_def dest: scalar_state)

lemma claimed_body_ends:
  assumes "\<And>argv t m s. keeps (idle i tenant) (ge_run (xe_graph env) argv t m s)" and "gives_reasons (xe_graph env)"
    and "never (xe_refuse env)" and "idle i tenant w" and "execute_scan env i tenant True w = (x, w')"
  shows "held i tenant (committed w') \<and> finished i (committed w') \<and> outcome i x (committed w') \<and>
    (\<forall>e. x = Inl e \<longrightarrow> \<not> is_app_exception e)"
  using assms(5) unfolding execute_scan_def
proof (rule guarded_ends [rotated 2])
  fix x w'
  assume "thenE (awaited (xe_await env AwaitContext) (db_phase tenant))
         (bindE (awaited (xe_await env AwaitLoad) (load_scan i tenant)) (\<lambda>asset. case asset of
            None \<Rightarrow> if True
              then shielded (xe_late env CleanupMissing) (exec_fail env i tenant ''asset_missing'')
              else retE ''skipped''
          | Some asset \<Rightarrow>
              if True then run_claimed env i tenant asset
              else thenE (awaited (xe_await env AwaitClaimContext) (db_phase tenant))
                (bindE (awaited (xe_await env AwaitClaim)
                    (transition_scan (xe_refuse env) (xe_now env ''running'') i ''running'' None None True)) (\<lambda>ok.
                  if \<not> ok then retE ''skipped''
                  else guarded env i tenant True (run_claimed env i tenant asset))))) w = (x, w')"
  then have "bindE (awaited (xe_await env AwaitContext) (db_phase tenant)) (\<lambda>_.
      bindE (awaited (xe_await env AwaitLoad) (load_scan i tenant)) (\<lambda>asset. case asset of
            None \<Rightarrow> shielded (xe_late env CleanupMissing) (exec_fail env i tenant ''asset_missing'')
          | Some asset \<Rightarrow> run_claimed env i tenant asset)) w = (x, w')"
    by (simp add: thenE_def cong: option.case_cong)
  then show "held i tenant (committed w') \<and> outcome i x (committed w')"
  proof (cases rule: bind_awaited_cases)
    case stopped
    with assms(4) show ?thesis by (auto simp: idle_held)
  next
    case (raised e)
    then show ?thesis by simp
  next
    case (continued y u)
    then have u: "idle i tenant u" using assms(4) by (auto simp: idle_def)
    from continued(2) show ?thesis
    proof (cases rule: bind_awaited_cases)
      case stopped
      then show ?thesis using u by (auto simp: idle_held dest: load_scan_state)
    next
      case (raised e)
      then show ?thesis using u by (auto simp: idle_held dest: load_scan_state)
    next
      case (continued asset v)
      then have v: "idle i tenant v" using u by (auto dest: load_scan_state)
      have "storable ''asset_missing''" by (simp add: storable_def)
      with v continued(2) shielded_fail_ends [OF idle_held [OF v] assms(3)] run_claimed_ends [OF assms(1,2,3) v]
      show ?thesis by (cases asset) auto
    qed
  qed
qed (rule assms(3))

subsection \<open>Properties\<close>

text \<open>
  C2: A scan a worker has claimed is never left running.  Start the executor on a claimed row: the database
  satisfies its constraints and answers the commits, and what other sessions commit while the scanner runs
  keeps the row of the tenant, if it is not deleted, out of the pending status.  Then whatever the scanner
  returns or raises, wherever the task is cancelled, and however often, the executor comes to an end with
  the row completed, failed or cancelled (or gone), the answer \<open>completed\<close> or \<open>failed\<close> is the status of the
  row, only a cancellation escapes as an exception, and the constraints hold.
\<close>

theorem claimed_scan_ends:
  assumes "\<And>argv t m s. keeps (idle i tenant) (ge_run (xe_graph env) argv t m s)" and "gives_reasons (xe_graph env)"
    and "never (xe_refuse env)" and "idle i tenant w"
  shows "\<exists>x w'. execute_scan env i tenant True w = (x, w') \<and> violation (committed w') = None \<and>
    (\<forall>r \<in> set (scans (committed w')). sc_id r = i \<longrightarrow> sc_status r \<in> {Completed, Failed, ScanCancelled} \<and>
       (x = Inr ''completed'' \<longrightarrow> sc_status r = Completed) \<and> (x = Inr ''failed'' \<longrightarrow> sc_status r = Failed)) \<and>
    (case x of Inl e \<Rightarrow> \<not> is_app_exception e | Inr s \<Rightarrow> s \<in> {''completed'', ''failed'', ''cancelled''})"
proof -
  obtain x w' where run: "execute_scan env i tenant True w = (x, w')" by fastforce
  have ends: "held i tenant (committed w')" "finished i (committed w')" "outcome i x (committed w')"
    "\<forall>e. x = Inl e \<longrightarrow> \<not> is_app_exception e"
    using claimed_body_ends [OF assms run] by auto
  have rows: "sc_status r \<in> {Completed, Failed, ScanCancelled} \<and>
       (x = Inr ''completed'' \<longrightarrow> sc_status r = Completed) \<and> (x = Inr ''failed'' \<longrightarrow> sc_status r = Failed)"
    if "r \<in> set (scans (committed w'))" "sc_id r = i" for r
    using ends(2,3) that by (auto simp: finished_def outcome_def all_in_def TERMINAL_STATUSES_def)
  have "case x of Inl e \<Rightarrow> \<not> is_app_exception e | Inr s \<Rightarrow> s \<in> {''completed'', ''failed'', ''cancelled''}"
    using ends(3,4) by (cases x) (auto simp: outcome_def)
  with run rows ends(1) show ?thesis unfolding held_def by blast
qed

definition sample_exec :: "'r exec_env" where
  "sample_exec = \<lparr>xe_refuse = no_refusal, xe_graph = sample_graph\<lparr>ge_run := (\<lambda>argv t m s.
       retE (Inl (NmapRunError ''timeout'' None)))\<rparr>, xe_await = (\<lambda>p. Quiet), xe_late = (\<lambda>p. p = CleanupError),
     xe_now = (\<lambda>s. 9)\<rparr>"

definition running_scan :: scan_row where
  "running_scan = (sample_scan 7 1 2 ''n'')\<lparr>sc_status := Running, sc_dispatched := Some 1, sc_started := Some 2\<rparr>"

lemma claimed_scan_ends_witness:
  "\<exists>w'. execute_scan sample_exec 7 1 True (sample_state [running_scan]) = (Inl Cancelled, w') \<and>
     map (\<lambda>r. (sc_status r, sc_failure r)) (scans (committed w')) = [(Failed, Some ''timeout'')] \<and>
     list_all (\<lambda>r. sc_status r \<in> {Completed, Failed, ScanCancelled}) (scans (committed w'))"
proof -
  let ?target = "\<lparr>st_type = ''ip'', st_original = ''8.8.8.8'', st_addresses = [''8.8.8.8'']\<rparr>"
  let ?env = "sample_exec :: unit exec_env" and ?w = "sample_state [running_scan]"
  let ?m = "execute_scan ?env 7 1 True"
  have t: "resolve_scan_target (ge_target (xe_graph ?env)) ''ip'' ''8.8.8.8'' = Inr ?target"
    by (simp add: sample_graph_def sample_exec_def resolve_scan_target_def target_addresses_def public_ip_def validate_asset_value_def
        allowed_address_def sample_env_def sample_lib_def sample_ips_def starts_with_def is_global4_def is_private4_def listed_def net_tables)
  have f: "split_by_family (ge_ips (xe_graph ?env)) ?target = Inr [?target]"
    by (simp add: ge_ips_def sample_graph_def sample_exec_def sample_env_def sample_lib_def split_by_family_def family_def sample_ips_def)
  have "build_nmap_command False sample_ips ''nmap'' ?target = Inr (''nmap'' # NMAP_PROFILE @ [''--'', ''8.8.8.8''])"
    by (simp add: build_nmap_command_def split_by_family_def family_def sample_ips_def starts_with_def is_space_def)
  then have s: "scan_families (xe_graph ?env) [?target] [] = retE (Inl ''timeout'')"
    by (intro ext) (simp add: ge_ips_def sample_graph_def sample_exec_def sample_env_def sample_lib_def ofE_def)
  have env: "xe_refuse ?env = no_refusal" "xe_await ?env = (\<lambda>p. Quiet)" "xe_late ?env = (\<lambda>p. p = CleanupError)"
    "xe_now ?env = (\<lambda>s. 9)" by (simp_all add: sample_exec_def)
  let ?w1 = "?w\<lparr>guc := tenant_rls 1\<rparr>" and ?s = "(initial_state (''ip'', ''8.8.8.8''))\<lparr>ss_error := Some ''timeout''\<rparr>"
  have idle: "idle 7 1 ?w"
    by (simp add: idle_def held_def running_scan_def constraint_defs sample_state_def sample_defs)
  then have held: "held 7 1 (committed ?w1)" by (simp add: idle_def)
  have never: "never (xe_refuse ?env)" by (simp add: env never_def no_refusal_def)
  have l: "load_scan 7 1 ?w1 = (Inr (Some (''ip'', ''8.8.8.8'')), ?w1)"
    by (simp add: load_scan_def seen_scans_def seen_assets_def scalar_one_or_none_def running_scan_def sample_state_def sample_defs)
  have g: "run_agent_safely (scan_graph (xe_graph ?env) 7 1) (initial_state (''ip'', ''8.8.8.8'')) ?w1 = (Inr ?s, ?w1)"
    by (simp add: run_agent_safely_def scan_graph_def scan_node_def t f s ofE_def next_step_def has_error_def catchE_def bindE_def
        del: scan_families.simps)
  define T where "T = move_to 9 Failed (Some ''timeout'') None 7 1 (committed ?w1)"
  have T: "scans T = [running_scan\<lparr>sc_status := Failed, sc_completed := Some 9, sc_failure := Some ''timeout''\<rparr>]"
    by (simp add: T_def move_to_def movable_def transition_values_def TERMINAL_STATUSES_def running_scan_def
        sample_state_def sample_defs Let_def)
  have held_T: "held 7 1 T" unfolding T_def by (rule move_to_held [OF held]) simp
  have still: "move_to 9 ScanCancelled None None 7 1 T = T"
    by (simp add: move_to_def T movable_def)
  have n: "count_where (movable Failed 7 1) (scans (committed ?w1)) = 1"
    by (simp add: movable_def running_scan_def sample_state_def sample_defs)
  have st: "storable ''timeout''" by (simp add: storable_def)
  have e: "exec_fail ?env 7 1 ''timeout'' ?w1 = (Inr ''failed'', end_tx T ?w1)"
    unfolding exec_fail_run [OF held never st] T_def env by (simp only: n if_True refl)
  have c: "exec_cancel ?env 7 1 (end_tx T ?w1) = (Inr (), end_tx T (end_tx T ?w1))"
    using exec_cancel_run [OF _ never, of 7 1 "end_tx T ?w1"] held_T by (simp add: env still del: One_nat_def)
  have m: "?m ?w = (Inl Cancelled, end_tx T (end_tx T ?w1))"
    by (simp add: execute_scan_def guarded_def run_claimed_def env l g e c shielded_def has_error_def thenE_def bindE_def
        catchE_def del: One_nat_def)
  moreover have "\<And>argv t m s. keeps (idle 7 1) (ge_run (xe_graph ?env) argv t m s)" "gives_reasons (xe_graph ?env)"
    by (auto simp: sample_exec_def gives_reasons_def storable_def)
  ultimately show ?thesis using claimed_scan_ends [of 7 1 ?env ?w] never idle T by (auto simp: list_all_iff)
qed

end
