(* ===== verification/Worker.thy ===== *)
theory Worker
  imports Executor
begin

text \<open>
  The Celery worker, \<open>app/worker/celery_app.py\<close> and \<open>app/worker/tasks.py\<close>: the configuration, the three tasks
  and the cancellation watcher.  The race of \<open>asyncio.wait\<close> between the executor and the watcher is an input, as
  are the rows other transactions have locked and the programs that ring bells and enqueue enrichments.  The
  lemmas show that a wake leaves no scan running and that the time limits fit together.
\<close>

subsection \<open>Configuration\<close>

definition TIME_LIMIT_MARGIN_SECONDS :: int where "TIME_LIMIT_MARGIN_SECONDS = 300"
definition VISIBILITY_TIMEOUT_MARGIN_SECONDS :: int where "VISIBILITY_TIMEOUT_MARGIN_SECONDS = 600"
definition REAP_INTERVAL_SECONDS :: int where "REAP_INTERVAL_SECONDS = 300"
definition PUMP_INTERVAL_SECONDS :: int where "PUMP_INTERVAL_SECONDS = 60"
definition PUMP_MAX_BELLS :: int where "PUMP_MAX_BELLS = 10"
definition BROKER_SOCKET_TIMEOUT_SECONDS :: int where "BROKER_SOCKET_TIMEOUT_SECONDS = 5"

definition hard_time_limit_seconds :: int where
  "hard_time_limit_seconds = int_of_float NMAP_TIMEOUT_SECONDS + 2 * TIME_LIMIT_MARGIN_SECONDS"

definition STALE_SCAN_SECONDS :: int where
  "STALE_SCAN_SECONDS = hard_time_limit_seconds + TIME_LIMIT_MARGIN_SECONDS"

record broker_settings =
  bs_host :: string
  bs_port :: int
  bs_db :: int
  bs_password :: string
  bs_broker_db :: int

definition build_broker_url :: "broker_settings \<Rightarrow> exn + string" where
  "build_broker_url config =
     (if bs_broker_db config = bs_db config
      then Inl (ValueError ''CELERY_BROKER_REDIS_DB must differ from REDIS_DB to isolate the broker'')
      else Inr (''redis://'' @ bs_host config @ '':'' @ show_int (bs_port config) @ ''/'' @ show_int (bs_broker_db config)))"

record celery_config =
  cc_broker_url :: string
  cc_broker_password :: "string option"
  cc_visibility_timeout :: int
  cc_socket_timeout :: int
  cc_default_queue :: string
  cc_routes :: "(string \<times> string) list"
  cc_content :: "string list"
  cc_acks_late :: bool
  cc_reject_on_worker_lost :: bool
  cc_prefetch_multiplier :: nat
  cc_soft_time_limit :: int
  cc_time_limit :: int
  cc_schedule :: "(string \<times> int) list"

definition build_celery_config :: "broker_settings \<Rightarrow> exn + celery_config" where
  "build_celery_config config =
     map_sum id (\<lambda>url. \<lparr>cc_broker_url = url,
       cc_broker_password = (if bs_password config = '''' then None else Some (bs_password config)),
       cc_visibility_timeout = hard_time_limit_seconds + VISIBILITY_TIMEOUT_MARGIN_SECONDS,
       cc_socket_timeout = BROKER_SOCKET_TIMEOUT_SECONDS, cc_default_queue = ''scans'',
       cc_routes = [(''scans.pump'', ''maintenance''), (''scans.reap'', ''maintenance''),
         (''enrichment.vulnerability'', ''enrichment'')],
       cc_content = [''json''], cc_acks_late = True, cc_reject_on_worker_lost = True, cc_prefetch_multiplier = 1,
       cc_soft_time_limit = int_of_float NMAP_TIMEOUT_SECONDS + TIME_LIMIT_MARGIN_SECONDS,
       cc_time_limit = hard_time_limit_seconds,
       cc_schedule = [(''scans.reap'', REAP_INTERVAL_SECONDS), (''scans.pump'', PUMP_INTERVAL_SECONDS)]\<rparr>)
       (build_broker_url config)"

subsection \<open>The cancellation watcher\<close>

text \<open>
  What a poll sees: the world of that moment, or an error.  The result is the number of the poll that ends
  the loop, if one of these polls does.
\<close>

definition cancel_seen :: "uuid \<Rightarrow> uuid \<Rightarrow> 'r world option \<Rightarrow> bool" where
  "cancel_seen scan_id tenant_id poll = (case poll of
       None \<Rightarrow> False
     | Some w \<Rightarrow> (case filter (\<lambda>r. sc_id r = scan_id) (seen_scans (w\<lparr>guc := tenant_rls tenant_id\<rparr>)) of
           [] \<Rightarrow> False | r # _ \<Rightarrow> sc_status r = ScanCancelled))"

fun wait_for_cancel :: "uuid \<Rightarrow> uuid \<Rightarrow> 'r world option list \<Rightarrow> nat option" where
  "wait_for_cancel scan_id tenant_id [] = None"
| "wait_for_cancel scan_id tenant_id (poll # polls) =
     (if cancel_seen scan_id tenant_id poll then Some 0
      else map_option Suc (wait_for_cancel scan_id tenant_id polls))"

subsection \<open>The tasks\<close>

text \<open>\<open>async with maker() as session\<close>: a session of its own, rolled back when it is closed.\<close>

definition own_session :: "('r, 'a) db_prog \<Rightarrow> ('r, 'a) db_prog" where
  "own_session m w = (case m (end_tx (committed w) w) of (x, w') \<Rightarrow> (x, end_tx (committed w') w'))"

text \<open>Which of the two tasks is done when \<open>asyncio.wait\<close> returns, or what interrupts the wait.\<close>

datatype race = ExecutorFirst | WatcherFirst | Interrupted exn

record 'r wake_env =
  we_enabled :: bool
  we_exec :: "'r exec_env"
  we_dbnow :: time
  we_locked :: "uuid list"
  we_race :: race
  we_enrichment :: bool
  we_enqueue :: "uuid \<Rightarrow> uuid \<Rightarrow> ('r, bool) db_prog"

definition suppressed :: "('r, unit) db_prog \<Rightarrow> ('r, unit) db_prog" where
  "suppressed m = catchE m (\<lambda>e. if is_app_exception e then retE () else raiseE e)"

definition enqueue_findings :: "'r wake_env \<Rightarrow> uuid \<Rightarrow> uuid \<Rightarrow> ('r, unit) db_prog" where
  "enqueue_findings env scan_id tenant_id = suppressed
     (bindE (own_session (thenE (set_tenant_context (Some tenant_id) False)
         (getE (\<lambda>w. map v_id (filter (\<lambda>v. v_scan v = scan_id) (seen_vulns w))))))
       (\<lambda>vulnerability_ids. forE vulnerability_ids
          (\<lambda>i. suppressed (thenE (we_enqueue env i tenant_id) (retE ())))))"

definition run_scan :: "'r wake_env \<Rightarrow> uuid \<Rightarrow> uuid \<Rightarrow> ('r, string) db_prog" where
  "run_scan env scan_id tenant_id w =
     (case own_session (execute_scan (we_exec env) scan_id tenant_id True) w of (x, w') \<Rightarrow>
        (case we_race env of
           ExecutorFirst \<Rightarrow> (case x of
               Inl e \<Rightarrow> (Inl e, w')
             | Inr result \<Rightarrow>
                 if result = ''completed'' \<and> we_enrichment env
                 then thenE (enqueue_findings env scan_id tenant_id) (retE result) w'
                 else (Inr result, w'))
         | WatcherFirst \<Rightarrow> (Inr ''cancelled'', w')
         | Interrupted e \<Rightarrow> (Inl e, w')))"

definition wake :: "'r wake_env \<Rightarrow> ('r, string) db_prog" where
  "wake env =
     (if \<not> we_enabled env then retE ''disabled''
      else bindE (own_session (claim_next_scan (xe_refuse (we_exec env)) (we_dbnow env) (we_locked env))) (\<lambda>row. case row of
          None \<Rightarrow> retE ''idle''
        | Some (scan_id, tenant_id) \<Rightarrow> run_scan env scan_id tenant_id))"

definition reap :: "(tables \<Rightarrow> exn option) \<Rightarrow> time \<Rightarrow> ('r, nat) db_prog" where
  "reap refuse dbnow = own_session (reap_stale_scans refuse dbnow STALE_SCAN_SECONDS)"

definition pump :: "bool \<Rightarrow> (tables \<Rightarrow> exn option) \<Rightarrow> ('r, unit) db_prog \<Rightarrow> ('r, nat) db_prog" where
  "pump enabled refuse bell =
     (if \<not> enabled then retE 0
      else bindE (own_session (count_ready_scans refuse PUMP_MAX_BELLS))
        (\<lambda>count. thenE (forE (replicate count ()) (\<lambda>u. bell)) (retE count)))"

subsection \<open>Properties\<close>

lemma int_of_timeout: "int_of_float NMAP_TIMEOUT_SECONDS = 3600"
  by (simp add: int_of_float_def NMAP_TIMEOUT_SECONDS_def)

lemma wait_for_cancel_Some:
  "wait_for_cancel i t polls = Some n \<longleftrightarrow>
     n < length polls \<and> cancel_seen i t (polls ! n) \<and> (\<forall>m < n. \<not> cancel_seen i t (polls ! m))"
proof (induction polls arbitrary: n)
  case (Cons p ps)
  show ?case
  proof (cases n)
    case 0
    then show ?thesis by auto
  next
    case (Suc k)
    with Cons show ?thesis by (auto simp: nth_Cons less_Suc_eq_0_disj split: nat.splits)
  qed
qed simp

lemma claim_runs:
  assumes "violation (committed w) = None" and "never refuse"
  shows "case oldest_ready locked (scans (committed w)) of
      None \<Rightarrow> own_session (claim_next_scan refuse now locked) w = (Inr None, end_tx (committed w) w)
    | Some r \<Rightarrow> \<exists>t. own_session (claim_next_scan refuse now locked) w = (Inr (Some (sc_id r, sc_tenant r)), end_tx t w) \<and>
        violation t = None \<and> scans t = update_where (\<lambda>s. sc_id s = sc_id r \<and> scan_ready s)
          (\<lambda>s. s\<lparr>sc_status := Running, sc_started := Some now\<rparr>) (scans (committed w))"
proof (cases "oldest_ready locked (scans (committed w))")
  case None
  with assms show ?thesis
    by (simp add: own_session_def claim_next_scan_def thenE_def bindE_def commit_def flush_def never_def)
next
  case (Some r)
  let ?t = "(committed w)\<lparr>scans := update_where (\<lambda>s. sc_id s = sc_id r \<and> scan_ready s)
      (\<lambda>s. s\<lparr>sc_status := Running, sc_started := Some now\<rparr>) (scans (committed w))\<rparr>"
  have "violation ?t = None" by (rule update_keeps_constraints [OF assms(1)]) simp
  with Some assms(2) have "own_session (claim_next_scan refuse now locked) w = (Inr (Some (sc_id r, sc_tenant r)), end_tx ?t w)"
    by (simp add: own_session_def claim_next_scan_def thenE_def bindE_def commit_def flush_def never_def
        update_scans_def Let_def rls_row_def end_tx_def)
  with Some \<open>violation ?t = None\<close> show ?thesis by (auto intro!: exI [of _ ?t])
qed

lemma claim_idle:
  assumes "oldest_ready locked (scans (committed w)) = Some r" and "violation (committed w) = None" and "violation t = None"
    and "scans t = update_where (\<lambda>s. sc_id s = sc_id r \<and> scan_ready s)
          (\<lambda>s. s\<lparr>sc_status := Running, sc_started := Some now\<rparr>) (scans (committed w))"
  shows "idle (sc_id r) (sc_tenant r) (end_tx t w')"
proof -
  note r = oldest_ready_Some(1,2) [OF assms(1)]
  have "s = r" if "s \<in> set (scans (committed w))" "sc_id s = sc_id r" for s
    using distinct_map_inj [OF valid_scan_ids [OF assms(2)] that(1) r(1) that(2)] .
  then have "sc_tenant q = sc_tenant r \<and> sc_status q \<noteq> Pending" if "q \<in> set (scans t)" "sc_id q = sc_id r" for q
    using that r(2) unfolding assms(4) update_where_image by fastforce
  with assms(3) show ?thesis by (simp add: idle_def held_def)
qed

lemma keeps_own_session:
  fixes m :: "('r, 'a) db_prog"
  assumes "\<And>C. keeps (\<lambda>u. committed u = C) m"
  shows "keeps (\<lambda>u. committed u = C) (own_session m)"
proof (rule keepsI)
  fix w :: "'r world" assume "committed w = C"
  moreover have "committed (snd (m u)) = committed u" for u
    using assms [of "committed u"] by (simp add: keeps_def)
  ultimately show "committed (snd (own_session m w)) = C"
    by (simp add: own_session_def split: prod.split) (metis end_tx_simps(1) snd_conv)
qed

lemma keeps_suppressed: "keeps P m \<Longrightarrow> keeps P (suppressed m)"
  unfolding suppressed_def by (intro keeps_intros)

lemma enqueue_keeps:
  assumes "\<And>i C. keeps (\<lambda>u. committed u = C) (we_enqueue env i tenant)"
  shows "keeps (\<lambda>u. committed u = C) (enqueue_findings env scan tenant)"
proof -
  have "keeps (\<lambda>u. committed u = C) (set_tenant_context t b)" for C t b
    by (auto simp: keeps_def set_tenant_context_def)
  with assms show ?thesis
    unfolding enqueue_findings_def by (intro keeps_suppressed keeps_own_session keeps_intros)
qed

lemma run_scan_ends:
  assumes "\<And>argv tm m s. keeps (idle i t) (ge_run (xe_graph (we_exec env)) argv tm m s)"
    and "gives_reasons (xe_graph (we_exec env))" and "never (xe_refuse (we_exec env))"
    and "\<And>j C. keeps (\<lambda>u. committed u = C) (we_enqueue env j t)"
    and "held i t (committed w)" and "run_scan env i t w = (x, w')"
  shows "violation (committed w') = None \<and> finished i (committed w')"
proof -
  obtain y w1 where y: "execute_scan (we_exec env) i t True (end_tx (committed w) w) = (y, w1)" by fastforce
  have "idle i t (end_tx (committed w) w)" using assms(5) by (simp add: idle_def)
  from claimed_body_ends [OF assms(1-3) this y] have ends: "held i t (committed w1)" "finished i (committed w1)" by auto
  have "committed w' = committed w1"
  proof (cases "we_race env = ExecutorFirst \<and> y = Inr ''completed'' \<and> we_enrichment env")
    case True
    with assms(6) y have run: "thenE (enqueue_findings env i t) (retE ''completed'') (end_tx (committed w1) w1) = (x, w')"
      by (simp add: run_scan_def own_session_def)
    have "keeps (\<lambda>u. committed u = committed w1) (thenE (enqueue_findings env i t) (retE ''completed''))"
      by (intro keeps_then enqueue_keeps assms(4) keeps_ret)
    from keepsD [OF this _ run] show ?thesis by simp
  next
    case False
    with assms(6) y show ?thesis
      by (auto simp: run_scan_def own_session_def split: race.split_asm sum.split_asm if_split_asm)
  qed
  with ends show ?thesis by (simp add: held_def)
qed


definition sample_wake :: "'r wake_env" where
  "sample_wake = \<lparr>we_enabled = True, we_exec = sample_exec\<lparr>xe_await := (\<lambda>p. if p = AwaitContext then Before else Quiet)\<rparr>,
     we_dbnow = 5, we_locked = [9], we_race = WatcherFirst, we_enrichment = True, we_enqueue = (\<lambda>i t. retE True)\<rparr>"

definition ready_scan :: scan_row where
  "ready_scan = (sample_scan 8 1 2 ''b'')\<lparr>sc_dispatched := Some 4\<rparr>"


subsection \<open>The time limits\<close>

text \<open>
  C38: The time limits fit together.  Nmap's own timeout ends before the soft limit of the task, the soft limit
  before the hard one, and the broker redelivers only after the hard one; so while the task that claimed a
  scan may still be alive, and five minutes longer, a reap leaves its row as it is.  A reap that returns
  has failed every scan whose claim is older than that, as lost by its worker, on a database that answers.
\<close>

theorem reap_spares_live_tasks:
  assumes "build_celery_config config = Inr c" and "reap refuse dbnow w = (Inr k, w')"
  shows "int_of_float NMAP_TIMEOUT_SECONDS < cc_soft_time_limit c \<and> cc_soft_time_limit c < cc_time_limit c \<and>
    cc_time_limit c < cc_visibility_timeout c \<and>
    scans (committed w') = map (\<lambda>r. if sc_status r = Running \<and>
        (\<exists>s. sc_started r = Some s \<and> s + seconds (cc_time_limit c + 300) \<le> dbnow)
      then r\<lparr>sc_status := Failed, sc_failure := Some ''worker_lost'', sc_completed := Some dbnow\<rparr> else r)
      (scans (committed w))"
proof -
  have limits: "cc_time_limit c = 4200" "cc_soft_time_limit c = 3900" "cc_visibility_timeout c = 4800"
    using assms(1) by (auto simp: build_celery_config_def map_sum_Inr hard_time_limit_seconds_def int_of_timeout
        TIME_LIMIT_MARGIN_SECONDS_def VISIBILITY_TIMEOUT_MARGIN_SECONDS_def)
  have stale: "STALE_SCAN_SECONDS = 4500"
    by (simp add: STALE_SCAN_SECONDS_def hard_time_limit_seconds_def int_of_timeout TIME_LIMIT_MARGIN_SECONDS_def)
  obtain w1 where run: "reap_stale_scans refuse dbnow 4500 (end_tx (committed w) w) = (Inr k, w1)"
    and w': "committed w' = committed w1"
    using assms(2) by (auto simp: reap_def own_session_def stale split: prod.splits)
  have "(sc_status r = Running \<and> (\<exists>s. sc_started r = Some s \<and> s + seconds (cc_time_limit c + 300) \<le> dbnow)) =
      (sc_status r = Running \<and> sc_started r \<noteq> None \<and> the (sc_started r) \<le> dbnow - seconds 4500)" for r :: scan_row
    by (auto simp: limits)
  with reap_stale_scans_run [OF run] show ?thesis by (simp add: limits int_of_timeout w' Let_def)
qed

definition lost_scan :: scan_row where
  "lost_scan = (sample_scan 8 1 2 ''m'')\<lparr>sc_status := Running, sc_dispatched := Some 1, sc_started := Some 1\<rparr>"

definition sample_broker :: broker_settings where
  "sample_broker = \<lparr>bs_host = ''redis'', bs_port = 6379, bs_db = 0, bs_password = ''pw'', bs_broker_db = 1\<rparr>"

lemma reap_spares_live_tasks_witness:
  "map sc_status (scans (committed (snd (reap no_refusal 4500000001 (sample_state [running_scan, lost_scan]))))) = [Running, Failed]"
proof -
  let ?w = "sample_state [running_scan, lost_scan] :: unit world"
  have c: "build_celery_config sample_broker = Inr (projr (build_celery_config sample_broker))"
    by (simp add: build_celery_config_def build_broker_url_def sample_broker_def)
  have limit: "cc_time_limit (projr (build_celery_config sample_broker)) = 4200"
    by (simp add: build_celery_config_def build_broker_url_def sample_broker_def hard_time_limit_seconds_def int_of_timeout
        TIME_LIMIT_MARGIN_SECONDS_def)
  have "fst (reap no_refusal 4500000001 ?w) = Inr 1"
    by code_simp
  note reaped = reap_spares_live_tasks [OF c run_of [OF this]]
  show ?thesis
    unfolding reaped [THEN conjunct2, THEN conjunct2, THEN conjunct2] by (simp add: limit seconds_def running_scan_def lost_scan_def sample_state_def sample_defs)
qed

end
