(* ===== verification/Enrichment.thy ===== *)
theory Enrichment
  imports Prompts Llm Routes Worker
begin

text \<open>
  The enrichment of findings by a language model: \<open>app/modules/enrichment\<close> (service, queries, dispatch and
  router) and the task of \<open>app/worker/enrichment_tasks.py\<close>.  The calls of a run are concurrent and bounded
  by a budget of time: whether a call ended in time, and with what, is an input, as is what other transactions
  committed to the tables meanwhile.
\<close>

subsection \<open>What is due\<close>

definition seen_enrichments :: "'r world \<Rightarrow> enrichment_row list" where
  "seen_enrichments w = filter (\<lambda>r. rls_row (guc w) (e_tenant r)) (enrichments (work w))"

definition up_to_date :: "string \<Rightarrow> string \<Rightarrow> enrichment_row \<Rightarrow> bool" where
  "up_to_date digest model r \<longleftrightarrow> e_status r = ''ok'' \<and> e_hash r = Some digest \<and>
     e_version r = Some PROMPT_VERSION \<and> e_model r = Some model"

definition in_scope :: "string list option \<Rightarrow> string \<Rightarrow> bool" where
  "in_scope only f \<longleftrightarrow> (case only of None \<Rightarrow> True | Some fs \<Rightarrow> f \<in> set fs)"

text \<open>The dictionary of the rows by their function keeps the last one.\<close>

definition row_of :: "enrichment_row list \<Rightarrow> string \<Rightarrow> enrichment_row option" where
  "row_of rows f = List.find (\<lambda>r. e_function r = f) (rev rows)"

definition due_functions ::
  "string \<Rightarrow> enrichment_row list \<Rightarrow> string \<Rightarrow> string \<Rightarrow> string list option \<Rightarrow> exn + string list" where
  "due_functions level existing digest model only =
     map_sum id (filter (\<lambda>f. in_scope only f \<and>
         \<not> (case row_of existing f of None \<Rightarrow> False | Some r \<Rightarrow> up_to_date digest model r)))
       (functions_for_level level)"

subsection \<open>A run\<close>

record enrichment_run =
  rr_succeeded :: "string list"
  rr_failed :: "string list"
  rr_skipped :: "string list"

definition has_failures :: "enrichment_run \<Rightarrow> bool" where
  "has_failures r \<longleftrightarrow> rr_failed r \<noteq> []"

record enrich_env =
  ne_lib :: prompt_lib
  ne_call :: "provider \<Rightarrow> prompt_spec \<Rightarrow> (json \<times> bool) option"
  ne_meanwhile :: "tables \<Rightarrow> tables"
  ne_language :: string
  ne_concurrency :: int
  ne_budget :: int

text \<open>Content and error of a call: \<open>None\<close> is one the budget cut off; a text is needed for \<open>strip\<close>.\<close>

definition judge_output :: "enrichment_input \<Rightarrow> (json \<times> bool) option \<Rightarrow> exn + string option \<times> string option" where
  "judge_output finding out = (case out of
      None \<Rightarrow> Inr (None, Some ''budget_exceeded'')
    | Some (text, True) \<Rightarrow> Inr (None, Some ''provider_error'')
    | Some (JStr text, False) \<Rightarrow>
        if strip text = [] then Inr (None, Some ''empty_output'')
        else Inr (Some (cc_text (check_citations text finding)), None)
    | Some (_, False) \<Rightarrow> Inl (AttributeError ''strip''))"

text \<open>
  \<open>INSERT ... ON CONFLICT (vulnerability_id, function) DO UPDATE\<close>.  A failure keeps the content, and leaves
  alone a row that holds the same success already.
\<close>

definition same_key :: "enrichment_row \<Rightarrow> enrichment_row \<Rightarrow> bool" where
  "same_key a b \<longleftrightarrow> e_vuln a = e_vuln b \<and> e_function a = e_function b"

definition update_guard :: "enrichment_row \<Rightarrow> enrichment_row \<Rightarrow> bool" where
  "update_guard new r \<longleftrightarrow> e_error new = None \<or>
     \<not> (e_status r = ''ok'' \<and> e_hash r = e_hash new \<and> e_version r = e_version new \<and> e_model r = e_model new)"

definition overwrite :: "enrichment_row \<Rightarrow> enrichment_row \<Rightarrow> enrichment_row" where
  "overwrite new r = r\<lparr>e_status := e_status new, e_error := e_error new, e_model := e_model new,
     e_version := e_version new, e_hash := e_hash new, e_attempts := e_attempts r + 1,
     e_content := (if e_error new = None then e_content new else e_content r)\<rparr>"

definition upsert_enrichment :: "enrichment_row \<Rightarrow> tables \<Rightarrow> tables" where
  "upsert_enrichment new t = t\<lparr>enrichments :=
     (if list_ex (same_key new) (enrichments t)
      then update_where (\<lambda>r. same_key new r \<and> update_guard new r) (overwrite new) (enrichments t)
      else enrichments t @ [new])\<rparr>"

definition new_enrichment :: "vuln_row \<Rightarrow> string \<Rightarrow> string option \<times> string option \<Rightarrow> string \<Rightarrow> string \<Rightarrow> string \<Rightarrow> enrichment_row" where
  "new_enrichment v f judged model ver digest = \<lparr>e_vuln = v_id v, e_tenant = v_tenant v, e_function = f,
     e_content = fst judged, e_status = (if snd judged = None then ''ok'' else ''failed''), e_error = snd judged,
     e_model = Some model, e_version = Some ver, e_hash = Some digest, e_attempts = 1\<rparr>"

fun store_outputs ::
  "vuln_row \<Rightarrow> enrichment_input \<Rightarrow> string \<Rightarrow> string \<Rightarrow> (prompt_spec \<times> (json \<times> bool) option) list
   \<Rightarrow> ('r, string list \<times> string list) db_prog" where
  "store_outputs v finding model digest [] = retE ([], [])"
| "store_outputs v finding model digest ((spec, out) # rest) =
     bindE (ofE (judge_output finding out)) (\<lambda>judged.
     thenE (insert_checked (\<lambda>g. rls_row g (v_tenant v))
              (upsert_enrichment (new_enrichment v (ps_function spec) judged model (ps_version spec) digest)))
     (bindE (store_outputs v finding model digest rest) (\<lambda>(succeeded, failed).
        retE (if snd judged = None then (ps_function spec # succeeded, failed) else (succeeded, ps_function spec # failed)))))"

definition enrich_vulnerability ::
  "enrich_env \<Rightarrow> provider \<Rightarrow> string \<Rightarrow> uuid \<Rightarrow> string list option \<Rightarrow> ('r, enrichment_run) db_prog" where
  "enrich_vulnerability env provider model vulnerability_id only =
     (if ne_concurrency env < 1 then raiseE (ValueError ''max_concurrency must be positive'')
      else if ne_budget env \<le> 0 then raiseE (ValueError ''budget_seconds must be positive'')
      else bindE (bindE (getE (\<lambda>w. concat (map (\<lambda>v. map (\<lambda>t. (v, t_ai_level t)) (filter (\<lambda>t. t_id t = v_tenant v) (seen_tenants w)))
               (filter (\<lambda>v. v_id v = vulnerability_id) (seen_vulns w))))) scalar_one_or_none) (\<lambda>loaded. case loaded of
        None \<Rightarrow> raiseE (VulnerabilityError 404 ''Vulnerability not found'')
      | Some (v, level) \<Rightarrow>
          let finding = from_vulnerability v; digest = input_hash (ne_lib env) finding (ne_language env) in
          bindE (getE (\<lambda>w. filter (\<lambda>r. e_vuln r = vulnerability_id) (seen_enrichments w))) (\<lambda>existing.
          bindE (ofE (functions_for_level level)) (\<lambda>functions.
          bindE (ofE (due_functions level existing digest model only)) (\<lambda>due.
          bindE (ofE (map_err (\<lambda>f. build_prompt (ne_lib env) f finding (ne_language env)) due)) (\<lambda>specs.
          thenE (whenE (due \<noteq> []) (modE (\<lambda>w. w\<lparr>work := ne_meanwhile env (work w), committed := ne_meanwhile env (committed w)\<rparr>)))
          (bindE (store_outputs v finding model digest (map (\<lambda>spec. (spec, ne_call env provider spec)) specs)) (\<lambda>(succeeded, failed).
          thenE flush (retE \<lparr>rr_succeeded = succeeded, rr_failed = failed,
            rr_skipped = filter (\<lambda>f. f \<notin> set due) (filter (in_scope only) functions)\<rparr>)))))))))"

subsection \<open>The task\<close>

definition enrich_in_session ::
  "(tables \<Rightarrow> exn option) \<Rightarrow> enrich_env \<Rightarrow> llm_settings \<Rightarrow> uuid \<Rightarrow> uuid \<Rightarrow> string list option \<Rightarrow> ('r, enrichment_run option) db_prog" where
  "enrich_in_session refuse env cfg vulnerability_id tenant_id only =
     own_session (thenE (set_tenant_context (Some tenant_id) False)
       (catchE (bindE (ofE (create_provider cfg (ls_provider cfg))) (\<lambda>provider.
           bindE (ofE (get_llm_model_name cfg)) (\<lambda>model.
           bindE (enrich_vulnerability env provider model vulnerability_id only) (\<lambda>result.
           thenE (commit refuse) (retE (Some result))))))
         (\<lambda>e. case e of VulnerabilityError code _ \<Rightarrow> if code \<noteq> 404 then raiseE e else retE None | _ \<Rightarrow> raiseE e)))"

definition retry_countdown :: "nat \<Rightarrow> int" where
  "retry_countdown retries = 30 * 2 ^ retries"

datatype task_end = TaskDone | TaskRetry int | TaskFailed exn

definition enrich ::
  "bool \<Rightarrow> (tables \<Rightarrow> exn option) \<Rightarrow> enrich_env \<Rightarrow> llm_settings \<Rightarrow> nat \<Rightarrow> uuid \<Rightarrow> uuid \<Rightarrow> string list option
   \<Rightarrow> 'r world \<Rightarrow> task_end \<times> 'r world" where
  "enrich enabled refuse env cfg retries vulnerability_id tenant_id only w =
     (if \<not> enabled then (TaskDone, w)
      else case enrich_in_session refuse env cfg vulnerability_id tenant_id only w of
          (Inl e, w') \<Rightarrow> ((if is_app_exception e \<and> retries < 3 then TaskRetry (retry_countdown retries) else TaskFailed e), w')
        | (Inr None, w') \<Rightarrow> (TaskDone, w')
        | (Inr (Some result), w') \<Rightarrow>
            ((if has_failures result \<and> retries < 3 then TaskRetry (retry_countdown retries) else TaskDone), w'))"

subsection \<open>The endpoints\<close>

definition visible_vulnerability :: "uuid \<Rightarrow> uuid option \<Rightarrow> ('r, vuln_row option) db_prog" where
  "visible_vulnerability vulnerability_id tenant_id =
     bindE (getE (\<lambda>w. filter (\<lambda>v. v_id v = vulnerability_id \<and> tenant_predicate tenant_id (v_tenant v)) (seen_vulns w)))
       scalar_one_or_none"

definition visible_scan :: "uuid \<Rightarrow> uuid option \<Rightarrow> ('r, scan_row option) db_prog" where
  "visible_scan scan_id tenant_id =
     bindE (getE (\<lambda>w. filter (\<lambda>s. sc_id s = scan_id \<and> tenant_predicate tenant_id (sc_tenant s)) (seen_scans w)))
       scalar_one_or_none"

definition tenant_level :: "uuid \<Rightarrow> ('r, string) db_prog" where
  "tenant_level tenant_id =
     bindE (getE (\<lambda>w. map t_ai_level (filter (\<lambda>t. t_id t = tenant_id) (seen_tenants w)))) scalar_one"

definition enrichment_rows :: "vuln_row \<Rightarrow> string list \<Rightarrow> ('r, enrichment_row list) db_prog" where
  "enrichment_rows v functions = getE (\<lambda>w. filter (\<lambda>r. e_vuln r = v_id v \<and> e_tenant r = v_tenant v \<and>
     e_function r \<in> set functions) (seen_enrichments w))"

definition ok_outputs :: "string list \<Rightarrow> enrichment_row list \<Rightarrow> vuln_row \<Rightarrow> nat" where
  "ok_outputs functions rows v = count_where (\<lambda>r. e_vuln r = v_id v \<and> e_tenant r = v_tenant v \<and>
     e_function r \<in> set functions \<and> e_status r = ''ok'') rows"

definition scan_pending :: "scan_row \<Rightarrow> string list \<Rightarrow> ('r, vuln_row list \<times> nat) db_prog" where
  "scan_pending scan functions =
     (let scope = (\<lambda>v. v_scan v = sc_id scan \<and> v_tenant v = sc_tenant scan)
      in bindE (getE (\<lambda>w. count_where scope (seen_vulns w))) (\<lambda>total.
         bindE (getE (\<lambda>w. sort_key v_id (filter (\<lambda>v. scope v \<and> ok_outputs functions (seen_enrichments w) v < length functions)
             (seen_vulns w)))) (\<lambda>pending. retE (pending, total))))"

record enrichment_item =
  it_function :: string
  it_status :: string
  it_content :: "string option"
  it_error :: "string option"
  it_model :: "string option"
  it_version :: "string option"
  it_attempts :: int

definition item_from_row :: "enrichment_row \<Rightarrow> enrichment_item" where
  "item_from_row r = \<lparr>it_function = e_function r, it_status = e_status r, it_content = e_content r, it_error = e_error r,
     it_model = e_model r, it_version = e_version r, it_attempts = e_attempts r\<rparr>"

definition missing_item :: "string \<Rightarrow> enrichment_item" where
  "missing_item f = \<lparr>it_function = f, it_status = ''missing'', it_content = None, it_error = None, it_model = None,
     it_version = None, it_attempts = 0\<rparr>"

text \<open>\<open>enqueue_enrichment\<close>: \<open>apply_async\<close> is the call of the broker, its timeout included.\<close>

definition enqueue_enrichment ::
  "bool \<Rightarrow> (uuid \<Rightarrow> uuid \<Rightarrow> ('r, unit) db_prog) \<Rightarrow> uuid \<Rightarrow> uuid \<Rightarrow> ('r, bool) db_prog" where
  "enqueue_enrichment enabled apply_async vulnerability_id tenant_id =
     (if \<not> enabled then retE False
      else catchE (thenE (apply_async vulnerability_id tenant_id) (retE True))
        (\<lambda>e. if is_app_exception e then retE False else raiseE e))"

definition require_enabled :: "bool \<Rightarrow> ('r, unit) db_prog" where
  "require_enabled enabled = (if \<not> enabled then raiseE (HTTPException 503 ''Enrichment is disabled'') else retE ())"

definition REQUESTERS :: "string list" where
  "REQUESTERS = [''admin'', ''analyst'', ''superadmin'']"

definition get_enrichment_route :: "user_row \<Rightarrow> uuid \<Rightarrow> ('r, uuid \<times> string \<times> enrichment_item list) db_prog" where
  "get_enrichment_route current_user vulnerability_id = allow READERS current_user
     (bindE (visible_vulnerability vulnerability_id (caller_tenant_id current_user)) (\<lambda>found.
      bindE (or_404 ''vulnerability not found'' found) (\<lambda>v.
      bindE (tenant_level (v_tenant v)) (\<lambda>level.
      bindE (ofE (functions_for_level level)) (\<lambda>functions.
      bindE (enrichment_rows v functions) (\<lambda>rows.
      retE (v_id v, level, map (\<lambda>f. case row_of rows f of None \<Rightarrow> missing_item f | Some r \<Rightarrow> item_from_row r) functions)))))))"

definition queue_one :: "(uuid \<Rightarrow> uuid \<Rightarrow> ('r, bool) db_prog) \<Rightarrow> vuln_row \<Rightarrow> ('r, unit) db_prog" where
  "queue_one enqueuer v = bindE (enqueuer (v_id v) (v_tenant v)) (\<lambda>queued.
     if \<not> queued then raiseE (HTTPException 503 ''Enrichment queue unavailable'') else retE ())"

definition request_enrichment_route ::
  "bool \<Rightarrow> (uuid \<Rightarrow> uuid \<Rightarrow> ('r, bool) db_prog) \<Rightarrow> user_row \<Rightarrow> uuid \<Rightarrow> ('r, nat) db_prog" where
  "request_enrichment_route enabled enqueuer current_user vulnerability_id = allow REQUESTERS current_user
     (bindE (visible_vulnerability vulnerability_id (caller_tenant_id current_user)) (\<lambda>found.
      bindE (or_404 ''vulnerability not found'' found) (\<lambda>v.
      thenE (require_enabled enabled) (thenE (queue_one enqueuer v) (retE 1)))))"

definition request_scan_enrichment_route ::
  "bool \<Rightarrow> (uuid \<Rightarrow> uuid \<Rightarrow> ('r, bool) db_prog) \<Rightarrow> user_row \<Rightarrow> uuid \<Rightarrow> ('r, nat \<times> nat) db_prog" where
  "request_scan_enrichment_route enabled enqueuer current_user scan_id = allow REQUESTERS current_user
     (bindE (visible_scan scan_id (caller_tenant_id current_user)) (\<lambda>found.
      bindE (or_404 ''scan not found'' found) (\<lambda>scan.
      thenE (require_enabled enabled)
      (bindE (tenant_level (sc_tenant scan)) (\<lambda>level.
      bindE (ofE (functions_for_level level)) (\<lambda>functions.
      bindE (scan_pending scan functions) (\<lambda>(pending, total).
      thenE (forE pending (queue_one enqueuer)) (retE (length pending, total)))))))))"

subsection \<open>Storing the outputs\<close>

lemma upsert_simps [simp]:
  "tenants (upsert_enrichment new t) = tenants t" "users (upsert_enrichment new t) = users t"
  "rtokens (upsert_enrichment new t) = rtokens t" "assets (upsert_enrichment new t) = assets t"
  "scans (upsert_enrichment new t) = scans t" "vulns (upsert_enrichment new t) = vulns t"
  "reports (upsert_enrichment new t) = reports t"
  by (simp_all add: upsert_enrichment_def)

lemma filter_update_other:
  "(\<And>x. p x \<Longrightarrow> \<not> q x \<and> \<not> q (f x)) \<Longrightarrow> filter q (update_where p f xs) = filter q xs"
  by (induction xs) auto

lemma upsert_others:
  assumes "\<And>r. q r \<Longrightarrow> \<not> same_key new r"
  shows "filter q (enrichments (upsert_enrichment new t)) = filter q (enrichments t)"
proof -
  have "\<not> q r \<and> \<not> q (overwrite new r)" if "same_key new r" for r
    using assms [of r] assms [of "overwrite new r"] that by (auto simp: same_key_def overwrite_def)
  moreover have "\<not> q new" using assms [of new] by (auto simp: same_key_def)
  ultimately show ?thesis by (auto simp: upsert_enrichment_def intro!: filter_update_other)
qed

lemma upsert_success:
  assumes "e_error new = None"
  shows "\<exists>r \<in> set (enrichments (upsert_enrichment new t)). same_key new r \<and> e_content r = e_content new \<and>
    e_status r = e_status new \<and> e_hash r = e_hash new \<and> e_version r = e_version new \<and> e_model r = e_model new"
proof (cases "list_ex (same_key new) (enrichments t)")
  case True
  then obtain r where "r \<in> set (enrichments t)" "same_key new r" by (auto simp: list_ex_iff)
  then have "overwrite new r \<in> set (enrichments (upsert_enrichment new t))"
    using assms True by (auto simp: upsert_enrichment_def update_where_image update_guard_def intro!: image_eqI [of _ _ r])
  moreover have "same_key new (overwrite new r)" using \<open>same_key new r\<close> by (simp add: same_key_def overwrite_def)
  ultimately show ?thesis using assms by (force simp: overwrite_def)
qed (auto simp: upsert_enrichment_def same_key_def)

lemma upsert_keeps_success:
  assumes "e_error new \<noteq> None" and "r \<in> set (enrichments t)" and "up_to_date digest model r"
    and "e_hash new = Some digest" and "e_model new = Some model" and "e_version new = Some PROMPT_VERSION"
  shows "r \<in> set (enrichments (upsert_enrichment new t))"
  using assms by (auto simp: upsert_enrichment_def update_where_image update_guard_def up_to_date_def image_iff)

definition is_output :: "vuln_row \<Rightarrow> string list \<Rightarrow> enrichment_row \<Rightarrow> bool" where
  "is_output v fs r \<longleftrightarrow> e_vuln r = v_id v \<and> e_function r \<in> set fs"

text \<open>What a success stores: a text that cites identifiers of the finding only.\<close>

definition good_output :: "vuln_row \<Rightarrow> enrichment_input \<Rightarrow> string \<Rightarrow> string \<Rightarrow> string \<Rightarrow> enrichment_row \<Rightarrow> bool" where
  "good_output v finding digest model f r \<longleftrightarrow> e_vuln r = v_id v \<and> e_function r = f \<and> up_to_date digest model r \<and>
     (\<exists>c. e_content r = Some c \<and> upper ` set (matches_of (re_split citation_at None c)) \<subseteq> set (supported finding))"

lemma checked_citations:
  "upper ` set (matches_of (re_split citation_at None (cc_text (check_citations s finding)))) \<subseteq> set (supported finding)"
  by (auto simp: check_citations_def Let_def matches_settled
      split_checked [of s None None "supported finding", unfolded checked_def])

lemma judge_success:
  assumes "judge_output finding out = Inr (content, None)"
  shows "\<exists>c. content = Some c \<and> upper ` set (matches_of (re_split citation_at None c)) \<subseteq> set (supported finding)"
  using assms checked_citations [of _ finding]
  by (auto simp: judge_output_def split: option.splits prod.splits bool.splits json.splits if_splits)

lemma insert_checked_work:
  assumes "insert_checked allowed f w = (Inr u, w')"
  shows "w' = w\<lparr>work := f (work w)\<rparr>"
  using assms by (auto simp: insert_checked_def flush_cases split: if_splits)

lemma store_outputs_step:
  assumes "store_outputs v finding model digest ((spec, out) # rest) w = (Inr (succeeded, failed), w')"
  obtains judged s x where "judge_output finding out = Inr judged"
    and "store_outputs v finding model digest rest (w\<lparr>work := upsert_enrichment
           (new_enrichment v (ps_function spec) judged model (ps_version spec) digest) (work w)\<rparr>) = (Inr (s, x), w')"
    and "(succeeded, failed) = (if snd judged = None then (ps_function spec # s, x) else (s, ps_function spec # x))"
  using assms by (auto simp: bindE_success thenE_def split: if_splits dest!: insert_checked_work)

lemma same_key_new: "same_key (new_enrichment v f judged model ver digest) r \<longleftrightarrow> v_id v = e_vuln r \<and> f = e_function r"
  by (simp add: same_key_def new_enrichment_def)

lemma store_outputs_frame:
  assumes "store_outputs v finding model digest outs w = (Inr (succeeded, failed), w')"
    and "\<And>r. q r \<Longrightarrow> \<not> is_output v (map (ps_function \<circ> fst) outs) r"
  shows "filter q (enrichments (work w')) = filter q (enrichments (work w)) \<and>
    work w' = (work w)\<lparr>enrichments := enrichments (work w')\<rparr> \<and> committed w' = committed w \<and>
    mset (succeeded @ failed) = mset (map (ps_function \<circ> fst) outs)"
  using assms
proof (induction outs arbitrary: w succeeded failed)
  case (Cons o1 rest)
  obtain spec out where o1: "o1 = (spec, out)" by fastforce
  from Cons.prems(1)[unfolded o1] obtain judged s x where
    run: "store_outputs v finding model digest rest (w\<lparr>work := upsert_enrichment
      (new_enrichment v (ps_function spec) judged model (ps_version spec) digest) (work w)\<rparr>) = (Inr (s, x), w')"
    and lists: "(succeeded, failed) = (if snd judged = None then (ps_function spec # s, x) else (s, ps_function spec # x))"
    by (rule store_outputs_step)
  let ?new = "new_enrichment v (ps_function spec) judged model (ps_version spec) digest"
  have rest: "\<not> is_output v (map (ps_function \<circ> fst) rest) r" and "\<not> same_key ?new r" if "q r" for r
    using Cons.prems(2) [OF that] by (auto simp: is_output_def o1 same_key_new)
  then have "filter q (enrichments (upsert_enrichment ?new (work w))) = filter q (enrichments (work w))"
    by (intro upsert_others) blast
  moreover have "mset (succeeded @ failed) = add_mset (ps_function spec) (mset (s @ x))"
    using lists by (auto split: if_splits)
  ultimately show ?case
    using Cons.IH [OF run rest] by (simp add: o1 upsert_enrichment_def)
qed simp

text \<open>A success of the same inputs stays in the table, and every success of the run is there at its end.\<close>

lemma store_outputs_keeps:
  assumes "store_outputs v finding model digest outs w = (Inr (succeeded, failed), w')"
    and "r \<in> set (enrichments (work w))" and "up_to_date digest model r"
    and "e_vuln r = v_id v \<Longrightarrow> e_function r \<notin> set succeeded"
    and "list_all (\<lambda>(spec, out). ps_version spec = PROMPT_VERSION) outs"
  shows "r \<in> set (enrichments (work w'))"
  using assms
proof (induction outs arbitrary: w succeeded failed)
  case (Cons o1 rest)
  obtain spec out where o1: "o1 = (spec, out)" by fastforce
  from Cons.prems(1)[unfolded o1] obtain judged s x where
    run: "store_outputs v finding model digest rest (w\<lparr>work := upsert_enrichment
      (new_enrichment v (ps_function spec) judged model (ps_version spec) digest) (work w)\<rparr>) = (Inr (s, x), w')"
    and lists: "(succeeded, failed) = (if snd judged = None then (ps_function spec # s, x) else (s, ps_function spec # x))"
    by (rule store_outputs_step)
  let ?new = "new_enrichment v (ps_function spec) judged model (ps_version spec) digest"
  have "r \<in> set (enrichments (upsert_enrichment ?new (work w)))"
  proof (cases "same_key ?new r")
    case True
    with lists Cons.prems(4) have "snd judged \<noteq> None" by (auto simp: same_key_new split: if_splits)
    with Cons.prems(2,3,5) show ?thesis
      by (intro upsert_keeps_success) (auto simp: new_enrichment_def o1)
  next
    case False
    have "filter (\<lambda>x. x = r) (enrichments (upsert_enrichment ?new (work w))) = filter (\<lambda>x. x = r) (enrichments (work w))"
      using False by (intro upsert_others) simp
    moreover have "r \<in> set (filter (\<lambda>x. x = r) (enrichments (work w)))" using Cons.prems(2) by simp
    ultimately show ?thesis by (metis filter_is_subset subsetD)
  qed
  moreover have "e_vuln r = v_id v \<Longrightarrow> e_function r \<notin> set s" using Cons.prems(4) lists by (auto split: if_splits)
  ultimately show ?case using Cons.IH [OF run] Cons.prems(3,5) o1 by simp
qed simp

lemma store_outputs_good:
  assumes "store_outputs v finding model digest outs w = (Inr (succeeded, failed), w')" and "f \<in> set succeeded"
    and "distinct (map (ps_function \<circ> fst) outs)" and "list_all (\<lambda>(spec, out). ps_version spec = PROMPT_VERSION) outs"
  shows "\<exists>r \<in> set (enrichments (work w')). good_output v finding digest model f r"
  using assms
proof (induction outs arbitrary: w succeeded failed)
  case (Cons o1 rest)
  obtain spec out where o1: "o1 = (spec, out)" by fastforce
  from Cons.prems(1)[unfolded o1] obtain judged s x where judged: "judge_output finding out = Inr judged"
    and run: "store_outputs v finding model digest rest (w\<lparr>work := upsert_enrichment
      (new_enrichment v (ps_function spec) judged model (ps_version spec) digest) (work w)\<rparr>) = (Inr (s, x), w')"
    and lists: "(succeeded, failed) = (if snd judged = None then (ps_function spec # s, x) else (s, ps_function spec # x))"
    by (rule store_outputs_step)
  let ?new = "new_enrichment v (ps_function spec) judged model (ps_version spec) digest"
  show ?case
  proof (cases "f \<in> set s")
    case True
    with Cons.IH [OF run] Cons.prems(3,4) show ?thesis by (simp add: o1)
  next
    case False
    with lists Cons.prems(2) have ok: "snd judged = None" "f = ps_function spec" by (auto split: if_splits)
    then obtain c where c: "fst judged = Some c" "upper ` set (matches_of (re_split citation_at None c)) \<subseteq> set (supported finding)"
      using judge_success [of finding out "fst judged"] judged by (metis prod.collapse)
    from ok(1) upsert_success [of ?new "work w"] obtain r where r: "r \<in> set (enrichments (upsert_enrichment ?new (work w)))"
      "same_key ?new r" "e_content r = fst judged" "e_status r = ''ok''" "e_hash r = Some digest"
      "e_version r = Some (ps_version spec)" "e_model r = Some model"
      by (auto simp: new_enrichment_def)
    have "e_function r \<notin> set s"
      using store_outputs_frame [OF run, of "\<lambda>_. False"] Cons.prems(3) r(2) unfolding o1
      by (metis Cons.prems(3) False ok(2) same_key_new)
    then have "r \<in> set (enrichments (work w'))"
      using store_outputs_keeps [OF run] r Cons.prems(4) by (simp add: o1 up_to_date_def)
    with r c ok Cons.prems(4) show ?thesis by (auto simp: good_output_def same_key_new up_to_date_def o1 intro!: bexI [of _ r])
  qed
qed simp

subsection \<open>Properties\<close>

lemma level_functions: "functions_for_level level = Inr fs \<Longrightarrow> distinct fs"
proof -
  have "distinct BASIC \<and> distinct (BASIC @ [''technical_description'', ''exploitability'', ''references'']) \<and> distinct enrichment_functions"
    by code_simp
  then show "functions_for_level level = Inr fs \<Longrightarrow> distinct fs" by (auto simp: functions_for_level_def split: if_splits)
qed

lemma prompt_fields: "build_prompt lib f finding language = Inr spec \<Longrightarrow> ps_function spec = f \<and> ps_version spec = PROMPT_VERSION"
  by (auto simp: build_prompt_def split: option.splits)

lemma prompts_fields:
  "map_err (\<lambda>f. build_prompt lib f finding language) fs = Inr specs \<Longrightarrow>
     map ps_function specs = fs \<and> list_all (\<lambda>spec. ps_version spec = PROMPT_VERSION) specs"
  by (induction fs arbitrary: specs) (auto split: sum.splits dest: prompt_fields)

lemma enrich_parts:
  assumes "enrich_vulnerability env provider model i only w = (Inr r, w')"
  obtains v tn finding digest fs due specs t where "v \<in> set (seen_vulns w)" and "v_id v = i"
    and "tn \<in> set (seen_tenants w)" and "t_id tn = v_tenant v"
    and "finding = from_vulnerability v" and "digest = input_hash (ne_lib env) finding (ne_language env)"
    and "functions_for_level (t_ai_level tn) = Inr fs"
    and "due_functions (t_ai_level tn) (filter (\<lambda>r. e_vuln r = i) (seen_enrichments w)) digest model only = Inr due"
    and "map_err (\<lambda>f. build_prompt (ne_lib env) f finding (ne_language env)) due = Inr specs"
    and "t = (if due = [] then w else w\<lparr>work := ne_meanwhile env (work w), committed := ne_meanwhile env (committed w)\<rparr>)"
    and "store_outputs v finding model digest (map (\<lambda>spec. (spec, ne_call env provider spec)) specs) t =
           (Inr (rr_succeeded r, rr_failed r), w')"
    and "rr_skipped r = filter (\<lambda>f. f \<notin> set due) (filter (in_scope only) fs)"
proof -
  let ?join = "concat (map (\<lambda>v. map (\<lambda>t. (v, t_ai_level t)) (filter (\<lambda>t. t_id t = v_tenant v) (seen_tenants w)))
    (filter (\<lambda>v. v_id v = i) (seen_vulns w)))"
  from assms obtain v level where j: "scalar_one_or_none ?join w = (Inr (Some (v, level)), w)"
    by (auto simp: enrich_vulnerability_def bindE_success scalar_one_or_none_run split: if_splits option.splits)
  then have "?join = [(v, level)]" by (simp add: scalar_one_or_none_run)
  then have "(v, level) \<in> set ?join" by simp
  then obtain tn where v: "v \<in> set (seen_vulns w)" "v_id v = i" "tn \<in> set (seen_tenants w)" "t_id tn = v_tenant v"
    and level: "level = t_ai_level tn"
    by auto
  from assms j show thesis unfolding level
    by (auto simp: enrich_vulnerability_def bindE_success thenE_def Let_def flush_cases whenE_def split: if_splits prod.splits
        intro!: that [OF v refl refl])
qed

text \<open>
  C19: A run of the enrichment keeps its cache sound.  When a run returns, the functions of the tenant's level that were
  asked for are split into succeeded, failed and skipped; each that succeeded has a row that is up to date for
  the finding, the prompt and the model and that cites identifiers of the finding only; a row that was up to date
  already, also one another run committed while the model was called, stays exactly as it was unless this run
  succeeded too; and no row of another finding or function, and no other table, is touched.
\<close>

theorem enrichment_cache_sound:
  assumes "enrich_vulnerability env provider model i only w = (Inr r, w')"
  shows "\<exists>v tn t fs. v \<in> set (seen_vulns w) \<and> v_id v = i \<and> tn \<in> set (seen_tenants w) \<and> t_id tn = v_tenant v \<and>
    t \<in> {work w, ne_meanwhile env (work w)} \<and> functions_for_level (t_ai_level tn) = Inr fs \<and>
    mset (rr_succeeded r @ rr_failed r @ rr_skipped r) = mset (filter (in_scope only) fs) \<and>
    (let finding = from_vulnerability v; digest = input_hash (ne_lib env) finding (ne_language env)
     in (\<forall>f \<in> set (rr_succeeded r). \<exists>e \<in> set (enrichments (work w')). good_output v finding digest model f e) \<and>
        (\<forall>e \<in> set (enrichments t). up_to_date digest model e \<and> \<not> (e_vuln e = i \<and> e_function e \<in> set (rr_succeeded r)) \<longrightarrow>
           e \<in> set (enrichments (work w')))) \<and>
    filter (\<lambda>e. \<not> (e_vuln e = i \<and> e_function e \<in> set (rr_succeeded r @ rr_failed r))) (enrichments (work w')) =
      filter (\<lambda>e. \<not> (e_vuln e = i \<and> e_function e \<in> set (rr_succeeded r @ rr_failed r))) (enrichments t) \<and>
    work w' = t\<lparr>enrichments := enrichments (work w')\<rparr>"
proof -
  from assms obtain v tn finding digest fs due specs t where v: "v \<in> set (seen_vulns w)" "v_id v = i"
      "tn \<in> set (seen_tenants w)" "t_id tn = v_tenant v"
    and inputs: "finding = from_vulnerability v" "digest = input_hash (ne_lib env) finding (ne_language env)"
    and fs: "functions_for_level (t_ai_level tn) = Inr fs"
    and due: "due_functions (t_ai_level tn) (filter (\<lambda>r. e_vuln r = i) (seen_enrichments w)) digest model only = Inr due"
    and specs: "map_err (\<lambda>f. build_prompt (ne_lib env) f finding (ne_language env)) due = Inr specs"
    and t: "t = (if due = [] then w else w\<lparr>work := ne_meanwhile env (work w), committed := ne_meanwhile env (committed w)\<rparr>)"
    and run: "store_outputs v finding model digest (map (\<lambda>spec. (spec, ne_call env provider spec)) specs) t =
           (Inr (rr_succeeded r, rr_failed r), w')"
    and skipped: "rr_skipped r = filter (\<lambda>f. f \<notin> set due) (filter (in_scope only) fs)"
    by (rule enrich_parts)
  let ?outs = "map (\<lambda>spec. (spec, ne_call env provider spec)) specs"
  have outs: "map (ps_function \<circ> fst) ?outs = due" "list_all (\<lambda>(spec, out). ps_version spec = PROMPT_VERSION) ?outs"
    using prompts_fields [OF specs] by (auto simp: list_all_iff comp_def)
  obtain p where p: "due = filter p fs" "\<And>f. p f \<Longrightarrow> in_scope only f"
    using due fs by (auto simp: due_functions_def)
  have dist: "distinct due" using level_functions [OF fs] p(1) by simp
  have frame: "mset (rr_succeeded r @ rr_failed r) = mset due" "work w' = (work t)\<lparr>enrichments := enrichments (work w')\<rparr>"
    using store_outputs_frame [OF run, of "\<lambda>_. False", unfolded outs(1)] by simp_all
  then have members: "set (rr_succeeded r @ rr_failed r) = set due" by (metis set_mset_mset)
  have "due = filter (\<lambda>f. f \<in> set due) (filter (in_scope only) fs)" using p by (auto intro!: filter_cong)
  then have "mset (filter (in_scope only) fs) = mset due + mset (rr_skipped r)"
    unfolding skipped by (metis mset_filter multiset_partition)
  moreover have "work t \<in> {work w, ne_meanwhile env (work w)}" by (simp add: t)
  moreover have "\<forall>f \<in> set (rr_succeeded r). \<exists>e \<in> set (enrichments (work w')). good_output v finding digest model f e"
    using store_outputs_good [OF run _ _ outs(2)] dist outs(1) by auto
  moreover have "\<forall>e \<in> set (enrichments (work t)). up_to_date digest model e \<and>
      \<not> (e_vuln e = i \<and> e_function e \<in> set (rr_succeeded r)) \<longrightarrow> e \<in> set (enrichments (work w'))"
    using store_outputs_keeps [OF run _ _ _ outs(2)] v(2) by auto
  moreover have "filter (\<lambda>e. \<not> (e_vuln e = i \<and> e_function e \<in> set (rr_succeeded r @ rr_failed r))) (enrichments (work w')) =
      filter (\<lambda>e. \<not> (e_vuln e = i \<and> e_function e \<in> set (rr_succeeded r @ rr_failed r))) (enrichments (work t))"
    by (rule store_outputs_frame [OF run, unfolded outs(1), THEN conjunct1]) (use members v(2) in \<open>auto simp: is_output_def\<close>)
  ultimately show ?thesis
    using v fs frame inputs by (intro exI [of _ v] exI [of _ tn] exI [of _ "work t"] exI [of _ fs]) (simp add: Let_def)
qed

definition sample_enrich :: enrich_env where
  "sample_enrich = \<lparr>ne_lib = sample_prompt_lib, ne_call = (\<lambda>_ _. Some (JStr ''Patch it.'', False)), ne_meanwhile = id,
     ne_language = ''en'', ne_concurrency = 3, ne_budget = 120\<rparr>"

lemma enrichment_cache_sound_witness:
  "\<exists>w'. enrich_vulnerability sample_enrich (make_provider OpenAICompatProvider ''k'' ''m'' 30 None) ''m'' 70 (Some [''remediation''])
      (sample_vuln_db [finding_row 1 7 0 70 (sample_draft ''a'')]) =
      (Inr \<lparr>rr_succeeded = [''remediation''], rr_failed = [], rr_skipped = []\<rparr>, w') \<and>
    (\<exists>e \<in> set (enrichments (work w')). e_function e = ''remediation'' \<and> e_content e \<noteq> None)"
proof -
  let ?p = "make_provider OpenAICompatProvider ''k'' ''m'' 30 None"
  define v where "v = finding_row 1 7 0 70 (sample_draft ''a'')"
  define w where "w = sample_vuln_db [v]"
  define tn where "tn = sample_tenant 1"
  define f where "f = from_vulnerability v"
  obtain digest where digest: "input_hash sample_prompt_lib f ''en'' = digest" by blast
  have "map_of FUNCTION_INSTRUCTIONS ''remediation'' \<noteq> None" "map_of LANGUAGE_INSTRUCTIONS ''en'' \<noteq> None" by code_simp+
  then obtain spec where spec: "build_prompt sample_prompt_lib ''remediation'' f ''en'' = Inr spec"
    by (auto simp: build_prompt_def)
  have "strip ''Patch it.'' \<noteq> []" by code_simp
  then have judged: "judge_output f (Some (JStr ''Patch it.'', False)) = Inr (Some (cc_text (check_citations ''Patch it.'' f)), None)"
    by (simp add: judge_output_def)
  obtain judged' where j: "judged' = (Some (cc_text (check_citations ''Patch it.'' f)), None :: string option)" by blast
  let ?t = "upsert_enrichment (new_enrichment v ''remediation'' judged' ''m'' PROMPT_VERSION digest) (work w)"
  have seen: "seen_tenants w = [tn]" "seen_vulns w = [v]" "seen_enrichments w = []" "rls_row (guc w) (v_tenant v)"
    by (simp_all add: seen_tenants_def seen_vulns_def seen_enrichments_def w_def v_def tn_def sample_vuln_db_def sample_db_def
        sample_defs finding_row_def rls_row_def Let_def)
  have v: "v_id v = 70" "t_id tn = v_tenant v" "t_ai_level tn = ''basic''"
    by (simp_all add: v_def tn_def finding_row_def sample_tenant_def)
  have valid: "violation ?t = None"
    by (simp add: upsert_enrichment_def new_enrichment_def w_def v_def sample_vuln_db_def sample_db_def sample_defs finding_row_def Let_def
        constraint_defs sample_draft_def VALID_SEVERITIES_def enrichment_functions_def j)
  have level: "functions_for_level ''basic'' = Inr BASIC" by (simp add: functions_for_level_def)
  have due: "due_functions ''basic'' [] digest ''m'' (Some [''remediation'']) = Inr [''remediation'']"
    "filter (\<lambda>f. in_scope (Some [''remediation'']) f \<and> f \<noteq> ''remediation'') BASIC = []"
    by (simp_all add: due_functions_def level BASIC_def in_scope_def row_of_def)
  have run: "enrich_vulnerability sample_enrich ?p ''m'' 70 (Some [''remediation'']) w =
      (Inr \<lparr>rr_succeeded = [''remediation''], rr_failed = [], rr_skipped = []\<rparr>, w\<lparr>work := ?t\<rparr>)"
    using prompt_fields [OF spec] valid judged [folded j]
    by (simp add: enrich_vulnerability_def sample_enrich_def bindE_def thenE_def seen v scalar_one_or_none_def Let_def
        f_def [symmetric] digest level due spec insert_checked_def flush_def ofE_def j)
  from enrichment_cache_sound [OF run]
  have "\<exists>e \<in> set (enrichments ?t). e_function e = ''remediation'' \<and> e_content e \<noteq> None"
    by (fastforce simp: Let_def good_output_def)
  with run show ?thesis unfolding w_def v_def by fastforce
qed

end
