(* ===== verification/Event_Consumer.thy ===== *)
theory Event_Consumer
  imports Event_Bus
begin

text \<open>
  The consumer of \<open>app/event_bus/consumer.py\<close> and the background loop of \<open>app/main.py\<close> that feeds its
  messages to \<open>EventBus._dispatch_event\<close>.  The commands of consumer groups are a second parameter beside
  \<open>call\<close>; what the code relies on is the locale \<open>consumer_group\<close>: entries of a stream do not change, and
  only an acknowledgement takes a message off the pending list.
\<close>

subsection \<open>The consumer\<close>

type_synonym fields = "(string \<times> string) list"

datatype group_cmd =
    XGROUP_CREATE string string
  | XPENDING_RANGE string string nat
  | XCLAIM string string string "string list"
  | XREADGROUP string string string nat int
  | XACK string string string
  | XDEL string string

datatype group_reply = GOk | GPending "string list" | GMessages "(string \<times> fields) list"

type_synonym 'r group_call = "group_cmd \<Rightarrow> 'r \<Rightarrow> (redis_exc + group_reply) \<times> 'r"

record 'r event_consumer =
  ec_call :: "'r group_call"
  ec_prefix :: string
  ec_type :: string
  ec_name :: string
  ec_group :: string

definition stream_key :: "'r event_consumer \<Rightarrow> string" where
  "stream_key c = ec_prefix c @ '':'' @ ec_type c"

definition group_do :: "'r event_consumer \<Rightarrow> group_cmd \<Rightarrow> ('r, group_reply) redis_prog" where
  "group_do c cmd s = (case ec_call c cmd s of
      (Inl e, t) \<Rightarrow> (Inl (RawRedis e), t) | (Inr r, t) \<Rightarrow> (Inr r, t))"

definition ensure_group_exists :: "'r event_consumer \<Rightarrow> ('r, unit) redis_prog" where
  "ensure_group_exists c = catchE (thenE (group_do c (XGROUP_CREATE (stream_key c) (ec_group c))) (retE ()))
     (\<lambda>e. case e of
        RawRedis (RedisResponseLib m) \<Rightarrow>
          if is_infix ''BUSYGROUP'' (upper m) then retE () else raiseE (classify_redis_error (RedisResponseLib m))
      | RawRedis x \<Rightarrow> raiseE (if is_exception x then classify_redis_error x else RawRedis x)
      | _ \<Rightarrow> raiseE e)"

definition messages_of :: "group_reply \<Rightarrow> (string \<times> fields) list" where
  "messages_of r = (case r of GMessages ms \<Rightarrow> ms | _ \<Rightarrow> [])"

definition read_pending :: "'r event_consumer \<Rightarrow> ('r, (string \<times> fields) list) redis_prog" where
  "read_pending c = thenE (ensure_group_exists c)
     (bindE (classified (group_do c (XPENDING_RANGE (stream_key c) (ec_group c) 100))) (\<lambda>r. case r of
         GPending (i # is) \<Rightarrow>
           bindE (classified (group_do c (XCLAIM (stream_key c) (ec_group c) (ec_name c) (i # is))))
             (\<lambda>claimed. retE (messages_of claimed))
       | _ \<Rightarrow> retE []))"

definition read_new :: "'r event_consumer \<Rightarrow> int \<Rightarrow> ('r, (string \<times> fields) list) redis_prog" where
  "read_new c block = thenE (ensure_group_exists c)
     (bindE (classified (group_do c (XREADGROUP (stream_key c) (ec_group c) (ec_name c) 10 block)))
       (\<lambda>r. retE (messages_of r)))"

definition reconnect_and_resume :: "'r event_consumer \<Rightarrow> ('r, (string \<times> fields) list) redis_prog" where
  "reconnect_and_resume c = thenE (ensure_group_exists c) (read_pending c)"

definition consumer_ack :: "'r event_consumer \<Rightarrow> string \<Rightarrow> ('r, unit) redis_prog" where
  "consumer_ack c i = thenE (classified (group_do c (XACK (stream_key c) (ec_group c) i))) (retE ())"

definition consumer_delete :: "'r event_consumer \<Rightarrow> string \<Rightarrow> ('r, unit) redis_prog" where
  "consumer_delete c i = thenE (group_do c (XDEL (stream_key c) i)) (retE ())"

subsection \<open>The loop\<close>

text \<open>The texts of the instant and of the exception that go to the dead letter stream, by message.\<close>

record round_texts =
  tx_reason :: "string \<Rightarrow> string"
  tx_now :: "string \<Rightarrow> string"

type_synonym handlers = "string \<Rightarrow> fields \<Rightarrow> exn option"

definition dispatch_message ::
  "'r event_bus \<Rightarrow> handlers \<Rightarrow> round_texts \<Rightarrow> string \<Rightarrow> fields \<Rightarrow> ('r, bool) redis_prog" where
  "dispatch_message bus handler texts i data s =
     (case dispatch_event bus handler (tx_reason texts i) (tx_now texts i) True ''auth.login'' (Some i) (s, data) of
        (x, (s', _)) \<Rightarrow> (x, s'))"

definition handle_message ::
  "'r event_bus \<Rightarrow> handlers \<Rightarrow> round_texts \<Rightarrow> 'r event_consumer \<Rightarrow> string \<times> fields \<Rightarrow> ('r, unit) redis_prog" where
  "handle_message bus handler texts c m = (case m of (i, data) \<Rightarrow>
     bindE (dispatch_message bus handler texts i data)
       (\<lambda>acknowledgement_eligible. whenE acknowledgement_eligible (consumer_ack c i)))"

definition XREADGROUP_BLOCK_MS :: int where
  "XREADGROUP_BLOCK_MS = 5000"

text \<open>One turn of the loop; the pause after an error changes nothing.\<close>

definition consumer_round ::
  "'r event_bus \<Rightarrow> handlers \<Rightarrow> 'r event_consumer \<Rightarrow> round_texts \<Rightarrow> ('r, unit) redis_prog" where
  "consumer_round bus handler c texts = catchE
     (bindE (bindE (read_pending c) (\<lambda>pending. if pending \<noteq> [] then retE pending else read_new c XREADGROUP_BLOCK_MS))
       (\<lambda>messages. forE messages (handle_message bus handler texts c)))
     (\<lambda>e. if is_app_exception e then retE () else raiseE e)"

text \<open>The loop until the stop event: a list of its turns.\<close>

definition consumer_loop ::
  "'r event_bus \<Rightarrow> handlers \<Rightarrow> 'r event_consumer \<Rightarrow> round_texts list \<Rightarrow> ('r, unit) redis_prog" where
  "consumer_loop bus handler c rounds = forE rounds (consumer_round bus handler c)"

subsection \<open>The contract of a consumer group\<close>

fun group_key :: "group_cmd \<Rightarrow> string \<times> string option" where
  "group_key (XGROUP_CREATE k g) = (k, Some g)"
| "group_key (XPENDING_RANGE k g n) = (k, Some g)"
| "group_key (XCLAIM k g c is) = (k, Some g)"
| "group_key (XREADGROUP k g c n b) = (k, Some g)"
| "group_key (XACK k g i) = (k, Some g)"
| "group_key (XDEL k i) = (k, None)"

locale consumer_group = redis_contract call view
  for call :: "'r redis_call" and view :: "'r \<Rightarrow> rstore" +
  fixes gcall :: "'r group_call" and pend :: "'r \<Rightarrow> string set" and body :: "string \<Rightarrow> fields"
    and stream :: string and grp :: string
  assumes group_frame: "gcall c s = (x, s') \<Longrightarrow> fst (group_key c) = stream \<Longrightarrow> k \<noteq> stream \<Longrightarrow> store (view s') k = store (view s) k"
    and group_pending: "gcall c s = (x, s') \<Longrightarrow> group_key c = (stream, Some grp) \<Longrightarrow> (\<And>i. c \<noteq> XACK stream grp i) \<Longrightarrow> pend s \<subseteq> pend s'"
    and group_ack: "gcall (XACK stream grp i) s = (x, s') \<Longrightarrow> pend s - {i} \<subseteq> pend s'"
    and group_messages: "gcall c s = (Inr (GMessages ms), s') \<Longrightarrow> group_key c = (stream, Some grp) \<Longrightarrow> (i, d) \<in> set ms \<Longrightarrow> d = body i"
    and call_pending: "call cmd s = (y, s') \<Longrightarrow> rkey cmd \<noteq> Some stream \<Longrightarrow> pend s \<subseteq> pend s'"

definition dead_letters :: "rstore \<Rightarrow> string \<Rightarrow> fields set" where
  "dead_letters st k = (case store st k of Some (VStream es, d) \<Rightarrow> snd ` set es | _ \<Rightarrow> {})"

definition lasting_stream :: "rstore \<Rightarrow> string \<Rightarrow> bool" where
  "lasting_stream st k \<longleftrightarrow> (case store st k of None \<Rightarrow> True | Some (VStream es, None) \<Rightarrow> True | _ \<Rightarrow> False)"

text \<open>A message that needs no more work: its handler returns, or it is among the dead letters.\<close>

definition settled :: "handlers \<Rightarrow> fields set \<Rightarrow> fields \<Rightarrow> bool" where
  "settled handler dead data \<longleftrightarrow> handler ''auth.login'' data = None \<or>
     (\<exists>now reason. AList.update ''_dlq_timestamp'' now (AList.update ''_dlq_reason'' reason data) \<in> dead)"

lemma keeps_classified: "keeps P m \<Longrightarrow> keeps P (classified m)"
  unfolding classified_def by (intro keeps_catch) (auto split: exn.split)

lemma keeps_dredis: "keeps P m \<Longrightarrow> keeps (\<lambda>s. P (fst s)) (dredis m)"
  by (auto simp: keeps_def dredis_def split: prod.split)

lemma keeps_except_exception: "keeps P m \<Longrightarrow> keeps P h \<Longrightarrow> keeps P (except_exception m h)"
  unfolding except_exception_def by (intro keeps_catch keeps_if) auto

lemma keeps_for_in: "(\<And>x. x \<in> set xs \<Longrightarrow> keeps P (f x)) \<Longrightarrow> keeps P (forE xs f)"
  by (induction xs) (auto intro: keeps_then)

lemma keeps_bind_result:
  assumes "keeps P m" and "\<And>s x t. m s = (Inr x, t) \<Longrightarrow> keeps P (f x)"
  shows "keeps P (bindE m f)"
proof (rule keepsI)
  fix s assume "P s"
  obtain r t where run: "m s = (r, t)" by fastforce
  from keepsD [OF assms(1) \<open>P s\<close> run] assms(2) [of s _ t] run show "P (snd (bindE m f s))"
    by (cases r) (auto simp: bindE_def keeps_def)
qed

context consumer_group
begin

text \<open>The invariant of the loop for the messages \<open>A\<close>, with the dead letters \<open>D\<close> of its start.\<close>

definition nothing_lost :: "handlers \<Rightarrow> string \<Rightarrow> string set \<Rightarrow> fields set \<Rightarrow> 'r \<Rightarrow> bool" where
  "nothing_lost handler dlq A D s \<longleftrightarrow> lasting_stream (view s) dlq \<and> D \<subseteq> dead_letters (view s) dlq \<and>
     (\<forall>i \<in> A. i \<in> pend s \<or> settled handler (dead_letters (view s) dlq) (body i))"

lemma nothing_lost_step:
  assumes "nothing_lost handler dlq A D s" and "lasting_stream (view s') dlq"
    and "dead_letters (view s) dlq \<subseteq> dead_letters (view s') dlq" and "pend s \<subseteq> pend s'"
  shows "nothing_lost handler dlq A D s'"
  using assms unfolding nothing_lost_def settled_def by blast

lemma same_dead: "store (view s') dlq = store (view s) dlq \<Longrightarrow>
    lasting_stream (view s') dlq = lasting_stream (view s) dlq \<and> dead_letters (view s') dlq = dead_letters (view s) dlq"
  by (simp add: lasting_stream_def dead_letters_def)

lemma other_command:
  assumes "rkey cmd \<noteq> Some stream" and "rkey cmd \<noteq> Some dlq"
  shows "keeps (nothing_lost handler dlq A D) (redis_cmd call cmd)"
proof (rule keepsI)
  fix s assume inv: "nothing_lost handler dlq A D s"
  obtain x s' where run: "call cmd s = (x, s')" by fastforce
  then have "snd (redis_cmd call cmd s) = s'" by (auto simp: redis_cmd_def split: sum.split)
  with same_dead [OF call_frame [OF run assms(2)]] call_pending [OF run assms(1)] inv
  show "nothing_lost handler dlq A D (snd (redis_cmd call cmd s))"
    by (auto intro: nothing_lost_step simp: nothing_lost_def)
qed

lemma xadd_effect:
  assumes "call (XADD dlq fs None) s = (x, s')" and "lasting_stream (view s) dlq"
  shows "lasting_stream (view s') dlq \<and> dead_letters (view s) dlq \<subseteq> dead_letters (view s') dlq"
proof -
  have same: "lasting_stream st dlq = lasting_stream (view s) dlq" "dead_letters st dlq = dead_letters (view s) dlq"
    if "st = (view s)\<lparr>clock := t\<rparr>" for st t
    using that by (simp_all add: lasting_stream_def dead_letters_def)
  show ?thesis
    using assms(1)
  proof (cases rule: call_effect)
    case (1 t r)
    let ?st = "(view s)\<lparr>clock := t\<rparr>"
    from assms(2) consider "store (view s) dlq = None" | es where "store (view s) dlq = Some (VStream es, None)"
      by (auto simp: lasting_stream_def split: option.splits prod.splits rvalue.splits)
    then show ?thesis
    proof cases
      case 1
      with \<open>redis_does (XADD dlq fs None) ?st r (view s')\<close> show ?thesis
        by (auto simp: redis_does_def live_def expiry_def lasting_stream_def dead_letters_def)
    next
      case 2
      with \<open>redis_does (XADD dlq fs None) ?st r (view s')\<close> show ?thesis
        by (force simp: redis_does_def live_def expiry_def lasting_stream_def dead_letters_def)
    qed
  next
    case (2 t e)
    with same [of "view s'" t] assms(2) show ?thesis by simp
  qed
qed

lemma dlq_command:
  assumes "dlq \<noteq> stream"
  shows "keeps (nothing_lost handler dlq A D) (redis_cmd call (XADD dlq fs None))"
proof (rule keepsI)
  fix s assume inv: "nothing_lost handler dlq A D s"
  obtain x s' where run: "call (XADD dlq fs None) s = (x, s')" by fastforce
  then have "snd (redis_cmd call (XADD dlq fs None) s) = s'" by (auto simp: redis_cmd_def split: sum.split)
  moreover have "nothing_lost handler dlq A D s'"
    using xadd_effect [OF run] call_pending [OF run] assms inv
    by (intro nothing_lost_step [OF inv]) (auto simp: nothing_lost_def)
  ultimately show "nothing_lost handler dlq A D (snd (redis_cmd call (XADD dlq fs None) s))" by simp
qed

text \<open>What the dispatch of one message keeps.\<close>

lemma keeps_dispatch:
  assumes "eb_call bus = call" and "dlq_stream bus ty \<noteq> stream"
    and "\<And>i. retry_key ty i \<noteq> stream \<and> retry_key ty i \<noteq> dlq_stream bus ty"
  shows "keeps (\<lambda>q. nothing_lost handler (dlq_stream bus ty) A D (fst q))
    (dispatch_event bus handler' reason now client ty m)"
proof -
  let ?P = "nothing_lost handler (dlq_stream bus ty) A D"
  note redis = keeps_dredis [OF other_command, of _ "dlq_stream bus ty" handler A D]
  have cmd: "keeps (\<lambda>q. ?P (fst q)) (dredis (redis_cmd call c))" if "rkey c = Some (retry_key ty i)" for c i
    using that assms(3) by (intro redis) auto
  have local: "keeps (\<lambda>q. ?P (fst q)) local_count"
    unfolding local_count_def by (intro keeps_bind) (auto split: option.split)
  have read: "keeps (\<lambda>q. ?P (fst q)) (read_retry_count call p (retry_key ty i))" for p i
    unfolding read_retry_count_def
    by (intro keeps_if keeps_except_exception keeps_bind local cmd) (auto split: reply.split option.split)
  have clean: "keeps (\<lambda>q. ?P (fst q)) (cleanup_retry_key call p (retry_key ty i))" for p i
  proof -
    have "keeps ?P (thenE (redis_cmd call (DEL (retry_key ty i))) (retE ()))"
      using assms(3) by (intro keeps_then keeps_ret other_command) auto
    then show ?thesis unfolding cleanup_retry_key_def
      by (intro keeps_when keeps_except_exception keeps_dredis keeps_ret)
  qed
  have set_local: "keeps (\<lambda>q. ?P (fst q)) (set_local_count n)" for n
    unfolding set_local_count_def by (rule keeps_mod) auto
  have retry: "keeps (\<lambda>q. ?P (fst q)) (persist_retry bus p (retry_key ty i) n)" for p i n
    unfolding persist_retry_def assms(1)
    by (intro keeps_if keeps_except_exception keeps_then cmd set_local) auto
  have dlq: "keeps (\<lambda>q. ?P (fst q)) (dredis (append_to_dlq call (dlq_stream bus ty) fs))" for fs
    unfolding append_to_dlq_def redis_exec_def redis_do_def
    by (intro keeps_dredis keeps_then keeps_classified dlq_command assms(2) keeps_ret)
  show ?thesis
    unfolding dispatch_event_def Let_def assms(1)
    by (intro keeps_bind read keeps_get keeps_option keeps_if keeps_then retry clean dlq keeps_ret keeps_raise)
qed

lemma dispatch_settles:
  assumes "eb_call bus = call" and "eb_prefix bus = ''events''"
    and "dispatch_event bus handler reason now True ''auth.login'' m (s, data) = (Inr True, (s', d'))"
  shows "settled handler (dead_letters (view s') (dlq_stream bus ''auth.login'')) data"
proof -
  have "redis_contract (eb_call bus) view" unfolding assms(1) by unfold_locales
  from dispatch_no_loss [OF this assms(2,3)] show ?thesis
    by (force simp: settled_def dead_letters_def)
qed

text \<open>The commands of the group.\<close>

lemma group_command:
  assumes "gcall cmd s = (x, s')" and "group_key cmd = (stream, Some grp)" and "dlq \<noteq> stream"
    and "\<And>i. cmd \<noteq> XACK stream grp i" and "nothing_lost handler dlq A D s"
  shows "nothing_lost handler dlq A D s'"
  using same_dead [OF group_frame [OF assms(1), of dlq]] group_pending [OF assms(1,2,4)] assms(2,3,5)
  by (intro nothing_lost_step [OF assms(5)]) (auto simp: nothing_lost_def)

lemma keeps_group:
  assumes "ec_call c = gcall" and "group_key cmd = (stream, Some grp)" and "dlq \<noteq> stream"
    and "\<And>i. cmd \<noteq> XACK stream grp i"
  shows "keeps (nothing_lost handler dlq A D) (group_do c cmd)"
proof (rule keepsI)
  fix s assume inv: "nothing_lost handler dlq A D s"
  obtain x s' where run: "gcall cmd s = (x, s')" by fastforce
  then have "snd (group_do c cmd s) = s'" by (auto simp: group_do_def assms(1) split: sum.split)
  with group_command [OF run assms(2,3,4) inv] show "nothing_lost handler dlq A D (snd (group_do c cmd s))" by simp
qed

lemma acked:
  assumes "ec_call c = gcall" and "stream_key c = stream" and "ec_group c = grp" and "dlq \<noteq> stream"
    and "nothing_lost handler dlq A D s" and "settled handler (dead_letters (view s) dlq) (body i)"
  shows "nothing_lost handler dlq A D (snd (consumer_ack c i s))"
proof -
  obtain x s' where run: "gcall (XACK stream grp i) s = (x, s')" by fastforce
  then have "snd (consumer_ack c i s) = s'"
    by (auto simp: consumer_ack_def classified_def group_do_def thenE_def bindE_def catchE_def assms(1-3)
        split: sum.splits exn.splits)
  moreover have "nothing_lost handler dlq A D s'"
    using same_dead [OF group_frame [OF run, of dlq]] group_ack [OF run] assms(4-6)
    by (auto simp: nothing_lost_def)
  ultimately show ?thesis by simp
qed

lemma keeps_ensure:
  assumes "ec_call c = gcall" and "stream_key c = stream" and "ec_group c = grp" and "dlq \<noteq> stream"
  shows "keeps (nothing_lost handler dlq A D) (ensure_group_exists c)"
  unfolding ensure_group_exists_def assms(2,3)
  by (intro keeps_catch keeps_then keeps_ret keeps_group [OF assms(1) _ assms(4)])
    (auto split: exn.split redis_exc.split)

lemma keeps_pending:
  assumes "ec_call c = gcall" and "stream_key c = stream" and "ec_group c = grp" and "dlq \<noteq> stream"
  shows "keeps (nothing_lost handler dlq A D) (read_pending c)"
proof -
  have cmd: "keeps (nothing_lost handler dlq A D) (classified (group_do c g))"
    if "group_key g = (stream, Some grp)" and "\<And>i. g \<noteq> XACK stream grp i" for g
    using that by (intro keeps_classified keeps_group [OF assms(1) _ assms(4)])
  have claim: "keeps (nothing_lost handler dlq A D)
      (bindE (classified (group_do c (XCLAIM stream grp (ec_name c) is))) (\<lambda>claimed. retE (messages_of claimed)))" for "is"
    by (intro keeps_bind cmd keeps_ret) auto
  show ?thesis unfolding read_pending_def assms(2,3)
    by (intro keeps_then keeps_bind keeps_ensure assms cmd)
      (auto simp del: retE_run intro: claim split: group_reply.split list.split)
qed

lemma keeps_new:
  assumes "ec_call c = gcall" and "stream_key c = stream" and "ec_group c = grp" and "dlq \<noteq> stream"
  shows "keeps (nothing_lost handler dlq A D) (read_new c block)"
  unfolding read_new_def assms(2,3)
  by (intro keeps_then keeps_bind keeps_ensure assms keeps_ret keeps_classified keeps_group [OF assms(1) _ assms(4)])
    auto

lemma group_answer:
  assumes "bindE (classified (group_do c g)) (\<lambda>r. retE (messages_of r)) s = (Inr ms, s')"
    and "ec_call c = gcall" and "group_key g = (stream, Some grp)" and "(i, d) \<in> set ms"
  shows "d = body i"
  using assms group_messages [of g _ _ _ i d]
  by (force simp: bindE_def classified_def catchE_def group_do_def messages_of_def
      split: prod.splits sum.splits exn.splits group_reply.splits if_splits)

lemma pending_answer:
  assumes "read_pending c s = (Inr ms, s')" and "(i, d) \<in> set ms"
    and "ec_call c = gcall" and "stream_key c = stream" and "ec_group c = grp"
  shows "d = body i"
proof -
  from assms(1) obtain r u where "(case r of GPending (i # is) \<Rightarrow>
        bindE (classified (group_do c (XCLAIM (stream_key c) (ec_group c) (ec_name c) (i # is))))
          (\<lambda>claimed. retE (messages_of claimed)) | _ \<Rightarrow> retE []) u = (Inr ms, s')"
    by (auto simp: read_pending_def thenE_def bindE_success [of "ensure_group_exists c"]
        bindE_success [of "classified (group_do c (XPENDING_RANGE (stream_key c) (ec_group c) 100))"])
  with assms(2) obtain ids where
    "bindE (classified (group_do c (XCLAIM (stream_key c) (ec_group c) (ec_name c) ids)))
      (\<lambda>r. retE (messages_of r)) u = (Inr ms, s')"
    by (auto split: group_reply.splits list.splits)
  from group_answer [OF this assms(3) _ assms(2)] assms(4,5) show ?thesis by simp
qed

lemma new_answer:
  assumes "read_new c block s = (Inr ms, s')" and "(i, d) \<in> set ms"
    and "ec_call c = gcall" and "stream_key c = stream" and "ec_group c = grp"
  shows "d = body i"
proof -
  from assms(1) obtain u where
    "bindE (classified (group_do c (XREADGROUP (stream_key c) (ec_group c) (ec_name c) 10 block)))
      (\<lambda>r. retE (messages_of r)) u = (Inr ms, s')"
    by (auto simp: read_new_def thenE_def bindE_success [of "ensure_group_exists c"])
  from group_answer [OF this assms(3) _ assms(2)] assms(4,5) show ?thesis by simp
qed

text \<open>One message, one turn, the loop.\<close>

lemma keeps_handle:
  assumes "eb_call bus = call" and "eb_prefix bus = ''events''" and "ec_call c = gcall"
    and "stream_key c = stream" and "ec_group c = grp" and "stream = ''events:auth.login''"
  shows "keeps (nothing_lost handler (dlq_stream bus ''auth.login'') A D)
    (handle_message bus handler texts c (i, body i))"
proof (rule keepsI)
  fix s
  let ?dlq = "dlq_stream bus ''auth.login''"
  assume inv: "nothing_lost handler ?dlq A D s"
  have dlq: "?dlq \<noteq> stream" using assms(2,6) by (simp add: dlq_stream_def)
  have keys: "retry_key ''auth.login'' j \<noteq> stream \<and> retry_key ''auth.login'' j \<noteq> ?dlq" for j
    using assms(2,6) by (simp add: dlq_stream_def retry_key_def)
  obtain x s1 d1 where run: "dispatch_event bus handler (tx_reason texts i) (tx_now texts i) True ''auth.login''
      (Some i) (s, body i) = (x, (s1, d1))" by (metis prod.collapse)
  then have message: "dispatch_message bus handler texts i (body i) s = (x, s1)"
    by (simp add: dispatch_message_def)
  from keepsD [OF keeps_dispatch [OF assms(1) dlq keys] _ run] inv
  have inv1: "nothing_lost handler ?dlq A D s1" by simp
  show "nothing_lost handler ?dlq A D (snd (handle_message bus handler texts c (i, body i) s))"
  proof (cases "x = Inr True")
    case True
    with acked [OF assms(3-5) dlq inv1 dispatch_settles [OF assms(1,2)]] run message show ?thesis
      by (simp add: handle_message_def bindE_def)
  next
    case False
    with inv1 message show ?thesis
      by (cases x rule: sum.exhaust) (auto simp: handle_message_def bindE_def whenE_def)
  qed
qed

lemma keeps_round:
  assumes "eb_call bus = call" and "eb_prefix bus = ''events''" and "ec_call c = gcall"
    and "stream_key c = stream" and "ec_group c = grp" and "stream = ''events:auth.login''"
  shows "keeps (nothing_lost handler (dlq_stream bus ''auth.login'') A D) (consumer_round bus handler c texts)"
proof -
  let ?I = "nothing_lost handler (dlq_stream bus ''auth.login'') A D"
  let ?new = "\<lambda>pending. if pending \<noteq> [] then retE pending else read_new c XREADGROUP_BLOCK_MS"
  have dlq: "dlq_stream bus ''auth.login'' \<noteq> stream" using assms(2,6) by (simp add: dlq_stream_def)
  have read: "keeps ?I (bindE (read_pending c) ?new)"
    by (intro keeps_bind keeps_if keeps_ret keeps_pending keeps_new assms dlq)
  have answer: "d = body i" if "bindE (read_pending c) ?new s = (Inr ms, t)" and "(i, d) \<in> set ms" for s ms t i d
    using that pending_answer [OF _ _ assms(3-5)] new_answer [OF _ _ assms(3-5)]
    by (force simp: bindE_success split: if_splits)
  have "keeps ?I (forE ms (handle_message bus handler texts c))"
    if "bindE (read_pending c) ?new s = (Inr ms, t)" for s ms t
    using answer [OF that] keeps_handle [OF assms] by (intro keeps_for_in) (metis surj_pair)
  then show ?thesis
    unfolding consumer_round_def by (intro keeps_catch keeps_bind_result [OF read] keeps_if keeps_ret keeps_raise)
qed

lemma keeps_loop:
  assumes "eb_call bus = call" and "eb_prefix bus = ''events''" and "ec_call c = gcall"
    and "stream_key c = stream" and "ec_group c = grp" and "stream = ''events:auth.login''"
  shows "keeps (nothing_lost handler (dlq_stream bus ''auth.login'') A D) (consumer_loop bus handler c rounds)"
  unfolding consumer_loop_def by (intro keeps_for keeps_round [OF assms])

end


subsection \<open>A server with one stream in memory\<close>

record mem_groups =
  mg_redis :: mem_redis
  mg_created :: bool
  mg_pending :: "string list"
  mg_unread :: "string list"

definition mg_call :: "mem_groups redis_call" where
  "mg_call cmd s = (case mem_call cmd (mg_redis s) of (x, r) \<Rightarrow> (x, s\<lparr>mg_redis := r\<rparr>))"

definition entry_of :: "(string \<times> fields) list \<Rightarrow> string \<Rightarrow> fields" where
  "entry_of es i = (case map_of es i of Some d \<Rightarrow> d | None \<Rightarrow> [])"

definition answer_of :: "(string \<times> fields) list \<Rightarrow> string list \<Rightarrow> redis_exc + group_reply" where
  "answer_of es is = Inr (GMessages (map (\<lambda>i. (i, entry_of es i)) is))"

fun mg_group :: "(string \<times> fields) list \<Rightarrow> mem_groups group_call" where
  "mg_group es (XGROUP_CREATE k g) s =
     (if mg_created s then (Inl (RedisResponseLib ''BUSYGROUP Consumer Group name already exists''), s)
      else (Inr GOk, s\<lparr>mg_created := True\<rparr>))"
| "mg_group es (XPENDING_RANGE k g n) s = (Inr (GPending (take n (mg_pending s))), s)"
| "mg_group es (XCLAIM k g c is) s = (answer_of es (filter (\<lambda>i. i \<in> set (mg_pending s)) is), s)"
| "mg_group es (XREADGROUP k g c n b) s =
     (answer_of es (take n (mg_unread s)),
      s\<lparr>mg_pending := mg_pending s @ take n (mg_unread s), mg_unread := drop n (mg_unread s)\<rparr>)"
| "mg_group es (XACK k g i) s = (Inr GOk, s\<lparr>mg_pending := filter (\<lambda>j. j \<noteq> i) (mg_pending s)\<rparr>)"
| "mg_group es (XDEL k i) s = (Inr GOk, s)"

lemma mg_contract: "redis_contract mg_call (\<lambda>s. mr_store (mg_redis s))"
  by unfold_locales
    (auto simp: mg_call_def dest!: redis_contract.call_ok [OF mem_contract] redis_contract.call_error [OF mem_contract]
      split: prod.splits)

lemma mg_group_redis: "mg_redis (snd (mg_group es c s)) = mg_redis s"
  by (cases c) auto

lemma mg_group_answer: "fst (mg_group es c s) = Inr (GMessages ms) \<Longrightarrow> (i, d) \<in> set ms \<Longrightarrow> d = entry_of es i"
  by (cases c) (auto simp: answer_of_def split: if_splits)

lemma mg_group_pending: "(\<And>i. c \<noteq> XACK k g i) \<Longrightarrow> fst (group_key c) = k \<Longrightarrow> snd (group_key c) = Some g \<Longrightarrow>
    set (mg_pending s) \<subseteq> set (mg_pending (snd (mg_group es c s)))"
  by (cases c) auto

lemma mg_consumer_group:
  "consumer_group mg_call (\<lambda>s. mr_store (mg_redis s)) (mg_group es) (\<lambda>s. set (mg_pending s)) (entry_of es) k g"
proof (intro consumer_group.intro mg_contract consumer_group_axioms.intro)
  fix c s x s' j assume "mg_group es c s = (x, s')"
  then show "store (mr_store (mg_redis s')) j = store (mr_store (mg_redis s)) j"
    using mg_group_redis [of es c s] by simp
next
  fix c s x s' assume "mg_group es c s = (x, s')" "group_key c = (k, Some g)" "\<And>i. c \<noteq> XACK k g i"
  then show "set (mg_pending s) \<subseteq> set (mg_pending s')" using mg_group_pending [of c k g s es] by simp
next
  fix i s x s' assume "mg_group es (XACK k g i) s = (x, s')"
  then show "set (mg_pending s) - {i} \<subseteq> set (mg_pending s')" by auto
next
  fix c s ms s' i d assume "mg_group es c s = (Inr (GMessages ms), s')" "(i, d) \<in> set ms"
  then show "d = entry_of es i" using mg_group_answer [of es c s ms i d] by simp
next
  fix cmd s y s' assume "mg_call cmd s = (y, s')"
  then show "set (mg_pending s) \<subseteq> set (mg_pending s')" by (auto simp: mg_call_def split: prod.splits)
qed

interpretation mg: consumer_group mg_call "\<lambda>s. mr_store (mg_redis s)" "mg_group es" "\<lambda>s. set (mg_pending s)"
    "entry_of es" k g
  by (rule mg_consumer_group)

definition group_bus :: "mem_groups event_bus" where
  "group_bus = \<lparr>eb_call = mg_call, eb_str = (\<lambda>_. ''v''), eb_prefix = ''events'', eb_maxlen = 100000,
     eb_max_retries = 3, eb_retry_ttl = 86400\<rparr>"

definition login_entries :: "(string \<times> fields) list" where
  "login_entries = [(''1-0'', [(''user_id'', ''7'')]), (''2-0'', [(''user_id'', ''8'')])]"

definition sample_consumer :: "mem_groups event_consumer" where
  "sample_consumer = \<lparr>ec_call = mg_group login_entries, ec_prefix = ''events'', ec_type = ''auth.login'',
     ec_name = ''soc360-lifespan'', ec_group = ''soc360-consumers''\<rparr>"

definition sample_groups :: mem_groups where
  "sample_groups = \<lparr>mg_redis = sample_retries, mg_created = True, mg_pending = [''1-0''], mg_unread = [''2-0'']\<rparr>"

definition sample_round :: round_texts where
  "sample_round = \<lparr>tx_reason = (\<lambda>_. ''bad''), tx_now = (\<lambda>_. ''t'')\<rparr>"


end
