(* ===== verification/Api_Isolation.thy ===== *)
theory Api_Isolation
  imports Routes
begin

text \<open>
  What a request on the endpoints can read and change.  The lemmas follow one triple through the
  endpoints: for a user of a tenant, on a settled session, a program leaves the rows of the other tenants
  alone and answers with rows of its own tenant.
\<close>

subsection \<open>The rows of the other tenants\<close>

definition outside :: "uuid \<Rightarrow> tables \<Rightarrow> tables" where
  "outside tenant t = t\<lparr>assets := filter (\<lambda>a. a_tenant a \<noteq> tenant) (assets t),
     scans := filter (\<lambda>s. sc_tenant s \<noteq> tenant) (scans t),
     vulns := filter (\<lambda>v. v_tenant v \<noteq> tenant) (vulns t),
     reports := filter (\<lambda>r. rp_tenant r \<noteq> tenant) (reports t),
     enrichments := filter (\<lambda>e. e_tenant e \<noteq> tenant) (enrichments t)\<rparr>"

lemma outside_assign:
  "filter (\<lambda>a. a_tenant a \<noteq> n) as = filter (\<lambda>a. a_tenant a \<noteq> n) (assets t) \<Longrightarrow> outside n (t\<lparr>assets := as\<rparr>) = outside n t"
  "filter (\<lambda>s. sc_tenant s \<noteq> n) ss = filter (\<lambda>s. sc_tenant s \<noteq> n) (scans t) \<Longrightarrow> outside n (t\<lparr>scans := ss\<rparr>) = outside n t"
  "filter (\<lambda>v. v_tenant v \<noteq> n) vs = filter (\<lambda>v. v_tenant v \<noteq> n) (vulns t) \<Longrightarrow> outside n (t\<lparr>vulns := vs\<rparr>) = outside n t"
  "filter (\<lambda>r. rp_tenant r \<noteq> n) rs = filter (\<lambda>r. rp_tenant r \<noteq> n) (reports t) \<Longrightarrow> outside n (t\<lparr>reports := rs\<rparr>) = outside n t"
  "filter (\<lambda>e. e_tenant e \<noteq> n) es = filter (\<lambda>e. e_tenant e \<noteq> n) (enrichments t) \<Longrightarrow>
     outside n (t\<lparr>enrichments := es\<rparr>) = outside n t"
  by (simp_all add: outside_def)

lemma filter_delete: "(\<And>x. x \<in> set xs \<Longrightarrow> p x \<Longrightarrow> \<not> q x) \<Longrightarrow> filter q (filter (\<lambda>x. \<not> p x) xs) = filter q xs"
  by (induction xs) auto

lemma outside_delete_vulns:
  assumes "\<And>v. v \<in> set (vulns t) \<Longrightarrow> p v \<Longrightarrow> v_tenant v = n"
  shows "outside n (delete_vulns_where p t) = outside n t"
  unfolding delete_vulns_where_def
  by (intro trans [OF outside_assign(3)] outside_assign(5) trans [OF filter_delete]) (use assms in auto)

lemma outside_delete_scans:
  assumes "\<And>s. s \<in> set (scans t) \<Longrightarrow> p s \<Longrightarrow> sc_tenant s = n"
  shows "outside n (delete_scans_where p t) = outside n t"
  unfolding delete_scans_where_def
  by (intro trans [OF outside_assign(2)] outside_delete_vulns trans [OF filter_delete])
    (use assms in \<open>auto simp: delete_vulns_where_def\<close>)

lemma outside_delete_assets:
  assumes "\<And>a. a \<in> set (assets t) \<Longrightarrow> p a \<Longrightarrow> a_tenant a = n"
  shows "outside n (delete_assets_where p t) = outside n t"
  unfolding delete_assets_where_def Let_def
  by (intro trans [OF outside_assign(1)] trans [OF outside_assign(4)] outside_delete_scans trans [OF filter_delete])
    (use assms in \<open>auto simp: delete_scans_where_def delete_vulns_where_def\<close>)

text \<open>A session at rest: nothing pending, and no constraint violated.\<close>

definition clean :: "'r world \<Rightarrow> bool" where
  "clean w \<longleftrightarrow> work w = committed w \<and> violation (committed w) = None"

lemma valid_ids:
  assumes "violation t = None"
  shows "distinct (map a_id (assets t))" "distinct (map v_id (vulns t))" "distinct (map rp_id (reports t))"
  using assms by (simp_all add: violation_None constraints_def assets_ok_def vulns_ok_def reports_ok_def)

text \<open>Rows are found by their ids, so a row found for the tenant is the only one that is touched.\<close>

lemma only_mine:
  assumes "clean w"
  shows "a \<in> set (assets (work w)) \<Longrightarrow> b \<in> set (assets (work w)) \<Longrightarrow> a_id a = a_id b \<Longrightarrow> a = b"
    and "s \<in> set (scans (work w)) \<Longrightarrow> s' \<in> set (scans (work w)) \<Longrightarrow> sc_id s = sc_id s' \<Longrightarrow> s = s'"
    and "v \<in> set (vulns (work w)) \<Longrightarrow> v' \<in> set (vulns (work w)) \<Longrightarrow> v_id v = v_id v' \<Longrightarrow> v = v'"
    and "r \<in> set (reports (work w)) \<Longrightarrow> r' \<in> set (reports (work w)) \<Longrightarrow> rp_id r = rp_id r' \<Longrightarrow> r = r'"
  using assms valid_ids [of "work w"] valid_scan_ids [of "work w"]
  by (auto simp: clean_def dest: distinct_map_inj)

subsection \<open>The triple\<close>

definition serves :: "user_row \<Rightarrow> uuid \<Rightarrow> ('a \<Rightarrow> bool) \<Rightarrow> ('r, 'a) db_prog \<Rightarrow> bool" where
  "serves me tenant P m \<longleftrightarrow> (\<forall>w res w'. clean w \<longrightarrow> guc w = context_of me \<longrightarrow> m w = (res, w') \<longrightarrow>
     outside tenant (committed w') = outside tenant (committed w) \<and> (\<forall>x. res = Inr x \<longrightarrow> P x))"

definition stateless :: "('s, 'e, 'a) prog \<Rightarrow> bool" where
  "stateless m \<longleftrightarrow> (\<forall>w. snd (m w) = w)"

lemma servesI:
  assumes "\<And>w res w'. clean w \<Longrightarrow> guc w = context_of me \<Longrightarrow> m w = (res, w') \<Longrightarrow>
    outside tenant (committed w') = outside tenant (committed w) \<and> (\<forall>x. res = Inr x \<longrightarrow> P x)"
  shows "serves me tenant P m"
  unfolding serves_def using assms by blast

lemma servesD:
  assumes "serves me tenant P m" and "clean w" and "guc w = context_of me" and "m w = (res, w')"
  shows "outside tenant (committed w') = outside tenant (committed w)" and "res = Inr x \<Longrightarrow> P x"
  using assms unfolding serves_def by blast+

lemma statelessD: "stateless m \<Longrightarrow> m w = (x, w') \<Longrightarrow> w' = w"
  unfolding stateless_def by (metis snd_conv)

lemma stateless_intros [intro]:
  "stateless (retE x)" "stateless (raiseE e)" "stateless (getE f)" "stateless (ofE z)" "stateless (or_404 d o1)"
  "stateless (scalar_one_or_none xs)" "stateless (scalar_one ys)"
  by (auto simp: stateless_def ofE_def or_404_def scalar_one_or_none_def scalar_one_def split: sum.split option.split list.split)

lemma stateless_bind [intro]:
  assumes "stateless m" and "\<And>x. stateless (f x)"
  shows "stateless (bindE m f)"
  unfolding stateless_def
proof
  fix w obtain x v where x: "m w = (x, v)" by fastforce
  with assms(1) have "v = w" by (rule statelessD)
  with x assms(2) show "snd (bindE m f w) = w" by (cases x) (auto simp: bindE_def stateless_def)
qed

lemma stateless_then [intro]: "stateless m \<Longrightarrow> stateless k \<Longrightarrow> stateless (thenE m k)"
  unfolding thenE_def by (rule stateless_bind)

lemma stateless_cases:
  "(b \<Longrightarrow> stateless m) \<Longrightarrow> (\<not> b \<Longrightarrow> stateless k) \<Longrightarrow> stateless (if b then m else k)"
  "(z = None \<Longrightarrow> stateless m) \<Longrightarrow> (\<And>y. z = Some y \<Longrightarrow> stateless (f y)) \<Longrightarrow> stateless (case z of None \<Rightarrow> m | Some y \<Rightarrow> f y)"
  by (simp, cases z) auto

lemma serves_stateless:
  assumes "stateless m" and "\<And>w x. clean w \<Longrightarrow> guc w = context_of me \<Longrightarrow> m w = (Inr x, w) \<Longrightarrow> P x"
  shows "serves me tenant P m"
proof (rule servesI)
  fix w res w' assume w: "clean w" "guc w = context_of me" and run: "m w = (res, w')"
  with assms(1) have "w' = w" by (auto dest: statelessD)
  with assms(2) w run show "outside tenant (committed w') = outside tenant (committed w) \<and> (\<forall>x. res = Inr x \<longrightarrow> P x)"
    by blast
qed

lemma serves_pre:
  assumes "stateless m" and "\<And>w x. clean w \<Longrightarrow> guc w = context_of me \<Longrightarrow> m w = (Inr x, w) \<Longrightarrow> serves me tenant P (f x)"
  shows "serves me tenant P (bindE m f)"
proof (rule servesI)
  fix w res w' assume w: "clean w" "guc w = context_of me" and run: "bindE m f w = (res, w')"
  obtain y v where y: "m w = (y, v)" by fastforce
  with assms(1) have v: "v = w" by (rule statelessD)
  show "outside tenant (committed w') = outside tenant (committed w) \<and> (\<forall>x. res = Inr x \<longrightarrow> P x)"
  proof (cases y)
    case (Inl e)
    with run y v show ?thesis by (auto simp: bindE_def)
  next
    case (Inr x)
    with run y v have "f x w = (res, w')" by (simp add: bindE_def)
    with servesD [OF assms(2) [OF w] w this] y Inr v show ?thesis by blast
  qed
qed

lemma serves_post:
  assumes "serves me tenant Q m" and "\<And>x. stateless (f x)" and "\<And>x y w. Q x \<Longrightarrow> f x w = (Inr y, w) \<Longrightarrow> P y"
  shows "serves me tenant P (bindE m f)"
proof (rule servesI)
  fix w res w' assume w: "clean w" "guc w = context_of me" and run: "bindE m f w = (res, w')"
  obtain y v where y: "m w = (y, v)" by fastforce
  note m = servesD [OF assms(1) w y]
  show "outside tenant (committed w') = outside tenant (committed w) \<and> (\<forall>x. res = Inr x \<longrightarrow> P x)"
  proof (cases y)
    case (Inl e)
    with run y m(1) show ?thesis by (auto simp: bindE_def)
  next
    case (Inr x)
    with run y have f: "f x v = (res, w')" by (simp add: bindE_def)
    with assms(2) have "w' = v" by (rule statelessD)
    with f m Inr assms(3) [of x] show ?thesis by auto
  qed
qed

lemma serves_pre_then: "stateless m \<Longrightarrow> serves me tenant P k \<Longrightarrow> serves me tenant P (thenE m k)"
  unfolding thenE_def by (rule serves_pre)

lemma serves_http_errors:
  assumes "serves me tenant P m"
  shows "serves me tenant P (http_errors caught m)"
proof (rule servesI)
  fix w res w' assume w: "clean w" "guc w = context_of me" and run: "http_errors caught m w = (res, w')"
  obtain y v where y: "m w = (y, v)" by fastforce
  from run y have "w' = v \<and> (\<forall>x. res = Inr x \<longrightarrow> y = Inr x)"
    by (cases y) (auto simp: http_errors_def catchE_def split: option.splits)
  with servesD [OF assms w y] show "outside tenant (committed w') = outside tenant (committed w) \<and> (\<forall>x. res = Inr x \<longrightarrow> P x)"
    by auto
qed

lemma serves_parsed: "(\<And>v. x = Some v \<Longrightarrow> serves me tenant P (k v)) \<Longrightarrow> serves me tenant P (parsed x k)"
  by (cases x) (auto simp: parsed_def intro: serves_stateless)

lemma serves_allow: "(u_role me \<in> set roles \<Longrightarrow> serves me tenant P m) \<Longrightarrow> serves me tenant P (allow roles me m)"
  unfolding allow_def thenE_def
  by (rule serves_pre) (auto simp: require_any_role_def split: if_splits)

subsection \<open>The operations\<close>

text \<open>The user of a tenant sees rows of that tenant only.\<close>

definition member :: "user_row \<Rightarrow> uuid \<Rightarrow> bool" where
  "member me tenant \<longleftrightarrow> \<not> u_super me \<and> u_tenant me = Some tenant"

lemma member_rows: "member me tenant \<Longrightarrow> rls_row (context_of me) t \<longleftrightarrow> t = tenant"
  by (auto simp: member_def context_rows)

lemma seen_mine:
  assumes "member me tenant" and "guc w = context_of me"
  shows "a \<in> set (seen_assets w) \<Longrightarrow> a_tenant a = tenant" "s \<in> set (seen_scans w) \<Longrightarrow> sc_tenant s = tenant"
    "v \<in> set (seen_vulns w) \<Longrightarrow> v_tenant v = tenant" "r \<in> set (seen_reports w) \<Longrightarrow> rp_tenant r = tenant"
  using assms by (simp_all add: seen_assets_def seen_scans_def seen_vulns_def seen_reports_def member_rows)

lemma untouched_outside: "untouched w w' \<Longrightarrow> outside n (committed w') = outside n (committed w)"
  by (simp add: untouched_def)

lemma filter_updated: "(\<And>x. x \<in> set xs \<Longrightarrow> p x \<Longrightarrow> \<not> q x \<and> \<not> q (f x)) \<Longrightarrow> filter q (update_where p f xs) = filter q xs"
  by (induction xs) auto

lemma serves_create_asset: "serves me n (\<lambda>a. a_tenant a = n) (create_asset refuse bus lib now i ev ty v n)"
proof (rule servesI)
  fix w res w' assume w: "clean w" and run: "create_asset refuse bus lib now i ev ty v n w = (res, w')"
  from run show "outside n (committed w') = outside n (committed w) \<and> (\<forall>x. res = Inr x \<longrightarrow> a_tenant x = n)"
    by (cases rule: create_asset_outcome)
      (use w in \<open>auto simp: untouched_outside committed_by_def insert_asset_def clean_def intro!: outside_assign\<close>)
qed

lemma asset_mine:
  assumes "member me n" and "clean w" and "guc w = context_of me" and "r \<in> set (seen_assets w)" and "a_id r = i"
    and "a \<in> set (assets (work w))" and "a_id a = i"
  shows "a_tenant a = n"
proof -
  have "r \<in> set (assets (work w))" using assms(4) by (simp add: seen_assets_def)
  with only_mine(1) [OF assms(2) assms(6)] assms(5,7) have "a = r" by blast
  with seen_mine(1) [OF assms(1,3,4)] show ?thesis by blast
qed

lemma serves_update_asset:
  assumes "member me n"
  shows "serves me n (\<lambda>r. \<forall>a. r = Some a \<longrightarrow> a_tenant a = n) (update_asset refuse bus lib now ev i t data)"
proof (rule servesI)
  fix w res w' assume w: "clean w" "guc w = context_of me" and run: "update_asset refuse bus lib now ev i t data w = (res, w')"
  from run show "outside n (committed w') = outside n (committed w) \<and> (\<forall>x. res = Inr x \<longrightarrow> (\<forall>a. x = Some a \<longrightarrow> a_tenant a = n))"
  proof (cases rule: update_asset_outcome)
    case (updated r r' ch)
    note all = asset_mine [OF assms w updated(1,2)]
    have new: "a_tenant r' = n" using update_identity [OF updated(4)] seen_mine(1) [OF assms w(2) updated(1)] by simp
    have "outside n (committed w') = outside n (work w)"
      unfolding updated(5) [unfolded committed_by_def, THEN conjunct2, THEN conjunct1]
      by (intro outside_assign filter_updated) (use all new in auto)
    moreover have "\<forall>x. res = Inr x \<longrightarrow> x = Some r'" using updated(6) by blast
    ultimately show ?thesis using w(1) new by (auto simp: clean_def)
  qed (simp_all add: untouched_outside)
qed

lemma serves_delete_asset:
  assumes "member me n"
  shows "serves me n (\<lambda>_. True) (delete_asset refuse bus now ev i t)"
proof (rule servesI)
  fix w res w' assume w: "clean w" "guc w = context_of me" and run: "delete_asset refuse bus now ev i t w = (res, w')"
  from run show "outside n (committed w') = outside n (committed w) \<and> (\<forall>x. res = Inr x \<longrightarrow> True)"
  proof (cases rule: delete_asset_outcome)
    case (deleted r e)
    note all = asset_mine [OF assms w deleted(1,2)]
    have "outside n (committed w') = outside n (work w)"
      unfolding deleted(4) [unfolded committed_by_def, THEN conjunct2, THEN conjunct1]
      by (rule outside_delete_assets) (use all in auto)
    with w(1) show ?thesis by (simp add: clean_def)
  qed (simp_all add: untouched_outside)
qed

lemma serves_create_scan: "serves me n (\<lambda>s. sc_tenant s = n) (create_scan refuse bus now i ev data n)"
proof (rule servesI)
  fix w res w' assume w: "clean w" and run: "create_scan refuse bus now i ev data n w = (res, w')"
  from run show "outside n (committed w') = outside n (committed w) \<and> (\<forall>x. res = Inr x \<longrightarrow> sc_tenant x = n)"
    by (cases rule: create_scan_outcome)
      (use w in \<open>auto simp: untouched_outside insert_scan_def clean_def intro!: outside_assign split: sum.splits\<close>)
qed

lemma get_scan_mine:
  assumes "member me n" and "clean w" and "guc w = context_of me" and "get_scan i t w = (Inr (Some scan), w)"
  shows "sc_tenant scan = n" and "sc_id scan = i" and "s \<in> set (scans (work w)) \<Longrightarrow> sc_id s = i \<Longrightarrow> s = scan"
proof -
  note g = get_scan_Some [OF assms(4)]
  show "sc_tenant scan = n" using g member_rows [OF assms(1)] assms(3) by simp
  show i: "sc_id scan = i" using g by blast
  from g have row: "scan \<in> set (scans (work w))" by blast
  show "s = scan" if "s \<in> set (scans (work w))" "sc_id s = i"
    by (rule only_mine(2) [OF assms(2) that(1) row]) (simp add: that(2) i)
qed

lemma serves_update_scan:
  assumes "member me n"
  shows "serves me n (\<lambda>r. \<forall>s. r = Some s \<longrightarrow> sc_tenant s = n) (update_scan refuse bus now ev i t data)"
proof (rule servesI)
  fix w res w' assume w: "clean w" "guc w = context_of me" and run: "update_scan refuse bus now ev i t data w = (res, w')"
  from run show "outside n (committed w') = outside n (committed w) \<and> (\<forall>x. res = Inr x \<longrightarrow> (\<forall>s. x = Some s \<longrightarrow> sc_tenant s = n))"
  proof (cases rule: update_scan_outcome)
    case (updated scan scan' ch name type d)
    note mine = get_scan_mine [OF assms w updated(1)]
    have new: "sc_tenant scan' = n" using apply_scan_update_fields(1) [OF updated(6)] mine(1) by auto
    have "outside n ((work w)\<lparr>scans := scans (committed w')\<rparr>) = outside n (work w)"
      unfolding updated(7) by (intro outside_assign filter_updated) (use mine new in auto)
    then have "outside n (committed w') = outside n (committed w)" using updated(8) w(1) by (simp add: clean_def)
    moreover have "x = Some scan'" if "res = Inr x" for x
    proof (cases "ch = []")
      case False
      with updated(10) obtain y :: "exn + string" where "res = (case y of Inl e \<Rightarrow> Inl e | Inr z \<Rightarrow> Inr (Some scan'))" by auto
      with that show ?thesis by (cases y) auto
    qed (use updated(10) that in simp)
    ultimately show ?thesis using new by blast
  qed (simp_all add: untouched_outside)
qed

lemma serves_delete_scan:
  assumes "member me n"
  shows "serves me n (\<lambda>_. True) (delete_scan refuse bus now ev i t)"
proof (rule servesI)
  fix w res w' assume w: "clean w" "guc w = context_of me" and run: "delete_scan refuse bus now ev i t w = (res, w')"
  from run show "outside n (committed w') = outside n (committed w) \<and> (\<forall>x. res = Inr x \<longrightarrow> True)"
  proof (cases rule: delete_scan_outcome)
    case (deleted scan y)
    note mine = get_scan_mine [OF assms w deleted(1)]
    have "outside n (committed w') = outside n (work w)"
      unfolding deleted(2) by (rule outside_delete_scans) (use mine in auto)
    with w(1) show ?thesis by (simp add: clean_def)
  qed (simp_all add: untouched_outside)
qed

lemma serves_dispatch_scan:
  assumes "member me n"
  shows "serves me n (\<lambda>r. \<forall>s. r = Some s \<longrightarrow> sc_tenant s = n) (dispatch_scan refuse now i t)"
proof (rule servesI)
  fix w res w' assume w: "clean w" "guc w = context_of me" and run: "dispatch_scan refuse now i t w = (res, w')"
  from run show "outside n (committed w') = outside n (committed w) \<and> (\<forall>x. res = Inr x \<longrightarrow> (\<forall>s. x = Some s \<longrightarrow> sc_tenant s = n))"
  proof (cases rule: dispatch_scan_outcome)
    case (dispatched scan limit r)
    note mine = get_scan_mine [OF assms w dispatched(1)]
    have "outside n (committed w') = outside n (work w)"
      unfolding dispatched(4)
      by (intro outside_assign filter_updated) (use mine in \<open>auto simp: dispatchable_def\<close>)
    moreover have "sc_tenant r = n"
      using dispatched(9,10) mine unfolding dispatched(4) by (auto simp: update_where_image split: if_splits)
    ultimately show ?thesis using w(1) dispatched(7) by (simp add: clean_def)
  qed (simp_all add: untouched_outside)
qed

lemma serves_cancel_scan:
  assumes "member me n"
  shows "serves me n (\<lambda>r. \<forall>s. r = Some s \<longrightarrow> sc_tenant s = n) (cancel_scan refuse now i t)"
proof (rule servesI)
  fix w res w' assume w: "clean w" "guc w = context_of me" and run: "cancel_scan refuse now i t w = (res, w')"
  have key: "sc_id (transition_values now ScanCancelled None None s) = sc_id s"
    "sc_tenant (transition_values now ScanCancelled None None s) = sc_tenant s" for s
    by (simp_all add: transition_values_def Let_def)
  from run show "outside n (committed w') = outside n (committed w) \<and> (\<forall>x. res = Inr x \<longrightarrow> (\<forall>s. x = Some s \<longrightarrow> sc_tenant s = n))"
  proof (cases rule: cancel_scan_outcome)
    case (cancelled scan r)
    note mine = get_scan_mine [OF assms w cancelled(1)]
    have "outside n (committed w') = outside n (work w)"
      unfolding cancelled(3)
      by (intro outside_assign filter_updated) (use mine key in \<open>auto simp: transition_selects_def\<close>)
    moreover have "sc_tenant r = n"
      using cancelled(7,8) mine key unfolding cancelled(3) by (auto simp: update_where_image split: if_splits)
    ultimately show ?thesis using w(1) cancelled(5) by (simp add: clean_def)
  qed (simp_all add: untouched_outside)
qed

lemma commits_outside:
  assumes "commits f w w'" and "clean w" and "outside n (f (work w)) = outside n (work w)"
  shows "outside n (committed w') = outside n (committed w)"
  using assms by (auto simp: commits_def clean_def)

lemma vuln_mine:
  assumes "member me n" and "clean w" and "guc w = context_of me" and "r \<in> set (seen_vulns w)" and "v_id r = i"
    and "v \<in> set (vulns (work w))" and "v_id v = i"
  shows "v_tenant v = n"
proof -
  have "r \<in> set (vulns (work w))" using assms(4) by (simp add: seen_vulns_def)
  with only_mine(3) [OF assms(2) assms(6)] assms(5,7) have "v = r" by blast
  with seen_mine(3) [OF assms(1,3,4)] show ?thesis by blast
qed

lemma report_mine:
  assumes "member me n" and "clean w" and "guc w = context_of me" and "r \<in> set (seen_reports w)" and "rp_id r = i"
    and "x \<in> set (reports (work w))" and "rp_id x = i"
  shows "rp_tenant x = n"
proof -
  have "r \<in> set (reports (work w))" using assms(4) by (simp add: seen_reports_def)
  with only_mine(4) [OF assms(2) assms(6)] assms(5,7) have "x = r" by blast
  with seen_mine(4) [OF assms(1,3,4)] show ?thesis by blast
qed

lemma serves_create_vulnerability:
  "serves me n (\<lambda>v. v_tenant v = n) (create_vulnerability refuse bus sf now i ev data n)"
proof (rule servesI)
  fix w res w' assume w: "clean w" and run: "create_vulnerability refuse bus sf now i ev data n w = (res, w')"
  from create_vulnerability_commits [OF run] obtain v where v: "v_tenant v = n" "commits (insert_vulns [v]) w w'"
    "\<forall>x. res = Inr x \<longrightarrow> x = v" by blast
  have "outside n (insert_vulns [v] (work w)) = outside n (work w)"
    unfolding insert_vulns_def by (rule outside_assign) (simp add: v(1))
  with commits_outside [OF v(2) w] v(1,3)
  show "outside n (committed w') = outside n (committed w) \<and> (\<forall>x. res = Inr x \<longrightarrow> v_tenant x = n)" by auto
qed

lemma serves_update_vulnerability:
  assumes "member me n"
  shows "serves me n (\<lambda>r. \<forall>v. r = Some v \<longrightarrow> v_tenant v = n) (update_vulnerability refuse bus now ev i t data)"
proof (rule servesI)
  fix w res w' assume w: "clean w" "guc w = context_of me" and run: "update_vulnerability refuse bus now ev i t data w = (res, w')"
  from update_vulnerability_commits [OF run]
  show "outside n (committed w') = outside n (committed w) \<and> (\<forall>x. res = Inr x \<longrightarrow> (\<forall>v. x = Some v \<longrightarrow> v_tenant v = n))"
  proof (elim disjE exE conjE)
    fix v v' c b assume v: "v \<in> set (seen_vulns w)" "v_id v = i" "apply_vuln_update now data v = (v', c, b)"
      and com: "commits (\<lambda>t. t\<lparr>vulns := update_where (\<lambda>r. v_id r = i) (\<lambda>_. v') (vulns t)\<rparr>) w w'"
      and res: "\<forall>x. res = Inr x \<longrightarrow> x = Some v'"
    note mine = vuln_mine [OF assms w v(1,2)]
    have new: "v_tenant v' = n" using apply_vuln_update_key [OF v(3)] seen_mine(3) [OF assms w(2) v(1)] by simp
    have "outside n ((work w)\<lparr>vulns := update_where (\<lambda>r. v_id r = i) (\<lambda>_. v') (vulns (work w))\<rparr>) = outside n (work w)"
      by (intro outside_assign filter_updated) (use mine new in auto)
    from commits_outside [OF com w(1) this] res new show ?thesis by auto
  qed auto
qed

lemma serves_delete_vulnerability:
  assumes "member me n"
  shows "serves me n (\<lambda>_. True) (delete_vulnerability refuse bus now ev i t)"
proof (rule servesI)
  fix w res w' assume w: "clean w" "guc w = context_of me" and run: "delete_vulnerability refuse bus now ev i t w = (res, w')"
  from delete_vulnerability_commits [OF run]
  show "outside n (committed w') = outside n (committed w) \<and> (\<forall>x. res = Inr x \<longrightarrow> True)"
  proof (elim disjE bexE conjE)
    fix v assume v: "v \<in> set (seen_vulns w)" "v_id v = i" and com: "commits (delete_vulns_where (\<lambda>v. v_id v = i)) w w'"
    note mine = vuln_mine [OF assms w v]
    have "outside n (delete_vulns_where (\<lambda>v. v_id v = i) (work w)) = outside n (work w)"
      by (rule outside_delete_vulns) (use mine in auto)
    with commits_outside [OF com w(1)] show ?thesis by simp
  qed simp
qed

lemma serves_create_report: "serves me n (\<lambda>r. rp_tenant r = n) (create_report refuse bus now i ev data n)"
proof (rule servesI)
  fix w res w' assume w: "clean w" and run: "create_report refuse bus now i ev data n w = (res, w')"
  let ?r = "new_report now i data n"
  have new: "rp_tenant ?r = n" by (simp add: new_report_def)
  have "outside n (insert_report ?r (work w)) = outside n (work w)"
    unfolding insert_report_def by (rule outside_assign) (simp add: new)
  with commits_outside [OF create_report_commits(1) [OF run] w] create_report_commits(2) [OF run] new
  show "outside n (committed w') = outside n (committed w) \<and> (\<forall>x. res = Inr x \<longrightarrow> rp_tenant x = n)" by auto
qed

lemma serves_update_report:
  assumes "member me n"
  shows "serves me n (\<lambda>x. \<forall>r. x = Some r \<longrightarrow> rp_tenant r = n) (update_report refuse bus now ev i t data)"
proof (rule servesI)
  fix w res w' assume w: "clean w" "guc w = context_of me" and run: "update_report refuse bus now ev i t data w = (res, w')"
  from update_report_commits [OF run]
  show "outside n (committed w') = outside n (committed w) \<and> (\<forall>x. res = Inr x \<longrightarrow> (\<forall>r. x = Some r \<longrightarrow> rp_tenant r = n))"
  proof (elim disjE exE conjE)
    fix r r' c assume r: "r \<in> set (seen_reports w)" "rp_id r = i" "apply_report_update data r = (r', c)"
      and com: "commits (\<lambda>t. t\<lparr>reports := update_where (\<lambda>x. rp_id x = i) (\<lambda>_. r') (reports t)\<rparr>) w w'"
      and res: "\<forall>x. res = Inr x \<longrightarrow> x = Some r'"
    note mine = report_mine [OF assms w r(1,2)]
    have new: "rp_tenant r' = n" using apply_report_update_key [OF r(3)] seen_mine(4) [OF assms w(2) r(1)]
      by (simp add: report_key_def)
    have "outside n ((work w)\<lparr>reports := update_where (\<lambda>x. rp_id x = i) (\<lambda>_. r') (reports (work w))\<rparr>) = outside n (work w)"
      by (intro outside_assign filter_updated) (use mine new in auto)
    from commits_outside [OF com w(1) this] res new show ?thesis by auto
  qed auto
qed

lemma serves_delete_report:
  assumes "member me n"
  shows "serves me n (\<lambda>_. True) (delete_report refuse bus now ev i t)"
proof (rule servesI)
  fix w res w' assume w: "clean w" "guc w = context_of me" and run: "delete_report refuse bus now ev i t w = (res, w')"
  from delete_report_commits [OF run]
  show "outside n (committed w') = outside n (committed w) \<and> (\<forall>x. res = Inr x \<longrightarrow> True)"
  proof (elim disjE bexE conjE)
    fix r assume r: "r \<in> set (seen_reports w)" "rp_id r = i"
      and com: "commits (\<lambda>t. t\<lparr>reports := filter (\<lambda>r. rp_id r \<noteq> i) (reports t)\<rparr>) w w'"
    note mine = report_mine [OF assms w r]
    have "outside n ((work w)\<lparr>reports := filter (\<lambda>r. rp_id r \<noteq> i) (reports (work w))\<rparr>) = outside n (work w)"
      by (intro outside_assign filter_delete) (use mine in auto)
    with commits_outside [OF com w(1)] show ?thesis by simp
  qed simp
qed

subsection \<open>The endpoints\<close>

fun answer_in :: "'r api_env \<Rightarrow> uuid \<Rightarrow> answer \<Rightarrow> bool" where
  "answer_in env n (AssetBody r) = (ar_tenant r = n)"
| "answer_in env n (AssetPage p) = list_all (\<lambda>r. ar_tenant r = n) (pg_items p)"
| "answer_in env n (AssetCsv cs) =
     (\<exists>rows. list_all (\<lambda>a. a_tenant a = n) rows \<and> cs = csv_row CSV_COLUMNS # map (csv_row \<circ> row_to_csv env) rows)"
| "answer_in env n (ScanBody r) = (sr_tenant r = n)"
| "answer_in env n (ScanPage p) = list_all (\<lambda>r. sr_tenant r = n) (pg_items p)"
| "answer_in env n (VulnBody r) = (vr_tenant r = n)"
| "answer_in env n (VulnPage p) = list_all (\<lambda>r. vr_tenant r = n) (pg_items p)"
| "answer_in env n (ReportBody r) = (pr_tenant r = n)"
| "answer_in env n (ReportPage p) = list_all (\<lambda>r. pr_tenant r = n) (pg_items p)"
| "answer_in env n NoContent = True"

lemma response_tenants [simp]:
  "ar_tenant (asset_from_orm a) = a_tenant a" "sr_tenant (scan_from_orm s) = sc_tenant s"
  "vr_tenant (vuln_from_orm v) = v_tenant v" "pr_tenant (report_from_orm r) = rp_tenant r"
  "pg_items (page_of f limit offset q) = map f (fst q)"
  by (simp_all add: asset_from_orm_def scan_from_orm_def vuln_from_orm_def report_from_orm_def page_of_def split: prod.split)

lemma or_404_run [simp]: "or_404 d x w = (Inr y, w') \<longleftrightarrow> x = Some y \<and> w' = w"
  by (auto simp: or_404_def split: option.split)

lemma bind_value: "bindE (retE x) f = f x" "bindE (raiseE e) f = raiseE e"
  by (auto simp: bindE_def fun_eq_iff)

text \<open>A row by its id, a page of rows, and the deletion of a row.\<close>

lemma serves_body:
  assumes "serves me n (\<lambda>r. \<forall>x. r = Some x \<longrightarrow> Q x) m" and "\<And>x. Q x \<Longrightarrow> P (body x)"
  shows "serves me n P (bindE m (\<lambda>found. bindE (or_404 d found) (\<lambda>x. retE (body x))))"
  by (rule serves_post [OF assms(1)]) (auto simp: bindE_success intro: assms(2))

lemma serves_created:
  assumes "serves me n Q m" and "\<And>x. Q x \<Longrightarrow> P (body x)"
  shows "serves me n P (bindE m (\<lambda>x. retE (body x)))"
  by (rule serves_post [OF assms(1)]) (auto intro: assms(2))

lemma serves_deleted:
  "serves me n (\<lambda>_. True) m \<Longrightarrow> serves me n (answer_in env n)
     (bindE m (\<lambda>deleted. if \<not> deleted then raiseE e else retE NoContent))"
  by (rule serves_post [where Q = "\<lambda>_. True"]) (auto split: if_splits intro!: stateless_cases)

lemma list_all_page: "list_all P xs \<Longrightarrow> list_all P (take k (drop j (rev (sort_key f xs))))"
  by (auto simp: list_all_iff dest!: in_set_takeD in_set_dropD)

lemma stateless_resolve [intro]: "stateless (resolve_scan_asset d i t)" "stateless (resolve_vulnerability_scan i t)"
  unfolding resolve_scan_asset_def resolve_vulnerability_scan_def
  by (intro stateless_bind stateless_then stateless_intros)+

lemma caller_member: "member me n \<Longrightarrow> caller_tenant_id me = Some n"
  by (simp add: member_def caller_tenant_id_def)

lemma serves_unprocessable [intro]: "serves me n P (raiseE e)"
  by (rule serves_stateless) auto

lemma serves_assets_routes:
  fixes env :: "'r api_env"
  assumes "member me n"
  shows "serves me n (answer_in env n) (create_asset_route env me tenant ty val)"
    and "serves me n (answer_in env n) (list_assets_route me offset limit :: ('r, answer) db_prog)"
    and "serves me n (answer_in env n) (get_asset_route me i :: ('r, answer) db_prog)"
    and "serves me n (answer_in env n) (update_asset_route env me i data)"
    and "serves me n (answer_in env n) (delete_asset_route env me i)"
    and "serves me n (answer_in env n) (export_assets_route env me)"
proof -
  note m = assms [unfolded member_def]
  show "serves me n (answer_in env n) (create_asset_route env me tenant ty val)"
    unfolding create_asset_route_def
  proof (rule serves_allow, rule serves_parsed)
    fix v
    show "serves me n (answer_in env n) (bindE (if u_super me
             then bindE (bindE (getE (\<lambda>w. filter (\<lambda>t. t_id t = tenant) (seen_tenants w))) scalar_one_or_none) (\<lambda>t.
               case t of None \<Rightarrow> raiseE (HTTPException 422 ''tenant not found'') | Some t \<Rightarrow> retE tenant)
             else if Some tenant \<noteq> u_tenant me then raiseE (HTTPException 422 ''tenant_id mismatch'')
             else retE tenant) (\<lambda>effective_tenant_id.
      bindE (http_errors (asset_errors (duplicate_text (ae_lib env) ty v))
               (create_asset (ae_refuse env) (ae_bus env) (ae_lib env) (ae_now env) (ae_id env) (ae_event env) ty v
                  effective_tenant_id))
        (\<lambda>asset. retE (AssetBody (asset_from_orm asset)))))"
    proof (cases "tenant = n")
      case True
      have "serves me n (answer_in env n) (bindE (http_errors (asset_errors (duplicate_text (ae_lib env) ty v))
               (create_asset (ae_refuse env) (ae_bus env) (ae_lib env) (ae_now env) (ae_id env) (ae_event env) ty v n))
        (\<lambda>asset. retE (AssetBody (asset_from_orm asset))))"
        by (rule serves_created [OF serves_http_errors [OF serves_create_asset]]) simp
      with m True show ?thesis by (simp add: bind_value)
    qed (use m in \<open>auto simp: bind_value\<close>)
  qed
  show "serves me n (answer_in env n) (list_assets_route me offset limit :: ('r, answer) db_prog)"
    unfolding list_assets_route_def list_assets_def Let_def caller_member [OF assms]
    by (rule serves_allow, rule serves_stateless)
      (auto simp: bindE_success tenant_predicate_def list_all_iff split: if_splits
        intro!: stateless_cases dest!: in_set_takeD in_set_dropD)
  show "serves me n (answer_in env n) (get_asset_route me i :: ('r, answer) db_prog)"
    unfolding get_asset_route_def
    by (rule serves_allow, rule serves_stateless)
      (use m in \<open>auto simp: bindE_success scalar_one_or_none_run scope_query_def filter_eq_Cons_iff\<close>)
  show "serves me n (answer_in env n) (update_asset_route env me i data)"
    unfolding update_asset_route_def caller_member [OF assms]
    by (intro serves_allow serves_parsed serves_body [OF serves_http_errors [OF serves_update_asset [OF assms]]]) simp
  show "serves me n (answer_in env n) (delete_asset_route env me i)"
    unfolding delete_asset_route_def
    by (intro serves_allow serves_deleted serves_delete_asset assms)
  have "stateless (stream_csv env me)" by (simp add: stateless_def stream_csv_def split: prod.split)
  moreover have "answer_in env n (AssetCsv cs)" if "stream_csv env me w = (Inr cs, w)" for w cs
  proof -
    from that obtain v :: "'r world" where v: "cs = csv_row CSV_COLUMNS # map (csv_row \<circ> row_to_csv env)
        (rev (sort_key (\<lambda>a. (a_created a, a_id a)) (filter (scope_query me) (seen_assets v))))"
      by (auto simp: stream_csv_def thenE_def bindE_success split: prod.splits)
    have l: "list_all (\<lambda>a. a_tenant a = n) (rev (sort_key (\<lambda>a. (a_created a, a_id a)) (filter (scope_query me) (seen_assets v))))"
      using m by (auto simp: list_all_iff scope_query_def)
    show ?thesis unfolding v answer_in.simps by (intro exI conjI) (rule l, rule refl)
  qed
  ultimately show "serves me n (answer_in env n) (export_assets_route env me)"
    unfolding export_assets_route_def
    by (intro serves_allow serves_pre) (auto intro!: serves_stateless)
qed

lemma serves_page:
  assumes "stateless m" and "stateless pre"
    and "\<And>w x. clean w \<Longrightarrow> guc w = context_of me \<Longrightarrow> m w = (Inr x, w) \<Longrightarrow> P (body x)"
  shows "serves me n P (thenE pre (bindE m (\<lambda>x. retE (body x))))"
  by (intro serves_pre_then assms(2) serves_pre [OF assms(1)] serves_stateless) (auto intro: assms(3))

lemma serves_get:
  "serves me n (\<lambda>r. \<forall>x. r = Some x \<longrightarrow> sc_tenant x = n) (get_scan i (Some n))"
  "serves me n (\<lambda>r. \<forall>x. r = Some x \<longrightarrow> v_tenant x = n) (get_vulnerability i (Some n))"
  "serves me n (\<lambda>r. \<forall>x. r = Some x \<longrightarrow> rp_tenant x = n) (get_report i (Some n))"
  by (rule serves_stateless; auto simp: get_scan_def get_vulnerability_def get_report_def tenant_predicate_def
      bindE_success scalar_one_or_none_run filter_eq_Cons_iff)+

lemma serves_scans_routes:
  fixes env :: "'r api_env"
  assumes "member me n"
  shows "serves me n (answer_in env n) (create_scan_route env me tenant data)"
    and "serves me n (answer_in env n) (list_scans_route me offset limit a :: ('r, answer) db_prog)"
    and "serves me n (answer_in env n) (get_scan_route me i :: ('r, answer) db_prog)"
    and "serves me n (answer_in env n) (update_scan_route env me i data')"
    and "serves me n (answer_in env n) (delete_scan_route env me i)"
    and "serves me n (answer_in env n) (run_scan_route env me i)"
    and "serves me n (answer_in env n) (cancel_scan_route env me i)"
proof -
  note m = assms [unfolded member_def] and caller = caller_member [OF assms]
  have same: "x = n" if "effective_tenant_id tenant me = Inr x" for x tenant
    using that m by (auto simp: effective_tenant_id_def split: if_splits)
  show "serves me n (answer_in env n) (create_scan_route env me tenant data)"
    unfolding create_scan_route_def
  proof (rule serves_allow, rule serves_parsed, rule serves_pre)
    fix d :: scan_create and x and w :: "'r world" assume "ofE (effective_tenant_id tenant me) w = (Inr x, w)"
    then have "x = n" using same by simp
    then show "serves me n (answer_in env n) (thenE (resolve_scan_asset ''scan asset not found'' (scr_asset d) (Some x))
      (bindE (http_errors (scan_create_errors d)
         (create_scan (ae_refuse env) (ae_bus env) (ae_now env) (ae_id env) (ae_event env) d x))
        (\<lambda>scan. retE (ScanBody (scan_from_orm scan)))))"
      by (intro serves_pre_then stateless_resolve)
        (auto intro: serves_created [OF serves_http_errors [OF serves_create_scan]])
  qed auto
  show "serves me n (answer_in env n) (list_scans_route me offset limit a :: ('r, answer) db_prog)"
    unfolding list_scans_route_def caller
  proof (rule serves_allow, split if_split, intro conjI impI serves_unprocessable serves_page)
    fix w :: "'r world" and x assume "list_scans (Some n) limit offset a w = (Inr x, w)"
    then show "answer_in env n (ScanPage (page_of scan_from_orm limit offset x))"
      by (auto simp: list_scans_def Let_def bindE_success tenant_predicate_def list_all_iff
          dest!: in_set_takeD in_set_dropD)
  qed (auto simp: list_scans_def Let_def intro!: stateless_cases)
  show "serves me n (answer_in env n) (get_scan_route me i :: ('r, answer) db_prog)"
    unfolding get_scan_route_def caller
    by (intro serves_allow serves_body [OF serves_get(1)]) simp
  show "serves me n (answer_in env n) (update_scan_route env me i data')"
    unfolding update_scan_route_def caller
    by (intro serves_allow serves_parsed serves_body [OF serves_http_errors [OF serves_update_scan [OF assms]]]) simp
  show "serves me n (answer_in env n) (delete_scan_route env me i)"
    unfolding delete_scan_route_def
    by (intro serves_allow serves_deleted serves_delete_scan assms)
  show "serves me n (answer_in env n) (cancel_scan_route env me i)"
    unfolding cancel_scan_route_def caller
    by (intro serves_allow serves_body [OF serves_http_errors [OF serves_cancel_scan [OF assms]]]) simp
  show "serves me n (answer_in env n) (run_scan_route env me i)"
    unfolding run_scan_route_def caller
  proof (intro serves_pre_then stateless_intros serves_allow
      serves_post [OF serves_http_errors [OF serves_dispatch_scan [OF assms]]])
    fix found y and w :: "'r world"
    assume "\<forall>s. found = Some s \<longrightarrow> sc_tenant s = n"
      and "bindE (or_404 ''scan not found'' found) (\<lambda>scan.
        thenE (case ae_bell env (sc_id scan) (sc_tenant scan) of
                 None \<Rightarrow> retE () | Some e \<Rightarrow> if is_app_exception e then retE () else raiseE e)
          (retE (ScanBody (scan_from_orm scan)))) w = (Inr y, w)"
    then show "answer_in env n y" by (auto simp: bindE_success thenE_def)
  qed (auto intro!: stateless_bind stateless_then stateless_cases)
qed

lemma serves_vulns_routes:
  fixes env :: "'r api_env"
  assumes "member me n"
  shows "serves me n (answer_in env n) (create_vulnerability_route env me tenant data)"
    and "serves me n (answer_in env n) (list_vulnerabilities_route me offset limit s :: ('r, answer) db_prog)"
    and "serves me n (answer_in env n) (get_vulnerability_route me i :: ('r, answer) db_prog)"
    and "serves me n (answer_in env n) (update_vulnerability_route env me i data')"
    and "serves me n (answer_in env n) (delete_vulnerability_route env me i)"
proof -
  note m = assms [unfolded member_def] and caller = caller_member [OF assms]
  have same: "x = n" if "effective_tenant_id tenant me = Inr x" for x tenant
    using that m by (auto simp: effective_tenant_id_def split: if_splits)
  show "serves me n (answer_in env n) (create_vulnerability_route env me tenant data)"
    unfolding create_vulnerability_route_def
  proof (rule serves_allow, rule serves_parsed, rule serves_pre)
    fix d :: vuln_create and x and w :: "'r world" assume "ofE (effective_tenant_id tenant me) w = (Inr x, w)"
    then have "x = n" using same by simp
    then show "serves me n (answer_in env n) (thenE (resolve_vulnerability_scan (vc_scan d) (Some x))
      (bindE (http_errors vuln_create_errors
         (create_vulnerability (ae_refuse env) (ae_bus env) (ae_float env) (ae_now env) (ae_id env) (ae_event env) d x))
        (\<lambda>v. retE (VulnBody (vuln_from_orm v)))))"
      by (intro serves_pre_then stateless_resolve)
        (auto intro: serves_created [OF serves_http_errors [OF serves_create_vulnerability]])
  qed auto
  show "serves me n (answer_in env n) (list_vulnerabilities_route me offset limit s :: ('r, answer) db_prog)"
    unfolding list_vulnerabilities_route_def caller
  proof (rule serves_allow, split if_split, intro conjI impI serves_unprocessable serves_page)
    fix w :: "'r world" and x assume "list_vulnerabilities (Some n) limit offset s w = (Inr x, w)"
    then show "answer_in env n (VulnPage (page_of vuln_from_orm limit offset x))"
      by (auto simp: list_vulnerabilities_def Let_def bindE_success tenant_predicate_def list_all_iff
          dest!: in_set_takeD in_set_dropD)
  qed (auto simp: list_vulnerabilities_def Let_def intro!: stateless_cases)
  show "serves me n (answer_in env n) (get_vulnerability_route me i :: ('r, answer) db_prog)"
    unfolding get_vulnerability_route_def caller by (intro serves_allow serves_body [OF serves_get(2)]) simp
  show "serves me n (answer_in env n) (update_vulnerability_route env me i data')"
    unfolding update_vulnerability_route_def caller
    by (intro serves_allow serves_parsed serves_body [OF serves_update_vulnerability [OF assms]]) simp
  show "serves me n (answer_in env n) (delete_vulnerability_route env me i)"
    unfolding delete_vulnerability_route_def
    by (intro serves_allow serves_deleted serves_delete_vulnerability assms)
qed

lemma serves_reports_routes:
  fixes env :: "'r api_env"
  assumes "member me n"
  shows "serves me n (answer_in env n) (create_report_route env me data)"
    and "serves me n (answer_in env n) (list_reports_route me offset limit a ty st :: ('r, answer) db_prog)"
    and "serves me n (answer_in env n) (get_report_route me i :: ('r, answer) db_prog)"
    and "serves me n (answer_in env n) (update_report_route env me i data')"
    and "serves me n (answer_in env n) (delete_report_route env me i)"
proof -
  note m = assms [unfolded member_def] and caller = caller_member [OF assms]
  have same: "x = n" if "effective_tenant_id tenant me = Inr x" for x tenant
    using that m by (auto simp: effective_tenant_id_def split: if_splits)
  show "serves me n (answer_in env n) (create_report_route env me data)"
    unfolding create_report_route_def
  proof (rule serves_allow, rule serves_parsed, rule serves_pre)
    fix d :: report_create and x and w :: "'r world" assume "ofE (effective_tenant_id (rc_tenant d) me) w = (Inr x, w)"
    then have "x = n" using same by simp
    then show "serves me n (answer_in env n) (thenE (resolve_scan_asset ''report asset not found'' (rc_asset d) (Some x))
      (bindE (http_errors report_create_errors
         (create_report (ae_refuse env) (ae_bus env) (ae_now env) (ae_id env) (ae_event env) d x))
        (\<lambda>r. retE (ReportBody (report_from_orm r)))))"
      by (intro serves_pre_then stateless_resolve)
        (auto intro: serves_created [OF serves_http_errors [OF serves_create_report]])
  qed auto
  show "serves me n (answer_in env n) (list_reports_route me offset limit a ty st :: ('r, answer) db_prog)"
    unfolding list_reports_route_def caller
  proof (rule serves_allow, split if_split, intro conjI impI serves_unprocessable serves_page)
    fix w :: "'r world" and x assume "list_reports (Some n) limit offset a ty st w = (Inr x, w)"
    then show "answer_in env n (ReportPage (page_of report_from_orm limit offset x))"
      by (auto simp: list_reports_def Let_def bindE_success tenant_predicate_def list_all_iff
          dest!: in_set_takeD in_set_dropD)
  qed (auto simp: list_reports_def Let_def intro!: stateless_cases)
  show "serves me n (answer_in env n) (get_report_route me i :: ('r, answer) db_prog)"
    unfolding get_report_route_def caller by (intro serves_allow serves_body [OF serves_get(3)]) simp
  show "serves me n (answer_in env n) (update_report_route env me i data')"
    unfolding update_report_route_def caller
    by (intro serves_allow serves_parsed serves_body [OF serves_update_report [OF assms]]) simp
  show "serves me n (answer_in env n) (delete_report_route env me i)"
    unfolding delete_report_route_def
    by (intro serves_allow serves_deleted serves_delete_report assms)
qed

lemma serves_endpoint: "member me n \<Longrightarrow> serves me n (answer_in env n) (endpoint env me req)"
  by (cases req) (simp_all add: serves_assets_routes serves_scans_routes serves_vulns_routes serves_reports_routes)

subsection \<open>Every endpoint settles its session\<close>

lemma ends_committed_update_tail:
  "ends_committed (thenE (commit refuse) (if c = [] then retE x else thenE (on_redis p) (retE x)))"
  by (cases "c = []") (simp_all add: ends_committed_publish)

lemma settles_services:
  "settles (create_asset refuse bus lib now i ev ty v t)" "settles (update_asset refuse bus lib now ev i t' au)"
  "settles (delete_asset refuse bus now ev i t')" "settles (create_scan refuse bus now i ev sc t)"
  "settles (update_scan refuse bus now ev i t' su)" "settles (delete_scan refuse bus now ev i t')"
  "settles (dispatch_scan refuse now i t')" "settles (cancel_scan refuse now i t')"
  "settles (create_vulnerability refuse bus sf now i ev vc t)" "settles (update_vulnerability refuse bus now ev i t' vu)"
  "settles (delete_vulnerability refuse bus now ev i t')" "settles (create_report refuse bus now i ev rc t)"
  "settles (update_report refuse bus now ev i t' ru)" "settles (delete_report refuse bus now ev i t')"
  unfolding create_asset_def update_asset_def delete_asset_def create_scan_def update_scan_def delete_scan_def
    dispatch_scan_def cancel_scan_def create_vulnerability_def update_vulnerability_def delete_vulnerability_def
    create_report_def update_report_def delete_report_def Let_def
    get_asset_def get_scan_def get_vulnerability_def get_report_def refresh_scan_def
  by (intro settles_bind settles_option settles_basic ends_committed_settles ends_committed_publish
      ends_committed_update_tail ends_committed_right ends_committed_cases ends_committed_raise)+

lemma settles_http_errors: "settles m \<Longrightarrow> settles (http_errors caught m)"
  unfolding http_errors_def by (rule settles_translated) (auto split: option.split)

lemma settles_parsed: "(\<And>v. settles (k v)) \<Longrightarrow> settles (parsed x k)"
  unfolding parsed_def by (intro settles_option settles_basic)

lemma settles_or_404: "settles (or_404 d x)"
  unfolding or_404_def by (intro settles_option settles_basic)

lemma settles_export: "settles (stream_csv env me)"
  by (auto simp: settles_def stream_csv_def split: prod.splits)

lemma settles_resolve: "settles (resolve_scan_asset d i t)" "settles (resolve_vulnerability_scan i t)"
  unfolding resolve_scan_asset_def resolve_vulnerability_scan_def
  by (intro settles_bind settles_then settles_basic settles_or_404)+

lemmas settles_parts = settles_if settles_bind settles_then settles_option settles_basic settles_services
  settles_http_errors settles_parsed settles_or_404 settles_export settles_resolve

lemma settles_endpoint: "settles (endpoint env me req)"
  by (cases req; simp only: endpoint.simps; unfold allow_def create_asset_route_def list_assets_route_def get_asset_route_def
      update_asset_route_def delete_asset_route_def export_assets_route_def create_scan_route_def list_scans_route_def
      get_scan_route_def update_scan_route_def delete_scan_route_def run_scan_route_def cancel_scan_route_def
      create_vulnerability_route_def list_vulnerabilities_route_def get_vulnerability_route_def
      update_vulnerability_route_def delete_vulnerability_route_def create_report_route_def list_reports_route_def
      get_report_route_def update_report_route_def delete_report_route_def list_assets_def list_scans_def
      list_vulnerabilities_def list_reports_def get_scan_def get_vulnerability_def get_report_def Let_def;
      intro settles_parts)

subsection \<open>Who may write\<close>

lemma allow_refused: "u_role me \<notin> set roles \<Longrightarrow> allow roles me m w = (Inl forbidden, w)"
  by (simp add: allow_def require_any_role_def thenE_def bindE_def ofE_def)

lemma stateless_allow: "(u_role me \<in> set roles \<Longrightarrow> stateless m) \<Longrightarrow> stateless (allow roles me m)"
  by (cases "u_role me \<in> set roles")
    (auto simp: allow_def require_any_role_def thenE_def bindE_def ofE_def stateless_def)

lemma stateless_lists:
  "stateless (list_assets t k j)" "stateless (list_scans t k j a)" "stateless (list_vulnerabilities t k j a)"
  "stateless (list_reports t k j a ty st)" "stateless (get_scan i t)" "stateless (get_vulnerability i t)"
  "stateless (get_report i t)" "stateless (stream_csv env me)"
  unfolding list_assets_def list_scans_def list_vulnerabilities_def list_reports_def Let_def
    get_scan_def get_vulnerability_def get_report_def
  by (intro stateless_bind stateless_intros)+ (simp add: stateless_def stream_csv_def split: prod.split)

lemma readers_change_nothing:
  assumes "u_role me \<notin> set WRITERS"
  shows "stateless (endpoint env me req)"
proof -
  have refused: "stateless (allow WRITERS me m)" for m :: "('r, answer) db_prog"
    by (rule stateless_allow) (use assms in simp)
  note writes = create_asset_route_def update_asset_route_def delete_asset_route_def create_scan_route_def
    update_scan_route_def delete_scan_route_def run_scan_route_def cancel_scan_route_def create_vulnerability_route_def
    update_vulnerability_route_def delete_vulnerability_route_def create_report_route_def update_report_route_def
    delete_report_route_def
  note reads = list_assets_route_def get_asset_route_def export_assets_route_def list_scans_route_def get_scan_route_def
    list_vulnerabilities_route_def get_vulnerability_route_def list_reports_route_def get_report_route_def
  show ?thesis
    by (cases req; simp only: endpoint.simps; unfold writes reads;
        intro refused stateless_then stateless_intros stateless_allow stateless_cases stateless_bind stateless_lists
          stateless_resolve)
qed

subsection \<open>Properties\<close>

text \<open>
  C1: A request is confined to the tenant of its user.  For a user of a tenant, on a session at rest that runs
  under the user's context, whichever of the endpoints of assets, scans, vulnerabilities and reports is called and
  however it ends: the users, the tenants, the sessions and all rows of the other tenants stay exactly as
  they were; every row in the answer, in a page and in the export too, belongs to the user's tenant; and nothing at
  all is changed unless the user is an administrator.
\<close>

theorem api_confined:
  assumes "serve_api env me req w = (res, w')" and "guc w = context_of me"
    and "work w = committed w" and "violation (committed w) = None"
    and "\<not> u_super me" and "u_tenant me = Some n"
  shows "outside n (committed w') = outside n (committed w) \<and> (\<forall>a. res = Inr a \<longrightarrow> answer_in env n a) \<and>
    (u_role me \<notin> {''admin'', ''superadmin''} \<longrightarrow> committed w' = committed w)"
proof -
  have clean: "clean w" and mem: "member me n" using assms(3-6) by (simp_all add: clean_def member_def)
  note triple = servesD [OF serves_endpoint [OF mem] clean assms(2)]
  have same: "w1 = w" if "u_role me \<notin> {''admin'', ''superadmin''}" "endpoint env me req w = (x, w1)" for x w1
    using readers_change_nothing [of me] that by (auto simp: WRITERS_def dest: statelessD)
  from assms(1) show ?thesis unfolding serve_api_def
  proof (cases rule: with_session_cases)
    case (1 e w1)
    with triple(1) [OF 1(1)] same [OF _ 1(1)] show ?thesis by auto
  next
    case (2 x e w1)
    with triple(1) [OF 2(1)] same [OF _ 2(1)] show ?thesis by auto
  next
    case (3 x w1)
    have "work w1 = committed w1" using settlesD [OF settles_endpoint assms(3) 3(1)] .
    with 3 triple [OF 3(1)] same [OF _ 3(1)] show ?thesis by auto
  qed
qed

definition sample_two :: tables where
  "sample_two = (sample_tables [sample_scan 7 1 2 ''a''])\<lparr>tenants := [sample_tenant 1, sample_tenant 2],
     assets := [sample_asset 2 1 ''8.8.8.8'', sample_asset 3 2 ''9.9.9.9'']\<rparr>"

definition sample_api :: "mem_redis api_env" where
  "sample_api = \<lparr>ae_refuse = no_refusal, ae_bus = sample_bus, ae_lib = sample_lib, ae_float = (\<lambda>_. []), ae_now = 50,
     ae_id = 60, ae_event = 31, ae_enabled = True, ae_bell = (\<lambda>_ _. None), ae_time = (\<lambda>_. []), ae_uuid = show_nat,
     ae_updated = a_created\<rparr>"

lemma sample_two_valid: "violation sample_two = None"
proof -
  have "show_nat (Suc 0) = ''1''" "show_nat 2 = ''2''" by code_simp+
  then show ?thesis by (simp add: sample_two_def constraint_defs sample_defs)
qed

lemma api_confined_witness:
  "\<exists>w'. serve_api sample_api (sample_user 5 (Some 1) ''u@x.io'' ''admin'') (AssetsDelete 2)
      \<lparr>committed = sample_two, work = sample_two, guc = \<lparr>g_tenant = Some 1, g_super = False\<rparr>, redis = mem_empty []\<rparr> =
      (Inr NoContent, w') \<and> assets (committed w') = [sample_asset 3 2 ''9.9.9.9''] \<and> scans (committed w') = [] \<and>
     outside 1 (committed w') = outside 1 sample_two"
proof -
  let ?me = "sample_user 5 (Some 1) ''u@x.io'' ''admin''"
  let ?w = "\<lparr>committed = sample_two, work = sample_two, guc = \<lparr>g_tenant = Some 1, g_super = False\<rparr>, redis = mem_empty []\<rparr>"
  let ?m = "delete_asset no_refusal sample_bus 50 31 2 (Some 1)"
  let ?t = "delete_assets_where (\<lambda>a. a_id a = 2) sample_two"
  have rows: "assets ?t = [sample_asset 3 2 ''9.9.9.9'']" "scans ?t = []"
    by (simp_all add: sample_two_def delete_assets_where_def delete_scans_where_def sample_defs)
  have valid: "violation ?t = None"
  proof -
    have "show_nat (Suc 0) = ''1''" "show_nat 2 = ''2''" by code_simp+
    then show ?thesis
      by (simp add: sample_two_def delete_assets_where_def delete_scans_where_def delete_vulns_where_def constraint_defs sample_defs)
  qed
  have "get_asset 2 (Some 1) ?w = (Inr (Some (sample_asset 2 1 ''8.8.8.8'')), ?w)"
    by (simp add: get_asset_def seen_assets_def scalar_one_or_none_def bindE_def tenant_predicate_def rls_row_def
        sample_two_def sample_asset_def)
  moreover obtain i r where "publish sample_bus (asset_event ''asset.deleted'' 31 50 1 2 []) (Some ASSET_EVENTS_STREAM) (mem_empty []) = (Inr i, r)"
    by (simp add: publish_def sample_bus_def asset_event_def ASSET_EVENTS_STREAM_def eval_simps mem_eval_simps cong: eval_congs)
  ultimately have run: "?m ?w = (Inr True, (end_tx ?t ?w)\<lparr>redis := r\<rparr>)"
    using valid
    by (simp add: delete_asset_def bindE_def thenE_def commit_def flush_ok on_redis_def no_refusal_def end_tx_def sample_asset_def)
  have me: "guc ?w = context_of ?me" "\<not> u_super ?me" "u_tenant ?me = Some 1"
    by (simp_all add: context_of_def sample_user_def)
  have "endpoint sample_api ?me (AssetsDelete 2) ?w = (Inr NoContent, (end_tx ?t ?w)\<lparr>redis := r\<rparr>)"
    using run me
    by (simp add: delete_asset_route_def allow_def require_any_role_def WRITERS_def caller_tenant_id_def ofE_def thenE_def bindE_def
        sample_api_def sample_user_def)
  then have serve: "serve_api sample_api ?me (AssetsDelete 2) ?w = (Inr NoContent, end_tx ?t ((end_tx ?t ?w)\<lparr>redis := r\<rparr>))"
    using valid by (simp add: serve_api_def with_session_Inr sample_api_def no_refusal_def)
  from api_confined [OF serve me(1) _ _ me(2,3)] sample_two_valid
  have "outside 1 ?t = outside 1 sample_two" by simp
  with serve rows show ?thesis by (intro exI [of _ "end_tx ?t ((end_tx ?t ?w)\<lparr>redis := r\<rparr>)"]) simp
qed

end
