(* ===== verification/Csv.thy ===== *)
theory Csv
  imports Api_Isolation "HOL-Library.Multiset"
begin

text \<open>
  The export of assets as CSV: a reader of the format, which is the specification, and the round trip of the
  rows that \<open>app/modules/assets/router.py\<close> writes.
\<close>

subsection \<open>A reader of the format\<close>

text \<open>
  The rows of a document in the format of RFC 4180; \<open>None\<close> for a text that is none.  The reader is at the start of a
  row or of a field, within a plain or a quoted field, after a quote in a quoted one, or after a carriage return.
\<close>

datatype csv_state = RowStart | FieldStart | Plain | Quoted | QuoteSeen | ReturnSeen

fun read_csv :: "csv_state \<Rightarrow> string \<Rightarrow> string list \<Rightarrow> string \<Rightarrow> string list list option" where
  "read_csv st f row [] = (if st = RowStart then Some [] else None)"
| "read_csv st f row (c # s) =
     (if st = Quoted then
        (if c = CHR 0x22 then read_csv QuoteSeen f row s else read_csv Quoted (f @ [c]) row s)
      else if st = QuoteSeen \<and> c = CHR 0x22 then read_csv Quoted (f @ [c]) row s
      else if st = ReturnSeen then
        (if c = CHR 0x0A then map_option (\<lambda>rows. (row @ [f]) # rows) (read_csv RowStart [] [] s) else None)
      else if c = CHR '','' then read_csv FieldStart [] (row @ [f]) s
      else if c = CHR 0x0D then read_csv ReturnSeen f row s
      else if st = QuoteSeen \<or> c = CHR 0x0A then None
      else if c = CHR 0x22 then (if st = Plain then None else read_csv Quoted f row s)
      else read_csv Plain (f @ [c]) row s)"

definition parse_csv :: "string \<Rightarrow> string list list option" where
  "parse_csv s = read_csv RowStart [] [] s"

subsection \<open>Reading what the writer wrote\<close>

text \<open>A field ends with a comma or with the end of the row.\<close>

lemma read_quoted:
  "read_csv Quoted f row (concat (map (\<lambda>c. if c = CHR 0x22 then [CHR 0x22, CHR 0x22] else [c]) x) @ CHR 0x22 # s) =
     read_csv QuoteSeen (f @ x) row s"
  by (induction x arbitrary: f) auto

lemma read_plain:
  "\<not> list_ex csv_special x \<Longrightarrow> read_csv Plain f row (x @ s) = read_csv Plain (f @ x) row s"
  by (induction x arbitrary: f) (auto simp: csv_special_def)

lemma read_field:
  assumes "st \<in> {RowStart, FieldStart}" and "c \<in> {CHR '','', CHR 0x0D}"
  shows "read_csv st [] row (csv_field x @ c # s) =
    (if c = CHR '','' then read_csv FieldStart [] (row @ [x]) s else read_csv ReturnSeen x row s)"
proof (cases "list_ex csv_special x")
  case True
  then have "read_csv st [] row (csv_field x @ c # s) = read_csv QuoteSeen x row (c # s)"
    using assms(1) read_quoted [of "[]" row x "c # s"] by (auto simp: csv_field_def)
  with assms(2) show ?thesis by auto
next
  case False
  show ?thesis
  proof (cases x)
    case Nil
    with assms show ?thesis by (auto simp: csv_field_def)
  next
    case (Cons a y)
    with False have "read_csv st [] row (x @ c # s) = read_csv Plain [a] row (y @ c # s)"
      using assms(1) by (auto simp: csv_special_def)
    also have "\<dots> = read_csv Plain x row (c # s)"
      using False Cons read_plain [of y "[a]" row "c # s"] by simp
    finally show ?thesis using False assms(2) by (auto simp: csv_field_def)
  qed
qed

lemma read_row:
  "fs \<noteq> [] \<Longrightarrow> st \<in> {RowStart, FieldStart} \<Longrightarrow>
     read_csv st [] row (csv_row fs @ s) = map_option (\<lambda>rows. (row @ fs) # rows) (read_csv RowStart [] [] s)"
proof (induction fs arbitrary: st row rule: csv_row.induct)
  case (2 f)
  then show ?case using read_field [of st "CHR 0x0D" row f "CHR 0x0A # s"] by simp
next
  case (3 f g fs)
  then show ?case using read_field [of st "CHR '',''" row f "csv_row (g # fs) @ s"] by simp
qed simp

lemma parse_rows: "[] \<notin> set rows \<Longrightarrow> parse_csv (concat (map csv_row rows)) = Some rows"
  unfolding parse_csv_def
proof (induction rows)
  case (Cons r rows)
  then show ?case using read_row [of r RowStart "[]" "concat (map csv_row rows)"] by auto
qed simp

text \<open>
  C22: The export reads back.  Whatever the values of the assets hold, quotes, commas and line breaks included, the
  chunks of the stream put together are a CSV document whose rows are the header and then exactly the assets of the
  user's tenant, or all for a superadmin, from the newest to the oldest; and the export changes nothing.
\<close>

theorem csv_export_roundtrip:
  assumes "export_assets_route env me w = (Inr (AssetCsv chunks), w')"
  shows "\<exists>rows. parse_csv (concat chunks) = Some (CSV_COLUMNS # map (row_to_csv env) rows) \<and>
    mset rows = mset (filter (\<lambda>a. u_super me \<or> u_tenant me = Some (a_tenant a)) (assets (committed w))) \<and>
    sorted_wrt (\<lambda>a b. (a_created b, a_id b) \<le> (a_created a, a_id a)) rows \<and> w' = w"
proof -
  define mine where "mine = filter (\<lambda>a. u_super me \<or> u_tenant me = Some (a_tenant a)) (assets (committed w))"
  define rows where "rows = rev (sort_key (\<lambda>a. (a_created a, a_id a)) mine)"
  have seen: "filter (scope_query me) (seen_assets (end_tx (committed w) w\<lparr>guc := \<lparr>g_tenant = t, g_super = u_super me\<rparr>\<rparr>)) = mine"
    if "if u_super me then t = None else t = u_tenant me" for t
    using that by (auto simp: seen_assets_def mine_def scope_query_def rls_row_def end_tx_def intro!: filter_cong)
  have "stream_csv env me w = (Inr chunks, w')"
    using assms by (auto simp: export_assets_route_def allow_def thenE_def bindE_success)
  then have "chunks = map csv_row (CSV_COLUMNS # map (row_to_csv env) rows)" and w': "w' = w"
    using seen by (auto simp: stream_csv_def thenE_def bindE_def set_tenant_context_def rows_def split: if_splits)
  moreover have "parse_csv (concat (map csv_row (CSV_COLUMNS # map (row_to_csv env) rows))) =
      Some (CSV_COLUMNS # map (row_to_csv env) rows)"
    by (rule parse_rows) (auto simp: CSV_COLUMNS_def row_to_csv_def)
  moreover have "sorted_wrt (\<lambda>a b. (a_created b, a_id b) \<le> (a_created a, a_id a)) rows"
    unfolding rows_def sorted_wrt_rev
    using sorted_sort_key [of "\<lambda>a. (a_created a, a_id a)" mine] by (simp add: sorted_map)
  moreover have "mset rows = mset mine" by (simp add: rows_def)
  ultimately show ?thesis unfolding mine_def by blast
qed

lemma csv_export_roundtrip_witness:
  "\<exists>chunks. export_assets_route sample_api (sample_user 4 (Some 1) ''m@x.io'' ''viewer'') (sample_db []) =
      (Inr (AssetCsv chunks), sample_db []) \<and> (\<exists>rows. parse_csv (concat chunks) = Some rows \<and> length rows = 2)"
proof -
  let ?me = "sample_user 4 (Some 1) ''m@x.io'' ''viewer''" and ?w = "sample_db []"
  obtain chunks where run: "export_assets_route sample_api ?me ?w = (Inr (AssetCsv chunks), ?w)"
    by (simp add: export_assets_route_def allow_def require_any_role_def READERS_def stream_csv_def ofE_def
        set_tenant_context_def sample_user_def thenE_def bindE_def)
  from csv_export_roundtrip [OF run] obtain rows where
    "parse_csv (concat chunks) = Some (CSV_COLUMNS # map (row_to_csv sample_api) rows)"
    "mset rows = mset (filter (\<lambda>a. u_super ?me \<or> u_tenant ?me = Some (a_tenant a)) (assets (committed ?w)))"
    by blast
  moreover have "size (mset (filter (\<lambda>a. u_super ?me \<or> u_tenant ?me = Some (a_tenant a)) (assets (committed ?w)))) = 1"
    by (simp add: sample_db_def sample_defs)
  ultimately have "parse_csv (concat chunks) = Some (CSV_COLUMNS # map (row_to_csv sample_api) rows)" "length rows = 1"
    by (simp, metis size_mset)
  then show ?thesis using run by (intro exI [of _ chunks]) simp
qed

end
