(* ===== verification/Dashboard.thy ===== *)
theory Dashboard
  imports Routes
begin

text \<open>
  The dashboard, \<open>app/modules/dashboard\<close>: the summary of a tenant, its cache in Redis and its endpoint.  The
  rounding of ratios and the JSON of a summary are parameters; a day is the number of days since the epoch
  in UTC.
\<close>

subsection \<open>The summary\<close>

record severity_counts =
  sv_critical :: nat
  sv_high :: nat
  sv_medium :: nat
  sv_low :: nat
  sv_info :: nat

record coverage_metric =
  cm_covered :: nat
  cm_total :: nat
  cm_ratio :: "rat option"
  cm_since :: time

record trend_day =
  td_day :: int
  td_opened :: nat
  td_closed :: nat

record scan_success_metric =
  sm_completed :: nat
  sm_failed :: nat
  sm_ratio :: "rat option"
  sm_since :: time

record dashboard_summary =
  ds_tenant :: uuid
  ds_generated :: time
  ds_assets :: nat
  ds_severity :: severity_counts
  ds_coverage :: coverage_metric
  ds_trend :: "trend_day list"
  ds_scans :: scan_success_metric

definition summary_ratio :: "(rat \<Rightarrow> rat) \<Rightarrow> nat \<Rightarrow> nat \<Rightarrow> rat option" where
  "summary_ratio round4 numerator denominator =
     (if denominator \<noteq> 0 then Some (round4 (of_nat numerator / of_nat denominator)) else None)"

text \<open>\<open>dict(SELECT key, count(*) ... GROUP BY key)\<close> and \<open>get(key, 0)\<close>.\<close>

definition group_counts :: "('a \<Rightarrow> 'k) \<Rightarrow> 'a list \<Rightarrow> ('k \<times> nat) list" where
  "group_counts key rows = map (\<lambda>k. (k, count_where (\<lambda>r. key r = k) rows)) (remdups (map key rows))"

definition get_count :: "('k \<times> nat) list \<Rightarrow> 'k \<Rightarrow> nat" where
  "get_count d k = (case map_of d k of None \<Rightarrow> 0 | Some n \<Rightarrow> n)"

text \<open>\<open>SeverityCounts(**counts)\<close>, which forbids other names.\<close>

definition severity_counts_of :: "(string \<times> nat) list \<Rightarrow> exn + severity_counts" where
  "severity_counts_of d =
     (if list_all (\<lambda>(k, n). k \<in> {''critical'', ''high'', ''medium'', ''low'', ''info''}) d
      then Inr \<lparr>sv_critical = get_count d ''critical'', sv_high = get_count d ''high'', sv_medium = get_count d ''medium'',
        sv_low = get_count d ''low'', sv_info = get_count d ''info''\<rparr>
      else Inl (ValueError ''extra_forbidden''))"

definition day_of :: "time \<Rightarrow> int" where
  "day_of t = t div seconds 86400"

definition at_least :: "time option \<Rightarrow> time \<Rightarrow> bool" where
  "at_least t since \<longleftrightarrow> (case t of None \<Rightarrow> False | Some x \<Rightarrow> since \<le> x)"

definition recently_scanned :: "uuid \<Rightarrow> time \<Rightarrow> scan_row list \<Rightarrow> asset_row \<Rightarrow> bool" where
  "recently_scanned tenant_id since_24h rows a \<longleftrightarrow>
     list_ex (\<lambda>s. sc_tenant s = tenant_id \<and> sc_asset s = a_id a \<and> sc_status s = Completed \<and>
       at_least (sc_completed s) since_24h) rows"

definition trend_days :: "int \<Rightarrow> (int \<times> nat) list \<Rightarrow> (int \<times> nat) list \<Rightarrow> trend_day list" where
  "trend_days start_day opened_counts closed_counts =
     map (\<lambda>offset. let day = start_day + offset in
       \<lparr>td_day = day, td_opened = get_count opened_counts day, td_closed = get_count closed_counts day\<rparr>) [0..29]"

definition get_dashboard_summary :: "(rat \<Rightarrow> rat) \<Rightarrow> time \<Rightarrow> uuid \<Rightarrow> ('r, dashboard_summary) db_prog" where
  "get_dashboard_summary round4 now tenant_id =
     (let since_24h = now - seconds (24 * 3600); since_30d = now - seconds (30 * 86400);
          start_day = day_of now - 29; window_start = start_day * seconds 86400 in
      bindE (getE (\<lambda>w. let monitored = filter (\<lambda>a. a_tenant a = tenant_id \<and> a_status a = ''active'') (seen_assets w)
          in (length monitored, count_where (recently_scanned tenant_id since_24h (seen_scans w)) monitored)))
        (\<lambda>(assets_monitored, covered).
      bindE (getE (\<lambda>w. group_counts v_severity
          (filter (\<lambda>v. v_tenant v = tenant_id \<and> v_status v = ''open'') (seen_vulns w)))) (\<lambda>severities.
      bindE (getE (\<lambda>w. group_counts (\<lambda>v. day_of (v_created v))
          (filter (\<lambda>v. v_tenant v = tenant_id \<and> window_start \<le> v_created v) (seen_vulns w)))) (\<lambda>opened_counts.
      bindE (getE (\<lambda>w. group_counts day_of (List.map_filter v_closed
          (filter (\<lambda>v. v_tenant v = tenant_id \<and> at_least (v_closed v) window_start) (seen_vulns w))))) (\<lambda>closed_counts.
      bindE (getE (\<lambda>w. group_counts sc_status (filter (\<lambda>s. sc_tenant s = tenant_id \<and> at_least (sc_completed s) since_30d \<and>
          sc_status s \<in> {Completed, Failed}) (seen_scans w)))) (\<lambda>scan_counts.
      bindE (ofE (severity_counts_of severities)) (\<lambda>open_by_severity.
      let completed = get_count scan_counts Completed; failed = get_count scan_counts Failed in
      retE \<lparr>ds_tenant = tenant_id, ds_generated = now, ds_assets = assets_monitored, ds_severity = open_by_severity,
        ds_coverage = \<lparr>cm_covered = covered, cm_total = assets_monitored, cm_ratio = summary_ratio round4 covered assets_monitored,
          cm_since = since_24h\<rparr>,
        ds_trend = trend_days start_day opened_counts closed_counts,
        ds_scans = \<lparr>sm_completed = completed, sm_failed = failed, sm_ratio = summary_ratio round4 completed (completed + failed),
          sm_since = since_30d\<rparr>\<rparr>)))))))"

subsection \<open>The cache and the endpoint\<close>

record dashboard_env =
  de_round :: "rat \<Rightarrow> rat"
  de_now :: time
  de_uuid :: "uuid \<Rightarrow> string"
  de_dump :: "dashboard_summary \<Rightarrow> string"
  de_load :: "string \<Rightarrow> dashboard_summary option"

definition SUMMARY_CACHE_TTL_SECONDS :: int where
  "SUMMARY_CACHE_TTL_SECONDS = 60"

definition summary_key :: "dashboard_env \<Rightarrow> uuid \<Rightarrow> string" where
  "summary_key env tenant_id = ''dashboard:summary:'' @ de_uuid env tenant_id"

text \<open>\<open>except RedisError\<close>.\<close>

definition except_redis_error :: "('r, 'a) redis_prog \<Rightarrow> 'a \<Rightarrow> ('r, 'a) redis_prog" where
  "except_redis_error m d = catchE m (\<lambda>e. case e of
     RawRedis x \<Rightarrow> if is_redis_error x then retE d else raiseE e | _ \<Rightarrow> raiseE e)"

definition read_cache :: "'r redis_call \<Rightarrow> string \<Rightarrow> ('r, string option) redis_prog" where
  "read_cache call key = except_redis_error
     (bindE (redis_cmd call (GET key)) (\<lambda>r. retE (case r of RStr raw \<Rightarrow> Some raw | _ \<Rightarrow> None))) None"

definition write_cache :: "'r redis_call \<Rightarrow> string \<Rightarrow> string \<Rightarrow> ('r, unit) redis_prog" where
  "write_cache call key text = except_redis_error
     (thenE (redis_cmd call (SET key text False (Some (seconds SUMMARY_CACHE_TTL_SECONDS)))) (retE ())) ()"

definition cached_summary :: "'r redis_call \<Rightarrow> dashboard_env \<Rightarrow> uuid \<Rightarrow> ('r, dashboard_summary) db_prog" where
  "cached_summary call env tenant_id =
     bindE (on_redis (read_cache call (summary_key env tenant_id))) (\<lambda>raw.
     case Option.bind raw (de_load env) of
       Some summary \<Rightarrow> retE summary
     | None \<Rightarrow> bindE (get_dashboard_summary (de_round env) (de_now env) tenant_id) (\<lambda>summary.
         thenE (on_redis (write_cache call (summary_key env tenant_id) (de_dump env summary))) (retE summary)))"

definition dashboard_tenant :: "user_row \<Rightarrow> uuid option \<Rightarrow> ('r, uuid) db_prog" where
  "dashboard_tenant current_user tenant_id =
     (if u_super current_user
      then (case tenant_id of
          None \<Rightarrow> raiseE (HTTPException 422 ''tenant_id is required for superadmin'')
        | Some t \<Rightarrow> bindE (bindE (getE (\<lambda>w. map t_id (filter (\<lambda>r. t_id r = t) (seen_tenants w)))) scalar_one_or_none)
            (\<lambda>existing_id. if existing_id = None then raiseE (HTTPException 404 ''Tenant not found'') else retE t))
      else if tenant_id \<noteq> None \<and> tenant_id \<noteq> u_tenant current_user
      then raiseE (HTTPException 403 (''You can only view your own tenant'' @ [CHR 0x27] @ ''s dashboard''))
      else (case u_tenant current_user of
          None \<Rightarrow> raiseE (HTTPException 403 ''A tenant is required to view the dashboard'')
        | Some t \<Rightarrow> retE t))"

definition get_summary :: "'r redis_call \<Rightarrow> dashboard_env \<Rightarrow> user_row \<Rightarrow> uuid option \<Rightarrow> ('r, dashboard_summary) db_prog" where
  "get_summary call env current_user tenant_id = allow READERS current_user
     (bindE (dashboard_tenant current_user tenant_id) (cached_summary call env))"

subsection \<open>Counting\<close>

lemma get_group_count: "get_count (group_counts key rows) k = count_where (\<lambda>r. key r = k) rows"
proof (cases "k \<in> key ` set rows")
  case True
  then show ?thesis by (simp add: get_count_def group_counts_def map_of_map_restrict)
next
  case False
  then have "count_where (\<lambda>r. key r = k) rows = 0" by (auto simp: count_where_0)
  with False show ?thesis by (simp add: get_count_def group_counts_def map_of_map_restrict)
qed

lemma count_where_filter [simp]: "count_where p (filter q xs) = count_where (\<lambda>x. q x \<and> p x) xs"
  by (simp add: count_where_def)

lemma count_where_cong: "(\<And>x. x \<in> set xs \<Longrightarrow> p x = q x) \<Longrightarrow> count_where p xs = count_where q xs"
  by (simp add: count_where_def cong: filter_cong)

text \<open>Counts by distinct keys add up to the count of what has one of the keys.\<close>

lemma count_where_keys:
  "distinct ks \<Longrightarrow> (\<Sum>k \<leftarrow> ks. count_where (\<lambda>x. key x = k) xs) = count_where (\<lambda>x. key x \<in> set ks) xs"
proof (induction xs)
  case (Cons x xs)
  have "(\<Sum>k \<leftarrow> ks. count_where (\<lambda>x. key x = k) (x # xs)) =
      (\<Sum>k \<leftarrow> ks. count_where (\<lambda>x. key x = k) xs) + (\<Sum>k \<leftarrow> ks. if key x = k then 1 else 0)"
    by (induction ks) auto
  also have "(\<Sum>k \<leftarrow> ks. if key x = k then 1 else 0 :: nat) = (if key x \<in> set ks then 1 else 0)"
    using Cons.prems by (induction ks) auto
  finally show ?case using Cons by simp
qed simp

lemma seen_own:
  assumes "rls_row (guc w) t"
  shows "filter (\<lambda>a. a_tenant a = t \<and> p a) (seen_assets w) = filter (\<lambda>a. a_tenant a = t \<and> p a) (assets (work w))"
    "filter (\<lambda>v. v_tenant v = t \<and> q v) (seen_vulns w) = filter (\<lambda>v. v_tenant v = t \<and> q v) (vulns (work w))"
    "filter (\<lambda>s. sc_tenant s = t \<and> r s) (seen_scans w) = filter (\<lambda>s. sc_tenant s = t \<and> r s) (scans (work w))"
  using assms by (auto simp: seen_assets_def seen_vulns_def seen_scans_def intro!: filter_cong)

lemma seen_recent: "rls_row (guc w) t \<Longrightarrow> recently_scanned t since (seen_scans w) = recently_scanned t since (scans (work w))"
  by (auto simp: recently_scanned_def seen_scans_def list_ex_iff fun_eq_iff)

lemma count_map_filter:
  "count_where p (List.map_filter f xs) = count_where (\<lambda>x. case f x of None \<Rightarrow> False | Some y \<Rightarrow> p y) xs"
  by (induction xs) (auto simp: List.map_filter_simps split: option.split)

text \<open>A day of the window.\<close>

lemma from_day: "d * seconds 86400 \<le> t \<longleftrightarrow> d \<le> day_of t"
proof -
  define D where "D = seconds 86400"
  have D: "0 < D" by (simp add: D_def seconds_def)
  have "d \<le> t div D" if "d * D \<le> t"
    using zdiv_mono1 [OF that D] D by simp
  moreover have "d * D \<le> t" if "d \<le> t div D"
  proof -
    have "d * D \<le> (t div D) * D" using that D by (simp add: mult_right_mono)
    also have "\<dots> \<le> t" using D pos_mod_sign [of D t] div_mult_mod_eq [of t D] by linarith
    finally show ?thesis .
  qed
  ultimately show ?thesis unfolding day_of_def D_def by blast
qed

lemma trend_total:
  "(\<Sum>d \<leftarrow> map td_opened (trend_days start (group_counts key rows) closed). d) =
     count_where (\<lambda>r. key r \<in> {start..start + 29}) rows"
  "(\<Sum>d \<leftarrow> map td_closed (trend_days start opened (group_counts key rows)). d) =
     count_where (\<lambda>r. key r \<in> {start..start + 29}) rows"
proof -
  let ?days = "map (\<lambda>offset. start + offset) [0..29]"
  have "distinct ?days" and days: "set ?days = {start..start + 29}"
    by (auto simp: distinct_map image_iff Bex_def intro!: inj_onI)
  from count_where_keys [OF this(1), of key rows, unfolded days] show
    "(\<Sum>d \<leftarrow> map td_opened (trend_days start (group_counts key rows) closed). d) =
       count_where (\<lambda>r. key r \<in> {start..start + 29}) rows"
    "(\<Sum>d \<leftarrow> map td_closed (trend_days start opened (group_counts key rows)). d) =
       count_where (\<lambda>r. key r \<in> {start..start + 29}) rows"
    by (simp_all add: trend_days_def Let_def comp_def get_group_count)
qed

lemma severity_total:
  assumes "severity_counts_of (group_counts key rows) = Inr c"
  shows "sv_critical c + sv_high c + sv_medium c + sv_low c + sv_info c = length rows"
proof -
  let ?names = "[''critical'', ''high'', ''medium'', ''low'', ''info'']"
  have "list_all (\<lambda>(k, n). k \<in> set ?names) (group_counts key rows)"
    and c: "c = \<lparr>sv_critical = get_count (group_counts key rows) ''critical'', sv_high = get_count (group_counts key rows) ''high'',
      sv_medium = get_count (group_counts key rows) ''medium'', sv_low = get_count (group_counts key rows) ''low'',
      sv_info = get_count (group_counts key rows) ''info''\<rparr>"
    using assms by (simp_all add: severity_counts_of_def split: if_splits)
  then have "\<forall>r \<in> set rows. key r \<in> set ?names" by (auto simp: group_counts_def list_all_iff)
  then have "count_where (\<lambda>r. key r \<in> set ?names) rows = length rows" by (simp add: count_where_def)
  moreover have "distinct ?names" by simp
  ultimately show ?thesis using count_where_keys [of ?names key rows] unfolding c by (simp add: get_group_count)
qed

text \<open>
  The dashboard counts exactly.  The summary of a tenant, computed in a session that sees its rows, is the same
  whoever asks and changes nothing; the covered assets are those scanned within a day and never exceed the monitored
  ones; the open findings of the five severities add up to all open findings; the trend has the last thirty days, and
  the findings opened and closed in them are all those of these days; and the scans are all that ended in the window.
\<close>

theorem dashboard_counts_exact:
  assumes "get_dashboard_summary round4 now tenant w = (Inr s, w')" and "rls_row (guc w) tenant"
  shows "(w' = w \<and> ds_tenant s = tenant) \<and>
    ds_assets s = count_where (\<lambda>a. a_tenant a = tenant \<and> a_status a = ''active'') (assets (work w)) \<and>
    cm_covered (ds_coverage s) = count_where (\<lambda>a. (a_tenant a = tenant \<and> a_status a = ''active'') \<and>
      recently_scanned tenant (now - seconds 86400) (scans (work w)) a) (assets (work w)) \<and>
    cm_covered (ds_coverage s) \<le> cm_total (ds_coverage s) \<and> cm_total (ds_coverage s) = ds_assets s \<and>
    (let c = ds_severity s in sv_critical c + sv_high c + sv_medium c + sv_low c + sv_info c =
      count_where (\<lambda>v. v_tenant v = tenant \<and> v_status v = ''open'') (vulns (work w))) \<and>
    map td_day (ds_trend s) = [day_of now - 29..day_of now] \<and>
    (\<Sum>d \<leftarrow> map td_opened (ds_trend s). d) = count_where (\<lambda>v. v_tenant v = tenant \<and>
      day_of (v_created v) \<in> {day_of now - 29..day_of now}) (vulns (work w)) \<and>
    (\<Sum>d \<leftarrow> map td_closed (ds_trend s). d) = count_where (\<lambda>v. v_tenant v = tenant \<and>
      (case v_closed v of None \<Rightarrow> False | Some t \<Rightarrow> day_of t \<in> {day_of now - 29..day_of now})) (vulns (work w)) \<and>
    sm_completed (ds_scans s) + sm_failed (ds_scans s) = count_where (\<lambda>x. sc_tenant x = tenant \<and>
      at_least (sc_completed x) (now - seconds (30 * 86400)) \<and> sc_status x \<in> {Completed, Failed}) (scans (work w))"
proof -
  let ?start = "day_of now - 29"
  let ?ws = "?start * seconds 86400"
  let ?vs = "vulns (work w)" and ?as = "assets (work w)" and ?ss = "scans (work w)"
  let ?active = "\<lambda>a. a_tenant a = tenant \<and> a_status a = ''active''"
  let ?open = "filter (\<lambda>v. v_tenant v = tenant \<and> v_status v = ''open'') ?vs"
  let ?opened = "filter (\<lambda>v. v_tenant v = tenant \<and> ?ws \<le> v_created v) ?vs"
  let ?closed = "List.map_filter v_closed (filter (\<lambda>v. v_tenant v = tenant \<and> at_least (v_closed v) ?ws) ?vs)"
  let ?ended = "filter (\<lambda>s. sc_tenant s = tenant \<and> at_least (sc_completed s) (now - seconds (30 * 86400)) \<and>
    sc_status s \<in> {Completed, Failed}) ?ss"
  let ?recent = "recently_scanned tenant (now - seconds 86400) ?ss"
  note own = seen_own [OF assms(2)] seen_recent [OF assms(2)]
  from assms(1) obtain c where c: "severity_counts_of (group_counts v_severity ?open) = Inr c" and w': "w' = w"
    and s: "ds_tenant s = tenant" "ds_assets s = length (filter ?active ?as)" "ds_severity s = c"
      "cm_covered (ds_coverage s) = count_where ?recent (filter ?active ?as)" "cm_total (ds_coverage s) = length (filter ?active ?as)"
      "ds_trend s = trend_days ?start (group_counts (\<lambda>v. day_of (v_created v)) ?opened) (group_counts day_of ?closed)"
      "sm_completed (ds_scans s) = get_count (group_counts sc_status ?ended) Completed"
      "sm_failed (ds_scans s) = get_count (group_counts sc_status ?ended) Failed"
    unfolding get_dashboard_summary_def Let_def by (auto simp: bindE_success own simp del: count_where_filter)
  have "cm_covered (ds_coverage s) \<le> length (filter ?active ?as)"
    unfolding s count_where_def by (rule length_filter_le)
  moreover have "map td_day (ds_trend s) = [?start..day_of now]"
    unfolding s trend_days_def Let_def by (rule nth_equalityI) (simp_all add: nth_upto)
  moreover have "(\<Sum>d \<leftarrow> map td_opened (ds_trend s). d) =
      count_where (\<lambda>v. v_tenant v = tenant \<and> day_of (v_created v) \<in> {?start..day_of now}) ?vs"
    unfolding s trend_total by (simp, intro count_where_cong) (auto simp: from_day)
  moreover have "(\<Sum>d \<leftarrow> map td_closed (ds_trend s). d) = count_where (\<lambda>v. v_tenant v = tenant \<and>
      (case v_closed v of None \<Rightarrow> False | Some t \<Rightarrow> day_of t \<in> {?start..day_of now})) ?vs"
    unfolding s trend_total count_map_filter
    by (simp, intro count_where_cong) (auto simp: at_least_def from_day split: option.splits)
  moreover have "sm_completed (ds_scans s) + sm_failed (ds_scans s) = length ?ended"
    using count_where_keys [of "[Completed, Failed]" sc_status ?ended]
    unfolding s get_group_count by (simp add: count_where_def)
  ultimately show ?thesis
    using severity_total [OF c] w' s(1-5) by (simp add: Let_def count_where_def conj_commute)
qed

lemma dashboard_counts_exact_witness:
  "\<exists>s. get_dashboard_summary id (seconds 500000) 1 (sample_vuln_db [finding_row 1 7 0 70 (sample_draft ''a'')]) =
      (Inr s, sample_vuln_db [finding_row 1 7 0 70 (sample_draft ''a'')]) \<and>
    (let c = ds_severity s in sv_critical c + sv_high c + sv_medium c + sv_low c + sv_info c = 1)"
proof -
  define v where "v = finding_row 1 7 0 70 (sample_draft ''a'')"
  define w where "w = sample_vuln_db [v]"
  have v: "v_tenant v = 1" "v_status v = ''open''" "v_severity v \<in> {''critical'', ''high'', ''medium'', ''low'', ''info''}"
    by (simp_all add: v_def finding_row_def sample_draft_def)
  have seen: "seen_vulns w = [v]" "rls_row (guc w) 1" "vulns (work w) = [v]"
    by (simp_all add: seen_vulns_def w_def sample_vuln_db_def sample_db_def sample_defs rls_row_def Let_def v)
  have "severity_counts_of (group_counts v_severity [v]) \<noteq> Inl e" for e
    using v(3) by (auto simp: severity_counts_of_def group_counts_def)
  then obtain c where "severity_counts_of (group_counts v_severity [v]) = Inr c"
    by (cases "severity_counts_of (group_counts v_severity [v])") auto
  then obtain s where run: "get_dashboard_summary id (seconds 500000) 1 w = (Inr s, w)"
    by (simp add: get_dashboard_summary_def bindE_def seen v Let_def ofE_def)
  have "let c = ds_severity s in sv_critical c + sv_high c + sv_medium c + sv_low c + sv_info c = 1"
    using dashboard_counts_exact [OF run seen(2)] by (simp add: seen v Let_def)
  with run show ?thesis unfolding w_def v_def by blast
qed

subsection \<open>The cache\<close>

text \<open>Every summary in the cache is one of the tenant of its key.\<close>

definition cache_sound :: "dashboard_env \<Rightarrow> rstore \<Rightarrow> bool" where
  "cache_sound env st \<longleftrightarrow> (\<forall>t raw d s. store st (summary_key env t) = Some (VStr raw, d) \<longrightarrow>
     de_load env raw = Some s \<longrightarrow> ds_tenant s = t)"

context redis_contract
begin

lemma read_cache_cases:
  assumes "read_cache call key s = (x, s')"
  shows "store (view s') = store (view s) \<and>
    (case x of Inr (Some raw) \<Rightarrow> \<exists>d. store (view s') key = Some (VStr raw, d) | _ \<Rightarrow> True)"
proof -
  obtain y where run: "call (GET key) s = (y, s')"
    using assms by (auto simp: read_cache_def except_redis_error_def catchE_def bindE_def redis_cmd_def
        split: prod.splits sum.splits exn.splits if_splits)
  have same: "store (view s') = store (view s)"
    by (rule call_reads [OF run]) (auto simp: redis_does_def split: option.splits)
  have "\<exists>d. store (view s') key = Some (VStr raw, d)" if "x = Inr (Some raw)" for raw
  proof -
    from assms that have "call (GET key) s = (Inr (RStr raw), s')"
      by (auto simp: read_cache_def except_redis_error_def catchE_def bindE_def redis_cmd_def
          split: prod.splits sum.splits exn.splits if_splits reply.splits)
    from call_ok [OF this] show ?thesis
      by (auto simp: redis_does_def as_text_def live_def same split: option.splits rvalue.splits prod.splits if_splits)
  qed
  with same show ?thesis by (auto split: sum.split option.split)
qed

lemma write_cache_store:
  assumes "write_cache call key raw s = (x, s')"
  shows "store (view s') = store (view s) \<or> (\<exists>d. store (view s') = (store (view s))(key \<mapsto> (VStr raw, d)))"
proof -
  let ?set = "SET key raw False (Some (seconds SUMMARY_CACHE_TTL_SECONDS))"
  obtain y where run: "call ?set s = (y, s')"
    using assms by (auto simp: write_cache_def except_redis_error_def catchE_def thenE_def bindE_def redis_cmd_def
        split: prod.splits sum.splits exn.splits if_splits)
  show ?thesis
    using run by (cases rule: call_effect) (auto simp: redis_does_def dest!: put_sym)
qed

end

lemma dashboard_tenant_cases:
  assumes "dashboard_tenant me tid w = (x, w')"
  shows "w' = w \<and> (case x of Inl e \<Rightarrow> True | Inr t \<Rightarrow> if u_super me then tid = Some t else u_tenant me = Some t)"
  using assms by (auto simp: dashboard_tenant_def bindE_def scalar_one_or_none_def split: if_splits option.splits list.splits)

lemma summary_tenant:
  assumes "get_dashboard_summary round4 now t w = (x, w')"
  shows "w' = w \<and> (case x of Inl e \<Rightarrow> True | Inr s \<Rightarrow> ds_tenant s = t)"
  using assms by (auto simp: get_dashboard_summary_def Let_def bindE_def ofE_def split: sum.splits)

lemma cache_sound_put:
  assumes "cache_sound env st" and "store st' = (store st)(summary_key env t \<mapsto> (VStr raw, d))"
    and "\<And>s. de_load env raw = Some s \<Longrightarrow> ds_tenant s = t" and "inj (de_uuid env)"
  shows "cache_sound env st'"
  using assms(1,3) injD [OF assms(4)] by (auto simp: cache_sound_def assms(2) summary_key_def)

lemma cached_summary_cases:
  assumes "redis_contract call view" and "inj (de_uuid env)" and "\<And>s s'. de_load env (de_dump env s) = Some s' \<Longrightarrow> ds_tenant s' = ds_tenant s"
    and "cache_sound env (view (redis w))" and "cached_summary call env t w = (x, w')"
  shows "cache_sound env (view (redis w')) \<and> work w' = work w \<and> committed w' = committed w \<and>
    (case x of Inl e \<Rightarrow> True | Inr s \<Rightarrow> ds_tenant s = t)"
proof -
  obtain y r1 where read: "read_cache call (summary_key env t) (redis w) = (y, r1)" by fastforce
  from redis_contract.read_cache_cases [OF assms(1) read] have
    same: "store (view r1) = store (view (redis w))" and
    hit: "\<And>raw. y = Inr (Some raw) \<Longrightarrow> \<exists>d. store (view r1) (summary_key env t) = Some (VStr raw, d)" by auto
  have sound: "cache_sound env (view r1)" using assms(4) same by (simp add: cache_sound_def)
  let ?w1 = "w\<lparr>redis := r1\<rparr>"
  show ?thesis
  proof (cases y)
    case (Inl e)
    with assms(5) read sound show ?thesis by (auto simp: cached_summary_def bindE_def on_redis_def)
  next
    case (Inr raw)
    show ?thesis
    proof (cases "Option.bind raw (de_load env)")
      case (Some s)
      with Inr hit sound have "ds_tenant s = t" by (auto simp: cache_sound_def bind_eq_Some_conv)
      with Some Inr assms(5) read sound show ?thesis by (auto simp: cached_summary_def bindE_def on_redis_def)
    next
      case None
      obtain z where sum: "get_dashboard_summary (de_round env) (de_now env) t ?w1 = (z, ?w1)"
        using summary_tenant [of "de_round env" "de_now env" t ?w1] by (metis prod.collapse)
      show ?thesis
      proof (cases z)
        case (Inl e)
        with None Inr assms(5) read sum sound show ?thesis by (auto simp: cached_summary_def bindE_def on_redis_def)
      next
        case z: (Inr s)
        have s: "ds_tenant s = t" using summary_tenant [OF sum] z by simp
        obtain u r2 where written: "write_cache call (summary_key env t) (de_dump env s) r1 = (u, r2)" by fastforce
        from redis_contract.write_cache_store [OF assms(1) written] have "cache_sound env (view r2)"
        proof
          assume "store (view r2) = store (view r1)"
          with sound show ?thesis by (simp add: cache_sound_def)
        next
          assume "\<exists>d. store (view r2) = (store (view r1))(summary_key env t \<mapsto> (VStr (de_dump env s), d))"
          then show ?thesis using cache_sound_put [OF sound _ _ assms(2)] assms(3) s by fastforce
        qed
        with None Inr z s assms(5) read sum written show ?thesis
          by (auto simp: cached_summary_def bindE_def thenE_def on_redis_def split: sum.splits)
      qed
    qed
  qed
qed


definition sample_dashboard :: dashboard_env where
  "sample_dashboard = \<lparr>de_round = id, de_now = seconds 500000, de_uuid = show_nat, de_dump = (\<lambda>s. show_nat (ds_tenant s)),
     de_load = (\<lambda>raw. Some \<lparr>ds_tenant = read_nat raw, ds_generated = 0, ds_assets = 0,
       ds_severity = \<lparr>sv_critical = 0, sv_high = 0, sv_medium = 0, sv_low = 0, sv_info = 0\<rparr>,
       ds_coverage = \<lparr>cm_covered = 0, cm_total = 0, cm_ratio = None, cm_since = 0\<rparr>, ds_trend = [],
       ds_scans = \<lparr>sm_completed = 0, sm_failed = 0, sm_ratio = None, sm_since = 0\<rparr>\<rparr>)\<rparr>"


end
