(* ===== verification/Settings.thy ===== *)
theory Settings
  imports Prompts Llm Complex_Main
begin

text \<open>
  The settings of \<open>app/core/config.py\<close> with every validator, and the token of the metrics endpoint
  (\<open>app/core/metrics_auth.py\<close> and its route in \<open>app/main.py\<close>).  The values are those pydantic has read and
  converted; an error is named by its field or by its validator.  The entropy of the secret key, which the code
  computes in floating point, is decided exactly.
\<close>

subsection \<open>The settings\<close>

record database_settings =
  DATABASE_URL :: string
  DATABASE_URL_MIGRATION :: string
  POSTGRES_USER :: string
  POSTGRES_PASSWORD :: string
  POSTGRES_DB :: string
  DB_STATEMENT_TIMEOUT_MS :: int
  DB_LOCK_TIMEOUT_MS :: int

record jwt_settings =
  JWT_ALGORITHM :: string
  ACCESS_TOKEN_EXPIRE_MINUTES :: int
  REFRESH_TOKEN_EXPIRE_DAYS :: int

text \<open>The keys, models and addresses of the providers, by the names of their settings.\<close>

record ai_settings =
  AI_ATTRS :: "(string \<times> string option) list"
  USE_OLLAMA :: bool
  LLM_PROVIDER :: string
  LLM_TIMEOUT :: int
  LLM_MAX_TOKENS :: int
  LLM_TEMPERATURE :: rat

record enrichment_settings =
  ENRICHMENT_ENABLED :: bool
  ENRICHMENT_LANGUAGE :: string
  ENRICHMENT_MAX_CONCURRENCY :: int
  ENRICHMENT_BUDGET_SECONDS :: int

record event_settings =
  EVENT_STREAM_PREFIX :: string
  EVENT_CONSUMER_GROUP :: string
  EVENT_MAX_RETRIES :: int
  EVENT_STREAM_MAXLEN :: int
  EVENT_STREAM_MAXAGE_SECONDS :: int
  EVENT_PENDING_LAG_THRESHOLD :: int
  EVENT_RETRY_TTL_SECONDS :: int

record redis_settings =
  REDIS_HOST :: string
  REDIS_PORT :: int
  REDIS_DB :: int
  REDIS_PASSWORD :: string
  REDIS_MAX_CONNECTIONS :: int
  REDIS_STARTUP_MAX_ATTEMPTS :: int
  REDIS_STARTUP_BACKOFF_BASE_SECONDS :: rat

record worker_settings =
  CELERY_BROKER_REDIS_DB :: int
  SCAN_EXECUTION_ENABLED :: bool
  SCAN_DEMO_MODE :: bool
  NMAP_PROCESS_SUPERVISION :: bool

record guard_settings =
  METRICS_TOKEN :: "string option"
  METRICS_TOKEN_PREVIOUS :: "string option"
  REDIS_OUTAGE_RETRY_AFTER_SECONDS :: int
  LOCK_KEY_SECRET :: "string option"
  LOCK_DEFAULT_TTL_SECONDS :: int
  LOCK_DEFAULT_RETRY_AFTER_SECONDS :: int
  LOCK_RETRY_AFTER_SECONDS :: "int option"
  RATE_LIMIT_ENABLED :: bool
  RATE_LIMIT_WINDOW_SECONDS :: int
  CORS_ORIGINS :: "string list"
  TRUSTED_PROXIES :: "string list"

record settings =
  ENVIRONMENT :: string
  APP_NAME :: string
  SECRET_KEY :: string
  st_database :: database_settings
  st_jwt :: jwt_settings
  st_ai :: ai_settings
  st_enrichment :: enrichment_settings
  st_event :: event_settings
  st_redis :: redis_settings
  st_worker :: worker_settings
  st_guard :: guard_settings

definition default_ai :: ai_settings where
  "default_ai = \<lparr>AI_ATTRS =
      [(''GROQ_API_KEY'', None), (''GROQ_MODEL'', Some ''llama-3.3-70b-versatile''),
       (''OLLAMA_URL'', Some ''http://localhost:11434''), (''OLLAMA_MODEL'', Some ''llama3.2''),
       (''OPENAI_API_KEY'', None), (''ANTHROPIC_API_KEY'', None), (''GEMINI_API_KEY'', None),
       (''MISTRAL_API_KEY'', None), (''COHERE_API_KEY'', None), (''TOGETHER_API_KEY'', None),
       (''HUGGINGFACE_API_KEY'', None), (''OPENROUTER_API_KEY'', None),
       (''OPENAI_MODEL'', Some ''gpt-4o''), (''ANTHROPIC_MODEL'', Some ''claude-3-5-haiku-20241107''),
       (''GEMINI_MODEL'', Some ''gemini-2.0-flash''), (''MISTRAL_MODEL'', Some ''mistral-large-latest''),
       (''COHERE_MODEL'', Some ''command-r-plus''), (''TOGETHER_MODEL'', Some ''mistralai/Mistral-7B-Instruct-v0.3''),
       (''HUGGINGFACE_MODEL'', Some ''meta-llama/Llama-3.3-70B-Instruct''),
       (''OPENROUTER_MODEL'', Some ''inclusionai/ling-flash-3.0:free''),
       (''ANTHROPIC_BASE_URL'', None), (''GEMINI_BASE_URL'', None)],
     USE_OLLAMA = False, LLM_PROVIDER = ''groq'', LLM_TIMEOUT = 30, LLM_MAX_TOKENS = 2048, LLM_TEMPERATURE = 1 / 10\<rparr>"

definition default_enrichment :: enrichment_settings where
  "default_enrichment = \<lparr>ENRICHMENT_ENABLED = False, ENRICHMENT_LANGUAGE = ''en'', ENRICHMENT_MAX_CONCURRENCY = 3,
     ENRICHMENT_BUDGET_SECONDS = 120\<rparr>"

definition default_event :: event_settings where
  "default_event = \<lparr>EVENT_STREAM_PREFIX = ''events'', EVENT_CONSUMER_GROUP = ''soc360-consumers'', EVENT_MAX_RETRIES = 3,
     EVENT_STREAM_MAXLEN = 100000, EVENT_STREAM_MAXAGE_SECONDS = 604800, EVENT_PENDING_LAG_THRESHOLD = 100,
     EVENT_RETRY_TTL_SECONDS = 86400\<rparr>"

definition default_redis :: redis_settings where
  "default_redis = \<lparr>REDIS_HOST = ''localhost'', REDIS_PORT = 6379, REDIS_DB = 0, REDIS_PASSWORD = '''',
     REDIS_MAX_CONNECTIONS = 20, REDIS_STARTUP_MAX_ATTEMPTS = 3, REDIS_STARTUP_BACKOFF_BASE_SECONDS = 1\<rparr>"

definition default_worker :: worker_settings where
  "default_worker = \<lparr>CELERY_BROKER_REDIS_DB = 1, SCAN_EXECUTION_ENABLED = False, SCAN_DEMO_MODE = False,
     NMAP_PROCESS_SUPERVISION = False\<rparr>"

definition default_guard :: guard_settings where
  "default_guard = \<lparr>METRICS_TOKEN = None, METRICS_TOKEN_PREVIOUS = None, REDIS_OUTAGE_RETRY_AFTER_SECONDS = 30,
     LOCK_KEY_SECRET = None, LOCK_DEFAULT_TTL_SECONDS = 30, LOCK_DEFAULT_RETRY_AFTER_SECONDS = 15,
     LOCK_RETRY_AFTER_SECONDS = None, RATE_LIMIT_ENABLED = True, RATE_LIMIT_WINDOW_SECONDS = 86400,
     CORS_ORIGINS = [''http://localhost:5173''], TRUSTED_PROXIES = []\<rparr>"

text \<open>What is required has no default.\<close>

definition required_settings :: "string \<Rightarrow> string \<Rightarrow> string \<Rightarrow> string \<Rightarrow> string \<Rightarrow> string \<Rightarrow> string \<Rightarrow> settings" where
  "required_settings env key url url_migration pg_user pg_password pg_db =
     \<lparr>ENVIRONMENT = env, APP_NAME = ''SOC 360 PYMEs'', SECRET_KEY = key,
      st_database = \<lparr>DATABASE_URL = url, DATABASE_URL_MIGRATION = url_migration, POSTGRES_USER = pg_user,
        POSTGRES_PASSWORD = pg_password, POSTGRES_DB = pg_db, DB_STATEMENT_TIMEOUT_MS = 30000, DB_LOCK_TIMEOUT_MS = 5000\<rparr>,
      st_jwt = \<lparr>JWT_ALGORITHM = ''HS256'', ACCESS_TOKEN_EXPIRE_MINUTES = 15, REFRESH_TOKEN_EXPIRE_DAYS = 7\<rparr>,
      st_ai = default_ai, st_enrichment = default_enrichment, st_event = default_event, st_redis = default_redis,
      st_worker = default_worker, st_guard = default_guard\<rparr>"

subsection \<open>The secret key\<close>

definition MIN_SECRET_KEY_LENGTH :: nat where
  "MIN_SECRET_KEY_LENGTH = 128"

definition char_counts :: "string \<Rightarrow> nat list" where
  "char_counts v = map (count_list v) (remdups v)"

text \<open>\<open>-sum((c / len(v)) * log2(c / len(v)) for c in counts.values())\<close> and its test against 3 bits.\<close>

definition key_entropy :: "string \<Rightarrow> real" where
  "key_entropy v = - (\<Sum>c \<leftarrow> char_counts v. (real c / real (length v)) * log 2 (real c / real (length v)))"

definition entropy_too_low :: "string \<Rightarrow> bool" where
  "entropy_too_low v \<longleftrightarrow> length v ^ length v < 8 ^ length v * prod_list (map (\<lambda>c. c ^ c) (char_counts v))"

definition secret_key_strength :: "string \<Rightarrow> bool" where
  "secret_key_strength v \<longleftrightarrow> MIN_SECRET_KEY_LENGTH \<le> length v \<and>
     \<not> length v < 2 * Max (set (char_counts v)) \<and> \<not> entropy_too_low v"

subsection \<open>The validators\<close>

datatype config_error = FieldError string | ModelError string

definition PROVIDER_NAMES :: "string list" where
  "PROVIDER_NAMES = [''groq'', ''ollama'', ''openai'', ''anthropic'', ''gemini'', ''mistral'', ''cohere'', ''together'',
     ''huggingface'', ''openrouter'']"

definition reject_redis_url :: "string list \<Rightarrow> string list \<Rightarrow> bool" where
  "reject_redis_url data environ \<longleftrightarrow> list_ex (\<lambda>key. upper key = ''REDIS_URL'') (data @ environ)"

text \<open>The checks of the fields, in the order of the fields; all the failures are reported together.\<close>

definition field_checks :: "settings \<Rightarrow> (string \<times> bool) list" where
  "field_checks s =
    [(''ENVIRONMENT'', ENVIRONMENT s \<in> {''development'', ''staging'', ''production''}),
     (''SECRET_KEY'', secret_key_strength (SECRET_KEY s)),
     (''DB_STATEMENT_TIMEOUT_MS'', \<not> DB_STATEMENT_TIMEOUT_MS (st_database s) \<le> 0),
     (''DB_LOCK_TIMEOUT_MS'', \<not> DB_LOCK_TIMEOUT_MS (st_database s) \<le> 0),
     (''JWT_ALGORITHM'', JWT_ALGORITHM (st_jwt s) \<in> {''HS256'', ''HS384'', ''HS512''}),
     (''ACCESS_TOKEN_EXPIRE_MINUTES'', 1 \<le> ACCESS_TOKEN_EXPIRE_MINUTES (st_jwt s) \<and> ACCESS_TOKEN_EXPIRE_MINUTES (st_jwt s) \<le> 60),
     (''LLM_PROVIDER'', lower (LLM_PROVIDER (st_ai s)) \<in> set PROVIDER_NAMES),
     (''ENRICHMENT_LANGUAGE'', ENRICHMENT_LANGUAGE (st_enrichment s) \<in> {''en''}),
     (''ENRICHMENT_MAX_CONCURRENCY'', 1 \<le> ENRICHMENT_MAX_CONCURRENCY (st_enrichment s)),
     (''ENRICHMENT_BUDGET_SECONDS'', 0 < ENRICHMENT_BUDGET_SECONDS (st_enrichment s)),
     (''CELERY_BROKER_REDIS_DB'', 0 \<le> CELERY_BROKER_REDIS_DB (st_worker s) \<and> CELERY_BROKER_REDIS_DB (st_worker s) \<le> 15),
     (''REDIS_OUTAGE_RETRY_AFTER_SECONDS'', 1 \<le> REDIS_OUTAGE_RETRY_AFTER_SECONDS (st_guard s) \<and>
        REDIS_OUTAGE_RETRY_AFTER_SECONDS (st_guard s) \<le> 300),
     (''LOCK_RETRY_AFTER_SECONDS'', case LOCK_RETRY_AFTER_SECONDS (st_guard s) of None \<Rightarrow> True | Some v \<Rightarrow> 1 \<le> v \<and> v \<le> 300),
     (''CORS_ORIGINS'', ''*'' \<notin> set (CORS_ORIGINS (st_guard s)))]"

definition secret_text :: "string option \<Rightarrow> string" where
  "secret_text s = (case s of None \<Rightarrow> '''' | Some t \<Rightarrow> t)"

text \<open>The checks of the whole, one after the other.\<close>

definition model_checks :: "settings \<Rightarrow> (string \<times> bool) list" where
  "model_checks s =
    (let production = (ENVIRONMENT s = ''production''); guard = st_guard s;
         groq = secret_text (Option.bind (map_of (AI_ATTRS (st_ai s)) ''GROQ_API_KEY'') id)
     in [(''scan_demo_mode_only_in_development'', \<not> (SCAN_DEMO_MODE (st_worker s) \<and> ENVIRONMENT s \<in> {''production'', ''staging''})),
         (''redis_password_required_in_production'', \<not> (production \<and> REDIS_PASSWORD (st_redis s) = '''')),
         (''groq_key_required_for_groq'', \<not> (LLM_PROVIDER (st_ai s) = ''groq'' \<and> (groq = '''' \<or> \<not> starts_with ''gsk_'' groq))),
         (''metrics_token_required_in_production'', \<not> (production \<and> secret_text (METRICS_TOKEN guard) = '''')),
         (''metrics_tokens_must_differ'', \<not> (secret_text (METRICS_TOKEN guard) \<noteq> '''' \<and>
            secret_text (METRICS_TOKEN guard) = secret_text (METRICS_TOKEN_PREVIOUS guard))),
         (''lock_key_secret_required_in_production'', \<not> (production \<and> LOCK_KEY_SECRET guard \<noteq> None \<and>
            length (secret_text (LOCK_KEY_SECRET guard)) < 32))])"

definition failures :: "(string \<times> bool) list \<Rightarrow> string list" where
  "failures checks = map fst (filter (\<lambda>(name, ok). \<not> ok) checks)"

definition lower_provider :: "settings \<Rightarrow> settings" where
  "lower_provider s = s\<lparr>st_ai := (st_ai s)\<lparr>LLM_PROVIDER := lower (LLM_PROVIDER (st_ai s))\<rparr>\<rparr>"

definition load_settings :: "string list \<Rightarrow> string list \<Rightarrow> settings \<Rightarrow> config_error list + settings" where
  "load_settings data environ s =
    (if reject_redis_url data environ then Inl [ModelError ''reject_redis_url'']
     else case failures (field_checks s) of
         e # es \<Rightarrow> Inl (map FieldError (e # es))
       | [] \<Rightarrow> let s' = lower_provider s in
           (case failures (model_checks s') of e # es \<Rightarrow> Inl [ModelError e] | [] \<Rightarrow> Inr s'))"

text \<open>The view the LLM layer has of the settings.\<close>

definition llm_view :: "settings \<Rightarrow> llm_settings" where
  "llm_view s = \<lparr>ls_attr = (\<lambda>name. Option.bind (map_of (AI_ATTRS (st_ai s)) name) id), ls_provider = LLM_PROVIDER (st_ai s),
     ls_timeout = LLM_TIMEOUT (st_ai s)\<rparr>"

subsection \<open>The metrics endpoint\<close>

definition METRICS_TOKEN_MAX_BYTES :: nat where
  "METRICS_TOKEN_MAX_BYTES = 256"

text \<open>The values of the header as Starlette decodes them: a character is a byte of the wire.\<close>

definition extract_header :: "string list \<Rightarrow> string" where
  "extract_header raw_values = (case raw_values of
      [v] \<Rightarrow>
        if METRICS_TOKEN_MAX_BYTES < length v then ''''
        else if \<not> list_all (\<lambda>c. of_char c < (128 :: nat)) v then ''''
        else if v \<noteq> strip v \<or> list_ex is_space v then ''''
        else v
    | _ \<Rightarrow> '''')"

definition verify_metrics_token :: "settings \<Rightarrow> string \<Rightarrow> bool" where
  "verify_metrics_token s presented =
     (if presented = '''' then False
      else let current = secret_text (METRICS_TOKEN (st_guard s)); previous = secret_text (METRICS_TOKEN_PREVIOUS (st_guard s))
           in presented = current \<or> presented = previous)"

definition metrics_endpoint :: "settings \<Rightarrow> string \<Rightarrow> string list \<Rightarrow> nat \<times> string" where
  "metrics_endpoint s payload headers =
     (let presented = extract_header headers
      in if presented = '''' \<or> \<not> verify_metrics_token s presented then (401, ''unauthorized'') else (200, payload))"

subsection \<open>The strength of a key\<close>

lemma counts_sum: "(\<Sum>c \<leftarrow> char_counts v. g c) = (\<Sum>x \<in> set v. g (count_list v x))"
  by (simp add: char_counts_def comp_def sum_list_distinct_conv_sum_set)

lemma counts_prod: "prod_list (map g (char_counts v)) = (\<Prod>x \<in> set v. g (count_list v x))"
  by (simp add: char_counts_def comp_def prod.distinct_set_conv_list [symmetric, of "remdups v" "\<lambda>x. g (count_list v x)", simplified])

lemma count_pos: "x \<in> set v \<Longrightarrow> 0 < count_list v x"
  by (metis count_list_0_iff gr0I)

lemma counts_total: "(\<Sum>x \<in> set v. real (count_list v x)) = real (length v)"
  using sum_count_set [of v "set v"] by (simp flip: of_nat_sum)

lemma entropy_sum:
  assumes "v \<noteq> []"
  shows "real (length v) * key_entropy v =
    real (length v) * log 2 (real (length v)) - (\<Sum>x \<in> set v. real (count_list v x) * log 2 (real (count_list v x)))"
proof -
  let ?n = "real (length v)" and ?c = "\<lambda>x. real (count_list v x)"
  have n: "0 < ?n" using assms by simp
  have "?n * ((?c x / ?n) * log 2 (?c x / ?n)) = ?c x * log 2 (?c x) - ?c x * log 2 ?n" if "x \<in> set v" for x
    using n count_pos [OF that] by (simp add: log_divide right_diff_distrib)
  then have "?n * (\<Sum>x \<in> set v. (?c x / ?n) * log 2 (?c x / ?n)) = (\<Sum>x \<in> set v. ?c x * log 2 (?c x) - ?c x * log 2 ?n)"
    by (simp add: sum_distrib_left)
  also have "\<dots> = (\<Sum>x \<in> set v. ?c x * log 2 (?c x)) - ?n * log 2 ?n"
    by (simp add: sum_subtractf sum_distrib_right [symmetric] counts_total)
  finally show ?thesis by (simp add: key_entropy_def counts_sum)
qed

text \<open>The test of the model decides the comparison of the source.\<close>

lemma entropy_test:
  assumes "v \<noteq> []"
  shows "entropy_too_low v \<longleftrightarrow> key_entropy v < 3"
proof -
  let ?n = "length v" and ?c = "count_list v"
  have n: "0 < real ?n" using assms by simp
  have prod: "0 < (\<Prod>x \<in> set v. real (?c x) ^ ?c x)" by (rule prod_pos) (simp add: count_pos)
  have "entropy_too_low v \<longleftrightarrow> real (?n ^ ?n) < real (8 ^ ?n * (\<Prod>x \<in> set v. ?c x ^ ?c x))"
    unfolding entropy_too_low_def counts_prod of_nat_less_iff ..
  also have "\<dots> \<longleftrightarrow> real ?n ^ ?n < 8 ^ ?n * (\<Prod>x \<in> set v. real (?c x) ^ ?c x)" by simp
  also have "\<dots> \<longleftrightarrow> log 2 (real ?n ^ ?n) < log 2 (8 ^ ?n * (\<Prod>x \<in> set v. real (?c x) ^ ?c x))"
    using n prod by simp
  also have "log 2 (8 ^ ?n * (\<Prod>x \<in> set v. real (?c x) ^ ?c x)) =
      3 * real ?n + (\<Sum>x \<in> set v. real (?c x) * log 2 (real (?c x)))"
  proof -
    have "log 2 (\<Prod>x \<in> set v. real (?c x) ^ ?c x) = (\<Sum>x \<in> set v. log 2 (real (?c x) ^ ?c x))"
      unfolding log_def by (subst ln_prod) (auto simp: sum_divide_distrib count_pos)
    also have "\<dots> = (\<Sum>x \<in> set v. real (?c x) * log 2 (real (?c x)))"
      by (intro sum.cong refl) (simp add: log_nat_power count_pos)
    finally have sum: "log 2 (\<Prod>x \<in> set v. real (?c x) ^ ?c x) = (\<Sum>x \<in> set v. real (?c x) * log 2 (real (?c x)))" .
    have "log 2 (8 :: real) = log 2 (2 ^ 3)" by simp
    then have "log 2 (8 :: real) = 3" by (simp only: log_nat_power log_eq_one)
    with sum prod show ?thesis by (subst log_mult) (auto simp: log_nat_power)
  qed
  also have "log 2 (real ?n ^ ?n) = real ?n * log 2 (real ?n)" using n by (simp add: log_nat_power)
  also have "real ?n * log 2 (real ?n) < 3 * real ?n + (\<Sum>x \<in> set v. real (?c x) * log 2 (real (?c x))) \<longleftrightarrow>
      real ?n * key_entropy v < real ?n * 3"
    unfolding entropy_sum [OF assms] by (simp add: algebra_simps)
  also have "\<dots> \<longleftrightarrow> key_entropy v < 3" using n by simp
  finally show ?thesis .
qed

text \<open>The entropy of a text is at most that of as many characters, all equally frequent.\<close>

lemma entropy_bound:
  assumes "v \<noteq> []"
  shows "key_entropy v \<le> log 2 (card (set v))"
proof -
  let ?n = "real (length v)" and ?k = "real (card (set v))" and ?c = "\<lambda>x. real (count_list v x)"
  have n: "0 < ?n" and k: "0 < ?k" using assms by (simp_all add: card_gt_0_iff)
  have "?c x * (log 2 ?n - log 2 (?c x)) \<le> (?n / ?k - ?c x) / ln 2 + ?c x * log 2 ?k" if "x \<in> set v" for x
  proof -
    have c: "0 < ?c x" using count_pos [OF that] by simp
    have "?c x * ln (?n / (?c x * ?k)) \<le> ?c x * (?n / (?c x * ?k) - 1)"
      using n k c by (intro mult_left_mono ln_le_minus_one) auto
    also have "\<dots> = ?n / ?k - ?c x" using c by (simp add: right_diff_distrib)
    finally have "?c x * (ln ?n - ln (?c x)) \<le> ?n / ?k - ?c x + ?c x * ln ?k"
      using n k c by (simp add: ln_div ln_mult algebra_simps)
    from divide_right_mono [OF this, of "ln 2"] show ?thesis
      by (simp add: log_def add_divide_distrib diff_divide_distrib right_diff_distrib)
  qed
  then have "(\<Sum>x \<in> set v. ?c x * (log 2 ?n - log 2 (?c x))) \<le> (\<Sum>x \<in> set v. (?n / ?k - ?c x) / ln 2 + ?c x * log 2 ?k)"
    by (rule sum_mono)
  also have "\<dots> = ?n * log 2 ?k"
    using k by (simp add: sum.distrib sum_divide_distrib [symmetric] sum_subtractf counts_total sum_distrib_right [symmetric])
  also have "(\<Sum>x \<in> set v. ?c x * (log 2 ?n - log 2 (?c x))) = ?n * key_entropy v"
    unfolding entropy_sum [OF assms] by (simp add: right_diff_distrib sum_subtractf counts_total sum_distrib_right [symmetric])
  finally show ?thesis using n by simp
qed

lemma strong_key:
  assumes "secret_key_strength v"
  shows "128 \<le> length v \<and> 8 \<le> card (set v) \<and> (\<forall>c. 2 * count_list v c \<le> length v)"
proof -
  have len: "128 \<le> length v" using assms by (simp add: secret_key_strength_def MIN_SECRET_KEY_LENGTH_def)
  then have "v \<noteq> []" by auto
  with assms have "log 2 8 \<le> log 2 (card (set v))"
    using entropy_test [of v] entropy_bound [of v] log_nat_power [of 2 2 3] by (simp add: secret_key_strength_def)
  then have "8 \<le> card (set v)" using \<open>v \<noteq> []\<close> by (simp add: card_gt_0_iff)
  moreover have "2 * count_list v c \<le> length v" for c
  proof (cases "c \<in> set v")
    case True
    then have "count_list v c \<le> Max (set (char_counts v))" by (simp add: char_counts_def)
    with assms show ?thesis by (simp add: secret_key_strength_def)
  qed (simp add: count_list_0_iff)
  ultimately show ?thesis using len by blast
qed

subsection \<open>What accepted settings guarantee\<close>

lemma no_failures: "failures checks = [] \<longleftrightarrow> list_all snd checks"
  by (induction checks) (auto simp: failures_def)

lemma load_Inr:
  assumes "load_settings data environ s = Inr s'"
  shows "s' = lower_provider s \<and> list_all snd (field_checks s) \<and> list_all snd (model_checks s')"
  using assms by (auto simp: load_settings_def Let_def no_failures [symmetric] split: if_splits list.splits)

lemma names_registered: "name \<in> set PROVIDER_NAMES \<longleftrightarrow> map_of PROVIDER_REGISTRY name \<noteq> None"
proof -
  have "set PROVIDER_NAMES = set (map fst PROVIDER_REGISTRY)"
    by (simp add: PROVIDER_NAMES_def PROVIDER_REGISTRY_def) auto
  then show ?thesis by (metis image_set map_of_eq_None_iff)
qed

lemma groq_provider:
  assumes "list_all snd (model_checks s)" and "LLM_PROVIDER (st_ai s) = ''groq''"
    and "create_provider (llm_view s) ''groq'' = Inr p"
  shows "starts_with ''gsk_'' (pv_key p)"
proof -
  have "lower (strip ''groq'') = ''groq''" by code_simp
  moreover obtain key where key: "ls_attr (llm_view s) ''GROQ_API_KEY'' = Some key" "starts_with ''gsk_'' key"
    using assms(1,2) by (auto simp: model_checks_def Let_def llm_view_def secret_text_def split: option.splits)
  ultimately show ?thesis using assms(3)
    by (auto simp: create_provider_def PROVIDER_REGISTRY_def compat_entry_def provider_key_def make_provider_def Let_def
        split: sum.splits if_splits)
qed

text \<open>The header authenticates exactly when it carries one of the tokens once, as plain text without blanks.\<close>

lemma metrics_token_exact:
  "fst (metrics_endpoint s payload headers) = 200 \<longleftrightarrow>
     (\<exists>t. headers = [t] \<and> t \<noteq> '''' \<and> length t \<le> 256 \<and> list_all (\<lambda>c. of_char c < (128 :: nat) \<and> \<not> is_space c) t \<and>
        (METRICS_TOKEN (st_guard s) = Some t \<or> METRICS_TOKEN_PREVIOUS (st_guard s) = Some t))"
proof -
  have strip: "strip t = t" if "list_all (\<lambda>c. \<not> is_space c) t" for t
  proof (cases "t = []")
    case False
    with that show ?thesis by (intro strip_no_space) (simp_all add: list_all_iff)
  qed (simp add: strip_def lstrip_def rstrip_def)
  have some: "secret_text m = t \<longleftrightarrow> m = Some t" if "t \<noteq> ''''" for m t
    using that by (cases m) (auto simp: secret_text_def)
  show ?thesis
    by (auto simp: metrics_endpoint_def extract_header_def verify_metrics_token_def Let_def METRICS_TOKEN_MAX_BYTES_def
        some [symmetric] strip list_ex_iff list_all_iff split: list.splits if_splits)
qed

text \<open>
  C23: Settings that start the application are safe.  Whatever the environment holds, when the settings load, the secret
  key has at least 128 characters, 8 of them distinct, and none fills more than half of it; the tokens are signed
  with an HMAC and live for an hour at most; no wildcard origin is allowed; the provider is one of the registry, and for
  groq only a key of groq is sent; the prompts know the language; and in production Redis has a password, the
  metrics have a token that differs from the previous one, a lock secret has 32 bytes, and the demo mode is off.
\<close>

theorem settings_accepted_are_safe:
  assumes "load_settings data environ s = Inr s'"
  shows "(128 \<le> length (SECRET_KEY s') \<and> 8 \<le> card (set (SECRET_KEY s')) \<and>
      2 * count_list (SECRET_KEY s') c \<le> length (SECRET_KEY s')) \<and>
    (JWT_ALGORITHM (st_jwt s') \<in> {''HS256'', ''HS384'', ''HS512''} \<and> ACCESS_TOKEN_EXPIRE_MINUTES (st_jwt s') \<in> {1..60}) \<and>
    ''*'' \<notin> set (CORS_ORIGINS (st_guard s')) \<and>
    map_of PROVIDER_REGISTRY (LLM_PROVIDER (st_ai s')) \<noteq> None \<and>
    (LLM_PROVIDER (st_ai s') = ''groq'' \<longrightarrow> create_provider (llm_view s') ''groq'' = Inr p \<longrightarrow> starts_with ''gsk_'' (pv_key p)) \<and>
    map_of LANGUAGE_INSTRUCTIONS (ENRICHMENT_LANGUAGE (st_enrichment s')) \<noteq> None \<and>
    (ENVIRONMENT s' = ''production'' \<longrightarrow> REDIS_PASSWORD (st_redis s') \<noteq> '''' \<and> \<not> SCAN_DEMO_MODE (st_worker s') \<and>
       (\<exists>t. METRICS_TOKEN (st_guard s') = Some t \<and> t \<noteq> '''' \<and> METRICS_TOKEN_PREVIOUS (st_guard s') \<noteq> Some t) \<and>
       (\<forall>k. LOCK_KEY_SECRET (st_guard s') = Some k \<longrightarrow> 32 \<le> length k))"
proof -
  have s': "s' = lower_provider s" and fields: "list_all snd (field_checks s)" and model: "list_all snd (model_checks s')"
    using load_Inr [OF assms] by blast+
  have key: "secret_key_strength (SECRET_KEY s')" using fields s' by (simp add: field_checks_def lower_provider_def)
  have ranges: "JWT_ALGORITHM (st_jwt s') \<in> {''HS256'', ''HS384'', ''HS512''} \<and> ACCESS_TOKEN_EXPIRE_MINUTES (st_jwt s') \<in> {1..60}"
    "''*'' \<notin> set (CORS_ORIGINS (st_guard s'))"
    "map_of LANGUAGE_INSTRUCTIONS (ENRICHMENT_LANGUAGE (st_enrichment s')) \<noteq> None"
    using fields s' by (auto simp: field_checks_def lower_provider_def LANGUAGE_INSTRUCTIONS_def)
  have "LLM_PROVIDER (st_ai s') \<in> set PROVIDER_NAMES" using fields s' by (simp add: field_checks_def lower_provider_def)
  then have name: "map_of PROVIDER_REGISTRY (LLM_PROVIDER (st_ai s')) \<noteq> None" unfolding names_registered .
  have "ENVIRONMENT s' = ''production'' \<longrightarrow> REDIS_PASSWORD (st_redis s') \<noteq> '''' \<and> \<not> SCAN_DEMO_MODE (st_worker s') \<and>
       (\<exists>t. METRICS_TOKEN (st_guard s') = Some t \<and> t \<noteq> '''' \<and> METRICS_TOKEN_PREVIOUS (st_guard s') \<noteq> Some t) \<and>
       (\<forall>k. LOCK_KEY_SECRET (st_guard s') = Some k \<longrightarrow> 32 \<le> length k)"
    using model by (auto simp: model_checks_def Let_def secret_text_def split: option.splits)
  with strong_key [OF key] ranges name groq_provider [OF model] show ?thesis by blast
qed

definition sample_settings :: settings where
  "sample_settings = (let d = required_settings ''production'' (concat (replicate 16 ''abcdefgh'')) ''u'' ''m'' ''pg'' ''pw'' ''db'' in
     d\<lparr>st_redis := (st_redis d)\<lparr>REDIS_PASSWORD := ''r''\<rparr>,
       st_ai := (st_ai d)\<lparr>LLM_PROVIDER := ''Ollama''\<rparr>,
       st_guard := (st_guard d)\<lparr>METRICS_TOKEN := Some ''t1'', METRICS_TOKEN_PREVIOUS := Some ''t0''\<rparr>\<rparr>)"

lemma settings_accepted_are_safe_witness:
  "\<exists>s'. load_settings [''SECRET_KEY''] [''PATH''] sample_settings = Inr s' \<and> 8 \<le> card (set (SECRET_KEY s')) \<and>
     \<not> SCAN_DEMO_MODE (st_worker s')"
proof -
  let ?key = "concat (replicate 16 ''abcdefgh'')"
  have counts: "char_counts ?key = replicate 8 16" "length ?key = 128" by code_simp+
  then have "secret_key_strength ?key"
    by (simp add: secret_key_strength_def MIN_SECRET_KEY_LENGTH_def entropy_too_low_def numeral_eq_Suc [of "num.One"])
  moreover have "lower ''Ollama'' = ''ollama''" "upper ''PATH'' = ''PATH''" "upper ''SECRET_KEY'' = ''SECRET_KEY''" by code_simp+
  ultimately obtain s' where run: "load_settings [''SECRET_KEY''] [''PATH''] sample_settings = Inr s'"
    and "ENVIRONMENT s' = ''production''"
    by (simp add: load_settings_def reject_redis_url_def failures_def field_checks_def model_checks_def sample_settings_def
        required_settings_def default_ai_def default_enrichment_def default_worker_def default_guard_def default_redis_def
        PROVIDER_NAMES_def lower_provider_def secret_text_def Let_def del: concat_replicate_trivial)
  with settings_accepted_are_safe [OF run] show ?thesis by blast
qed

end
