(* ===== verification/Dist_Lock.thy ===== *)
theory Dist_Lock
  imports Redis_Iface
begin

text \<open>
  \<open>app/core/dist_lock.py\<close>: leases on Redis keys.  The state has the Redis server, the process-wide map
  \<open>_ACTIVE_TOKENS\<close> and the \<open>LockHandle\<close> objects, which are shared and mutable and so live in a store
  indexed by address.  \<open>sha\<close> is SHA-256 in hexadecimal, \<open>mac\<close> the first eight bytes of the HMAC of the
  tenant under the secret in hexadecimal.  Metrics and logging are left out.
\<close>

record lock_handle =
  lh_key :: string
  lh_owner_token :: string
  lh_ttl_seconds :: int
  lh_flow_id :: string
  lh_lost :: bool
  lh_released :: bool

record 'r lock_world =
  lw_redis :: 'r
  lw_active :: "(string \<times> string) list"
  lw_handles :: "lock_handle list"

type_synonym ('r, 'a) lock_prog = "('r lock_world, exn, 'a) prog"

definition lredis :: "('r, 'a) redis_prog \<Rightarrow> ('r, 'a) lock_prog" where
  "lredis m w = (case m (lw_redis w) of (x, r) \<Rightarrow> (x, w\<lparr>lw_redis := r\<rparr>))"

subsection \<open>Keys\<close>

definition safe_char :: "char \<Rightarrow> bool" where
  "safe_char c \<longleftrightarrow> (let n = (of_char c :: nat) in
     65 \<le> n \<and> n \<le> 90 \<or> 97 \<le> n \<and> n \<le> 122 \<or> 48 \<le> n \<and> n \<le> 57 \<or> c = CHR ''_'' \<or> c = CHR ''-'')"

definition safe_component :: "(nat list \<Rightarrow> string) \<Rightarrow> string \<Rightarrow> string" where
  "safe_component sha value = (if value \<noteq> '''' \<and> list_all safe_char value then value else sha (utf8 value))"

definition lock_key_secret :: "string option \<Rightarrow> exn + nat list" where
  "lock_key_secret configured = (case configured of
      None \<Rightarrow> Inl (ValueError ''LOCK_KEY_SECRET is required for distributed locks'')
    | Some secret \<Rightarrow> if secret = '''' then Inl (ValueError ''LOCK_KEY_SECRET is required for distributed locks'')
                     else Inr (utf8 secret))"

definition build_lock_key ::
  "(nat list \<Rightarrow> string) \<Rightarrow> (nat list \<Rightarrow> nat list \<Rightarrow> string) \<Rightarrow> string option
   \<Rightarrow> string \<Rightarrow> string \<Rightarrow> string \<Rightarrow> exn + string" where
  "build_lock_key sha mac configured flow_id tenant asset = (case lock_key_secret configured of
      Inl e \<Rightarrow> Inl e
    | Inr secret \<Rightarrow> Inr (''lock:'' @ safe_component sha flow_id @ '':'' @ mac secret (utf8 tenant) @ '':'' @
                        safe_component sha tenant @ '':'' @ safe_component sha asset))"

definition LOCK_MIN_TTL_SECONDS :: int where
  "LOCK_MIN_TTL_SECONDS = 1"

definition validate_ttl :: "int \<Rightarrow> ('s, exn, unit) prog" where
  "validate_ttl ttl_seconds =
    (if ttl_seconds < LOCK_MIN_TTL_SECONDS
     then raiseE (ValueError ''ttl_seconds must be >= LOCK_MIN_TTL_SECONDS'') else retE ())"

subsection \<open>Commands\<close>

definition set_lock :: "'r redis_call \<Rightarrow> string \<Rightarrow> string \<Rightarrow> int \<Rightarrow> ('r, bool) redis_prog" where
  "set_lock call key token ttl_seconds =
     bindE (redis_do call (SET key token True (Some (seconds ttl_seconds)))) (\<lambda>r. retE (r = RBool True))"

definition eval_script :: "'r redis_call \<Rightarrow> lua \<Rightarrow> string \<Rightarrow> string \<Rightarrow> int \<Rightarrow> ('r, reply) redis_prog" where
  "eval_script call script key token argument =
     catchE (redis_cmd call (EVAL script key token (1000 * argument)))
       (\<lambda>e. case e of
          RawRedis (RedisResponseLib m) \<Rightarrow>
            if \<not> is_infix ''NOSCRIPT'' (upper m) then raiseE e
            else thenE (redis_cmd call (SCRIPT_LOAD script))
                   (redis_cmd call (EVAL script key token (1000 * argument)))
        | _ \<Rightarrow> raiseE e)"

definition eval_owner_script :: "'r redis_call \<Rightarrow> lua \<Rightarrow> string \<Rightarrow> string \<Rightarrow> int \<Rightarrow> ('r, bool) redis_prog" where
  "eval_owner_script call script key token argument =
     bindE (classified (eval_script call script key token argument))
       (\<lambda>r. retE (case r of RInt n \<Rightarrow> n \<noteq> 0 | _ \<Rightarrow> False))"

subsection \<open>The handle\<close>

definition update_handle :: "nat \<Rightarrow> (lock_handle \<Rightarrow> lock_handle) \<Rightarrow> ('r, unit) lock_prog" where
  "update_handle a f = modE (\<lambda>w. w\<lparr>lw_handles := (lw_handles w)[a := f (lw_handles w ! a)]\<rparr>)"

definition mark_lost :: "nat \<Rightarrow> ('r, unit) lock_prog" where
  "mark_lost a = thenE (update_handle a (\<lambda>h. h\<lparr>lh_lost := True\<rparr>))
     (modE (\<lambda>w. let h = lw_handles w ! a in
        if map_of (lw_active w) (lh_key h) = Some (lh_owner_token h)
        then w\<lparr>lw_active := AList.delete (lh_key h) (lw_active w)\<rparr> else w))"

definition renew :: "'r redis_call \<Rightarrow> nat \<Rightarrow> int option \<Rightarrow> ('r, bool) lock_prog" where
  "renew call a ttl_seconds = bindE (getE (\<lambda>w. lw_handles w ! a)) (\<lambda>h.
     if lh_lost h \<or> lh_released h then retE False
     else let new_ttl = (case ttl_seconds of None \<Rightarrow> lh_ttl_seconds h | Some t \<Rightarrow> t) in
       thenE (validate_ttl new_ttl)
         (bindE (lredis (eval_owner_script call RENEW_LUA (lh_key h) (lh_owner_token h) (new_ttl * 1000)))
           (\<lambda>result. if result
              then thenE (update_handle a (\<lambda>h. h\<lparr>lh_ttl_seconds := new_ttl\<rparr>)) (retE True)
              else thenE (mark_lost a) (retE False))))"

definition release :: "'r redis_call \<Rightarrow> nat \<Rightarrow> ('r, bool) lock_prog" where
  "release call a = bindE (getE (\<lambda>w. lw_handles w ! a)) (\<lambda>h.
     if lh_released h then retE False
     else if lh_lost h
     then thenE (update_handle a (\<lambda>h. h\<lparr>lh_released := True\<rparr>)) (retE False)
     else bindE (lredis (eval_owner_script call RELEASE_LUA (lh_key h) (lh_owner_token h) 0))
       (\<lambda>result. thenE (update_handle a (\<lambda>h. h\<lparr>lh_released := True\<rparr>))
          (if result
           then thenE (modE (\<lambda>w. w\<lparr>lw_active := AList.delete (lh_key h) (lw_active w)\<rparr>)) (retE True)
           else thenE (mark_lost a) (retE False))))"

text \<open>\<open>__aexit__\<close>; on a cancellation every failure of the release is dropped.\<close>

definition is_cancelled :: "exn \<Rightarrow> bool" where
  "is_cancelled e \<longleftrightarrow> e \<in> {Cancelled, RawRedis CancelledError}"

definition aexit :: "'r redis_call \<Rightarrow> nat \<Rightarrow> exn option \<Rightarrow> ('r, unit) lock_prog" where
  "aexit call a exc = (case exc of
      Some e \<Rightarrow> if is_cancelled e
        then thenE (catchE (thenE (release call a) (retE ())) (\<lambda>_. retE ())) (raiseE Cancelled)
        else thenE (release call a) (retE ())
    | None \<Rightarrow> thenE (release call a) (retE ()))"

subsection \<open>Acquiring\<close>

text \<open>
  What the wait for the single retry ends with: the retry ran, or the timeout cancelled it, before or
  after its command was sent.
\<close>

datatype wait_outcome = RetryRan | TimedOutBefore | TimedOutAfter

definition discard :: "('s, 'e, 'a) prog \<Rightarrow> ('s, 'e, unit) prog" where
  "discard m s = (Inr (), snd (m s))"

definition retry_acquire :: "'r redis_call \<Rightarrow> string \<Rightarrow> string \<Rightarrow> int \<Rightarrow> wait_outcome \<Rightarrow> ('r, bool) lock_prog" where
  "retry_acquire call key token ttl_seconds outcome = (case outcome of
      RetryRan \<Rightarrow> lredis (set_lock call key token ttl_seconds)
    | TimedOutBefore \<Rightarrow> retE False
    | TimedOutAfter \<Rightarrow> thenE (discard (lredis (set_lock call key token ttl_seconds))) (retE False))"

definition enter_lock ::
  "'r redis_call \<Rightarrow> string \<Rightarrow> string \<Rightarrow> string \<Rightarrow> int \<Rightarrow> wait_outcome \<Rightarrow> ('r, nat) lock_prog" where
  "enter_lock call key token flow_id ttl_seconds outcome =
     bindE (lredis (set_lock call key token ttl_seconds)) (\<lambda>acquired.
     bindE (if acquired then retE True
            else bindE (getE (\<lambda>w. map_of (lw_active w) key \<noteq> None)) (\<lambda>reentry.
              if reentry then raiseE (TemporaryUnavailableError ''lock_reentry'')
              else retry_acquire call key token ttl_seconds outcome))
       (\<lambda>acquired. if \<not> acquired then raiseE (TemporaryUnavailableError ''lock_timeout'')
          else bindE (getE (\<lambda>w. length (lw_handles w))) (\<lambda>a.
            thenE (modE (\<lambda>w. w\<lparr>lw_handles := lw_handles w @
                 [\<lparr>lh_key = key, lh_owner_token = token, lh_ttl_seconds = ttl_seconds,
                   lh_flow_id = flow_id, lh_lost = False, lh_released = False\<rparr>],
               lw_active := AList.update key token (lw_active w)\<rparr>))
              (retE a))))"

definition acquire_dist_lock ::
  "'r redis_call \<Rightarrow> exn + string \<Rightarrow> string \<Rightarrow> string \<Rightarrow> int \<Rightarrow> wait_outcome
   \<Rightarrow> (nat \<Rightarrow> ('r, 'a) lock_prog) \<Rightarrow> ('r, 'a) lock_prog" where
  "acquire_dist_lock call key token flow_id ttl_seconds outcome body =
     thenE (validate_ttl ttl_seconds)
       (case key of Inl e \<Rightarrow> raiseE e | Inr k \<Rightarrow>
         bindE (enter_lock call k token flow_id ttl_seconds outcome) (\<lambda>a.
           bindE (catchE (body a) (\<lambda>e. thenE (aexit call a (Some e)) (raiseE e)))
             (\<lambda>x. thenE (aexit call a None) (retE x))))"

subsection \<open>Leases\<close>

text \<open>The key carries the token until the instant \<open>d\<close>.\<close>

definition leased :: "rstore \<Rightarrow> string \<Rightarrow> string \<Rightarrow> time \<Rightarrow> bool" where
  "leased st key token d \<longleftrightarrow> store st key = Some (VStr token, Some d)"

text \<open>What the processes send for one key: attempts to set it, renewals and releases.\<close>

datatype lock_op = OpSet string int | OpRenew string int | OpRelease string

fun op_token :: "lock_op \<Rightarrow> string" where
  "op_token (OpSet token _) = token"
| "op_token (OpRenew token _) = token"
| "op_token (OpRelease token) = token"

fun run_op :: "'r redis_call \<Rightarrow> string \<Rightarrow> lock_op \<Rightarrow> ('r, bool) redis_prog" where
  "run_op call key (OpSet token ttl) = set_lock call key token ttl"
| "run_op call key (OpRenew token ttl) = eval_owner_script call RENEW_LUA key token (ttl * 1000)"
| "run_op call key (OpRelease token) = eval_owner_script call RELEASE_LUA key token 0"

text \<open>Any interleaving: the answers of the operations, in order, and the final state.\<close>

fun run_ops :: "'r redis_call \<Rightarrow> string \<Rightarrow> lock_op list \<Rightarrow> 'r \<Rightarrow> (exn + bool) list \<times> 'r" where
  "run_ops call key [] s = ([], s)"
| "run_ops call key (op # ops) s = (case run_op call key op s of (x, s1) \<Rightarrow>
     case run_ops call key ops s1 of (xs, s2) \<Rightarrow> (x # xs, s2))"

lemma classified_success: "classified m s = (Inr r, t) \<longleftrightarrow> m s = (Inr r, t)"
  by (auto simp: classified_def catchE_def split: prod.splits sum.splits exn.splits)

lemma classified_state: "classified m s = (x, t) \<Longrightarrow> \<exists>y. m s = (y, t) \<and> (\<forall>r. x = Inr r \<longrightarrow> y = Inr r)"
  by (auto simp: classified_def catchE_def split: prod.splits sum.splits exn.splits)

text \<open>The commands of a script: one \<open>EVAL\<close>, or a failed one, a load and perhaps another.\<close>

lemma eval_script_calls:
  assumes "eval_script call l key token arg s = (x, s')"
  obtains y where "call (EVAL l key token (1000 * arg)) s = (y, s')" and "\<And>r. x = Inr r \<Longrightarrow> y = Inr r"
    | e s1 y where "call (EVAL l key token (1000 * arg)) s = (Inl e, s1)" and "call (SCRIPT_LOAD l) s1 = (y, s')"
        and "\<And>r. x \<noteq> Inr r"
    | e s1 r s2 y where "call (EVAL l key token (1000 * arg)) s = (Inl e, s1)"
        and "call (SCRIPT_LOAD l) s1 = (Inr r, s2)"
        and "call (EVAL l key token (1000 * arg)) s2 = (y, s')" and "\<And>r. x = Inr r \<Longrightarrow> y = Inr r"
proof (cases "call (EVAL l key token (1000 * arg)) s")
  case (Pair y s1)
  show thesis
  proof (cases y)
    case (Inr r)
    with Pair assms that(1) [of y] show thesis
      by (auto simp: eval_script_def catchE_def redis_cmd_def)
  next
    case (Inl e)
    show thesis
    proof (cases "\<exists>m. e = RedisResponseLib m \<and> is_infix ''NOSCRIPT'' (upper m)")
      case False
      with Pair Inl assms that(1) [of y] show thesis
        by (auto simp: eval_script_def catchE_def redis_cmd_def split: redis_exc.splits)
    next
      case True
      obtain z s2 where z: "call (SCRIPT_LOAD l) s1 = (z, s2)" by fastforce
      show thesis
      proof (cases z)
        case (Inl e')
        with True Pair \<open>y = Inl e\<close> assms z that(2) [of e s1 z] show thesis
          by (auto simp: eval_script_def catchE_def redis_cmd_def thenE_def bindE_def)
      next
        case (Inr r)
        obtain w s3 where w: "call (EVAL l key token (1000 * arg)) s2 = (w, s3)" by fastforce
        with Inr True Pair \<open>y = Inl e\<close> assms z that(3) [of e s1 r s2 w] show thesis
          by (cases w) (auto simp: eval_script_def catchE_def redis_cmd_def thenE_def bindE_def)
      qed
    qed
  qed
qed

lemma eval_owner_script_runs:
  assumes "eval_owner_script call l key v arg s = (x, s')"
  obtains y where "eval_script call l key v arg s = (y, s')"
    and "x = Inr True \<longrightarrow> (\<exists>n. y = Inr (RInt n) \<and> n \<noteq> 0)"
proof -
  obtain z where z: "classified (eval_script call l key v arg) s = (z, s')"
    and x: "x = Inr True \<Longrightarrow> \<exists>n. z = Inr (RInt n) \<and> n \<noteq> 0"
    using assms
    by (cases "classified (eval_script call l key v arg) s"; cases "fst (classified (eval_script call l key v arg) s)")
      (auto simp: eval_owner_script_def bindE_def split: reply.splits)
  from classified_state [OF z] x that show thesis by blast
qed

context redis_contract
begin

text \<open>A command of another process cannot take, prolong or delete a lease before it ends.\<close>

lemma foreign_command:
  assumes "call c s = (x, s')" and "leased (view s) key token d" and "clock (view s') < d"
    and "(\<exists>v px. c = SET key v True px) \<or> (\<exists>l v arg. c = EVAL l key v arg \<and> v \<noteq> token) \<or>
         (\<exists>l. c = SCRIPT_LOAD l)"
  shows "leased (view s') key token d \<and> x \<noteq> Inr (RBool True) \<and> (\<forall>r. x = Inr r \<and> rkey c \<noteq> None \<longrightarrow>
    r \<in> {RNil, RInt 0})"
  using assms(1)
proof (cases rule: call_effect)
  case (1 t r)
  have "clock (view s') = t" using redis_does_clock [OF 1(2)] by simp
  then have lv: "live ((view s)\<lparr>clock := t\<rparr>) key = Some (VStr token)"
    using assms(2,3) by (simp add: leased_def live_def)
  from assms(4) show ?thesis
  proof (elim disjE exE conjE)
    fix v px assume "c = SET key v True px"
    with 1 lv assms(2) show ?thesis by (auto simp: redis_does_def leased_def dest!: clock_sym)
  next
    fix l v arg assume "c = EVAL l key v arg" "v \<noteq> token"
    with 1 lv assms(2) show ?thesis by (cases l) (auto simp: redis_does_def leased_def owned_def dest!: clock_sym)
  next
    fix l assume "c = SCRIPT_LOAD l"
    with 1 assms(2) show ?thesis by (auto simp: redis_does_def leased_def dest!: clock_sym)
  qed
next
  case (2 t e)
  with assms(2) show ?thesis by (simp add: leased_def)
qed

lemma foreign_script:
  assumes "eval_owner_script call l key v arg s = (x, s')" and "leased (view s) key token d"
    and "v \<noteq> token" and "clock (view s') < d"
  shows "leased (view s') key token d \<and> x \<noteq> Inr True"
proof -
  have ev: "(\<exists>v' px. c = SET key v' True px) \<or> (\<exists>l v arg. c = EVAL l key v arg \<and> v \<noteq> token) \<or>
         (\<exists>l. c = SCRIPT_LOAD l)" if "c \<in> {EVAL l key v (1000 * arg), SCRIPT_LOAD l}" for c
    using that assms(3) by auto
  from assms(1) obtain y where y: "eval_script call l key v arg s = (y, s')"
    and x: "x = Inr True \<longrightarrow> (\<exists>n. y = Inr (RInt n) \<and> n \<noteq> 0)"
    by (rule eval_owner_script_runs)
  show ?thesis
    using y
  proof (cases rule: eval_script_calls)
    case (1 z)
    from foreign_command [OF 1(1) assms(2,4) ev] 1(2) x show ?thesis by fastforce
  next
    case (2 e s1 z)
    have c: "clock (view s1) < d" using call_clock [OF 2(2)] assms(4) by simp
    from foreign_command [OF 2(1) assms(2) c ev] have "leased (view s1) key token d" by simp
    from foreign_command [OF 2(2) this assms(4) ev] 2(3) x show ?thesis by auto
  next
    case (3 e s1 r s2 z)
    have c: "clock (view s1) < d" "clock (view s2) < d"
      using call_clock [OF 3(2)] call_clock [OF 3(3)] assms(4) by auto
    from foreign_command [OF 3(1) assms(2) c(1) ev] have "leased (view s1) key token d" by simp
    from foreign_command [OF 3(2) this c(2) ev] have "leased (view s2) key token d" by simp
    from foreign_command [OF 3(3) this assms(4) ev] 3(4) x show ?thesis by fastforce
  qed
qed

lemma op_clock:
  assumes "run_op call key op s = (x, s')"
  shows "clock (view s) \<le> clock (view s')"
proof -
  have script: "clock (view s) \<le> clock (view s')" if "eval_owner_script call l key v arg s = (x, s')" for l v arg
  proof -
    from that obtain y where "eval_script call l key v arg s = (y, s')" by (rule eval_owner_script_runs)
    then show ?thesis
      by (cases rule: eval_script_calls) (auto dest!: call_clock)
  qed
  show ?thesis
  proof (cases op)
    case (OpSet v ttl)
    let ?c = "SET key v True (Some (seconds ttl))"
    have "\<exists>y. call ?c s = (y, s')"
      using assms OpSet by (cases "call ?c s"; cases "fst (call ?c s)")
        (auto simp: set_lock_def bindE_def redis_do_def classified_def catchE_def redis_cmd_def)
    then show ?thesis using call_clock by blast
  qed (use assms script in auto)
qed

lemma foreign_op:
  assumes "run_op call key op s = (x, s')" and "leased (view s) key token d"
    and "op_token op \<noteq> token" and "clock (view s') < d"
  shows "leased (view s') key token d \<and> x \<noteq> Inr True"
proof (cases op)
  case (OpSet v ttl)
  let ?c = "SET key v True (Some (seconds ttl))"
  obtain y where y: "call ?c s = (y, s')" and x: "x = Inr True \<Longrightarrow> y = Inr (RBool True)"
    using assms(1) OpSet
    by (cases "call ?c s"; cases "fst (call ?c s)")
      (auto simp: set_lock_def bindE_def redis_do_def classified_def catchE_def redis_cmd_def)
  from foreign_command [OF y assms(2,4)] x show ?thesis by auto
next
  case (OpRenew v ttl)
  with assms foreign_script [of RENEW_LUA key v "ttl * 1000" s x s' token d] show ?thesis by simp
next
  case (OpRelease v)
  with assms foreign_script [of RELEASE_LUA key v 0 s x s' token d] show ?thesis by simp
qed

lemma foreign_ops:
  assumes "run_ops call key ops s = (xs, s')" and "leased (view s) key token d"
    and "\<forall>op \<in> set ops. op_token op \<noteq> token" and "clock (view s') < d"
  shows "leased (view s') key token d \<and> Inr True \<notin> set xs \<and> clock (view s) \<le> clock (view s')"
  using assms
proof (induction ops arbitrary: s xs)
  case (Cons op ops)
  from Cons.prems(1) obtain x s1 ys where x: "run_op call key op s = (x, s1)"
    and ys: "run_ops call key ops s1 = (ys, s')" and xs: "xs = x # ys"
    by (auto split: prod.splits)
  have mono: "clock (view s1) \<le> clock (view s')"
    using ys by (induction ops arbitrary: s1 ys) (auto split: prod.splits dest!: op_clock intro: order_trans)
  with foreign_op [OF x Cons.prems(2)] Cons.prems(3,4) have "leased (view s1) key token d" "x \<noteq> Inr True"
    by auto
  with Cons.IH [OF ys] Cons.prems(3,4) xs op_clock [OF x] mono show ?case by auto
qed simp

lemma set_lock_leases:
  assumes "set_lock call key token ttl s = (Inr True, s')"
  shows "\<exists>d \<ge> clock (view s) + seconds ttl. leased (view s') key token d"
proof -
  from assms have "call (SET key token True (Some (seconds ttl))) s = (Inr (RBool True), s')"
    by (auto simp: set_lock_def bindE_success redis_do_Inr)
  from call_ok [OF this] show ?thesis
    by (auto simp: redis_does_def leased_def split: if_splits dest!: put_sym)
qed

lemma release_script_frees:
  assumes "eval_owner_script call RELEASE_LUA key token arg s = (Inr b, s')"
  shows "live (view s') key \<noteq> Some (VStr token)"
proof -
  from assms obtain r where r: "eval_script call RELEASE_LUA key token arg s = (Inr r, s')"
    by (auto simp: eval_owner_script_def bindE_success classified_success)
  have free: "live (view s2) key \<noteq> Some (VStr token)"
    if "call (EVAL RELEASE_LUA key token (1000 * arg)) s1 = (Inr q, s2)" for s1 q s2
  proof -
    from call_ok [OF that] obtain t where
      d: "redis_does (EVAL RELEASE_LUA key token (1000 * arg)) ((view s1)\<lparr>clock := t\<rparr>) q (view s2)" by blast
    show ?thesis
    proof (cases "owned ((view s1)\<lparr>clock := t\<rparr>) key token")
      case True
      with d have "view s2 = del key ((view s1)\<lparr>clock := t\<rparr>)" by (simp add: redis_does_def)
      then show ?thesis by simp
    next
      case False
      with d have "view s2 = (view s1)\<lparr>clock := t\<rparr>" by (simp add: redis_does_def)
      with False show ?thesis by (simp add: owned_def)
    qed
  qed
  from r show ?thesis
    by (cases rule: eval_script_calls) (auto dest: free)
qed

end

subsection \<open>Properties\<close>



lemma release_cases:
  assumes "release call a w = (Inr b, w1)" and "a < length (lw_handles w)"
    and "\<not> lh_lost (lw_handles w ! a)" and "\<not> lh_released (lw_handles w ! a)"
  obtains r where "eval_owner_script call RELEASE_LUA (lh_key (lw_handles w ! a))
        (lh_owner_token (lw_handles w ! a)) 0 (lw_redis w) = (Inr b, r)" and "lw_redis w1 = r"
proof (cases "eval_owner_script call RELEASE_LUA (lh_key (lw_handles w ! a))
        (lh_owner_token (lw_handles w ! a)) 0 (lw_redis w)")
  case (Pair x r)
  with assms that show thesis
    by (cases x) (auto simp: release_def bindE_def lredis_def update_handle_def mark_lost_def Let_def
        thenE_def split: if_splits)
qed

text \<open>
  The life of a lock handle.  When \<open>release\<close> returns, the handle is released for good: the key is
  no longer held with its token, releasing again answers \<open>False\<close> and renewing answers \<open>False\<close>, both
  without a command to Redis and without any change.  When \<open>renew\<close> answers \<open>False\<close>, it will never
  answer \<open>True\<close> again.
\<close>

theorem lock_handle_lifecycle:
  assumes "redis_contract call view" and "a < length (lw_handles w)"
  shows "(release call a w = (Inr b, w1) \<longrightarrow>
      lh_released (lw_handles w1 ! a) \<and>
      (\<not> lh_released (lw_handles w ! a) \<and> \<not> lh_lost (lw_handles w ! a) \<longrightarrow>
         live (view (lw_redis w1)) (lh_key (lw_handles w ! a)) \<noteq>
           Some (VStr (lh_owner_token (lw_handles w ! a)))) \<and>
      release call a w1 = (Inr False, w1) \<and> renew call a t w1 = (Inr False, w1)) \<and>
    (renew call a t' w = (Inr False, w1) \<longrightarrow> renew call a t w1 = (Inr False, w1))"
proof (intro conjI impI)
  assume run: "release call a w = (Inr b, w1)"
  show rel: "lh_released (lw_handles w1 ! a)"
  proof (cases "lh_released (lw_handles w ! a)")
    case True
    with run show ?thesis by (simp add: release_def)
  next
    case False
    with run assms(2) show ?thesis
      by (cases "eval_owner_script call RELEASE_LUA (lh_key (lw_handles w ! a))
            (lh_owner_token (lw_handles w ! a)) 0 (lw_redis w)";
          cases "fst (eval_owner_script call RELEASE_LUA (lh_key (lw_handles w ! a))
            (lh_owner_token (lw_handles w ! a)) 0 (lw_redis w))")
        (auto simp: release_def bindE_def lredis_def update_handle_def mark_lost_def Let_def
          thenE_def split: if_splits)
  qed
  then show "release call a w1 = (Inr False, w1)" "renew call a t w1 = (Inr False, w1)"
    by (simp_all add: release_def renew_def)
  assume "\<not> lh_released (lw_handles w ! a) \<and> \<not> lh_lost (lw_handles w ! a)"
  then obtain r where "eval_owner_script call RELEASE_LUA (lh_key (lw_handles w ! a))
        (lh_owner_token (lw_handles w ! a)) 0 (lw_redis w) = (Inr b, r)" "lw_redis w1 = r"
    using release_cases [OF run assms(2)] by blast
  with redis_contract.release_script_frees [OF assms(1)]
  show "live (view (lw_redis w1)) (lh_key (lw_handles w ! a)) \<noteq>
      Some (VStr (lh_owner_token (lw_handles w ! a)))" by blast
next
  assume run: "renew call a t' w = (Inr False, w1)"
  then have "lh_lost (lw_handles w1 ! a) \<or> lh_released (lw_handles w1 ! a)"
    using assms(2)
    by (cases "eval_owner_script call RENEW_LUA (lh_key (lw_handles w ! a)) (lh_owner_token (lw_handles w ! a))
            ((case t' of None \<Rightarrow> lh_ttl_seconds (lw_handles w ! a) | Some t \<Rightarrow> t) * 1000) (lw_redis w)")
      (auto simp: renew_def bindE_def lredis_def update_handle_def mark_lost_def Let_def thenE_def
        validate_ttl_def split: if_splits sum.splits)
  then show "renew call a t w1 = (Inr False, w1)" by (auto simp: renew_def)
qed

definition sample_locks :: "mem_redis lock_world" where
  "sample_locks = \<lparr>lw_redis = snd (set_lock mem_call ''k'' ''A'' 30 (mem_empty [])), lw_active = [(''k'', ''A'')],
     lw_handles = [\<lparr>lh_key = ''k'', lh_owner_token = ''A'', lh_ttl_seconds = 30, lh_flow_id = ''f'',
       lh_lost = False, lh_released = False\<rparr>]\<rparr>"

lemma lock_handle_lifecycle_witness:
  "\<exists>w1. release mem_call 0 sample_locks = (Inr True, w1) \<and> release mem_call 0 w1 = (Inr False, w1)"
proof -
  have "fst (release mem_call 0 sample_locks) = Inr True" by code_simp
  note run = run_of [OF this]
  have "0 < length (lw_handles sample_locks)" by (simp add: sample_locks_def)
  from lock_handle_lifecycle [OF mem_contract this, of True "snd (release mem_call 0 sample_locks)"] run
  show ?thesis by blast
qed

end
