(* ===== verification/Startup.thy ===== *)
theory Startup
  imports Settings Dist_Lock Service_Base
begin

text \<open>
  What surrounds the requests: the start of the application (\<open>lifespan\<close> and \<open>create_app\<close> of \<open>app/main.py\<close>, the
  ping of \<open>app/core/redis.py\<close>), the health endpoints, and the sessions of \<open>app/dependencies/lock_deps.py\<close> that
  hold a distributed lock through the commit of a deactivation; the catalogue of flows of \<open>app/core/outage.py\<close>.
\<close>

subsection \<open>Pinging Redis\<close>

text \<open>The state is the server and the pauses taken.\<close>

type_synonym ('r, 'a) ping_prog = "('r \<times> rat list, exn, 'a) prog"

definition ping_redis :: "'r redis_call \<Rightarrow> ('r, bool) redis_prog" where
  "ping_redis call = bindE (redis_cmd call PING) (\<lambda>r. retE (r = RBool True))"

definition ping_once :: "'r redis_call \<Rightarrow> ('r, bool) ping_prog" where
  "ping_once call s = (case catchE (ping_redis call) (\<lambda>e. if is_app_exception e then retE False else raiseE e) (fst s) of
     (x, r) \<Rightarrow> (x, (r, snd s)))"

fun ping_attempts :: "'r redis_call \<Rightarrow> rat \<Rightarrow> nat \<Rightarrow> nat list \<Rightarrow> ('r, bool) ping_prog" where
  "ping_attempts call base max_attempts [] = retE False"
| "ping_attempts call base max_attempts (attempt # rest) = bindE (ping_once call) (\<lambda>ok.
     if ok then retE True
     else if max_attempts \<le> attempt then retE False
     else thenE (modE (\<lambda>(r, slept). (r, slept @ [base * 2 ^ (attempt - 1)]))) (ping_attempts call base max_attempts rest))"

definition ping_redis_with_retry :: "'r redis_call \<Rightarrow> nat \<Rightarrow> rat \<Rightarrow> ('r, bool) ping_prog" where
  "ping_redis_with_retry call max_attempts base = ping_attempts call base max_attempts [1..<max_attempts + 1]"

subsection \<open>Starting\<close>

definition lifespan_start :: "settings \<Rightarrow> 'r redis_call \<Rightarrow> ('r, provider) ping_prog" where
  "lifespan_start s call =
    (if ENVIRONMENT s = ''production'' \<and> LLM_PROVIDER (st_ai s) = ''mock''
     then raiseE (RuntimeError ''MockLLMProvider is not allowed in production.'')
     else case create_provider (llm_view s) (LLM_PROVIDER (st_ai s)) of
         Inl e \<Rightarrow> raiseE e
       | Inr active_provider \<Rightarrow>
           bindE (ping_redis_with_retry call (nat (REDIS_STARTUP_MAX_ATTEMPTS (st_redis s)))
               (REDIS_STARTUP_BACKOFF_BASE_SECONDS (st_redis s)))
             (\<lambda>ok. if \<not> ok then raiseE (RuntimeError ''No se pudo conectar a Redis'') else retE active_provider))"

definition create_app_guard :: "settings \<Rightarrow> exn + unit" where
  "create_app_guard s = (if ''*'' \<in> set (CORS_ORIGINS (st_guard s))
     then Inl (ValueError (''CORS_ORIGINS no puede contener '' @ [CHR 0x27, CHR ''*'', CHR 0x27] @
       '' cuando allow_credentials=True'')) else Inr ())"

definition docs_url :: "settings \<Rightarrow> string option" where
  "docs_url s = (if ENVIRONMENT s \<noteq> ''production'' then Some ''/api/docs'' else None)"

text \<open>The answer of \<open>/health/db/indexes\<close>: status, invalid indexes and error; \<open>None\<close> is a failed query.\<close>

definition db_index_health :: "string list option \<Rightarrow> nat \<times> string list \<times> string option" where
  "db_index_health rows = (case rows of
      None \<Rightarrow> (503, [], Some ''db_unreachable'')
    | Some invalid \<Rightarrow> if invalid \<noteq> [] then (503, invalid, None) else (200, [], None))"

text \<open>\<open>Retry-After\<close> of the exception handlers.\<close>

definition retry_after :: "settings \<Rightarrow> exn \<Rightarrow> int option" where
  "retry_after s e =
     (if is_redis_outage e then Some (REDIS_OUTAGE_RETRY_AFTER_SECONDS (st_guard s))
      else case e of
          ServiceUnavailableError _ \<Rightarrow> Some (REDIS_OUTAGE_RETRY_AFTER_SECONDS (st_guard s))
        | TemporaryUnavailableError _ \<Rightarrow> Some (LOCK_DEFAULT_RETRY_AFTER_SECONDS (st_guard s))
        | _ \<Rightarrow> None)"

subsection \<open>Deactivations under a lock\<close>

text \<open>The commands of the lock go to the server of the session.\<close>

definition world_call :: "'r redis_call \<Rightarrow> 'r world redis_call" where
  "world_call call cmd w = (case call cmd (redis w) of (x, r) \<Rightarrow> (x, w\<lparr>redis := r\<rparr>))"

record lock_env =
  ke_sha :: "nat list \<Rightarrow> string"
  ke_mac :: "nat list \<Rightarrow> nat list \<Rightarrow> string"
  ke_secret :: "string option"
  ke_ttl :: int
  ke_uuid :: "uuid \<Rightarrow> string"
  ke_token :: string

definition locked_session ::
  "(tables \<Rightarrow> exn option) \<Rightarrow> 'r redis_call \<Rightarrow> lock_env \<Rightarrow> string \<Rightarrow> string \<Rightarrow> string \<Rightarrow> wait_outcome
   \<Rightarrow> ('r, 'a) db_prog \<Rightarrow> ('r world, 'a) lock_prog" where
  "locked_session refuse call env flow_id tenant asset outcome request =
     acquire_dist_lock (world_call call) (build_lock_key (ke_sha env) (ke_mac env) (ke_secret env) flow_id tenant asset)
       (ke_token env) flow_id (ke_ttl env) outcome (\<lambda>_. lredis (with_session refuse request))"

definition get_user_deactivation_db ::
  "(tables \<Rightarrow> exn option) \<Rightarrow> 'r redis_call \<Rightarrow> lock_env \<Rightarrow> wait_outcome \<Rightarrow> user_row \<Rightarrow> ('r, 'a) db_prog
   \<Rightarrow> ('r world, 'a) lock_prog" where
  "get_user_deactivation_db refuse call env outcome target =
     locked_session refuse call env ''auth_post_credential_user_deactivate_lock''
       (case u_tenant target of None \<Rightarrow> ''None'' | Some t \<Rightarrow> ke_uuid env t) (''user:'' @ ke_uuid env (u_id target)) outcome"

definition get_tenant_deactivation_db ::
  "(tables \<Rightarrow> exn option) \<Rightarrow> 'r redis_call \<Rightarrow> lock_env \<Rightarrow> wait_outcome \<Rightarrow> uuid \<Rightarrow> ('r, 'a) db_prog
   \<Rightarrow> ('r world, 'a) lock_prog" where
  "get_tenant_deactivation_db refuse call env outcome tenant_id =
     locked_session refuse call env ''auth_tenant_deactivate_lock''
       (ke_uuid env tenant_id) (''tenant:'' @ ke_uuid env tenant_id) outcome"

subsection \<open>The outage policy\<close>

definition ALL_FLOW_IDS :: "string list" where
  "ALL_FLOW_IDS = [
    ''auth_account_lockout_check'', ''auth_change_password_rate_precheck'', ''auth_change_password_rate_record'',
    ''auth_change_password_revoke'', ''auth_change_password_service'', ''auth_current_user_dep'',
    ''auth_failed_attempt_record'', ''auth_login_attempts_clear'', ''auth_login_event_publish'',
    ''auth_login_rate_precheck'', ''auth_login_rate_record'', ''auth_login_service'', ''auth_logout_rate_precheck'',
    ''auth_logout_rate_record'', ''auth_logout_service'', ''auth_post_credential_session_lock'',
    ''auth_post_credential_user_deactivate_lock'', ''auth_refresh_rate_precheck'', ''auth_refresh_rate_record'',
    ''auth_refresh_service'', ''auth_tenant_deactivate_lock'', ''scan_cancel_lock'', ''scan_complete_lock'',
    ''scan_start_lock'', ''scan_update_lock'', ''tenants_deactivate_tenant_revoke'',
    ''tenants_update_tenant_revoke'', ''users_deactivate_user_revoke'', ''users_update_user_revoke'']"

datatype flow_policy = Masked | FailClosed | BestEffort | FailOpen

definition FlowPolicy :: "(string \<times> flow_policy) list" where
  "FlowPolicy = [
    (''auth_login_rate_precheck'', Masked), (''auth_refresh_rate_precheck'', Masked),
    (''auth_logout_rate_precheck'', Masked), (''auth_change_password_rate_precheck'', Masked),
    (''auth_login_rate_record'', FailClosed), (''auth_refresh_rate_record'', FailClosed),
    (''auth_logout_rate_record'', FailClosed), (''auth_change_password_rate_record'', FailClosed),
    (''auth_login_service'', FailClosed), (''auth_refresh_service'', FailClosed),
    (''auth_logout_service'', BestEffort), (''auth_change_password_service'', FailClosed),
    (''auth_current_user_dep'', FailClosed), (''auth_account_lockout_check'', FailOpen),
    (''auth_failed_attempt_record'', BestEffort), (''auth_login_attempts_clear'', BestEffort),
    (''auth_login_event_publish'', BestEffort), (''auth_change_password_revoke'', FailClosed),
    (''users_update_user_revoke'', FailClosed), (''users_deactivate_user_revoke'', FailClosed),
    (''tenants_update_tenant_revoke'', FailClosed), (''tenants_deactivate_tenant_revoke'', FailClosed),
    (''auth_post_credential_session_lock'', FailClosed), (''auth_post_credential_user_deactivate_lock'', FailClosed),
    (''auth_tenant_deactivate_lock'', FailClosed), (''scan_start_lock'', FailClosed),
    (''scan_update_lock'', FailClosed), (''scan_complete_lock'', FailClosed), (''scan_cancel_lock'', FailClosed)]"

text \<open>The commands the source declares safe to repeat.\<close>

datatype retryable_op = OpPing | IsTokenRevoked | GetActiveJtis | RevokeAccessToken | TrackJti | UntrackJti

text \<open>The catalogue is complete: every flow has exactly one policy, and only the lockout check fails open.\<close>

lemma flow_policy_total:
  "distinct (map fst FlowPolicy) \<and> set (map fst FlowPolicy) = set ALL_FLOW_IDS \<and> length ALL_FLOW_IDS = 29 \<and>
   filter (\<lambda>(f, p). p = FailOpen) FlowPolicy = [(''auth_account_lockout_check'', FailOpen)]"
proof -
  have "distinct (map fst FlowPolicy)" by code_simp
  moreover have "set (map fst FlowPolicy) = set ALL_FLOW_IDS" by code_simp
  moreover have "length ALL_FLOW_IDS = 29" by code_simp
  moreover have "filter (\<lambda>(f, p). p = FailOpen) FlowPolicy = [(''auth_account_lockout_check'', FailOpen)]" by code_simp
  ultimately show ?thesis by blast
qed

subsection \<open>Lemmas\<close>

text \<open>Settings that load leave the guards of the start nothing to refuse.\<close>

lemma loaded_settings_start:
  assumes "load_settings data environ s = Inr s'"
  shows "create_app_guard s' = Inr () \<and> LLM_PROVIDER (st_ai s') \<noteq> ''mock''"
proof -
  from load_Inr [OF assms] have s': "s' = lower_provider s" and f: "list_all snd (field_checks s)" by simp_all
  then have "LLM_PROVIDER (st_ai s') \<in> set PROVIDER_NAMES" and "''*'' \<notin> set (CORS_ORIGINS (st_guard s'))"
    by (simp_all add: field_checks_def lower_provider_def)
  then show ?thesis by (auto simp: create_app_guard_def PROVIDER_NAMES_def)
qed

text \<open>The start pings at most the number of attempts, with doubling pauses, and answers whether one was heard.\<close>

lemma ping_attempts_pauses:
  "ping_attempts call base m [a..<m + 1] (r, slept) = (Inr ok, (r', slept')) \<Longrightarrow> 0 < a \<Longrightarrow> a \<le> m \<Longrightarrow>
     \<exists>k \<le> m - a. slept' = slept @ map (\<lambda>i. base * 2 ^ (i - 1)) [a..<a + k] \<and> (\<not> ok \<longrightarrow> k = m - a)"
proof (induction "m - a" arbitrary: a r slept)
  case 0
  then have "[a..<m + 1] = [m]" "a = m" by simp_all
  with 0 show ?case by (auto simp: bindE_def ping_once_def split: prod.splits sum.splits if_splits)
next
  case (Suc n)
  then have list: "[a..<m + 1] = a # [Suc a..<m + 1]" and less: "\<not> m \<le> a" by (simp_all add: upt_conv_Cons)
  have "snd (snd (ping_once call (r, slept))) = slept" by (simp add: ping_once_def split: prod.split)
  then obtain x r1 where once: "ping_once call (r, slept) = (x, (r1, slept))" by (metis prod.collapse)
  show ?case
  proof (cases "x = Inr False")
    case True
    with Suc.prems(1) once less have
      "ping_attempts call base m [Suc a..<m + 1] (r1, slept @ [base * 2 ^ (a - 1)]) = (Inr ok, (r', slept'))"
      unfolding list by (simp add: bindE_def thenE_def)
    moreover have "n = m - Suc a" "0 < Suc a" "Suc a \<le> m" using Suc.hyps(2) by simp_all
    ultimately obtain k where k: "k \<le> m - Suc a" "\<not> ok \<longrightarrow> k = m - Suc a"
      "slept' = (slept @ [base * 2 ^ (a - 1)]) @ map (\<lambda>i. base * 2 ^ (i - 1)) [Suc a..<Suc a + k]"
      using Suc.hyps(1) by blast
    have "[a..<a + Suc k] = a # [Suc a..<Suc a + k]" by (simp add: upt_conv_Cons del: upt_Suc)
    with k have "slept' = slept @ map (\<lambda>i. base * 2 ^ (i - 1)) [a..<a + Suc k]" by (simp del: upt_Suc)
    with k Suc.hyps(2) show ?thesis by (intro exI [of _ "Suc k"]) (auto simp del: upt_Suc)
  next
    case False
    with Suc.prems(1) once list have "slept' = slept" "ok"
      by (auto simp: bindE_def split: sum.splits if_splits)
    then show ?thesis by (intro exI [of _ 0]) simp
  qed
qed

text \<open>Nothing is committed by a deactivation that did not get its lock.\<close>

lemma lock_commands_keep: "keeps (\<lambda>w. committed w = C) (set_lock (world_call call) key token ttl)"
proof -
  have "keeps (\<lambda>w. committed w = C) (redis_cmd (world_call call) c)" for c
    by (rule keepsI) (auto simp: redis_cmd_def world_call_def split: prod.split sum.split)
  then show ?thesis unfolding set_lock_def redis_do_def classified_def
    by (intro keeps_bind keeps_catch) (auto split: exn.split)
qed

lemma enter_lock_keeps:
  "keeps (\<lambda>w. committed (lw_redis w) = C) (enter_lock (world_call call) key token flow_id ttl outcome)"
proof -
  have set_lock: "keeps (\<lambda>w. committed (lw_redis w) = C) (lredis (set_lock (world_call call) key token ttl))"
    using lock_commands_keep [of C call key token ttl] by (auto simp: keeps_def lredis_def split: prod.split)
  then have "keeps (\<lambda>w. committed (lw_redis w) = C) (discard (lredis (set_lock (world_call call) key token ttl)))"
    by (auto simp: keeps_def discard_def)
  with set_lock have "keeps (\<lambda>w. committed (lw_redis w) = C) (retry_acquire (world_call call) key token ttl outcome)"
    by (cases outcome) (simp_all add: retry_acquire_def keeps_then keeps_ret del: retE_run)
  with set_lock show ?thesis unfolding enter_lock_def
    by (intro keeps_bind keeps_if keeps_then keeps_get keeps_ret keeps_raise keeps_mod) auto
qed

lemma entered_lock:
  assumes "enter_lock call key token flow_id ttl outcome w = (Inr a, w')"
  shows "\<exists>u u'. set_lock call key token ttl u = (Inr True, u')"
  using assms
  by (cases outcome)
    (auto simp: enter_lock_def bindE_success lredis_def retry_acquire_def thenE_def split: prod.splits if_splits)

lemma deactivation_needs_lock:
  assumes "locked_session refuse call env flow_id tenant asset outcome request w = (x, w')"
    and "committed (lw_redis w') \<noteq> committed (lw_redis w)"
  shows "\<exists>key u u'. build_lock_key (ke_sha env) (ke_mac env) (ke_secret env) flow_id tenant asset = Inr key \<and>
    set_lock (world_call call) key (ke_token env) (ke_ttl env) u = (Inr True, u')"
proof -
  let ?key = "build_lock_key (ke_sha env) (ke_mac env) (ke_secret env) flow_id tenant asset"
  have ttl: "\<not> ke_ttl env < LOCK_MIN_TTL_SECONDS"
    using assms by (auto simp: locked_session_def acquire_dist_lock_def validate_ttl_def thenE_def)
  with assms obtain key where key: "?key = Inr key"
    by (cases ?key) (auto simp: locked_session_def acquire_dist_lock_def validate_ttl_def thenE_def bindE_def)
  obtain y w1 where enter: "enter_lock (world_call call) key (ke_token env) flow_id (ke_ttl env) outcome w = (y, w1)" by fastforce
  from keepsD [OF enter_lock_keeps refl this] have same: "committed (lw_redis w1) = committed (lw_redis w)" .
  have "\<exists>a. y = Inr a"
  proof (cases y)
    case (Inl e)
    with assms key ttl enter same show ?thesis
      by (auto simp: locked_session_def acquire_dist_lock_def validate_ttl_def thenE_def bindE_def)
  qed simp
  with entered_lock enter key show ?thesis by blast
qed

end
