(* ===== verification/Spec2Isabelle.thy ===== *)
theory Spec2Isabelle
  imports Auth_Router Auth_Schemas Tenants Enrichment Event_Consumer Csv Dashboard Startup
begin

text \<open>
  SOC 360 PYMEs is a multi-tenant service that scans the assets of small companies and keeps their
  vulnerabilities: a FastAPI application on PostgreSQL and Redis (\<open>src/app\<close>), a Celery worker that runs nmap, and
  an enrichment of the findings by a language model.  This development models the program's own logic, function by
  function under the names of the source, and proves what makes it correct.

  \<^bold>\<open>How the parts interact.\<close>  A request passes the access control (\<open>Access\<close>: the token, the denylist in Redis,
  the user and tenant rows, the row-level context), reaches an endpoint (\<open>Auth_Router\<close>, \<open>Users\<close>, \<open>Tenants\<close>, \<open>Routes\<close>,
  \<open>Enrichment\<close>, \<open>Dashboard\<close>) and a service, which reads and writes tables inside a transaction and publishes an
  event after the commit (\<open>Event_Bus\<close>).  A dispatched scan is claimed by the worker (\<open>Worker\<close>), executed (\<open>Executor\<close>)
  through the graph of target, scan, parse, deduplication and storage (\<open>Scan_Graph\<close>), and its findings are queued for
  enrichment.  A background loop of the application consumes the login events (\<open>Event_Consumer\<close>).

  \<^bold>\<open>Conventions.\<close>  An asynchronous function is a program on its state that returns an exception or a value
  (\<open>Prelude\<close>: \<open>bindE\<close>, \<open>catchE\<close>, \<open>forE\<close> and the rules \<open>keeps\<close> for invariants).  \<open>exn\<close> in \<open>Errors\<close> holds the exceptions
  with their status codes.  A database session is a \<open>world\<close> of \<open>Db\<close>: the committed tables, the working tables, the two
  settings of the row-level policies and the Redis server; a flush checks every constraint, a commit may be refused.
  Instants count microseconds, identifiers are natural numbers, text is ASCII where a regular expression reads it, a
  CVSS score is kept in tenths.  What is read once, a clock, a new identifier, a random token, the answer of an advisory
  lock, is an argument.

  \<^bold>\<open>Theories and what their lemmas show.\<close>
  \<^item> \<open>Prelude\<close>, \<open>Errors\<close>, \<open>Redis_Iface\<close>, \<open>Db\<close>, \<open>Service_Base\<close>: the shared vocabulary; the locales \<open>redis_contract\<close> and
    \<open>redis_pipeline\<close> state what the code relies on of Redis, where a failing command may have had its effect, and the
    server in memory interprets them (\<open>core/exceptions.py\<close>, \<open>core/outage.py\<close>, \<open>core/database.py\<close>, the models).
  \<^item> \<open>Settings\<close>, \<open>Startup\<close>: \<open>core/config.py\<close>, \<open>core/metrics_auth.py\<close>, the start of \<open>main.py\<close>, \<open>core/redis.py\<close> and
    \<open>dependencies/lock_deps.py\<close>; settings that load are safe, and the exact test of the entropy decides the real one.
  \<^item> \<open>Tokens\<close>, \<open>Rate_Limit\<close>, \<open>Dist_Lock\<close>, \<open>Pii\<close>: \<open>core/security.py\<close>, \<open>core/rate_limit.py\<close>, \<open>core/dist_lock.py\<close>,
    \<open>core/pii.py\<close>; revocation fails closed, the lockout holds, leases exclude each other in every interleaving.
  \<^item> \<open>Auth_Schemas\<close>, \<open>Auth_Service\<close>, \<open>Auth_Router\<close>, \<open>Access\<close>: \<open>modules/auth\<close> and \<open>dependencies\<close>; refusals are uniform, a refresh token
    works once, a new password ends every session, a request sees the rows of its user.
  \<^item> \<open>Users\<close>, \<open>Tenants\<close>: the administration modules; what an administrator may do, deactivation ends sessions, plans
    bound tenants, slugs.
  \<^item> \<open>Scan_Config\<close>, \<open>Scan_State\<close>, \<open>Scan_Service\<close>, \<open>Scan_Lifecycle\<close>: the validator equals its documented contract; the
    state machine as compare-and-set updates; every interleaving of requests and workers keeps the scans well formed.
  \<^item> \<open>Assets\<close>, \<open>Ip\<close>, \<open>Targets\<close>, \<open>Nmap_Command\<close>, \<open>Nmap_Runner\<close>, \<open>Nmap_Report\<close>: canonical values, targets that stay outside
    internal networks, arguments without injection, readers of the pipes, findings that fit their columns.
  \<^item> \<open>Scan_Graph\<close>, \<open>Executor\<close>, \<open>Worker\<close>: the graph refines its specification; a claimed scan ends, under any cancellation.
  \<^item> \<open>Vulns\<close>, \<open>Reports\<close>, \<open>Routes\<close>, \<open>Api_Isolation\<close>, \<open>Csv\<close>, \<open>Dashboard\<close>: the domain services and endpoints; one theorem
    confines every request of a tenant's user to that tenant; the export reads back; the cache never mixes tenants.
  \<^item> \<open>Event_Bus\<close>, \<open>Event_Consumer\<close>: the stream of events; the locale \<open>consumer_group\<close> is the contract of a consumer group,
    and no pending message is lost.
  \<^item> \<open>Prompts\<close>, \<open>Llm\<close>, \<open>Enrichment\<close>: \<open>modules/enrichment\<close>, \<open>core/llm\<close> and the worker's enrichment task; untrusted text
    stays in its block, citations are checked, a call ends after three posts, a run keeps the stored results sound.

  \<^bold>\<open>Parameters.\<close>  Redis and its consumer groups, bcrypt, the codec of tokens, HMAC and SHA-256, \<open>ipaddress\<close>'s text
  conversions, URL parsing and the resolver, the XML and JSON readers and writers, the HTTP client, the operating system
  under nmap, the broker, \<open>str\<close> and float formatting, the folding of Unicode, the server's answer to a commit, what other
  transactions commit meanwhile, and the points where a task is cancelled.  Hypotheses on them state documented behaviour.

  \<^bold>\<open>Bounds and termination.\<close>  Recursion is structural or has a measure; there is no fuel.  The slug loop tries the
  source's hundred candidates, a model call its three attempts, a lock its single retry, the reader of a pipe ends because
  a stream shrinks; the loop of the consumer is a list of its turns, of any length.

  \<^bold>\<open>Not modelled.\<close>  Logging and metrics; the HTTP middleware, the inclusion of routers and the shutdown; the connection
  pools; the command line scripts, the demonstration target and the migrations, whose final constraints and policies are
  those of \<open>Db\<close>; the termination of process groups; \<open>updated_at\<close> columns, column lengths and non-unique indexes;
  conversions of pydantic beyond the validators the source writes; concurrent gathers,
  which are taken one after the other; the lock around the two deactivation endpoints, which \<open>Startup\<close> models apart.
\<close>

end
